(* ===== verification/Prelude.thy ===== *)
theory Prelude
  imports Main "HOL-Library.Word" "HOL-Library.Code_Target_Nat"
begin

text \<open>
  Shared base of the development: the Go strings the code works on, the error values it
  returns, and the interfaces (locales) that several components provide.

  A Go \<open>string\<close> is a sequence of bytes, and so is an Isabelle \<open>string\<close> (a list of
  8-bit characters): a Go string literal is the list of its UTF-8 bytes.  The functions of
  Go's \<open>strings\<close> and \<open>strconv\<close> packages that the code calls are modelled here
  once, under the names of the package.  \<open>strings.TrimSpace\<close> trims every rune of
  \<open>unicode.IsSpace\<close>; \<open>strings.ToLower\<close> is exact on ASCII and on the two runes whose
  lower case is ASCII (U+0130 and U+212A), and leaves other non-ASCII bytes as they are,
  which no comparison of the code (against ASCII words or uncased Chinese keywords) can tell
  from the full Unicode mapping.
\<close>

section \<open>Collections of facts\<close>

named_theorems go_string \<open>evaluation and algebra of Go string functions\<close>
named_theorems go_err \<open>unfolding of error-returning operations\<close>
named_theorems model_defs \<open>definitions of a component that its invariant proofs unfold\<close>

section \<open>Errors\<close>

text \<open>
  An \<open>error\<close> value: \<open>Err t\<close> is \<open>errors.New(t)\<close>; \<open>Errf f args\<close> is
  \<open>fmt.Errorf(f, args...)\<close> with the operands already printed; \<open>Wrap f args e\<close> is
  the same with \<open>%w\<close> (or a trailing \<open>%v\<close>) standing for \<open>e\<close>; \<open>External t\<close>
  is an error made by code that is not under \<open>src/\<close>.
\<close>

datatype go_error =
    Err string
  | Errf string "string list"
  | Wrap string "string list" go_error
  | External string

type_synonym 'a result = "go_error + 'a"

definition is_ok :: "'a result \<Rightarrow> bool" where
  "is_ok r = (case r of Inl _ \<Rightarrow> False | Inr _ \<Rightarrow> True)"

lemma is_ok_simps [simp]: "\<not> is_ok (Inl e)" "is_ok (Inr x)"
  by (simp_all add: is_ok_def)

lemma is_ok_iff: "is_ok r \<longleftrightarrow> (\<exists>x. r = Inr x)"
  by (cases r) auto

definition bind_result :: "'a result \<Rightarrow> ('a \<Rightarrow> 'b result) \<Rightarrow> 'b result" where
  "bind_result r f = (case r of Inl e \<Rightarrow> Inl e | Inr x \<Rightarrow> f x)"

lemma bind_result_simps [simp]:
  "bind_result (Inl e) f = Inl e"
  "bind_result (Inr x) f = f x"
  by (simp_all add: bind_result_def)

lemma bind_result_ok [go_err]:
  "bind_result r f = Inr y \<longleftrightarrow> (\<exists>x. r = Inr x \<and> f x = Inr y)"
  by (cases r) auto

section \<open>Prefixes, substrings, splitting\<close>

definition has_prefix :: "string \<Rightarrow> string \<Rightarrow> bool" where
  "has_prefix s p = (take (length p) s = p)"

definition has_suffix :: "string \<Rightarrow> string \<Rightarrow> bool" where
  "has_suffix s p = has_prefix (rev s) (rev p)"

definition trim_prefix :: "string \<Rightarrow> string \<Rightarrow> string" where
  "trim_prefix s p = (if has_prefix s p then drop (length p) s else s)"

definition trim_suffix :: "string \<Rightarrow> string \<Rightarrow> string" where
  "trim_suffix s p = (if has_suffix s p then take (length s - length p) s else s)"

fun contains :: "string \<Rightarrow> string \<Rightarrow> bool" where
  "contains [] p = (p = [])"
| "contains (c # s) p = (has_prefix (c # s) p \<or> contains s p)"

lemma has_prefix_iff: "has_prefix s p \<longleftrightarrow> (\<exists>r. s = p @ r)"
  unfolding has_prefix_def by (metis append_eq_conv_conj append_take_drop_id)

lemma has_prefix_append [simp]: "has_prefix (p @ r) p"
  by (simp add: has_prefix_def)

lemma has_prefix_mono: "has_prefix s p \<Longrightarrow> has_prefix (s @ t) p"
  by (auto simp: has_prefix_iff)

lemma trim_prefix_append [simp]: "trim_prefix (p @ s) p = s"
  by (simp add: trim_prefix_def)

lemma contains_Nil [simp]: "contains s []"
  by (cases s) (simp_all add: has_prefix_def)

lemma contains_iff: "contains s p \<longleftrightarrow> (\<exists>a b. s = a @ p @ b)"
proof (induction s)
  case Nil
  then show ?case by auto
next
  case (Cons c s)
  show ?case
  proof
    assume "contains (c # s) p"
    then consider "has_prefix (c # s) p" | "contains s p" by auto
    then show "\<exists>a b. c # s = a @ p @ b"
    proof cases
      case 1
      then obtain r where "c # s = [] @ p @ r" by (auto simp: has_prefix_iff)
      then show ?thesis by blast
    next
      case 2
      then obtain a b where "s = a @ p @ b" using Cons.IH by blast
      then have "c # s = (c # a) @ p @ b" by simp
      then show ?thesis by blast
    qed
  next
    assume "\<exists>a b. c # s = a @ p @ b"
    then obtain a b where ab: "c # s = a @ p @ b" by blast
    show "contains (c # s) p"
    proof (cases a)
      case Nil
      then have "has_prefix (c # s) p" using ab by (auto simp: has_prefix_iff)
      then show ?thesis by simp
    next
      case (Cons x a')
      then show ?thesis using ab Cons.IH by auto
    qed
  qed
qed

text \<open>\<open>strings.Index\<close> and the two byte searches of \<open>net.SplitHostPort\<close>.\<close>

fun index_str :: "string \<Rightarrow> string \<Rightarrow> nat option" where
  "index_str [] p = (if p = [] then Some 0 else None)"
| "index_str (c # s) p =
     (if has_prefix (c # s) p then Some 0 else map_option Suc (index_str s p))"

fun index_byte :: "string \<Rightarrow> char \<Rightarrow> nat option" where
  "index_byte [] b = None"
| "index_byte (c # s) b = (if c = b then Some 0 else map_option Suc (index_byte s b))"

fun last_index_byte :: "string \<Rightarrow> char \<Rightarrow> nat option" where
  "last_index_byte [] b = None"
| "last_index_byte (c # s) b =
     (case last_index_byte s b of
        Some i \<Rightarrow> Some (Suc i)
      | None \<Rightarrow> if c = b then Some 0 else None)"

lemma index_byte_None [simp]: "index_byte s b = None \<longleftrightarrow> b \<notin> set s"
  by (induction s) auto

lemma index_byte_absent: "b \<notin> set s \<Longrightarrow> index_byte s b = None"
  by simp

lemma last_index_byte_None [simp]: "last_index_byte s b = None \<longleftrightarrow> b \<notin> set s"
  by (induction s) (auto split: option.splits)

lemma index_byte_append:
  "b \<notin> set s \<Longrightarrow> index_byte (s @ b # r) b = Some (length s)"
  by (induction s) auto

lemma last_index_byte_append:
  "b \<notin> set r \<Longrightarrow> last_index_byte (s @ b # r) b = Some (length s)"
  by (induction s) (auto split: option.splits)

lemma last_index_byte_Some:
  "last_index_byte s b = Some i \<Longrightarrow> i < length s \<and> s ! i = b \<and> b \<notin> set (drop (Suc i) s)"
proof (induction s arbitrary: i)
  case (Cons c s)
  then show ?case by (cases "last_index_byte s b") (auto split: if_splits)
qed simp

lemma index_byte_Some:
  "index_byte s b = Some i \<Longrightarrow> i < length s \<and> s ! i = b \<and> b \<notin> set (take i s)"
  by (induction s arbitrary: i) (auto split: if_splits)

text \<open>\<open>strings.Cut(s, sep)\<close> for a one-byte separator: before, after, found.\<close>

fun cut :: "string \<Rightarrow> char \<Rightarrow> string \<times> string \<times> bool" where
  "cut [] b = ([], [], False)"
| "cut (c # s) b =
     (if c = b then ([], s, True)
      else (case cut s b of (x, y, f) \<Rightarrow> (c # x, y, f)))"

text \<open>\<open>strings.Split(s, sep)\<close> for a one-byte separator: never an empty slice.\<close>

fun split_byte :: "string \<Rightarrow> char \<Rightarrow> string list" where
  "split_byte [] b = [[]]"
| "split_byte (c # s) b =
     (if c = b then [] # split_byte s b
      else (case split_byte s b of [] \<Rightarrow> [[c]] | x # xs \<Rightarrow> (c # x) # xs))"

text \<open>\<open>strings.FieldsFunc(s, f)\<close>: maximal runs of bytes outside the separators.\<close>

fun fields_func :: "(char \<Rightarrow> bool) \<Rightarrow> string \<Rightarrow> string list" where
  "fields_func f [] = []"
| "fields_func f (c # s) =
     (if f c then fields_func f s
      else (case s of
              [] \<Rightarrow> [[c]]
            | d # _ \<Rightarrow>
                if f d then [c] # fields_func f s
                else (case fields_func f s of [] \<Rightarrow> [[c]] | x # xs \<Rightarrow> (c # x) # xs)))"

fun join :: "string list \<Rightarrow> string \<Rightarrow> string" where
  "join [] sep = []"
| "join [x] sep = x"
| "join (x # y # xs) sep = x @ sep @ join (y # xs) sep"

text \<open>\<open>strings.Replace(s, old, new, 1)\<close> for a non-empty \<open>old\<close>.\<close>

fun replace_first :: "string \<Rightarrow> string \<Rightarrow> string \<Rightarrow> string" where
  "replace_first [] old new = []"
| "replace_first (c # s) old new =
     (if has_prefix (c # s) old then new @ drop (length old) (c # s)
      else c # replace_first s old new)"

section \<open>Trimming\<close>

text \<open>
  Trimming removes, as long as it can, one of the byte sequences of a table from an end of
  the string.  UTF-8 is self-synchronising, so for \<open>strings.TrimSpace\<close> removing encoded
  white-space runes from the front (back) is the same as decoding the first (last) rune.
\<close>

function strip :: "string list \<Rightarrow> string \<Rightarrow> string" where
  "strip tab s =
     (case find (\<lambda>w. w \<noteq> [] \<and> has_prefix s w) tab of
        None \<Rightarrow> s
      | Some w \<Rightarrow> strip tab (drop (length w) s))"
  by pat_completeness auto
termination
proof (relation "measure (\<lambda>(tab, s). length s)", goal_cases)
  case 1
  then show ?case by simp
next
  case (2 tab s w)
  then have "w \<noteq> []" "has_prefix s w" by (auto simp: find_Some_iff)
  then have "0 < length w" "length w \<le> length s"
    by (auto simp: has_prefix_iff)
  then have "length s - length w < length s" by arith
  then show ?case by simp
qed

declare strip.simps [simp del]

definition trim_by :: "string list \<Rightarrow> string \<Rightarrow> string" where
  "trim_by tab s = rev (strip (map rev tab) (rev (strip tab s)))"

definition stripped :: "string list \<Rightarrow> string \<Rightarrow> bool" where
  "stripped tab s \<longleftrightarrow> (\<forall>w\<in>set tab. w \<noteq> [] \<longrightarrow> \<not> has_prefix s w)"

lemma stripped_find:
  "stripped tab s \<longleftrightarrow> find (\<lambda>w. w \<noteq> [] \<and> has_prefix s w) tab = None"
  by (auto simp: stripped_def find_None_iff)

lemma strip_id: "stripped tab s \<Longrightarrow> strip tab s = s"
  by (subst strip.simps) (simp add: stripped_find)

lemma stripped_strip: "stripped tab (strip tab s)"
proof (induction tab s rule: strip.induct)
  case (1 tab s)
  show ?case
  proof (cases "find (\<lambda>w. w \<noteq> [] \<and> has_prefix s w) tab")
    case None
    then show ?thesis by (simp add: stripped_find strip_id)
  next
    case (Some w)
    then show ?thesis using 1 by (simp add: strip.simps [of tab s])
  qed
qed

lemma strip_suffix: "\<exists>a. s = a @ strip tab s"
proof (induction tab s rule: strip.induct)
  case (1 tab s)
  show ?case
  proof (cases "find (\<lambda>w. w \<noteq> [] \<and> has_prefix s w) tab")
    case None
    then have "strip tab s = s" by (simp add: strip.simps [of tab s])
    then show ?thesis by simp
  next
    case (Some w)
    then obtain a where "drop (length w) s = a @ strip tab (drop (length w) s)"
      using 1 by blast
    then have "s = (take (length w) s @ a) @ strip tab (drop (length w) s)"
      by (metis append.assoc append_take_drop_id)
    then have "s = (take (length w) s @ a) @ strip tab s"
      using Some by (simp add: strip.simps [of tab s])
    then show ?thesis by blast
  qed
qed

lemma stripped_prefix: "stripped tab (s @ t) \<Longrightarrow> stripped tab s"
  by (auto simp: stripped_def dest: has_prefix_mono)

lemma trim_by_stripped: "stripped tab (trim_by tab s)"
proof -
  obtain a where "rev (strip tab s) = a @ strip (map rev tab) (rev (strip tab s))"
    using strip_suffix by blast
  then have "strip tab s = rev (strip (map rev tab) (rev (strip tab s))) @ rev a"
    by (metis rev_append rev_rev_ident)
  then show ?thesis
    unfolding trim_by_def by (metis stripped_prefix stripped_strip)
qed

lemma trim_by_id:
  "stripped tab s \<Longrightarrow> stripped (map rev tab) (rev s) \<Longrightarrow> trim_by tab s = s"
  by (simp add: trim_by_def strip_id)

lemma trim_by_rstripped: "stripped (map rev tab) (rev (trim_by tab s))"
  by (simp add: trim_by_def stripped_strip)

lemma trim_by_idem [simp]: "trim_by tab (trim_by tab s) = trim_by tab s"
  by (rule trim_by_id) (rule trim_by_stripped trim_by_rstripped)+

text \<open>The runes of \<open>unicode.IsSpace\<close>, as UTF-8.\<close>

definition ws_table :: "string list" where
  "ws_table =
     [[CHR 0x20], [CHR 0x09], [CHR 0x0A], [CHR 0x0D], [CHR 0x0B], [CHR 0x0C],
      [CHR 0xC2, CHR 0x85], [CHR 0xC2, CHR 0xA0],
      [CHR 0xE1, CHR 0x9A, CHR 0x80],
      [CHR 0xE2, CHR 0x80, CHR 0x80], [CHR 0xE2, CHR 0x80, CHR 0x81],
      [CHR 0xE2, CHR 0x80, CHR 0x82], [CHR 0xE2, CHR 0x80, CHR 0x83],
      [CHR 0xE2, CHR 0x80, CHR 0x84], [CHR 0xE2, CHR 0x80, CHR 0x85],
      [CHR 0xE2, CHR 0x80, CHR 0x86], [CHR 0xE2, CHR 0x80, CHR 0x87],
      [CHR 0xE2, CHR 0x80, CHR 0x88], [CHR 0xE2, CHR 0x80, CHR 0x89],
      [CHR 0xE2, CHR 0x80, CHR 0x8A],
      [CHR 0xE2, CHR 0x80, CHR 0xA8], [CHR 0xE2, CHR 0x80, CHR 0xA9],
      [CHR 0xE2, CHR 0x80, CHR 0xAF], [CHR 0xE2, CHR 0x81, CHR 0x9F],
      [CHR 0xE3, CHR 0x80, CHR 0x80]]"

definition trim_space :: "string \<Rightarrow> string" where
  "trim_space = trim_by ws_table"

text \<open>\<open>strings.Trim(s, cutset)\<close> for a cutset of one ASCII byte.\<close>

definition trim_char :: "char \<Rightarrow> string \<Rightarrow> string" where
  "trim_char c = trim_by [[c]]"

lemma trim_space_idem [simp]: "trim_space (trim_space s) = trim_space s"
  by (simp add: trim_space_def)

lemma trim_char_idem [simp]: "trim_char c (trim_char c s) = trim_char c s"
  by (simp add: trim_char_def)

lemma trim_space_Nil [simp]: "trim_space [] = []"
  by (simp add: trim_space_def trim_by_def strip.simps has_prefix_def ws_table_def)

section \<open>Association lists\<close>

lemma in_fsts: "(i, p) \<in> set xs \<Longrightarrow> i \<in> set (map fst xs)"
  by force

lemma map_of_remove1:
  "distinct (map fst xs) \<Longrightarrow> (i, p) \<in> set xs \<Longrightarrow> map_of (remove1 (i, p) xs) = (map_of xs)(i := None)"
proof (induction xs)
  case (Cons x xs)
  show ?case
  proof (cases "x = (i, p)")
    case True
    then have "map_of xs i = None" using Cons(2) by (simp add: map_of_eq_None_iff)
    then show ?thesis using True by (simp add: fun_eq_iff)
  next
    case False
    then have "fst x \<noteq> i" using Cons(2,3) in_fsts [of i p xs] by auto
    then show ?thesis using False Cons by (auto simp: fun_eq_iff)
  qed
qed simp

lemma map_fst_remove1:
  "distinct (map fst xs) \<Longrightarrow> (i, p) \<in> set xs \<Longrightarrow> map fst (remove1 (i, p) xs) = remove1 i (map fst xs)"
proof (induction xs)
  case (Cons x xs)
  show ?case
  proof (cases "x = (i, p)")
    case False
    then have "(i, p) \<in> set xs" "fst x \<noteq> i" using Cons(2,3) in_fsts [of i p xs] by auto
    then show ?thesis using False Cons by simp
  qed simp
qed simp

end
