(* ===== verification/Interfaces.thy ===== *)
theory Interfaces
  imports Prelude
begin

text \<open>
  The contracts several components share, each stated once as a locale and interpreted, in
  the component's theory, on the component's own operations: normalisation of user input,
  self-delimiting frames on a byte stream, doubling retry delays, tables of live objects, and
  state machines with an invariant.
\<close>

section \<open>Normalisers\<close>

text \<open>
  A normaliser maps user input to a canonical form.  The program applies its normalisers
  again and again (on load, on save, before use), so each must be a projection.
\<close>

locale normaliser =
  fixes norm :: "'a \<Rightarrow> 'a"
  assumes norm_idem: "norm (norm x) = norm x"
begin

lemma fixed_iff: "norm x = x \<longleftrightarrow> (\<exists>y. x = norm y)"
  by (metis norm_idem)

lemma iterate: "0 < n \<Longrightarrow> (norm ^^ n) x = norm x"
proof (induction n)
  case (Suc n)
  then show ?case by (cases n) (auto simp: norm_idem)
qed simp

lemma map_idem: "map norm (map norm xs) = map norm xs"
  by (simp add: norm_idem)

end

text \<open>A check that looks at the canonical form only: it cannot be dodged by respelling.\<close>

locale checked_normaliser = normaliser norm
  for norm :: "'a \<Rightarrow> 'a" +
  fixes check :: "'a \<Rightarrow> 'e option"
  assumes check_norm: "check (norm x) = check x"
begin

lemma check_cong: "norm x = norm y \<Longrightarrow> check x = check y"
  by (metis check_norm)

lemma check_iterate: "check ((norm ^^ n) x) = check x"
  by (induction n) (auto simp: check_norm)

end

section \<open>Frames on a stream\<close>

text \<open>
  \<open>dec\<close> reads one frame from the front of the stream and returns the rest; \<open>run\<close> is
  the receiving loop, which hands on each payload until \<open>dec\<close> fails.
\<close>

locale framing =
  fixes enc :: "'a \<Rightarrow> 'b list"
    and dec :: "'b list \<Rightarrow> ('a \<times> 'b list) option"
    and run :: "'b list \<Rightarrow> 'a list"
    and ok :: "'a \<Rightarrow> bool"
  assumes dec_enc: "ok x \<Longrightarrow> dec (enc x @ rest) = Some (x, rest)"
    and run_step: "dec bs = Some (x, rest) \<Longrightarrow> run bs = x # run rest"
    and run_stop: "dec bs = None \<Longrightarrow> run bs = []"
begin

lemma run_frames: "\<forall>x\<in>set xs. ok x \<Longrightarrow> run (concat (map enc xs) @ tail) = xs @ run tail"
proof (induction xs)
  case (Cons x xs)
  then have "dec (enc x @ concat (map enc xs) @ tail) = Some (x, concat (map enc xs) @ tail)"
    by (simp add: dec_enc)
  then show ?case using run_step Cons by simp
qed simp

lemma run_cut_off:
  "\<forall>x\<in>set xs. ok x \<Longrightarrow> dec tail = None \<Longrightarrow> run (concat (map enc xs) @ tail) = xs"
  by (simp add: run_frames run_stop)

lemma enc_prefix_free: "ok x \<Longrightarrow> ok y \<Longrightarrow> enc x @ r = enc y @ s \<Longrightarrow> x = y \<and> r = s"
  by (metis dec_enc option.inject prod.inject)

lemma stream_inj:
  "\<forall>x\<in>set xs. ok x \<Longrightarrow> \<forall>y\<in>set ys. ok y \<Longrightarrow> dec [] = None \<Longrightarrow>
   concat (map enc xs) = concat (map enc ys) \<Longrightarrow> xs = ys"
  by (metis append_Nil2 run_cut_off)

end

section \<open>Doubling delays\<close>

locale doubling_backoff =
  fixes nxt :: "int \<Rightarrow> int" and cap :: int
  assumes cap_pos: "0 \<le> cap"
    and nxt_eq: "0 \<le> d \<Longrightarrow> d \<le> cap \<Longrightarrow> nxt d = min cap (2 * d)"
begin

lemma nxt_range: "0 \<le> d \<Longrightarrow> d \<le> cap \<Longrightarrow> d \<le> nxt d \<and> nxt d \<le> cap"
  by (simp add: nxt_eq)

lemma closed_form: "0 \<le> d \<Longrightarrow> d \<le> cap \<Longrightarrow> (nxt ^^ n) d = min cap (2 ^ n * d)"
proof (induction n)
  case 0
  then show ?case by simp
next
  case (Suc n)
  let ?e = "min cap (2 ^ n * d)"
  have "0 \<le> ?e" "?e \<le> cap" using Suc.prems cap_pos by auto
  then have "nxt ?e = min cap (2 * ?e)" by (rule nxt_eq)
  then show ?case using Suc cap_pos by (auto simp: min_def)
qed

lemma in_range: "0 \<le> d \<Longrightarrow> d \<le> cap \<Longrightarrow> d \<le> (nxt ^^ n) d \<and> (nxt ^^ n) d \<le> cap"
proof -
  assume d: "0 \<le> d" "d \<le> cap"
  have "1 * d \<le> 2 ^ n * d" using d(1) by (intro mult_right_mono) auto
  then show ?thesis using d by (simp add: closed_form)
qed

lemma zero_stays: "(nxt ^^ n) 0 = 0"
  using cap_pos by (simp add: closed_form)

end

section \<open>Tables of live objects\<close>

text \<open>
  Clients of the server, web sessions, terminal sessions and tunnels are all kept in a map
  under a lock: the operations below are what their owners call.
\<close>

locale table =
  fixes look :: "'s \<Rightarrow> 'k \<Rightarrow> 'v option"
    and put :: "'k \<Rightarrow> 'v \<Rightarrow> 's \<Rightarrow> 's"
    and del :: "'k \<Rightarrow> 's \<Rightarrow> 's"
  assumes look_put: "look (put k v s) = (look s)(k \<mapsto> v)"
    and look_del: "look (del k s) = (look s)(k := None)"
begin

lemma put_same: "look (put k v s) k = Some v"
  by (simp add: look_put)

lemma put_other: "j \<noteq> k \<Longrightarrow> look (put k v s) j = look s j"
  by (simp add: look_put)

lemma del_same: "look (del k s) k = None"
  by (simp add: look_del)

lemma del_other: "j \<noteq> k \<Longrightarrow> look (del k s) j = look s j"
  by (simp add: look_del)

lemma put_fresh_del: "look s k = None \<Longrightarrow> look (del k (put k v s)) = look s"
  by (auto simp: look_put look_del)

lemma finite_put: "finite (dom (look s)) \<Longrightarrow> finite (dom (look (put k v s)))"
  by (simp add: look_put)

lemma finite_del: "finite (dom (look s)) \<Longrightarrow> finite (dom (look (del k s)))"
  by (simp add: look_del)

lemma card_put_fresh:
  "finite (dom (look s)) \<Longrightarrow> look s k = None \<Longrightarrow>
   card (dom (look (put k v s))) = Suc (card (dom (look s)))"
  by (auto simp: look_put domIff)

end

section \<open>State machines\<close>

text \<open>States reachable from an initial state by steps labelled with what happened.\<close>

inductive reach :: "('s \<Rightarrow> bool) \<Rightarrow> ('s \<Rightarrow> 'e \<Rightarrow> 's \<Rightarrow> bool) \<Rightarrow> 's \<Rightarrow> bool"
  for init :: "'s \<Rightarrow> bool" and step :: "'s \<Rightarrow> 'e \<Rightarrow> 's \<Rightarrow> bool" where
  reach_init: "init s \<Longrightarrow> reach init step s"
| reach_step: "reach init step s \<Longrightarrow> step s e t \<Longrightarrow> reach init step t"

locale machine =
  fixes init :: "'s \<Rightarrow> bool"
    and step :: "'s \<Rightarrow> 'e \<Rightarrow> 's \<Rightarrow> bool"
    and inv :: "'s \<Rightarrow> bool"
  assumes inv_init: "init s \<Longrightarrow> inv s"
    and inv_step: "inv s \<Longrightarrow> step s e t \<Longrightarrow> inv t"
begin

lemma reach_inv: "reach init step s \<Longrightarrow> inv s"
  by (induction rule: reach.induct) (auto intro: inv_init inv_step)

end

text \<open>The deterministic case: an operation per label, run over a list of labels.\<close>

locale operations =
  fixes app :: "'e \<Rightarrow> 's \<Rightarrow> 's" and inv :: "'s \<Rightarrow> bool"
  assumes app_inv: "inv s \<Longrightarrow> inv (app e s)"
begin

lemma run_inv: "inv s \<Longrightarrow> inv (fold app es s)"
  by (induction es arbitrary: s) (auto intro: app_inv)

sublocale machine inv "\<lambda>s e t. t = app e s" inv
  by unfold_locales (auto intro: app_inv)

end

end
