(* ===== verification/Strconv.thy ===== *)
theory Strconv
  imports Prelude
begin

text \<open>
  Case mapping, decimal conversion and message text: the parts of Go's \<open>strings\<close>,
  \<open>strconv\<close> and \<open>fmt\<close> packages that parse and print.  Go's \<open>int\<close> is a
  64-bit integer on every platform the program is built for, so \<open>strconv.Atoi\<close> fails
  outside that range.
\<close>

section \<open>Lower case\<close>

definition ascii_lower :: "char \<Rightarrow> char" where
  "ascii_lower c =
     (if 65 \<le> (of_char c :: nat) \<and> (of_char c :: nat) \<le> 90
      then char_of ((of_char c :: nat) + 32) else c)"

function to_lower :: "string \<Rightarrow> string" where
  "to_lower s =
     (case s of [] \<Rightarrow> []
      | c # r \<Rightarrow>
          if has_prefix s [CHR 0xC4, CHR 0xB0] then CHR ''i'' # to_lower (drop 2 s)
          else if has_prefix s [CHR 0xE2, CHR 0x84, CHR 0xAA] then CHR ''k'' # to_lower (drop 3 s)
          else ascii_lower c # to_lower r)"
  by pat_completeness auto
termination
  by (relation "measure length") auto

declare to_lower.simps [simp del]

definition is_lower :: "char \<Rightarrow> bool" where
  "is_lower c \<longleftrightarrow> 97 \<le> (of_char c :: nat) \<and> (of_char c :: nat) \<le> 122"

lemma ascii_lower_cases: "ascii_lower c = c \<or> is_lower (ascii_lower c)"
  by (auto simp: ascii_lower_def is_lower_def)

lemma ascii_lower_idem [simp]: "ascii_lower (ascii_lower c) = ascii_lower c"
  by (auto simp: ascii_lower_def)

lemma ascii_lower_high: "128 \<le> (of_char c :: nat) \<Longrightarrow> ascii_lower c = c"
  by (simp add: ascii_lower_def)

lemma to_lower_Nil [simp]: "to_lower [] = []"
  by (simp add: to_lower.simps)

lemma has_prefix_Nil [simp]: "has_prefix [] p \<longleftrightarrow> p = []"
  by (auto simp: has_prefix_def)

lemma has_prefix_Cons [simp]:
  "has_prefix (c # s) (d # p) \<longleftrightarrow> c = d \<and> has_prefix s p" "has_prefix s []"
  by (auto simp: has_prefix_def)

lemma to_lower_Cons:
  "to_lower (c # r) =
     (if c = CHR 0xC4 \<and> has_prefix r [CHR 0xB0] then CHR ''i'' # to_lower (drop 1 r)
      else if c = CHR 0xE2 \<and> has_prefix r [CHR 0x84, CHR 0xAA] then CHR ''k'' # to_lower (drop 2 r)
      else ascii_lower c # to_lower r)"
  by (subst to_lower.simps) (auto simp: numeral_2_eq_2 numeral_3_eq_3)

text \<open>A byte that is no lower-case letter comes from the same byte of the input.\<close>

lemma to_lower_cases:
  obtains "s = []" "to_lower s = []"
  | r where "s = CHR 0xC4 # CHR 0xB0 # r" "to_lower s = CHR ''i'' # to_lower r"
  | r where "s = CHR 0xE2 # CHR 0x84 # CHR 0xAA # r" "to_lower s = CHR ''k'' # to_lower r"
  | c r where "s = c # r" "to_lower s = ascii_lower c # to_lower r"
proof (cases s)
  case Nil
  then show ?thesis using that(1) by simp
next
  case (Cons c r)
  consider (i) "c = CHR 0xC4 \<and> has_prefix r [CHR 0xB0]"
    | (k) "c = CHR 0xE2 \<and> has_prefix r [CHR 0x84, CHR 0xAA]"
    | (o) "\<not> (c = CHR 0xC4 \<and> has_prefix r [CHR 0xB0])"
          "\<not> (c = CHR 0xE2 \<and> has_prefix r [CHR 0x84, CHR 0xAA])"
    by blast
  then show ?thesis
  proof cases
    case i
    then obtain r' where "r = CHR 0xB0 # r'" by (auto simp: has_prefix_iff)
    then show ?thesis using that(2) [of r'] i Cons by (simp add: to_lower_Cons)
  next
    case k
    then obtain r' where "r = CHR 0x84 # CHR 0xAA # r'" by (auto simp: has_prefix_iff)
    then show ?thesis using that(3) [of r'] k Cons by (simp add: to_lower_Cons)
  next
    case o
    then show ?thesis using that(4) [of c r] Cons by (simp only: to_lower_Cons if_False)
  qed
qed

lemma is_lower_ik [simp]: "is_lower CHR ''i''" "is_lower CHR ''k''"
  by (simp_all add: is_lower_def)

lemma to_lower_hd_inv:
  assumes "to_lower s = c # t" "\<not> is_lower c"
  shows "\<exists>r. s = c # r \<and> to_lower r = t"
  using assms ascii_lower_cases by (cases s rule: to_lower_cases) force+

lemma to_lower_last_inv:
  assumes "to_lower s = t @ [c]" "\<not> is_lower c"
  shows "\<exists>r. s = r @ [c] \<and> to_lower r = t"
  using assms
proof (induction s arbitrary: t rule: length_induct)
  case (1 s)
  show ?case
  proof (cases s rule: to_lower_cases)
    case 1
    then show ?thesis using "1.prems" by simp
  next
    case (2 r)
    then have eq: "CHR ''i'' # to_lower r = t @ [c]" using "1.prems" by simp
    then obtain t' where t: "t = CHR ''i'' # t'" "to_lower r = t' @ [c]"
      using "1.prems"(2) by (cases t) auto
    then obtain r' where "r = r' @ [c]" "to_lower r' = t'"
      using "1.IH" [rule_format, of r t'] 2 "1.prems"(2) by auto
    then have "s = (CHR 0xC4 # CHR 0xB0 # r') @ [c] \<and> to_lower (CHR 0xC4 # CHR 0xB0 # r') = t"
      using 2 t by (simp add: to_lower_Cons)
    then show ?thesis by blast
  next
    case (3 r)
    then have eq: "CHR ''k'' # to_lower r = t @ [c]" using "1.prems" by simp
    then obtain t' where t: "t = CHR ''k'' # t'" "to_lower r = t' @ [c]"
      using "1.prems"(2) by (cases t) auto
    then obtain r' where "r = r' @ [c]" "to_lower r' = t'"
      using "1.IH" [rule_format, of r t'] 3 "1.prems"(2) by auto
    then have "s = (CHR 0xE2 # CHR 0x84 # CHR 0xAA # r') @ [c]
        \<and> to_lower (CHR 0xE2 # CHR 0x84 # CHR 0xAA # r') = t"
      using 3 t by (simp add: to_lower_Cons)
    then show ?thesis by blast
  next
    case (4 d r)
    show ?thesis
    proof (cases t)
      case Nil
      then have "ascii_lower d = c" "to_lower r = []" using "1.prems" 4 by auto
      moreover have "r = []"
        using \<open>to_lower r = []\<close> by (cases r rule: to_lower_cases) auto
      ultimately show ?thesis
        using 4 Nil ascii_lower_cases [of d] "1.prems"(2) by (intro exI [of _ "[]"]) auto
    next
      case (Cons x t')
      then have "to_lower r = t' @ [c]" "ascii_lower d = x" using "1.prems" 4 by auto
      then obtain r' where r': "r = r' @ [c]" "to_lower r' = t'"
        using "1.IH" [rule_format, of r t'] 4 "1.prems"(2) by auto
      have "to_lower (d # r') = t"
      proof -
        have "\<not> (d = CHR 0xC4 \<and> has_prefix r' [CHR 0xB0])"
             "\<not> (d = CHR 0xE2 \<and> has_prefix r' [CHR 0x84, CHR 0xAA])"
        proof -
          show "\<not> (d = CHR 0xC4 \<and> has_prefix r' [CHR 0xB0])"
          proof
            assume a: "d = CHR 0xC4 \<and> has_prefix r' [CHR 0xB0]"
            then have "has_prefix r [CHR 0xB0]" using r' by (auto dest: has_prefix_mono)
            then have "hd (to_lower s) = CHR ''i''" using 4(1) a by (simp add: to_lower_Cons)
            then show False using 4 a by (simp add: ascii_lower_def)
          qed
          show "\<not> (d = CHR 0xE2 \<and> has_prefix r' [CHR 0x84, CHR 0xAA])"
          proof
            assume a: "d = CHR 0xE2 \<and> has_prefix r' [CHR 0x84, CHR 0xAA]"
            then have "has_prefix r [CHR 0x84, CHR 0xAA]" using r' by (auto dest: has_prefix_mono)
            then have "hd (to_lower s) = CHR ''k''" using 4(1) a by (simp add: to_lower_Cons)
            then show False using 4 a by (simp add: ascii_lower_def)
          qed
        qed
        then have "to_lower (d # r') = ascii_lower d # to_lower r'"
          by (simp only: to_lower_Cons if_False)
        then show ?thesis using r' Cons \<open>ascii_lower d = x\<close> by simp
      qed
      then show ?thesis using 4 r' by (intro exI [of _ "d # r'"]) auto
    qed
  qed
qed

lemma to_lower_prefix_inv:
  "to_lower s = w @ t \<Longrightarrow> \<forall>c\<in>set w. \<not> is_lower c \<Longrightarrow> \<exists>r. s = w @ r \<and> to_lower r = t"
proof (induction w arbitrary: s)
  case (Cons c w)
  then obtain r where "s = c # r" "to_lower r = w @ t"
    using to_lower_hd_inv [of s c "w @ t"] by auto
  then show ?case using Cons by auto
qed simp

lemma to_lower_suffix_inv:
  "to_lower s = t @ w \<Longrightarrow> \<forall>c\<in>set w. \<not> is_lower c \<Longrightarrow> \<exists>r. s = r @ w \<and> to_lower r = t"
proof (induction w arbitrary: s rule: rev_induct)
  case (snoc c w)
  then obtain r where r: "s = r @ [c]" "to_lower r = t @ w"
    using to_lower_last_inv [of s "t @ w" c] by auto
  then obtain r' where "r = r' @ w" "to_lower r' = t" using snoc by auto
  then show ?case using r by auto
qed simp

lemma ws_not_lower: "w \<in> set ws_table \<Longrightarrow> \<forall>c\<in>set w. \<not> is_lower c"
  unfolding ws_table_def by (auto simp: is_lower_def)

text \<open>Lowering a trimmed string leaves it trimmed, so the two normalisations commute to a fixpoint.\<close>

lemma trim_to_lower: "trim_space (to_lower (trim_space s)) = to_lower (trim_space s)"
proof -
  let ?t = "trim_space s"
  have l: "stripped ws_table (to_lower ?t)"
    unfolding stripped_def
  proof (intro ballI impI notI)
    fix w assume w: "w \<in> set ws_table" "w \<noteq> []" "has_prefix (to_lower ?t) w"
    then obtain u where "to_lower ?t = w @ u" by (auto simp: has_prefix_iff)
    then obtain r where "?t = w @ r" using to_lower_prefix_inv ws_not_lower w by blast
    moreover have "stripped ws_table ?t" unfolding trim_space_def by (rule trim_by_stripped)
    ultimately show False using w by (auto simp: stripped_def)
  qed
  have r: "stripped (map rev ws_table) (rev (to_lower ?t))"
    unfolding stripped_def
  proof (intro ballI impI notI)
    fix v assume v: "v \<in> set (map rev ws_table)" "v \<noteq> []" "has_prefix (rev (to_lower ?t)) v"
    then obtain w where w: "w \<in> set ws_table" "v = rev w" by auto
    from v(3) obtain u where "rev (to_lower ?t) = v @ u" by (auto simp: has_prefix_iff)
    then have "to_lower ?t = rev u @ w" using w by (metis rev_append rev_rev_ident)
    then obtain r where "?t = r @ w" using to_lower_suffix_inv ws_not_lower w(1) by blast
    then have "rev ?t = v @ rev r" using w by simp
    moreover have "stripped (map rev ws_table) (rev ?t)"
      unfolding trim_space_def by (rule trim_by_rstripped)
    ultimately show False using v by (auto simp: stripped_def)
  qed
  show ?thesis using trim_by_id [OF l r] by (simp add: trim_space_def)
qed

lemma to_lower_idem [simp]: "to_lower (to_lower s) = to_lower s"
proof (induction s rule: length_induct)
  case (1 s)
  show ?case
  proof (cases s rule: to_lower_cases)
    case (4 c r)
    then have IH: "to_lower (to_lower r) = to_lower r" using 1 by auto
    have "\<not> (ascii_lower c = CHR 0xC4 \<and> has_prefix (to_lower r) [CHR 0xB0])"
    proof
      assume a: "ascii_lower c = CHR 0xC4 \<and> has_prefix (to_lower r) [CHR 0xB0]"
      then obtain u where "to_lower r = [CHR 0xB0] @ u" by (auto simp: has_prefix_iff)
      then obtain v where "r = CHR 0xB0 # v" using to_lower_prefix_inv [of r "[CHR 0xB0]" u]
        by (auto simp: is_lower_def)
      moreover have "c = CHR 0xC4" using a ascii_lower_cases [of c] by (auto simp: is_lower_def)
      ultimately have "hd (to_lower s) = CHR ''i''" using 4(1) by (simp add: to_lower_Cons)
      then show False using 4(2) a by simp
    qed
    moreover have "\<not> (ascii_lower c = CHR 0xE2 \<and> has_prefix (to_lower r) [CHR 0x84, CHR 0xAA])"
    proof
      assume a: "ascii_lower c = CHR 0xE2 \<and> has_prefix (to_lower r) [CHR 0x84, CHR 0xAA]"
      then obtain u where "to_lower r = [CHR 0x84, CHR 0xAA] @ u" by (auto simp: has_prefix_iff)
      then obtain v where "r = CHR 0x84 # CHR 0xAA # v"
        using to_lower_prefix_inv [of r "[CHR 0x84, CHR 0xAA]" u] by (auto simp: is_lower_def)
      moreover have "c = CHR 0xE2" using a ascii_lower_cases [of c] by (auto simp: is_lower_def)
      ultimately have "hd (to_lower s) = CHR ''k''" using 4(1) by (simp add: to_lower_Cons)
      then show False using 4(2) a by simp
    qed
    ultimately show ?thesis using 4 IH by (simp only: to_lower_Cons if_False ascii_lower_idem)
  qed (use 1 in \<open>auto simp: to_lower_Cons ascii_lower_def\<close>)
qed

text \<open>The composition the code writes everywhere: \<open>strings.ToLower(strings.TrimSpace(s))\<close>.\<close>

definition lower_trim :: "string \<Rightarrow> string" where
  "lower_trim s = to_lower (trim_space s)"

lemma lower_trim_idem [simp]: "lower_trim (lower_trim s) = lower_trim s"
  by (simp add: lower_trim_def trim_to_lower)

section \<open>Decimal integers\<close>

definition is_digit :: "char \<Rightarrow> bool" where
  "is_digit c \<longleftrightarrow> 48 \<le> (of_char c :: nat) \<and> (of_char c :: nat) \<le> 57"

definition digit_val :: "char \<Rightarrow> nat" where
  "digit_val c = of_char c - 48"

definition digits_val :: "string \<Rightarrow> nat" where
  "digits_val s = foldl (\<lambda>n c. 10 * n + digit_val c) 0 s"

fun nat_str :: "nat \<Rightarrow> string" where
  "nat_str n = (if n < 10 then [char_of (48 + n)] else nat_str (n div 10) @ [char_of (48 + n mod 10)])"

declare nat_str.simps [simp del]

lemma digit_char:
  "d < 10 \<Longrightarrow> is_digit (char_of (48 + d))" "d < 10 \<Longrightarrow> digit_val (char_of (48 + d)) = d"
  by (simp_all add: is_digit_def digit_val_def)

lemma digits_val_snoc: "digits_val (s @ [c]) = 10 * digits_val s + digit_val c"
  by (simp add: digits_val_def)

lemma nat_str_digits: "\<forall>c\<in>set (nat_str n). is_digit c"
proof (induction n rule: nat_str.induct)
  case (1 n)
  then show ?case by (auto simp: nat_str.simps [of n] digit_char)
qed

lemma nat_str_nonempty [simp]: "nat_str n \<noteq> []"
  by (simp add: nat_str.simps)

lemma digits_val_nat_str [simp]: "digits_val (nat_str n) = n"
proof (induction n rule: nat_str.induct)
  case (1 n)
  show ?case
  proof (cases "n < 10")
    case True
    then show ?thesis by (simp add: nat_str.simps [of n] digits_val_def digit_char)
  next
    case False
    then show ?thesis
      using 1 by (simp add: nat_str.simps [of n] digits_val_snoc digit_char)
  qed
qed

lemma nat_str_inj: "nat_str m = nat_str n \<Longrightarrow> m = n"
  by (metis digits_val_nat_str)

definition itoa :: "int \<Rightarrow> string" where
  "itoa n = (if n < 0 then CHR ''-'' # nat_str (nat (- n)) else nat_str (nat n))"

definition atoi :: "string \<Rightarrow> int option" where
  "atoi s =
     (let (neg, ds) =
        (case s of [] \<Rightarrow> (False, [])
         | c # r \<Rightarrow> if c = CHR ''-'' then (True, r) else if c = CHR ''+'' then (False, r) else (False, s));
          v = (if neg then - int (digits_val ds) else int (digits_val ds))
      in if ds = [] \<or> \<not> list_all is_digit ds then None
         else if - (2 ^ 63) \<le> v \<and> v < 2 ^ 63 then Some v else None)"

text \<open>\<open>strconv.ParseUint(s, 10, 64)\<close>.\<close>

definition parse_uint64 :: "string \<Rightarrow> 64 word option" where
  "parse_uint64 s =
     (if s = [] \<or> \<not> list_all is_digit s then None
      else if digits_val s < 2 ^ 64 then Some (of_nat (digits_val s)) else None)"

lemma nat_str_hd: "hd (nat_str n) \<noteq> CHR ''-'' \<and> hd (nat_str n) \<noteq> CHR ''+''"
proof -
  have "is_digit (hd (nat_str n))" using nat_str_digits [of n] hd_in_set [of "nat_str n"] by auto
  then show ?thesis by (auto simp: is_digit_def)
qed

lemma atoi_itoa: "- (2 ^ 63) \<le> n \<Longrightarrow> n < 2 ^ 63 \<Longrightarrow> atoi (itoa n) = Some n"
proof -
  assume r: "- (2 ^ 63) \<le> n" "n < 2 ^ 63"
  have all: "list_all is_digit (nat_str k)" for k
    using nat_str_digits by (simp add: list_all_iff)
  show ?thesis
  proof (cases "n < 0")
    case True
    then show ?thesis using r all by (simp add: atoi_def itoa_def)
  next
    case False
    obtain c t where ct: "nat_str (nat n) = c # t" by (cases "nat_str (nat n)") auto
    then have "c \<noteq> CHR ''-''" "c \<noteq> CHR ''+''" using nat_str_hd [of "nat n"] by auto
    then show ?thesis
      using False r all [of "nat n"] ct digits_val_nat_str [of "nat n"]
      by (simp add: atoi_def itoa_def)
  qed
qed

lemma parse_uint64_nat_str: "n < 2 ^ 64 \<Longrightarrow> parse_uint64 (nat_str n) = Some (of_nat n)"
  using nat_str_digits by (simp add: parse_uint64_def list_all_iff)

lemma atoi_range: "atoi s = Some v \<Longrightarrow> - (2 ^ 63) \<le> v \<and> v < 2 ^ 63"
  by (auto simp: atoi_def Let_def split: if_splits prod.splits)

section \<open>First non-empty string\<close>

text \<open>
  The helper \<open>firstNonEmpty\<close> that packages \<open>proxysubscription\<close> and \<open>proxycore\<close>
  both declare, with the same body.
\<close>

fun firstNonEmpty :: "string list \<Rightarrow> string" where
  "firstNonEmpty [] = []"
| "firstNonEmpty (v # vs) = (if trim_space v \<noteq> [] then trim_space v else firstNonEmpty vs)"

lemma firstNonEmpty_trimmed: "trim_space (firstNonEmpty vs) = firstNonEmpty vs"
  by (induction vs) auto

lemma firstNonEmpty_Nil_iff: "firstNonEmpty vs = [] \<longleftrightarrow> (\<forall>v\<in>set vs. trim_space v = [])"
  by (induction vs) auto

section \<open>Message text\<close>

text \<open>
  \<open>err_text\<close> is \<open>err.Error()\<close>: the format with each verb replaced by the next operand,
  \<open>%q\<close> quoting it.  \<open>go_quote\<close> is \<open>strconv.Quote\<close> on ASCII; bytes above 127 are
  kept, as \<open>Quote\<close> keeps printable runes.
\<close>

definition hex_digit :: "nat \<Rightarrow> char" where
  "hex_digit n = (if n < 10 then char_of (48 + n) else char_of (87 + n))"

definition quote_byte :: "char \<Rightarrow> string" where
  "quote_byte c =
     (let n = (of_char c :: nat) in
      if n = 34 then [CHR 0x5C, CHR 0x22]
      else if n = 92 then [CHR 0x5C, CHR 0x5C]
      else if n = 7 then [CHR 0x5C, CHR ''a'']
      else if n = 8 then [CHR 0x5C, CHR ''b'']
      else if n = 12 then [CHR 0x5C, CHR ''f'']
      else if n = 10 then [CHR 0x5C, CHR ''n'']
      else if n = 13 then [CHR 0x5C, CHR ''r'']
      else if n = 9 then [CHR 0x5C, CHR ''t'']
      else if n = 11 then [CHR 0x5C, CHR ''v'']
      else if n < 32 \<or> n = 127
      then [CHR 0x5C, CHR ''x'', hex_digit (n div 16), hex_digit (n mod 16)]
      else [c])"

definition go_quote :: "string \<Rightarrow> string" where
  "go_quote s = [CHR 0x22] @ concat (map quote_byte s) @ [CHR 0x22]"

fun format_text :: "string \<Rightarrow> string list \<Rightarrow> string" where
  "format_text [] args = []"
| "format_text [c] args = [c]"
| "format_text (c # d # f) args =
     (if c = CHR 0x25
      then (case args of
              [] \<Rightarrow> c # d # format_text f []
            | a # as \<Rightarrow> (if d = CHR ''q'' then go_quote a else a) @ format_text f as)
      else c # format_text (d # f) args)"

primrec err_text :: "go_error \<Rightarrow> string" where
  "err_text (Err t) = t"
| "err_text (Errf f args) = format_text f args"
| "err_text (Wrap f args e) = format_text f (args @ [err_text e])"
| "err_text (External t) = t"

end
