(* ===== verification/NetAddr.thy ===== *)
theory NetAddr
  imports Strconv
begin

unbundle bit_operations_syntax

text \<open>
  Go's address text: \<open>net.SplitHostPort\<close>, \<open>net.JoinHostPort\<close>,
  \<open>netip.ParseAddr\<close>, \<open>netip.ParsePrefix\<close>, \<open>net.ParseCIDR\<close> and the
  operations on \<open>net.IP\<close> the program calls.  An address is the list of its bytes.
\<close>

type_synonym u8 = "8 word"

section \<open>Host and port\<close>

definition addr_err :: "string \<Rightarrow> string \<Rightarrow> 'a result" where
  "addr_err hp why =
     (if hp = [] then Inl (Err why) else Inl (Errf ''address %s: %s'' [hp, why]))"

definition split_tail :: "string \<Rightarrow> nat \<Rightarrow> string \<Rightarrow> nat \<Rightarrow> nat \<Rightarrow> (string \<times> string) result" where
  "split_tail hp i host j k =
     (if CHR ''['' \<in> set (drop j hp) then addr_err hp ''unexpected '[' in address''
      else if CHR '']'' \<in> set (drop k hp) then addr_err hp ''unexpected ']' in address''
      else Inr (host, drop (i + 1) hp))"

definition SplitHostPort :: "string \<Rightarrow> (string \<times> string) result" where
  "SplitHostPort hp =
     (case last_index_byte hp CHR '':'' of
        None \<Rightarrow> addr_err hp ''missing port in address''
      | Some i \<Rightarrow>
          if has_prefix hp ''['' then
            (case index_byte hp CHR '']'' of
               None \<Rightarrow> addr_err hp ''missing ']' in address''
             | Some e \<Rightarrow>
                 if e + 1 = length hp then addr_err hp ''missing port in address''
                 else if e + 1 = i then split_tail hp i (take (e - 1) (drop 1 hp)) 1 (e + 1)
                 else if hp ! (e + 1) = CHR '':'' then addr_err hp ''too many colons in address''
                 else addr_err hp ''missing port in address'')
          else if CHR '':'' \<in> set (take i hp) then addr_err hp ''too many colons in address''
          else split_tail hp i (take i hp) 0 0)"

definition JoinHostPort :: "string \<Rightarrow> string \<Rightarrow> string" where
  "JoinHostPort host port =
     (if CHR '':'' \<in> set host then ''['' @ host @ '']:'' @ port else host @ '':'' @ port)"

definition host_text :: "string \<Rightarrow> bool" where
  "host_text s \<longleftrightarrow> CHR ''['' \<notin> set s \<and> CHR '']'' \<notin> set s"

definition port_text :: "string \<Rightarrow> bool" where
  "port_text s \<longleftrightarrow> CHR '':'' \<notin> set s \<and> host_text s"

lemma split_join_plain:
  assumes "host_text h" "port_text p" "CHR '':'' \<notin> set h"
  shows "SplitHostPort (h @ '':'' @ p) = Inr (h, p)"
proof -
  have "last_index_byte (h @ CHR '':'' # p) CHR '':'' = Some (length h)"
    using assms by (intro last_index_byte_append) (simp add: port_text_def)
  moreover have "\<not> has_prefix (h @ CHR '':'' # p) ''[''"
    using assms(1) by (cases h) (auto simp: host_text_def)
  ultimately show ?thesis
    using assms by (simp add: SplitHostPort_def split_tail_def host_text_def port_text_def)
qed

lemma split_join_bracket:
  assumes "host_text h" "port_text p"
  shows "SplitHostPort (''['' @ h @ '']:'' @ p) = Inr (h, p)"
proof -
  let ?s = "CHR ''['' # h @ CHR '']'' # CHR '':'' # p"
  have "last_index_byte ((CHR ''['' # h @ [CHR '']'']) @ CHR '':'' # p) CHR '':''
      = Some (length (CHR ''['' # h @ [CHR '']'']))"
    using assms by (intro last_index_byte_append) (simp add: port_text_def)
  then have i: "last_index_byte ?s CHR '':'' = Some (length h + 2)" by simp
  have "index_byte ((CHR ''['' # h) @ CHR '']'' # CHR '':'' # p) CHR '']'' = Some (length (CHR ''['' # h))"
    using assms by (intro index_byte_append) (simp add: host_text_def)
  then have e: "index_byte ?s CHR '']'' = Some (length h + 1)" by simp
  have t: "split_tail ?s (length h + 2) h 1 (length h + 2) = Inr (h, p)"
    using assms by (simp add: split_tail_def host_text_def port_text_def)
  show ?thesis
    using t by (simp add: SplitHostPort_def i e del: last_index_byte.simps index_byte.simps)
qed

lemma SplitHostPort_JoinHostPort:
  "host_text h \<Longrightarrow> port_text p \<Longrightarrow> SplitHostPort (JoinHostPort h p) = Inr (h, p)"
  unfolding JoinHostPort_def using split_join_plain split_join_bracket by simp

text \<open>A decimal port is a port text.\<close>

lemma digit_not_sep: "is_digit c \<Longrightarrow> c \<noteq> CHR '':'' \<and> c \<noteq> CHR ''['' \<and> c \<noteq> CHR '']''"
  by (auto simp: is_digit_def)

lemma port_text_itoa: "0 \<le> n \<Longrightarrow> port_text (itoa n)"
  using nat_str_digits [of "nat n"] digit_not_sep
  by (auto simp: port_text_def host_text_def itoa_def)

text \<open>What a successful split says about its argument.\<close>

lemma SplitHostPort_parts:
  assumes "SplitHostPort s = Inr (h, p)"
  shows "s = h @ '':'' @ p \<and> CHR '':'' \<notin> set h \<and> host_text h
         \<or> s = ''['' @ h @ '']:'' @ p \<and> host_text h"
proof -
  obtain i where i: "last_index_byte s CHR '':'' = Some i"
    using assms by (auto simp: SplitHostPort_def addr_err_def split: option.splits if_splits)
  note lst = last_index_byte_Some [OF i]
  show ?thesis
  proof (cases "has_prefix s ''[''")
    case True
    then obtain t where t: "s = CHR ''['' # t" by (auto simp: has_prefix_iff)
    then obtain e where e: "index_byte s CHR '']'' = Some e" "e + 1 = i"
        and tl: "split_tail s i (take (e - 1) (drop 1 s)) 1 (e + 1) = Inr (h, p)"
      using assms i True by (auto simp: SplitHostPort_def addr_err_def split: option.splits if_splits)
    have h: "h = take (e - 1) t" "p = drop (i + 1) s" "host_text h"
    proof -
      show "h = take (e - 1) t" "p = drop (i + 1) s"
        using tl t by (auto simp: split_tail_def addr_err_def split: if_splits)
      have "CHR ''['' \<notin> set t"
        using tl t by (auto simp: split_tail_def addr_err_def split: if_splits)
      moreover have "CHR '']'' \<notin> set (take e s)" using index_byte_Some [OF e(1)] by simp
      then have "CHR '']'' \<notin> set (take (e - 1) t)"
        using t by (cases e) auto
      ultimately show "host_text h"
        using \<open>h = take (e - 1) t\<close> by (auto simp: host_text_def dest: in_set_takeD)
    qed
    have ei: "s ! e = CHR '']'' \<and> 0 < e"
      using index_byte_Some [OF e(1)] t by (cases e) auto
    have "s = take e s @ s ! e # s ! i # drop (i + 1) s"
      using lst e(2) by (metis Suc_eq_plus1 Suc_lessD Cons_nth_drop_Suc append_take_drop_id)
    also have "take e s = CHR ''['' # take (e - 1) t" using ei t by (cases e) auto
    finally show ?thesis using h lst ei by simp
  next
    case False
    then have "CHR '':'' \<notin> set (take i s)" "split_tail s i (take i s) 0 0 = Inr (h, p)"
      using assms i by (auto simp: SplitHostPort_def addr_err_def split: option.splits if_splits)
    then have "h = take i s" "p = drop (Suc i) s" "host_text h" "CHR '':'' \<notin> set h"
      by (auto simp: split_tail_def addr_err_def host_text_def dest: in_set_takeD split: if_splits)
    moreover have "s = take i s @ s ! i # drop (Suc i) s"
      using lst id_take_nth_drop [of i s] by simp
    ultimately show ?thesis using lst by (metis append_Cons append_Nil)
  qed
qed

section \<open>Addresses\<close>

datatype netip_addr = Addr4 "u8 list" | Addr6 "u8 list" string

definition octet_ok :: "string \<Rightarrow> bool" where
  "octet_ok f \<longleftrightarrow>
     f \<noteq> [] \<and> list_all is_digit f \<and> (1 < length f \<longrightarrow> hd f \<noteq> CHR ''0'') \<and> digits_val f \<le> 255"

definition parse_ipv4 :: "string \<Rightarrow> u8 list option" where
  "parse_ipv4 s =
     (let fs = split_byte s CHR ''.'' in
      if length fs = 4 \<and> list_all octet_ok fs then Some (map (\<lambda>f. of_nat (digits_val f)) fs) else None)"

definition is_hex :: "char \<Rightarrow> bool" where
  "is_hex c \<longleftrightarrow> (let n = (of_char c :: nat) in
     48 \<le> n \<and> n \<le> 57 \<or> 97 \<le> n \<and> n \<le> 102 \<or> 65 \<le> n \<and> n \<le> 70)"

definition hex_val :: "char \<Rightarrow> nat" where
  "hex_val c = (let n = (of_char c :: nat) in
     if n \<le> 57 then n - 48 else if n \<le> 70 then n - 55 else n - 87)"

definition hexes_val :: "string \<Rightarrow> nat" where
  "hexes_val s = foldl (\<lambda>n c. 16 * n + hex_val c) 0 s"

text \<open>
  The group loop of \<open>netip.parseIPv6\<close>: \<open>ip\<close> the bytes stored so far, \<open>ell\<close> where
  the \<open>::\<close> stood.
\<close>

function v6_groups :: "string \<Rightarrow> u8 list \<Rightarrow> nat option \<Rightarrow> (u8 list \<times> nat option) option" where
  "v6_groups s ip ell =
     (if 16 \<le> length ip then (if s = [] then Some (ip, ell) else None)
      else
        (let h = takeWhile is_hex s; rest = drop (length h) s; v = hexes_val h;
             ip' = ip @ [of_nat (v div 256), of_nat (v mod 256)]
         in if h = [] \<or> 4 < length h then None
            else if has_prefix rest ''.'' then
              (if ell = None \<and> length ip \<noteq> 12 \<or> 16 < length ip + 4 then None
               else map_option (\<lambda>f. (ip @ f, ell)) (parse_ipv4 s))
            else (case rest of
                    [] \<Rightarrow> Some (ip', ell)
                  | c # r \<Rightarrow>
                      if c \<noteq> CHR '':'' \<or> r = [] then None
                      else if has_prefix r '':'' then
                        (if ell \<noteq> None then None
                         else if tl r = [] then Some (ip', Some (length ip'))
                         else v6_groups (tl r) ip' (Some (length ip')))
                      else v6_groups r ip' ell)))"
  by pat_completeness auto
termination
proof (relation "measure (\<lambda>(s, ip, ell). length s)", goal_cases)
  case 1
  then show ?case by simp
next
  case (2 s ip ell h rest v ip' c r)
  have "c # r = drop (length h) s" using 2 by simp
  then have "Suc (length r) = length s - length h" by (metis length_Cons length_drop)
  then have "length (tl r) < length s" by simp
  then show ?case by simp
next
  case (3 s ip ell h rest v ip' c r)
  have "c # r = drop (length h) s" using 3 by simp
  then have "Suc (length r) = length s - length h" by (metis length_Cons length_drop)
  then have "length (r) < length s" by simp
  then show ?case by simp
qed

declare v6_groups.simps [simp del]

definition v6_expand :: "u8 list \<times> nat option \<Rightarrow> u8 list option" where
  "v6_expand p = (case p of (ip, ell) \<Rightarrow>
     if length ip < 16
     then map_option (\<lambda>e. take e ip @ replicate (16 - length ip) 0 @ drop e ip) ell
     else (if ell = None then Some ip else None))"

definition parse_ipv6 :: "string \<Rightarrow> netip_addr option" where
  "parse_ipv6 inp =
     (let (s, zone, found) = cut inp CHR ''%'' in
      if found \<and> zone = [] then None
      else if has_prefix s ''::'' then
        (if drop 2 s = [] then Some (Addr6 (replicate 16 0) zone)
         else map_option (\<lambda>b. Addr6 b zone) (Option.bind (v6_groups (drop 2 s) [] (Some 0)) v6_expand))
      else map_option (\<lambda>b. Addr6 b zone) (Option.bind (v6_groups s [] None) v6_expand))"

definition ParseAddr :: "string \<Rightarrow> netip_addr option" where
  "ParseAddr s =
     (case dropWhile (\<lambda>c. c \<noteq> CHR ''.'' \<and> c \<noteq> CHR '':'' \<and> c \<noteq> CHR ''%'') s of
        [] \<Rightarrow> None
      | c # _ \<Rightarrow>
          if c = CHR ''.'' then map_option Addr4 (parse_ipv4 s)
          else if c = CHR '':'' then parse_ipv6 s
          else None)"

fun bit_len :: "netip_addr \<Rightarrow> nat" where
  "bit_len (Addr4 b) = 32"
| "bit_len (Addr6 b z) = 128"

fun zone_of :: "netip_addr \<Rightarrow> string" where
  "zone_of (Addr4 b) = []"
| "zone_of (Addr6 b z) = z"

definition v4_in_v6 :: "u8 list" where
  "v4_in_v6 = replicate 10 0 @ [255, 255]"

fun as16 :: "netip_addr \<Rightarrow> u8 list" where
  "as16 (Addr4 b) = v4_in_v6 @ b"
| "as16 (Addr6 b z) = b"

text \<open>\<open>netip.ParsePrefix\<close>, of which the program only looks at the error.\<close>

definition ParsePrefix :: "string \<Rightarrow> (netip_addr \<times> nat) option" where
  "ParsePrefix s =
     (case last_index_byte s CHR ''/'' of
        None \<Rightarrow> None
      | Some i \<Rightarrow>
          (case ParseAddr (take i s) of
             None \<Rightarrow> None
           | Some a \<Rightarrow>
               let bs = drop (i + 1) s in
               if zone_of a \<noteq> [] then None
               else if 1 < length bs \<and> (\<not> is_digit (hd bs) \<or> hd bs = CHR ''0'') then None
               else (case atoi bs of
                       None \<Rightarrow> None
                     | Some n \<Rightarrow> if 0 \<le> n \<and> n \<le> int (bit_len a) then Some (a, nat n) else None)))"

section \<open>CIDR blocks and byte addresses\<close>

fun cidr_mask :: "nat \<Rightarrow> nat \<Rightarrow> u8 list" where
  "cidr_mask n 0 = []"
| "cidr_mask n (Suc l) =
     (if 8 \<le> n then 255 # cidr_mask (n - 8) l else NOT (drop_bit n 255) # cidr_mask 0 l)"

definition mask_bytes :: "u8 list \<Rightarrow> u8 list \<Rightarrow> u8 list" where
  "mask_bytes ip m = map2 (AND) ip m"

text \<open>\<open>IP.Mask\<close>: a 4-byte mask applied to a 4-in-6 address masks its last four bytes.\<close>

definition ip_mask :: "u8 list \<Rightarrow> u8 list \<Rightarrow> u8 list" where
  "ip_mask ip m =
     (let m' = (if length m = 16 \<and> length ip = 4 \<and> take 12 m = replicate 12 255 then drop 12 m else m);
          ip' = (if length m' = 4 \<and> length ip = 16 \<and> take 12 ip = v4_in_v6 then drop 12 ip else ip)
      in if length ip' = length m' then mask_bytes ip' m' else [])"

record ip_net =
  net_ip :: "u8 list"
  net_mask :: "u8 list"

definition ParseCIDR :: "string \<Rightarrow> (u8 list \<times> ip_net) option" where
  "ParseCIDR s =
     (let (addr, mask, found) = cut s CHR ''/'' in
      if \<not> found then None
      else (case ParseAddr addr of
              None \<Rightarrow> None
            | Some a \<Rightarrow>
                if zone_of a \<noteq> [] then None
                else if mask = [] \<or> \<not> list_all is_digit mask \<or> bit_len a < digits_val mask then None
                else let m = cidr_mask (digits_val mask) (bit_len a div 8); ip = as16 a
                     in Some (ip, \<lparr>net_ip = ip_mask ip m, net_mask = m\<rparr>)))"

definition ip_equal :: "u8 list \<Rightarrow> u8 list \<Rightarrow> bool" where
  "ip_equal a b \<longleftrightarrow>
     (if length a = length b then a = b
      else if length a = 4 \<and> length b = 16 then take 12 b = v4_in_v6 \<and> a = drop 12 b
      else if length a = 16 \<and> length b = 4 then take 12 a = v4_in_v6 \<and> drop 12 a = b
      else False)"

text \<open>\<open>IPMask.Size\<close>: the leading ones of a mask built by \<open>CIDRMask\<close>.\<close>

definition byte_ones :: "u8 \<Rightarrow> nat" where
  "byte_ones b = length (takeWhile (\<lambda>i. bit b i) (rev [0..<8]))"

fun mask_ones :: "u8 list \<Rightarrow> nat" where
  "mask_ones [] = 0"
| "mask_ones (b # m) = (if b = 255 then 8 + mask_ones m else byte_ones b)"

definition dotted :: "u8 list \<Rightarrow> string" where
  "dotted b = join (map (\<lambda>x. nat_str (unat x)) b) ''.''"

fun hex_str :: "nat \<Rightarrow> string" where
  "hex_str n = (if n < 16 then [hex_digit n] else hex_str (n div 16) @ [hex_digit (n mod 16)])"

declare hex_str.simps [simp del]

fun groups16 :: "u8 list \<Rightarrow> nat list" where
  "groups16 (a # b # r) = (256 * unat a + unat b) # groups16 r"
| "groups16 _ = []"

definition zero_run :: "nat list \<Rightarrow> nat \<Rightarrow> nat" where
  "zero_run gs i = length (takeWhile (\<lambda>g. g = 0) (drop i gs))"

text \<open>The first longest run of at least two zero groups, as (start, length).\<close>

definition longest_zeros :: "nat list \<Rightarrow> (nat \<times> nat) option" where
  "longest_zeros gs =
     foldl (\<lambda>best i. let l = zero_run gs i in
              if 2 \<le> l \<and> (case best of None \<Rightarrow> True | Some (_, k) \<Rightarrow> k < l) then Some (i, l) else best)
       None [0..<8]"

definition v6_text :: "u8 list \<Rightarrow> string" where
  "v6_text b =
     (let gs = groups16 b in
      case longest_zeros gs of
        None \<Rightarrow> join (map hex_str gs) '':''
      | Some (i, l) \<Rightarrow>
          join (map hex_str (take i gs)) '':'' @ ''::'' @ join (map hex_str (drop (i + l) gs)) '':'')"

definition ip_string :: "u8 list \<Rightarrow> string" where
  "ip_string ip =
     (if ip = [] then ''<nil>''
      else if length ip = 4 then dotted ip
      else if length ip = 16 then
        (if take 12 ip = v4_in_v6 then dotted (drop 12 ip) else v6_text ip)
      else ''?'' @ concat (map (\<lambda>x. [hex_digit (unat x div 16), hex_digit (unat x mod 16)]) ip))"

subsection \<open>Lemmas\<close>

lemma length_mask_bytes [simp]: "length (mask_bytes a b) = min (length a) (length b)"
  by (simp add: mask_bytes_def)

lemma length_cidr_mask [simp]: "length (cidr_mask n l) = l"
  by (induction n l rule: cidr_mask.induct) auto

lemma split_byte_nonempty [simp]: "split_byte s b \<noteq> []"
  by (induction s) (auto split: list.splits)

lemma parse_ipv4_length: "parse_ipv4 s = Some b \<Longrightarrow> length b = 4"
  by (auto simp: parse_ipv4_def Let_def split: if_splits)

lemma mask_bytes_idem: "mask_bytes (mask_bytes a m) m = mask_bytes a m"
proof (induction a arbitrary: m)
  case (Cons x a)
  then show ?case by (cases m) (auto simp: mask_bytes_def and.assoc)
qed (simp add: mask_bytes_def)

lemma length_v4_in_v6 [simp]: "length v4_in_v6 = 12"
  by (simp add: v4_in_v6_def)

end
