(* ===== verification/Frame.thy ===== *)
theory Frame
  imports Interfaces NetAddr
begin

text \<open>
  The data stream of a VPN session: the frame sizes of \<open>pkg/protocol/frame.go\<close>, and
  the two copying loops that the server (\<open>vpnserver/server.go\<close>) and the desktop client
  (\<open>tunnel/vpn.go\<close>) run between the TUN device and the QUIC stream.  The sending loop is
  given the packets that \<open>tun.Read\<close> returns before its error; the receiving loop is given
  the bytes that arrive before the stream ends.  \<open>wr k\<close> says whether the k-th
  \<open>Write\<close> of the loop succeeds.  A loop's effects are a list of actions in program order.
  Packet lengths are lengths of Go slices, so never negative: they are \<open>nat\<close>.
\<close>

section \<open>Frame sizes (frame.go)\<close>

definition PaddingBlockSize :: nat where "PaddingBlockSize = 128"
definition HeaderSize :: nat where "HeaderSize = 4"
definition MaxPacketLen :: nat where "MaxPacketLen = 65535"

definition PaddedFrameSize :: "nat \<Rightarrow> nat" where
  "PaddedFrameSize payloadLen =
     (let total = HeaderSize + payloadLen; rem = total mod PaddingBlockSize
      in if rem \<noteq> 0 then total + (PaddingBlockSize - rem) else total)"

definition PaddingLen :: "nat \<Rightarrow> nat" where
  "PaddingLen payloadLen = PaddedFrameSize payloadLen - HeaderSize - payloadLen"

lemmas frame_consts = PaddingBlockSize_def HeaderSize_def MaxPacketLen_def

lemma PaddedFrameSize_dvd: "PaddingBlockSize dvd PaddedFrameSize n"
proof -
  have "total + (128 - total mod 128) = 128 * (total div 128 + 1)" for total :: nat
  proof -
    define q r where "q = total div 128" and "r = total mod 128"
    have "total = 128 * q + r" "r < 128" by (simp_all add: q_def r_def)
    then show ?thesis unfolding q_def [symmetric] r_def [symmetric] by simp
  qed
  then show ?thesis
    by (auto simp: PaddedFrameSize_def PaddingBlockSize_def Let_def)
qed

lemma PaddedFrameSize_bounds:
  "HeaderSize + n \<le> PaddedFrameSize n" "PaddedFrameSize n < HeaderSize + n + PaddingBlockSize"
proof -
  have "total mod 128 < 128" for total :: nat by simp
  then show "HeaderSize + n \<le> PaddedFrameSize n" "PaddedFrameSize n < HeaderSize + n + PaddingBlockSize"
    by (auto simp: PaddedFrameSize_def PaddingBlockSize_def Let_def)
qed

lemma PaddedFrameSize_split: "PaddedFrameSize n = HeaderSize + n + PaddingLen n"
  using PaddedFrameSize_bounds(1) [of n] by (simp add: PaddingLen_def)

lemma PaddingLen_less: "PaddingLen n < PaddingBlockSize"
  using PaddedFrameSize_bounds(2) [of n] by (simp add: PaddedFrameSize_split)

section \<open>The length prefix\<close>

text \<open>\<open>binary.BigEndian.PutUint32(h, uint32(n))\<close> and \<open>Uint32\<close>.\<close>

definition put_u32 :: "nat \<Rightarrow> u8 list" where
  "put_u32 n =
     [of_nat (n div 16777216 mod 256), of_nat (n div 65536 mod 256), of_nat (n div 256 mod 256), of_nat (n mod 256)]"

fun get_u32 :: "u8 list \<Rightarrow> nat" where
  "get_u32 [a, b, c, d] = 16777216 * unat a + 65536 * unat b + 256 * unat c + unat d"
| "get_u32 _ = 0"

lemma length_put_u32 [simp]: "length (put_u32 n) = 4"
  by (simp add: put_u32_def)

lemma unat_byte: "unat (of_nat (n mod 256) :: u8) = n mod 256"
  by (simp add: unat_of_nat)

lemma get_put_u32: "n < 4294967296 \<Longrightarrow> get_u32 (put_u32 n) = n"
proof -
  assume n: "n < 4294967296"
  define a b c where "a = n div 256" and "b = a div 256" and "c = b div 256"
  have "n div 65536 = b" "n div 16777216 = c"
    by (simp_all add: a_def b_def c_def div_mult2_eq [symmetric])
  moreover have "n = 256 * a + n mod 256" "a = 256 * b + a mod 256" "b = 256 * c + b mod 256"
    by (simp_all add: a_def b_def c_def)
  moreover have "c mod 256 = c" using n by (simp add: a_def b_def c_def div_mult2_eq [symmetric])
  moreover have "unat (of_nat c :: u8) = c" using unat_byte [of c] \<open>c mod 256 = c\<close> by simp
  ultimately show ?thesis by (simp add: put_u32_def unat_byte a_def [symmetric])
qed

section \<open>Sending: pipeTUNtoQUIC\<close>

datatype pipe_act = Count nat | Write "u8 list" | TunWrite "u8 list"

text \<open>
  The writes for one packet: header, payload and, with padding on, the padding when it is
  not empty.
\<close>

definition packet_writes :: "bool \<Rightarrow> u8 list \<Rightarrow> u8 list list" where
  "packet_writes padding p =
     [put_u32 (length p), p]
     @ (if padding \<and> 0 < PaddingLen (length p) then [replicate (PaddingLen (length p)) 0] else [])"

text \<open>Successive \<open>Write\<close> calls, stopping at the first that fails; \<open>k\<close> counts the calls.\<close>

fun do_writes :: "(nat \<Rightarrow> bool) \<Rightarrow> nat \<Rightarrow> u8 list list \<Rightarrow> pipe_act list \<times> bool" where
  "do_writes wr k [] = ([], True)"
| "do_writes wr k (c # cs) =
     (if wr k then (case do_writes wr (Suc k) cs of (acts, fine) \<Rightarrow> (Write c # acts, fine))
      else ([], False))"

fun srv_pipeTUNtoQUIC :: "bool \<Rightarrow> (nat \<Rightarrow> bool) \<Rightarrow> nat \<Rightarrow> u8 list list \<Rightarrow> pipe_act list" where
  "srv_pipeTUNtoQUIC padding wr k [] = []"
| "srv_pipeTUNtoQUIC padding wr k (p # ps) =
     (let ws = packet_writes padding p in
      Count (length p) #
      (case do_writes wr k ws of
         (acts, fine) \<Rightarrow>
           acts @ (if fine then srv_pipeTUNtoQUIC padding wr (k + length ws) ps else [])))"

text \<open>The client's loop is the same code over its own counters (\<open>stats.BytesOut\<close>).\<close>

fun vpn_pipeTUNtoQUIC :: "bool \<Rightarrow> (nat \<Rightarrow> bool) \<Rightarrow> nat \<Rightarrow> u8 list list \<Rightarrow> pipe_act list" where
  "vpn_pipeTUNtoQUIC padding wr k [] = []"
| "vpn_pipeTUNtoQUIC padding wr k (p # ps) =
     Count (length p) #
     (if \<not> wr k then []
      else Write (put_u32 (length p)) #
        (if \<not> wr (k + 1) then []
         else Write p #
           (let padLen = PaddingLen (length p) in
            if padding \<and> 0 < padLen then
              (if \<not> wr (k + 2) then []
               else Write (replicate padLen 0) # vpn_pipeTUNtoQUIC padding wr (k + 3) ps)
            else vpn_pipeTUNtoQUIC padding wr (k + 2) ps)))"

text \<open>
  The Android client's loop (\<open>pipeAndroidTUNToQUIC\<close>) counts a packet after its writes,
  and asks \<open>ctx.Err()\<close> before each round: \<open>live k\<close> is the answer before its k-th.
\<close>

fun android_pipeTUNtoQUIC ::
  "bool \<Rightarrow> (nat \<Rightarrow> bool) \<Rightarrow> (nat \<Rightarrow> bool) \<Rightarrow> nat \<Rightarrow> nat \<Rightarrow> u8 list list \<Rightarrow> pipe_act list" where
  "android_pipeTUNtoQUIC padding live wr r k [] = []"
| "android_pipeTUNtoQUIC padding live wr r k (p # ps) =
     (if \<not> live r then []
      else let ws = packet_writes padding p in
        (case do_writes wr k ws of
           (acts, fine) \<Rightarrow>
             acts @ (if fine then Count (length p) #
                       android_pipeTUNtoQUIC padding live wr (Suc r) (k + length ws) ps
                     else [])))"

text \<open>The bytes that reached the stream, and the bytes counted.\<close>

fun sent_bytes :: "pipe_act list \<Rightarrow> u8 list" where
  "sent_bytes [] = []"
| "sent_bytes (Write b # as) = b @ sent_bytes as"
| "sent_bytes (_ # as) = sent_bytes as"

fun counted :: "pipe_act list \<Rightarrow> nat" where
  "counted [] = 0"
| "counted (Count n # as) = n + counted as"
| "counted (_ # as) = counted as"

section \<open>Receiving: pipeQUICtoTUN\<close>

text \<open>
  How a receiving loop ends: the stream ended inside a frame (\<open>io.ReadFull\<close> fails), a
  header beyond \<open>MaxPacketLen\<close>, a slice expression \<open>buf[:readLen]\<close> beyond the
  65536-byte buffer (a run-time panic), or a TUN write error.
\<close>

datatype recv_end = StreamEnd | LengthError | SlicePanic | TunError

definition buf_size :: nat where "buf_size = 65536"

function srv_pipeQUICtoTUN ::
  "bool \<Rightarrow> (nat \<Rightarrow> bool) \<Rightarrow> nat \<Rightarrow> u8 list \<Rightarrow> pipe_act list \<times> recv_end" where
  "srv_pipeQUICtoTUN padding tw k bs =
     (if length bs < HeaderSize then ([], StreamEnd)
      else let l = get_u32 (take HeaderSize bs) in
        if l > MaxPacketLen then ([], LengthError)
        else let readLen = l + (if padding then PaddingLen l else 0); r = drop HeaderSize bs in
          if readLen > buf_size then ([], SlicePanic)
          else if length r < readLen then ([], StreamEnd)
          else if \<not> tw k then ([Count l], TunError)
          else (case srv_pipeQUICtoTUN padding tw (Suc k) (drop readLen r) of
                  (acts, e) \<Rightarrow> (Count l # TunWrite (take l r) # acts, e)))"
  by pat_completeness auto
termination
  by (relation "measure (\<lambda>(padding, tw, k, bs). length bs)") (auto simp: HeaderSize_def)

declare srv_pipeQUICtoTUN.simps [simp del]

text \<open>
  The desktop client's loop: \<open>pktLen > 65535\<close> is written as a literal there, and
  \<open>stats.BytesIn\<close> is counted where the server counts the client's traffic.
\<close>

function vpn_pipeQUICtoTUN ::
  "bool \<Rightarrow> (nat \<Rightarrow> bool) \<Rightarrow> nat \<Rightarrow> u8 list \<Rightarrow> pipe_act list \<times> recv_end" where
  "vpn_pipeQUICtoTUN padding tw k bs =
     (if length bs < 4 then ([], StreamEnd)
      else let pktLen = get_u32 (take 4 bs) in
        if pktLen > 65535 then ([], LengthError)
        else let readLen = (if padding then pktLen + PaddingLen pktLen else pktLen) in
          if buf_size < readLen then ([], SlicePanic)
          else if length bs < 4 + readLen then ([], StreamEnd)
          else let pkt = take pktLen (drop 4 bs) in
            if tw k then
              (let (acts, e) = vpn_pipeQUICtoTUN padding tw (k + 1) (drop (4 + readLen) bs)
               in ([Count pktLen, TunWrite pkt] @ acts, e))
            else ([Count pktLen], TunError))"
  by pat_completeness auto
termination
  by (relation "measure (\<lambda>(padding, tw, k, bs). length bs)") auto

declare vpn_pipeQUICtoTUN.simps [simp del]

text \<open>The Android client's: counted after the TUN write, and cancellable between packets.\<close>

function android_pipeQUICtoTUN ::
  "bool \<Rightarrow> (nat \<Rightarrow> bool) \<Rightarrow> (nat \<Rightarrow> bool) \<Rightarrow> nat \<Rightarrow> u8 list \<Rightarrow> pipe_act list \<times> recv_end" where
  "android_pipeQUICtoTUN padding live tw k bs =
     (if \<not> live k then ([], StreamEnd)
      else if length bs < HeaderSize then ([], StreamEnd)
      else let pktLen = get_u32 (take HeaderSize bs) in
        if pktLen > 65535 then ([], LengthError)
        else let readLen = pktLen + (if padding then PaddingLen pktLen else 0); r = drop HeaderSize bs in
          if readLen > buf_size then ([], SlicePanic)
          else if length r < readLen then ([], StreamEnd)
          else if \<not> tw k then ([], TunError)
          else (case android_pipeQUICtoTUN padding live tw (Suc k) (drop readLen r) of
                  (acts, e) \<Rightarrow> (TunWrite (take pktLen r) # Count pktLen # acts, e)))"
  by pat_completeness auto
termination
  by (relation "measure (\<lambda>(padding, live, tw, k, bs). length bs)") (auto simp: HeaderSize_def)

declare android_pipeQUICtoTUN.simps [simp del]

text \<open>\<open>paddingEnabled\<close>: an unset \<open>Tun.Padding\<close> means padding is on.\<close>

definition paddingEnabled :: "bool option \<Rightarrow> bool" where
  "paddingEnabled p = (case p of None \<Rightarrow> True | Some b \<Rightarrow> b)"

fun tun_packets :: "pipe_act list \<Rightarrow> u8 list list" where
  "tun_packets [] = []"
| "tun_packets (TunWrite p # as) = p # tun_packets as"
| "tun_packets (_ # as) = tun_packets as"

section \<open>One frame\<close>

definition frame :: "bool \<Rightarrow> u8 list \<Rightarrow> u8 list" where
  "frame padding p =
     put_u32 (length p) @ p @ (if padding then replicate (PaddingLen (length p)) 0 else [])"

definition unframe :: "bool \<Rightarrow> u8 list \<Rightarrow> (u8 list \<times> u8 list) option" where
  "unframe padding bs =
     (let l = get_u32 (take HeaderSize bs); readLen = l + (if padding then PaddingLen l else 0);
          r = drop HeaderSize bs
      in if length bs < HeaderSize \<or> l > MaxPacketLen \<or> readLen > buf_size \<or> length r < readLen
         then None else Some (take l r, drop readLen r))"

text \<open>The payloads whose frame the receiver's buffer can hold.\<close>

definition frame_ok :: "bool \<Rightarrow> u8 list \<Rightarrow> bool" where
  "frame_ok padding p \<longleftrightarrow>
     length p \<le> MaxPacketLen \<and> (padding \<longrightarrow> length p + PaddingLen (length p) \<le> buf_size)"

definition received :: "bool \<Rightarrow> u8 list \<Rightarrow> u8 list list" where
  "received padding bs = tun_packets (fst (srv_pipeQUICtoTUN padding (\<lambda>_. True) 0 bs))"

lemma concat_packet_writes: "concat (packet_writes padding p) = frame padding p"
  by (simp add: packet_writes_def frame_def)

lemma length_frame_padded: "length (frame True p) = PaddedFrameSize (length p)"
  by (simp add: frame_def PaddedFrameSize_split HeaderSize_def)

lemma unframe_frame:
  assumes "frame_ok padding p"
  shows "unframe padding (frame padding p @ rest) = Some (p, rest)"
proof -
  have l: "get_u32 (take HeaderSize (frame padding p @ rest)) = length p"
    using assms by (simp add: frame_def HeaderSize_def frame_ok_def MaxPacketLen_def get_put_u32)
  have r: "drop HeaderSize (frame padding p @ rest)
      = p @ (if padding then replicate (PaddingLen (length p)) 0 else []) @ rest"
    by (simp add: frame_def HeaderSize_def)
  show ?thesis
    using assms unfolding unframe_def l r
    by (auto simp: Let_def frame_def HeaderSize_def frame_ok_def buf_size_def MaxPacketLen_def)
qed

text \<open>With every TUN write accepted the loop is the iteration of \<open>unframe\<close>.\<close>

lemma recv_index: "srv_pipeQUICtoTUN padding (\<lambda>_. True) k bs = srv_pipeQUICtoTUN padding (\<lambda>_. True) j bs"
proof (induction bs arbitrary: k j rule: length_induct)
  case (1 bs)
  have IH: "srv_pipeQUICtoTUN padding (\<lambda>_. True) (Suc k) xs = srv_pipeQUICtoTUN padding (\<lambda>_. True) (Suc j) xs"
    if "length xs < length bs" for xs
    using 1 that by blast
  show ?case
    by (subst (1 2) srv_pipeQUICtoTUN.simps) (auto simp: Let_def HeaderSize_def IH)
qed

lemma received_step: "unframe padding bs = Some (p, rest) \<Longrightarrow> received padding bs = p # received padding rest"
  unfolding received_def
  by (subst srv_pipeQUICtoTUN.simps)
     (auto simp: unframe_def Let_def split_beta recv_index [where k = "Suc 0" and j = 0] split: if_splits)

lemma received_stop: "unframe padding bs = None \<Longrightarrow> received padding bs = []"
  unfolding received_def
  by (subst srv_pipeQUICtoTUN.simps) (auto simp: unframe_def Let_def split_beta split: if_splits)

interpretation padded: framing "frame True" "unframe True" "received True" "frame_ok True"
  by unfold_locales (simp_all add: unframe_frame received_step received_stop)

interpretation plain: framing "frame False" "unframe False" "received False" "frame_ok False"
  by unfold_locales (simp_all add: unframe_frame received_step received_stop)

section \<open>Sender lemmas\<close>

lemma do_writes_all: "do_writes (\<lambda>_. True) k cs = (map Write cs, True)"
  by (induction cs arbitrary: k) auto

lemma sent_bytes_append [simp]: "sent_bytes (as @ bs) = sent_bytes as @ sent_bytes bs"
  by (induction as rule: sent_bytes.induct) auto

lemma counted_append [simp]: "counted (as @ bs) = counted as + counted bs"
  by (induction as rule: counted.induct) auto

lemma sent_bytes_writes [simp]: "sent_bytes (map Write cs) = concat cs" "counted (map Write cs) = 0"
  by (induction cs) auto

lemma srv_sent_all:
  "sent_bytes (srv_pipeTUNtoQUIC padding (\<lambda>_. True) k ps) = concat (map (frame padding) ps)"
  by (induction ps arbitrary: k) (auto simp: Let_def do_writes_all concat_packet_writes)

lemma srv_counted_all:
  "counted (srv_pipeTUNtoQUIC padding (\<lambda>_. True) k ps) = sum_list (map length ps)"
  by (induction ps arbitrary: k) (auto simp: Let_def do_writes_all)

lemma pipes_agree: "srv_pipeTUNtoQUIC padding wr k ps = vpn_pipeTUNtoQUIC padding wr k ps"
proof (induction ps arbitrary: k)
  case (Cons p ps)
  show ?case
    by (simp only: srv_pipeTUNtoQUIC.simps vpn_pipeTUNtoQUIC.simps Cons.IH)
       (auto simp: Let_def packet_writes_def numeral_2_eq_2 numeral_3_eq_3)
qed simp

lemma unframe_panic_free:
  "\<not> padding \<Longrightarrow> frame_ok padding p \<longleftrightarrow> length p \<le> 65535"
  by (simp add: frame_ok_def MaxPacketLen_def)

lemma frame_ok_padded: "frame_ok True p \<longleftrightarrow> length p \<le> 65532"
proof -
  let ?n = "length p"
  obtain k where k: "PaddedFrameSize ?n = 128 * k"
    using PaddedFrameSize_dvd [of ?n] by (auto simp: PaddingBlockSize_def elim: dvdE)
  have "4 + ?n \<le> 128 * k" "128 * k < 132 + ?n" "128 * k = 4 + ?n + PaddingLen ?n"
    using PaddedFrameSize_bounds [of ?n] PaddedFrameSize_split [of ?n]
    by (simp_all add: k HeaderSize_def PaddingBlockSize_def)
  then have "?n \<le> 65535 \<and> ?n + PaddingLen ?n \<le> 65536 \<longleftrightarrow> ?n \<le> 65532"
    by (cases "k \<le> 512") auto
  then show ?thesis by (simp add: frame_ok_def MaxPacketLen_def buf_size_def)
qed

lemma receivers_agree: "srv_pipeQUICtoTUN padding tw k bs = vpn_pipeQUICtoTUN padding tw k bs"
proof (induction bs arbitrary: padding k rule: length_induct)
  case (1 bs)
  have IH: "srv_pipeQUICtoTUN q tw j xs = vpn_pipeQUICtoTUN q tw j xs" if "length xs < length bs" for q j xs
    using 1 that by blast
  show ?case
    by (subst srv_pipeQUICtoTUN.simps, subst vpn_pipeQUICtoTUN.simps)
       (auto simp: Let_def HeaderSize_def MaxPacketLen_def add.commute split_beta IH)
qed

text \<open>The end of a run on a stream of complete frames, and where the padded buffer runs out.\<close>

lemma recv_end_step:
  "unframe padding bs = Some (p, rest) \<Longrightarrow>
   snd (srv_pipeQUICtoTUN padding (\<lambda>_. True) k bs) = snd (srv_pipeQUICtoTUN padding (\<lambda>_. True) 0 rest)"
  by (subst srv_pipeQUICtoTUN.simps)
     (auto simp: unframe_def Let_def split_beta recv_index [where k = "Suc k" and j = 0] split: if_splits)

lemma recv_end_frames:
  "\<forall>p\<in>set ps. frame_ok padding p \<Longrightarrow>
   snd (srv_pipeQUICtoTUN padding (\<lambda>_. True) k (concat (map (frame padding) ps) @ bs))
     = snd (srv_pipeQUICtoTUN padding (\<lambda>_. True) 0 bs)"
proof (induction ps arbitrary: k)
  case Nil
  then show ?case by (simp add: recv_index [where k = k and j = 0])
next
  case (Cons p ps)
  have "unframe padding (frame padding p @ concat (map (frame padding) ps) @ bs)
      = Some (p, concat (map (frame padding) ps) @ bs)"
    using Cons.prems by (intro unframe_frame) simp
  then show ?case using Cons by (simp add: recv_end_step)
qed

lemma unframe_Nil: "unframe padding [] = None"
  by (simp add: unframe_def Let_def HeaderSize_def)

lemma recv_step:
  "unframe padding bs = Some (p, rest) \<Longrightarrow>
   fst (srv_pipeQUICtoTUN padding (\<lambda>_. True) k bs)
     = Count (length p) # TunWrite p # fst (srv_pipeQUICtoTUN padding (\<lambda>_. True) 0 rest)"
  by (subst srv_pipeQUICtoTUN.simps)
     (auto simp: unframe_def Let_def split_beta recv_index [where k = "Suc k" and j = 0] split: if_splits)

lemma recv_stop:
  "unframe padding bs = None \<Longrightarrow> fst (srv_pipeQUICtoTUN padding (\<lambda>_. True) k bs) = []"
  by (subst srv_pipeQUICtoTUN.simps) (auto simp: unframe_def Let_def split_beta split: if_splits)

lemma unframe_shorter: "unframe padding bs = Some (p, rest) \<Longrightarrow> length rest < length bs"
  by (auto simp: unframe_def Let_def HeaderSize_def split: if_splits)

lemma recv_count_packets:
  "counted (fst (srv_pipeQUICtoTUN padding (\<lambda>_. True) k bs))
     = sum_list (map length (tun_packets (fst (srv_pipeQUICtoTUN padding (\<lambda>_. True) k bs))))"
proof (induction bs arbitrary: k rule: length_induct)
  case (1 bs)
  show ?case
  proof (cases "unframe padding bs")
    case None
    then show ?thesis by (simp add: recv_stop)
  next
    case (Some a)
    obtain p rest where a: "a = (p, rest)" by (cases a)
    then show ?thesis using Some 1 unframe_shorter [of padding bs p rest] by (simp add: recv_step)
  qed
qed

lemma received_frames:
  "\<forall>p\<in>set ps. frame_ok padding p \<Longrightarrow> received padding (concat (map (frame padding) ps)) = ps"
  using padded.run_cut_off [of ps "[]"] plain.run_cut_off [of ps "[]"]
  by (cases padding) (simp_all add: unframe_Nil)

lemma padded_panic:
  assumes "65532 < l" "l \<le> 65535"
  shows "srv_pipeQUICtoTUN True tw k (put_u32 l @ bs) = ([], SlicePanic)"
proof -
  have "\<not> frame_ok True (replicate l (0 :: u8))" using assms by (simp add: frame_ok_padded)
  then have "buf_size < l + PaddingLen l" using assms by (simp add: frame_ok_def MaxPacketLen_def)
  then show ?thesis
    using assms
    by (subst srv_pipeQUICtoTUN.simps)
       (simp add: HeaderSize_def MaxPacketLen_def get_put_u32 Let_def)
qed

lemma recv_Nil: "srv_pipeQUICtoTUN padding tw k [] = ([], StreamEnd)"
  by (subst srv_pipeQUICtoTUN.simps) (simp add: HeaderSize_def)

lemma recv_no_panic:
  assumes "\<not> padding"
  shows "snd (srv_pipeQUICtoTUN padding tw k bs) \<noteq> SlicePanic"
proof (induction bs arbitrary: k rule: length_induct)
  case (1 bs)
  have IH: "snd (srv_pipeQUICtoTUN False tw j xs) \<noteq> SlicePanic" if "length xs < length bs" for j xs
    using 1 that assms by simp
  show ?case
    using assms
    by (subst srv_pipeQUICtoTUN.simps)
       (auto simp: Let_def HeaderSize_def MaxPacketLen_def buf_size_def split_beta IH)
qed

text \<open>The Android loops move the same packets; only their counting differs.\<close>

lemma do_writes_prefix: "\<exists>n. fst (do_writes wr k cs) = map Write (take n cs)"
proof (induction cs arbitrary: k)
  case (Cons c cs)
  obtain n where n: "fst (do_writes wr (Suc k) cs) = map Write (take n cs)" using Cons by blast
  show ?case
  proof (cases "wr k")
    case True
    then show ?thesis using n by (intro exI [of _ "Suc n"]) (simp add: split_beta)
  next
    case False
    then show ?thesis by (intro exI [of _ 0]) simp
  qed
qed simp

lemma counted_do_writes [simp]: "counted (fst (do_writes wr k cs)) = 0"
  using do_writes_prefix [of wr k cs] by auto

lemma android_sent:
  "sent_bytes (android_pipeTUNtoQUIC padding (\<lambda>_. True) wr r k ps) = sent_bytes (vpn_pipeTUNtoQUIC padding wr k ps)"
  unfolding pipes_agree [symmetric]
  by (induction ps arbitrary: r k) (simp_all add: Let_def split_beta)

lemma android_counts_less:
  "counted (android_pipeTUNtoQUIC padding live wr r k ps) \<le> counted (vpn_pipeTUNtoQUIC padding wr k ps)"
  unfolding pipes_agree [symmetric]
  by (induction ps arbitrary: r k) (simp_all add: Let_def split_beta trans_le_add2)

lemma android_received:
  "tun_packets (fst (android_pipeQUICtoTUN padding (\<lambda>_. True) tw k bs)) = tun_packets (fst (srv_pipeQUICtoTUN padding tw k bs))
   \<and> snd (android_pipeQUICtoTUN padding (\<lambda>_. True) tw k bs) = snd (srv_pipeQUICtoTUN padding tw k bs)"
proof (induction bs arbitrary: padding k rule: length_induct)
  case (1 bs)
  have IH: "tun_packets (fst (android_pipeQUICtoTUN q (\<lambda>_. True) tw j xs)) = tun_packets (fst (srv_pipeQUICtoTUN q tw j xs))
      \<and> snd (android_pipeQUICtoTUN q (\<lambda>_. True) tw j xs) = snd (srv_pipeQUICtoTUN q tw j xs)"
    if "length xs < length bs" for q j xs
    using 1 that by blast
  show ?case
    by (subst (1 2) srv_pipeQUICtoTUN.simps, subst (1 2) android_pipeQUICtoTUN.simps)
       (simp add: Let_def HeaderSize_def MaxPacketLen_def split_beta IH)
qed

section \<open>Properties\<close>

text \<open>C1: Whatever packets one end reads from its TUN device, the other end's loop writes
  them to its own, in order and unchanged, and then waits for more (its run on exactly these
  bytes ends with the stream), when both ends agree on padding and every packet's frame fits
  the receiver's buffer: the stream delimits itself.\<close>

theorem vpn_stream_roundtrip:
  assumes "\<forall>p\<in>set ps. frame_ok padding p"
  shows "tun_packets (fst (vpn_pipeQUICtoTUN padding (\<lambda>_. True) 0
           (sent_bytes (srv_pipeTUNtoQUIC padding (\<lambda>_. True) 0 ps)))) = ps \<and>
         snd (vpn_pipeQUICtoTUN padding (\<lambda>_. True) 0
           (sent_bytes (srv_pipeTUNtoQUIC padding (\<lambda>_. True) 0 ps))) = StreamEnd"
proof -
  have "received padding (concat (map (frame padding) ps)) = ps"
    using assms by (rule received_frames)
  moreover have "snd (srv_pipeQUICtoTUN padding (\<lambda>_. True) 0 (concat (map (frame padding) ps))) = StreamEnd"
    using recv_end_frames [OF assms, of 0 "[]"]
    by (simp add: recv_Nil)
  ultimately show ?thesis by (simp add: srv_sent_all received_def receivers_agree)
qed

theorem vpn_stream_roundtrip_witness:
  "tun_packets (fst (vpn_pipeQUICtoTUN True (\<lambda>_. True) 0
     (sent_bytes (srv_pipeTUNtoQUIC True (\<lambda>_. True) 0 [[69, 0, 7], []])))) = [[69, 0, 7], []]"
proof -
  have "\<forall>p\<in>set [[69, 0, 7], [] :: u8 list]. frame_ok True p" by (simp add: frame_ok_padded)
  then show ?thesis using vpn_stream_roundtrip [of "[[69, 0, 7], []]" True] by blast
qed

text \<open>The same in the other direction, client to server, and the two ends' counters:
  the client's \<open>stats.BytesOut\<close> and the server's traffic counter of the client both
  count the payload bytes, without headers and padding.\<close>

lemma vpn_traffic_agrees:
  assumes "\<forall>p\<in>set ps. frame_ok padding p"
  shows "let out = vpn_pipeTUNtoQUIC padding (\<lambda>_. True) 0 ps;
             inc = fst (srv_pipeQUICtoTUN padding (\<lambda>_. True) 0 (sent_bytes out))
         in tun_packets inc = ps \<and> counted out = sum_list (map length ps) \<and> counted inc = counted out"
  using received_frames [OF assms] srv_sent_all [of padding 0 ps] srv_counted_all [of padding 0 ps]
  by (simp add: Let_def received_def pipes_agree recv_count_packets)

text \<open>The padded size is the smallest multiple of the block size that holds the header
  and the payload, so an observer learns a payload's length only up to its block.\<close>

lemma PaddedFrameSize_least:
  "PaddingBlockSize dvd PaddedFrameSize n \<and> HeaderSize + n \<le> PaddedFrameSize n \<and>
   (\<forall>m. PaddingBlockSize dvd m \<longrightarrow> HeaderSize + n \<le> m \<longrightarrow> PaddedFrameSize n \<le> m)"
proof -
  have "PaddedFrameSize n \<le> m" if d: "PaddingBlockSize dvd m" and le: "HeaderSize + n \<le> m" for m
  proof (rule ccontr)
    assume "\<not> PaddedFrameSize n \<le> m"
    moreover obtain j k where "PaddedFrameSize n = 128 * j" "m = 128 * k"
      using d PaddedFrameSize_dvd [of n] by (auto simp: PaddingBlockSize_def elim!: dvdE)
    ultimately have "m + 128 \<le> PaddedFrameSize n" by simp
    with le PaddedFrameSize_bounds(2) [of n] show False by (simp add: PaddingBlockSize_def)
  qed
  then show ?thesis using PaddedFrameSize_dvd PaddedFrameSize_bounds(1) by blast
qed


text \<open>With padding on, exactly the three largest lengths the header check lets
  through overrun the receiver's 65536-byte buffer: after authentication, four bytes from
  the peer make the slice expression panic before anything is written to the TUN device.
  Without padding no stream can.\<close>

lemma padded_header_panics:
  assumes "l < 4294967296"
  shows "(snd (srv_pipeQUICtoTUN True tw k (put_u32 l)) = SlicePanic \<longleftrightarrow> l \<in> {65533, 65534, 65535})
    \<and> snd (srv_pipeQUICtoTUN False tw k bs) \<noteq> SlicePanic"
proof -
  have "snd (srv_pipeQUICtoTUN True tw k (put_u32 l)) \<noteq> SlicePanic" if "l \<le> 65532"
  proof -
    have "frame_ok True (replicate l (0 :: u8))" using that by (simp add: frame_ok_padded)
    then have "\<not> buf_size < l + PaddingLen l" by (simp add: frame_ok_def)
    then show ?thesis
      by (subst srv_pipeQUICtoTUN.simps)
         (simp add: HeaderSize_def get_put_u32 Let_def assms split_beta recv_Nil)
  qed
  moreover have "snd (srv_pipeQUICtoTUN True tw k (put_u32 l)) = SlicePanic" if "65532 < l" "l \<le> 65535"
    using padded_panic [OF that, of tw k "[]"] by simp
  moreover have "snd (srv_pipeQUICtoTUN True tw k (put_u32 l)) \<noteq> SlicePanic" if "65535 < l"
    using that assms
    by (subst srv_pipeQUICtoTUN.simps) (simp add: HeaderSize_def get_put_u32 Let_def MaxPacketLen_def)
  ultimately have "snd (srv_pipeQUICtoTUN True tw k (put_u32 l)) = SlicePanic \<longleftrightarrow> 65532 < l \<and> l \<le> 65535"
    by (cases "l \<le> 65532"; cases "l \<le> 65535") auto
  then show ?thesis using recv_no_panic [of False tw k bs] by auto
qed

end
