(* ===== verification/Runtime.thy ===== *)
theory Runtime
  imports Interfaces Strconv "HOL-Library.Multiset"
begin

text \<open>
  The registry of live VPN clients, \<open>server/internal/vpnserver/runtime.go\<close>.  Every
  method runs under the registry's lock, so a run of the server is a sequence of these
  operations.  Counters are 64-bit and wrap.  The readings of \<open>time.Now()\<close> are
  arguments, in nanoseconds; \<open>seconds\<close> is \<open>int64(d.Seconds())\<close> without the rounding
  of the intermediate float, which can show from about a hundred days on.
\<close>

type_synonym u64 = "64 word"

section \<open>State\<close>

record RuntimeConfig =
  rc_ListenAddr :: string
  rc_Subnet :: string
  rc_NATIface :: string
  rc_NATEnabled :: bool
  rc_Padding :: bool

record clientRuntime =
  cr_id :: string
  cr_remoteAddr :: string
  cr_connectedAt :: int
  cr_bytesIn :: u64
  cr_bytesOut :: u64
  cr_lastTrafficAt :: int
  cr_tunName :: string
  cr_lastError :: string
  cr_authenticatedAs :: string

record Runtime =
  rt_cfg :: RuntimeConfig
  rt_startedAt :: int
  rt_nextClient :: u64
  rt_totalClients :: u64
  rt_totalBytesIn :: u64
  rt_totalBytesOut :: u64
  rt_clients :: "string \<Rightarrow> clientRuntime option"

record ClientSnapshot =
  cs_ID :: string
  cs_RemoteAddr :: string
  cs_ConnectedAt :: int
  cs_UptimeSeconds :: int
  cs_BytesIn :: u64
  cs_BytesOut :: u64
  cs_LastTrafficAt :: int
  cs_TUNName :: string
  cs_LastError :: string
  cs_AuthenticatedAs :: string

record RuntimeSnapshot =
  rs_StartedAt :: int
  rs_UptimeSeconds :: int
  rs_cfg :: RuntimeConfig
  rs_ActiveClients :: nat
  rs_TotalClients :: u64
  rs_TotalBytesIn :: u64
  rs_TotalBytesOut :: u64
  rs_Clients :: "ClientSnapshot list"

section \<open>Operations\<close>

definition NewRuntime :: "RuntimeConfig \<Rightarrow> int \<Rightarrow> Runtime" where
  "NewRuntime cfg now =
     \<lparr>rt_cfg = cfg, rt_startedAt = now, rt_nextClient = 0, rt_totalClients = 0,
      rt_totalBytesIn = 0, rt_totalBytesOut = 0, rt_clients = Map.empty\<rparr>"

definition client_id :: "u64 \<Rightarrow> string" where
  "client_id n = ''client-'' @ nat_str (unat n)"

definition new_client :: "string \<Rightarrow> int \<Rightarrow> string option \<Rightarrow> clientRuntime" where
  "new_client i now remote =
     \<lparr>cr_id = i, cr_remoteAddr = (case remote of None \<Rightarrow> [] | Some a \<Rightarrow> a),
      cr_connectedAt = now, cr_bytesIn = 0, cr_bytesOut = 0, cr_lastTrafficAt = now,
      cr_tunName = [], cr_lastError = [], cr_authenticatedAs = []\<rparr>"

definition put_client :: "string \<Rightarrow> clientRuntime \<Rightarrow> Runtime \<Rightarrow> Runtime" where
  "put_client i c r = r\<lparr>rt_clients := (rt_clients r)(i \<mapsto> c)\<rparr>"

definition RegisterClient :: "int \<Rightarrow> string option \<Rightarrow> Runtime \<Rightarrow> string \<times> Runtime" where
  "RegisterClient now remote r =
     (let n = rt_nextClient r + 1; i = client_id n
      in (i, put_client i (new_client i now remote)
               (r\<lparr>rt_nextClient := n, rt_totalClients := rt_totalClients r + 1\<rparr>)))"

definition UnregisterClient :: "string \<Rightarrow> Runtime \<Rightarrow> Runtime" where
  "UnregisterClient i r = r\<lparr>rt_clients := (rt_clients r)(i := None)\<rparr>"

text \<open>The methods that write through \<open>r.clients[id]\<close> when it is there.\<close>

definition upd_client :: "string \<Rightarrow> (clientRuntime \<Rightarrow> clientRuntime) \<Rightarrow> Runtime \<Rightarrow> Runtime" where
  "upd_client i f r = (case rt_clients r i of None \<Rightarrow> r | Some c \<Rightarrow> put_client i (f c) r)"

definition SetClientTUN :: "string \<Rightarrow> string \<Rightarrow> Runtime \<Rightarrow> Runtime" where
  "SetClientTUN i name = upd_client i (\<lambda>c. c\<lparr>cr_tunName := name\<rparr>)"

definition SetClientUser :: "string \<Rightarrow> string \<Rightarrow> Runtime \<Rightarrow> Runtime" where
  "SetClientUser i name = upd_client i (\<lambda>c. c\<lparr>cr_authenticatedAs := name\<rparr>)"

definition SetClientError :: "string \<Rightarrow> go_error option \<Rightarrow> Runtime \<Rightarrow> Runtime" where
  "SetClientError i err r =
     (case err of None \<Rightarrow> r | Some e \<Rightarrow> upd_client i (\<lambda>c. c\<lparr>cr_lastError := err_text e\<rparr>) r)"

definition AddClientTraffic :: "int \<Rightarrow> string \<Rightarrow> u64 \<Rightarrow> u64 \<Rightarrow> Runtime \<Rightarrow> Runtime" where
  "AddClientTraffic now i bytesIn bytesOut r =
     upd_client i
       (\<lambda>c. c\<lparr>cr_bytesIn := cr_bytesIn c + bytesIn, cr_bytesOut := cr_bytesOut c + bytesOut,
             cr_lastTrafficAt := now\<rparr>)
       (r\<lparr>rt_totalBytesIn := rt_totalBytesIn r + bytesIn,
          rt_totalBytesOut := rt_totalBytesOut r + bytesOut\<rparr>)"

definition seconds :: "int \<Rightarrow> int" where
  "seconds d = (if d < 0 then - (- d div 1000000000) else d div 1000000000)"

definition client_snapshot :: "int \<Rightarrow> clientRuntime \<Rightarrow> ClientSnapshot" where
  "client_snapshot now c =
     \<lparr>cs_ID = cr_id c, cs_RemoteAddr = cr_remoteAddr c, cs_ConnectedAt = cr_connectedAt c,
      cs_UptimeSeconds = seconds (now - cr_connectedAt c), cs_BytesIn = cr_bytesIn c,
      cs_BytesOut = cr_bytesOut c, cs_LastTrafficAt = cr_lastTrafficAt c,
      cs_TUNName = cr_tunName c, cs_LastError = cr_lastError c,
      cs_AuthenticatedAs = cr_authenticatedAs c\<rparr>"

text \<open>
  \<open>ks\<close> is the order in which \<open>range r.clients\<close> visits the keys.  \<open>sort.Slice\<close> is
  not stable: equal keys keep an arbitrary order, which the arbitrary \<open>ks\<close> already gives.
\<close>

definition Snapshot :: "int \<Rightarrow> string list \<Rightarrow> Runtime \<Rightarrow> RuntimeSnapshot" where
  "Snapshot now ks r =
     (let cs = sort_key cs_ConnectedAt (map (client_snapshot now) (List.map_filter (rt_clients r) ks))
      in \<lparr>rs_StartedAt = rt_startedAt r, rs_UptimeSeconds = seconds (now - rt_startedAt r),
          rs_cfg = rt_cfg r, rs_ActiveClients = length cs, rs_TotalClients = rt_totalClients r,
          rs_TotalBytesIn = rt_totalBytesIn r, rs_TotalBytesOut = rt_totalBytesOut r,
          rs_Clients = cs\<rparr>)"

section \<open>Runs\<close>

datatype runtime_op =
    Register int "string option"
  | Unregister string
  | SetTUN string string
  | SetUser string string
  | SetError string "go_error option"
  | Traffic int string u64 u64

fun apply_op :: "runtime_op \<Rightarrow> Runtime \<Rightarrow> Runtime" where
  "apply_op (Register now remote) r = snd (RegisterClient now remote r)"
| "apply_op (Unregister i) r = UnregisterClient i r"
| "apply_op (SetTUN i name) r = SetClientTUN i name r"
| "apply_op (SetUser i name) r = SetClientUser i name r"
| "apply_op (SetError i err) r = SetClientError i err r"
| "apply_op (Traffic now i a b) r = AddClientTraffic now i a b r"

text \<open>A step of the registry; fewer than \<open>2 ^ 64\<close> clients ever connect.\<close>

inductive runtime_step :: "Runtime \<Rightarrow> runtime_op \<Rightarrow> Runtime \<Rightarrow> bool" where
  "(case e of Register _ _ \<Rightarrow> rt_nextClient r \<noteq> - 1 | _ \<Rightarrow> True) \<Longrightarrow> runtime_step r e (apply_op e r)"

inductive_cases runtime_stepE: "runtime_step r e r'"

definition runtime_init :: "Runtime \<Rightarrow> bool" where
  "runtime_init r \<longleftrightarrow> (\<exists>cfg now. r = NewRuntime cfg now)"

definition runtime_inv :: "Runtime \<Rightarrow> bool" where
  "runtime_inv r \<longleftrightarrow> finite (dom (rt_clients r)) \<and> rt_totalClients r = rt_nextClient r \<and>
     (\<forall>i c. rt_clients r i = Some c \<longrightarrow>
        cr_id c = i \<and> (\<exists>n. 0 < n \<and> n \<le> rt_nextClient r \<and> i = client_id n))"

lemmas runtime_defs = RegisterClient_def UnregisterClient_def SetClientTUN_def SetClientUser_def
  SetClientError_def AddClientTraffic_def upd_client_def put_client_def

interpretation live: table rt_clients put_client UnregisterClient
  by unfold_locales (auto simp: put_client_def UnregisterClient_def)

lemma client_id_inj: "client_id m = client_id n \<Longrightarrow> m = n"
  using nat_str_inj [of "unat m" "unat n"] by (simp add: client_id_def word_unat_eq_iff)

lemma unat_succ: "n \<noteq> - 1 \<Longrightarrow> unat (n + 1 :: u64) = Suc (unat n)"
  using unatSuc [of n] by (simp add: add.commute add_eq_0_iff)

lemma succ_gt: "n \<noteq> - 1 \<Longrightarrow> n < (n + 1 :: u64)"
  by (simp add: word_less_nat_alt unat_succ)

lemma fresh_id:
  assumes "runtime_inv r" "rt_nextClient r \<noteq> - 1"
  shows "rt_clients r (client_id (rt_nextClient r + 1)) = None"
proof (rule ccontr)
  assume "rt_clients r (client_id (rt_nextClient r + 1)) \<noteq> None"
  then obtain n where "n \<le> rt_nextClient r" "client_id (rt_nextClient r + 1) = client_id n"
    using assms(1) by (fastforce simp: runtime_inv_def)
  then have "rt_nextClient r + 1 \<le> rt_nextClient r" using client_id_inj by metis
  then show False using succ_gt [OF assms(2)] by simp
qed

lemma inv_upd_client:
  "runtime_inv r \<Longrightarrow> (\<And>c. cr_id (f c) = cr_id c) \<Longrightarrow> runtime_inv (upd_client i f r)"
  by (auto simp: runtime_inv_def upd_client_def put_client_def split: option.splits)

lemma inv_Register:
  assumes "runtime_inv r" "rt_nextClient r \<noteq> - 1"
  shows "runtime_inv (snd (RegisterClient now remote r))"
proof -
  have "n \<le> rt_nextClient r + 1" if "n \<le> rt_nextClient r" for n
    using that succ_gt [OF assms(2)] by (meson less_imp_le order_trans)
  moreover have "0 < rt_nextClient r + 1"
    using succ_gt [OF assms(2)] by (meson word_zero_le le_less_trans)
  ultimately show ?thesis
    using assms(1) unfolding runtime_inv_def
    by (simp add: RegisterClient_def put_client_def new_client_def Let_def) blast
qed

interpretation registry: machine runtime_init runtime_step runtime_inv
proof
  show "runtime_inv r" if "runtime_init r" for r
    using that by (auto simp: runtime_init_def NewRuntime_def runtime_inv_def)
next
  fix r e r'
  assume "runtime_inv r" "runtime_step r e r'"
  then show "runtime_inv r'"
  proof (elim runtime_stepE)
    assume r: "runtime_inv r" and g: "case e of Register _ _ \<Rightarrow> rt_nextClient r \<noteq> - 1 | _ \<Rightarrow> True"
      and r': "r' = apply_op e r"
    show ?thesis
    proof (cases e)
      case Register
      then show ?thesis using r g r' by (simp add: inv_Register)
    next
      case (Unregister i)
      then show ?thesis using r r' by (auto simp: runtime_inv_def UnregisterClient_def)
    next
      case (Traffic now i a b)
      have "runtime_inv (r\<lparr>rt_totalBytesIn := x, rt_totalBytesOut := y\<rparr>)" for x y
        using r by (simp add: runtime_inv_def)
      then show ?thesis using r' Traffic by (simp add: AddClientTraffic_def inv_upd_client)
    qed (use r r' in \<open>simp_all add: SetClientTUN_def SetClientUser_def SetClientError_def inv_upd_client
        split: option.splits\<close>)
  qed
qed

section \<open>Conservation of traffic\<close>

text \<open>
  Bytes that are in the totals but in no live client's counter: what a client had counted
  when it was unregistered, and traffic reported for an id that is not live.
\<close>

fun retired :: "runtime_op \<Rightarrow> Runtime \<Rightarrow> u64" where
  "retired (Unregister i) r = (case rt_clients r i of None \<Rightarrow> 0 | Some c \<Rightarrow> cr_bytesIn c)"
| "retired (Traffic now i a b) r = (if rt_clients r i = None then a else 0)"
| "retired _ r = 0"

fun reported :: "runtime_op \<Rightarrow> u64" where
  "reported (Traffic now i a b) = a"
| "reported _ = 0"

fun run_ops :: "runtime_op list \<Rightarrow> Runtime \<Rightarrow> Runtime \<times> u64" where
  "run_ops [] r = (r, 0)"
| "run_ops (e # es) r = (case run_ops es (apply_op e r) of (r', d) \<Rightarrow> (r', retired e r + d))"

fun registrations :: "runtime_op list \<Rightarrow> nat" where
  "registrations [] = 0"
| "registrations (Register _ _ # es) = Suc (registrations es)"
| "registrations (_ # es) = registrations es"

definition live_bytes :: "Runtime \<Rightarrow> u64" where
  "live_bytes r = (\<Sum>i\<in>dom (rt_clients r). cr_bytesIn (the (rt_clients r i)))"

lemma live_bytes_upd:
  assumes "finite (dom (rt_clients r))" "rt_clients r i = Some c"
  shows "live_bytes (put_client i d r) = live_bytes r - cr_bytesIn c + cr_bytesIn d"
proof -
  have d: "dom (rt_clients r) = insert i (dom (rt_clients r) - {i})" using assms(2) by auto
  have "live_bytes r = cr_bytesIn c + (\<Sum>j\<in>dom (rt_clients r) - {i}. cr_bytesIn (the (rt_clients r j)))"
    unfolding live_bytes_def by (subst d, subst sum.insert) (use assms in auto)
  moreover have "live_bytes (put_client i d r)
      = cr_bytesIn d + (\<Sum>j\<in>dom (rt_clients r) - {i}. cr_bytesIn (the (rt_clients r j)))"
  proof -
    have d': "dom (rt_clients (put_client i d r)) = insert i (dom (rt_clients r) - {i})"
      by (auto simp: put_client_def)
    show ?thesis
      unfolding live_bytes_def d' by (subst sum.insert) (use assms in \<open>auto simp: put_client_def\<close>)
  qed
  ultimately show ?thesis by simp
qed

lemma live_bytes_fresh:
  "finite (dom (rt_clients r)) \<Longrightarrow> rt_clients r i = None \<Longrightarrow>
   live_bytes (put_client i c r) = live_bytes r + cr_bytesIn c"
  unfolding live_bytes_def put_client_def
  by (simp add: domIff, subst sum.cong [OF refl, where h = "\<lambda>j. cr_bytesIn (the (rt_clients r j))"])
     (auto simp: domIff)

lemma live_bytes_del:
  assumes "finite (dom (rt_clients r))" "rt_clients r i = Some c"
  shows "live_bytes (UnregisterClient i r) = live_bytes r - cr_bytesIn c"
proof -
  have d: "dom (rt_clients r) = insert i (dom (rt_clients r) - {i})" using assms(2) by auto
  have "live_bytes r = cr_bytesIn c + (\<Sum>j\<in>dom (rt_clients r) - {i}. cr_bytesIn (the (rt_clients r j)))"
    unfolding live_bytes_def by (subst d, subst sum.insert) (use assms in auto)
  moreover have "live_bytes (UnregisterClient i r)
      = (\<Sum>j\<in>dom (rt_clients r) - {i}. cr_bytesIn (the (rt_clients r j)))"
    unfolding live_bytes_def by (rule sum.cong) (auto simp: UnregisterClient_def)
  ultimately show ?thesis by simp
qed

lemma live_bytes_same:
  "rt_clients r' = rt_clients r \<Longrightarrow> live_bytes r' = live_bytes r"
  by (simp add: live_bytes_def)

lemma live_bytes_keep:
  "finite (dom (rt_clients r)) \<Longrightarrow> (\<And>c. cr_bytesIn (f c) = cr_bytesIn c) \<Longrightarrow>
   live_bytes (upd_client i f r) = live_bytes r"
  by (auto simp: upd_client_def live_bytes_upd split: option.splits)

lemma conserve_op:
  assumes "runtime_inv r" "case e of Register _ _ \<Rightarrow> rt_nextClient r \<noteq> - 1 | _ \<Rightarrow> True"
  shows "live_bytes (apply_op e r) + retired e r = live_bytes r + reported e"
proof -
  have fin: "finite (dom (rt_clients r))" using assms(1) by (simp add: runtime_inv_def)
  show ?thesis
  proof (cases e)
    case (Register now remote)
    let ?r = "r\<lparr>rt_nextClient := rt_nextClient r + 1, rt_totalClients := rt_totalClients r + 1\<rparr>"
    let ?i = "client_id (rt_nextClient r + 1)"
    have "rt_clients ?r ?i = None" using assms Register fresh_id by simp
    then have "live_bytes (put_client ?i (new_client ?i now remote) ?r) = live_bytes ?r"
      using fin by (subst live_bytes_fresh) (auto simp: new_client_def)
    moreover have "live_bytes ?r = live_bytes r" by (simp add: live_bytes_def)
    ultimately show ?thesis using Register by (simp add: RegisterClient_def Let_def)
  next
    case (Unregister i)
    then show ?thesis
    proof (cases "rt_clients r i")
      case None
      have "live_bytes (UnregisterClient i r) = live_bytes r"
        by (rule live_bytes_same) (use None in \<open>auto simp: UnregisterClient_def\<close>)
      then show ?thesis using Unregister None by simp
    next
      case (Some c)
      then show ?thesis using Unregister live_bytes_del [OF fin Some] by simp
    qed
  next
    case (Traffic now i a b)
    let ?r = "r\<lparr>rt_totalBytesIn := rt_totalBytesIn r + a, rt_totalBytesOut := rt_totalBytesOut r + b\<rparr>"
    have f: "finite (dom (rt_clients ?r))" and l: "live_bytes ?r = live_bytes r"
      using fin by (simp_all add: live_bytes_def)
    show ?thesis
    proof (cases "rt_clients r i")
      case None
      then show ?thesis using Traffic l by (simp add: AddClientTraffic_def upd_client_def)
    next
      case (Some c)
      then have "live_bytes (put_client i d ?r) = live_bytes r - cr_bytesIn c + cr_bytesIn d" for d
        using live_bytes_upd [OF f, of i c d] l by simp
      then show ?thesis using Traffic Some by (simp add: AddClientTraffic_def upd_client_def)
    qed
  qed (use fin in \<open>simp_all add: SetClientTUN_def SetClientUser_def SetClientError_def live_bytes_keep
      split: option.splits\<close>)
qed

lemma totals_op: "rt_totalBytesIn (apply_op e r) = rt_totalBytesIn r + reported e"
  by (cases e) (auto simp: runtime_defs Let_def split: option.splits)

lemma next_op:
  "rt_nextClient (apply_op e r) = rt_nextClient r + (case e of Register _ _ \<Rightarrow> 1 | _ \<Rightarrow> 0)"
  by (cases e) (auto simp: runtime_defs Let_def split: option.splits)

lemma run_conserves:
  assumes "runtime_inv r" "unat (rt_nextClient r) + registrations es < 2 ^ 64"
    "rt_totalBytesIn r = live_bytes r + d"
  shows "runtime_inv (fst (run_ops es r)) \<and>
    rt_totalBytesIn (fst (run_ops es r)) = live_bytes (fst (run_ops es r)) + d + snd (run_ops es r)"
  using assms
proof (induction es arbitrary: r d)
  case (Cons e es)
  have g: "case e of Register _ _ \<Rightarrow> rt_nextClient r \<noteq> - 1 | _ \<Rightarrow> True"
  proof (cases e)
    case (Register now remote)
    then have "unat (rt_nextClient r) + 1 < 2 ^ 64" using Cons.prems(2) by simp
    moreover have "unat (- 1 :: u64) = 2 ^ 64 - 1"
      by (simp add: unsigned_minus_1_eq_mask mask_eq_exp_minus_1)
    ultimately show ?thesis using Register by auto
  qed simp_all
  have inv: "runtime_inv (apply_op e r)"
    by (rule registry.inv_step [OF Cons.prems(1) runtime_step.intros [OF g]])
  have b: "unat (rt_nextClient (apply_op e r)) + registrations es < 2 ^ 64"
    using Cons.prems(2) g by (cases e) (simp_all add: next_op unat_succ del: apply_op.simps)
  have "rt_totalBytesIn (apply_op e r) = live_bytes (apply_op e r) + (d + retired e r)"
    using conserve_op [OF Cons.prems(1) g] Cons.prems(3) by (simp add: totals_op algebra_simps)
  from Cons.IH [OF inv b this] show ?case by (simp add: split_beta algebra_simps)
qed simp

lemma run_totals: "rt_totalBytesIn (fst (run_ops es r)) = rt_totalBytesIn r + sum_list (map reported es)"
  by (induction es arbitrary: r) (simp_all add: split_beta totals_op algebra_simps)

lemma run_counts: "rt_totalClients (fst (run_ops es r)) = rt_totalClients r + of_nat (registrations es)"
proof (induction es arbitrary: r)
  case (Cons e es)
  have "rt_totalClients (apply_op e r) = rt_totalClients r + (case e of Register _ _ \<Rightarrow> 1 | _ \<Rightarrow> 0)"
    by (cases e) (auto simp: runtime_defs Let_def split: option.splits)
  then show ?case using Cons by (cases e) (simp_all add: split_beta)
qed simp

lemma inv_New: "runtime_inv (NewRuntime cfg now)"
  by (rule registry.inv_init) (auto simp: runtime_init_def)

section \<open>Snapshots\<close>

lemma snapshot_clients:
  "mset (rs_Clients (Snapshot now ks r)) = image_mset (client_snapshot now) (mset (List.map_filter (rt_clients r) ks))"
  by (simp add: Snapshot_def Let_def)

lemma map_filter_keys:
  assumes "runtime_inv r" "set ks = dom (rt_clients r)"
  shows "map cr_id (List.map_filter (rt_clients r) ks) = ks"
proof -
  have "map cr_id (List.map_filter (rt_clients r) ks) = ks" if "set ks \<subseteq> dom (rt_clients r)" for ks
    using that
  proof (induction ks)
    case (Cons k ks)
    then obtain c where "rt_clients r k = Some c" by auto
    then show ?case using Cons assms(1) by (auto simp: List.map_filter_simps runtime_inv_def)
  qed (simp add: List.map_filter_simps)
  then show ?thesis using assms(2) by simp
qed

definition sample_cfg :: RuntimeConfig where
  "sample_cfg = \<lparr>rc_ListenAddr = '':443'', rc_Subnet = ''10.0.8.0/24'', rc_NATIface = ''eth0'',
     rc_NATEnabled = True, rc_Padding = True\<rparr>"

section \<open>Properties\<close>



text \<open>A snapshot lists each live client exactly once, oldest connection first, whatever
  order the map is visited in, and \<open>active_clients\<close> is their number.\<close>

lemma snapshot_complete:
  assumes "runtime_inv r" "distinct ks" "set ks = dom (rt_clients r)"
  shows "let s = Snapshot now ks r in
     sorted (map cs_ConnectedAt (rs_Clients s)) \<and> distinct (map cs_ID (rs_Clients s)) \<and>
     set (map cs_ID (rs_Clients s)) = dom (rt_clients r) \<and>
     rs_ActiveClients s = card (dom (rt_clients r))"
proof -
  let ?s = "Snapshot now ks r"
  have "mset (map cs_ID (rs_Clients ?s)) = mset (map cr_id (List.map_filter (rt_clients r) ks))"
    by (simp add: snapshot_clients multiset.map_comp comp_def client_snapshot_def)
  then have m: "mset (map cs_ID (rs_Clients ?s)) = mset ks"
    using map_filter_keys [OF assms(1,3)] by simp
  have "distinct (map cs_ID (rs_Clients ?s))" using m assms(2) by (metis mset_eq_imp_distinct_iff)
  moreover have "set (map cs_ID (rs_Clients ?s)) = set ks" using m by (metis set_mset_mset)
  moreover have "rs_ActiveClients ?s = length (map cs_ID (rs_Clients ?s))" by (simp add: Snapshot_def Let_def)
  moreover have "sorted (map cs_ConnectedAt (rs_Clients ?s))" by (simp add: Snapshot_def Let_def)
  ultimately show ?thesis using assms(3) by (metis distinct_card)
qed

lemma client_id_one: "client_id 1 = ''client-1''"
  by code_simp

end
