(* ===== verification/VPNAuth.thy ===== *)
theory VPNAuth
  imports Strconv
begin

text \<open>
  The authentication exchange at the start of a VPN session: the HTTP-looking request that
  both clients write (\<open>vpn.go\<close>, \<open>vpn_android.go\<close>), the server's byte-by-byte read and
  parse of it (\<open>handleClient\<close> in \<open>vpnserver/server.go\<close>), the server's two responses, and
  the check each client makes of the response it reads.
\<close>

section \<open>Texts\<close>

definition cr :: char where "cr = CHR 0x0D"
definition lf :: char where "lf = CHR 0x0A"
definition crlf :: string where "crlf = [cr, lf]"

lemmas crlf_defs = cr_def lf_def crlf_def

definition basic_prefix :: string where
  "basic_prefix = ''Authorization: Basic ''"

definition auth_request :: "string \<Rightarrow> string \<Rightarrow> string" where
  "auth_request user pass =
     ''POST /connect HTTP/1.1'' @ crlf @ ''Host: gateway.icloud.com'' @ crlf
     @ basic_prefix @ user @ '':'' @ pass @ crlf @ ''Content-Length: 0'' @ crlf @ crlf"

definition ok_response :: string where
  "ok_response = ''HTTP/1.1 200 OK'' @ crlf @ ''Content-Length: 0'' @ crlf @ crlf"

definition fallback_body :: string where
  "fallback_body =
     ''<html><head><title>403 Forbidden</title></head><body><center><h1>403 Forbidden</h1></center>''
     @ ''<hr><center>cloudflare</center></body></html>'' @ crlf"

definition fallback_response :: string where
  "fallback_response =
     ''HTTP/1.1 403 Forbidden'' @ crlf @ ''Server: cloudflare'' @ crlf
     @ ''Content-Type: text/html; charset=UTF-8'' @ crlf @ ''Content-Length: 155'' @ crlf @ crlf
     @ fallback_body"

section \<open>The server's side\<close>

text \<open>
  One \<open>ctl.Read(tmp)\<close> into a one-byte buffer gives at most one byte and perhaps an
  error; after the listed results the stream has ended.
\<close>

fun read_auth :: "string \<Rightarrow> (char option \<times> bool) list \<Rightarrow> string option" where
  "read_auth buf [] = None"
| "read_auth buf ((c, err) # evs) =
     (let buf' = (case c of None \<Rightarrow> buf | Some b \<Rightarrow> buf @ [b])
      in if c \<noteq> None \<and> 4 \<le> length buf' \<and> drop (length buf' - 4) buf' = crlf @ crlf then Some buf'
         else if err then None
         else read_auth buf' evs)"

text \<open>\<open>strings.Split\<close> for a separator of several bytes.\<close>

function split_str :: "string \<Rightarrow> string \<Rightarrow> string list" where
  "split_str s sep =
     (if sep = [] then map (\<lambda>c. [c]) s
      else (case index_str s sep of
              None \<Rightarrow> [s]
            | Some i \<Rightarrow> take i s # split_str (drop (i + length sep) s) sep))"
  by pat_completeness auto

lemma has_prefix_length: "has_prefix s p \<Longrightarrow> length p \<le> length s"
  by (auto simp: has_prefix_iff)

lemma index_str_Some: "index_str s p = Some i \<Longrightarrow> i + length p \<le> length s"
proof (induction s arbitrary: i)
  case (Cons c s)
  show ?case
  proof (cases "has_prefix (c # s) p")
    case True
    then show ?thesis using Cons.prems has_prefix_length [OF True] by simp
  next
    case False
    then show ?thesis using Cons by (auto simp del: has_prefix_Cons)
  qed
qed (auto split: if_splits)

termination split_str
  by (relation "measure (\<lambda>(s, sep). length s)") (auto dest!: index_str_Some simp flip: length_greater_0_conv)

declare split_str.simps [simp del]

text \<open>The loop over the lines stops at the first one with the header's name.\<close>

fun check_lines :: "string \<Rightarrow> string \<Rightarrow> string list \<Rightarrow> bool" where
  "check_lines user pass [] = False"
| "check_lines user pass (line # lines) =
     (if has_prefix line basic_prefix then
        (case cut (trim_prefix line basic_prefix) CHR '':'' of
           (u, p, found) \<Rightarrow> found \<and> u = user \<and> p = pass)
      else check_lines user pass lines)"

definition auth_ok :: "string \<Rightarrow> string \<Rightarrow> string \<Rightarrow> bool" where
  "auth_ok user pass authLine = check_lines user pass (split_str authLine crlf)"

section \<open>The clients' side\<close>

text \<open>\<open>chunk\<close> is what one \<open>ctl.Read\<close> into a 128-byte buffer returned.\<close>

definition desktop_accepts :: "string \<Rightarrow> bool" where
  "desktop_accepts chunk \<longleftrightarrow> contains chunk ''200''"

definition android_accepts :: "string \<Rightarrow> bool" where
  "android_accepts chunk \<longleftrightarrow> \<not> (length chunk < 12 \<or> take 12 chunk \<noteq> ''HTTP/1.1 200'')"

section \<open>Lemmas\<close>

lemma index_str_sep:
  "cr \<notin> set a \<Longrightarrow> index_str (a @ crlf @ b) crlf = Some (length a)"
  by (induction a) (auto simp: crlf_def has_prefix_def)

lemma index_str_none: "cr \<notin> set a \<Longrightarrow> index_str a crlf = None"
  by (induction a) (auto simp: crlf_def has_prefix_def)

lemma split_line:
  "cr \<notin> set a \<Longrightarrow> split_str (a @ crlf @ b) crlf = a # split_str b crlf"
  by (subst split_str.simps) (simp add: index_str_sep, simp add: crlf_def)

lemma cut_at: "b \<notin> set u \<Longrightarrow> cut (u @ b # p) b = (u, p, True)"
  by (induction u) auto

lemma cut_user: "cut s b = (u, p, True) \<Longrightarrow> b \<notin> set u"
  by (induction s arbitrary: u) (auto split: if_splits prod.splits)

text \<open>Reading goes on over a line without line ends, and stops at the empty one.\<close>

abbreviation arrive :: "string \<Rightarrow> (char option \<times> bool) list" where
  "arrive s \<equiv> map (\<lambda>c. (Some c, False)) s"

lemma read_auth_snoc:
  "c \<noteq> lf \<Longrightarrow> read_auth buf ((Some c, False) # evs) = read_auth (buf @ [c]) evs"
  by (auto simp: Let_def crlf_defs append_eq_Cons_conv dest!: arg_cong [where f = last])

lemma read_auth_line:
  "lf \<notin> set a \<Longrightarrow> read_auth buf (arrive a @ evs) = read_auth (buf @ a) evs"
proof (induction a arbitrary: buf)
  case (Cons c a)
  then have "c \<noteq> lf" by auto
  then have "read_auth buf (arrive (c # a) @ evs) = read_auth (buf @ [c]) (arrive a @ evs)"
    using read_auth_snoc [of c buf "arrive a @ evs"] by (simp del: read_auth.simps)
  then show ?case using Cons by (simp del: read_auth.simps)
qed simp

lemma read_auth_crlf:
  assumes "buf = b @ [x]" "x \<noteq> lf"
  shows "read_auth buf (arrive crlf @ evs) = read_auth (buf @ crlf) evs"
proof -
  have "\<not> drop (length (b @ [x, cr, lf]) - 4) (b @ [x, cr, lf]) = crlf @ crlf" if "4 \<le> length (b @ [x, cr, lf])"
  proof -
    obtain b' y where "b = b' @ [y]" using \<open>4 \<le> length (b @ [x, cr, lf])\<close> by (cases b rule: rev_cases) auto
    then show ?thesis using assms(2) by (simp add: crlf_def)
  qed
  moreover have "read_auth buf (arrive crlf @ evs) = read_auth (buf @ [cr]) ((Some lf, False) # evs)"
    using read_auth_snoc [of cr buf "(Some lf, False) # evs"] by (simp add: crlf_defs del: read_auth.simps)
  ultimately show ?thesis using assms by (auto simp: crlf_def Let_def)
qed

lemma read_auth_end: "read_auth (b @ crlf) (arrive crlf @ evs) = Some (b @ crlf @ crlf)"
proof -
  have "read_auth (b @ crlf) (arrive crlf @ evs) = read_auth (b @ crlf @ [cr]) ((Some lf, False) # evs)"
    using read_auth_snoc [of cr "b @ crlf" "(Some lf, False) # evs"] by (simp add: crlf_defs del: read_auth.simps)
  then show ?thesis by (simp add: crlf_def Let_def)
qed

definition plain_line :: "string \<Rightarrow> bool" where
  "plain_line a \<longleftrightarrow> a \<noteq> [] \<and> cr \<notin> set a \<and> lf \<notin> set a"

lemma read_auth_plain:
  assumes "plain_line a"
  shows "read_auth buf (arrive (a @ crlf) @ evs) = read_auth (buf @ a @ crlf) evs"
proof -
  obtain b x where a: "a = b @ [x]" using assms by (cases a rule: rev_cases) (auto simp: plain_line_def)
  have "read_auth buf (arrive a @ arrive crlf @ evs) = read_auth (buf @ a) (arrive crlf @ evs)"
    using assms by (intro read_auth_line) (simp add: plain_line_def)
  also have "\<dots> = read_auth ((buf @ a) @ crlf) evs"
    by (rule read_auth_crlf [where b = "buf @ b" and x = x]) (use a assms in \<open>auto simp: plain_line_def\<close>)
  finally show ?thesis by simp
qed

lemma request_lines:
  "auth_request user pass =
     (''POST /connect HTTP/1.1'' @ crlf) @ (''Host: gateway.icloud.com'' @ crlf)
     @ ((basic_prefix @ user @ '':'' @ pass) @ crlf) @ (''Content-Length: 0'' @ crlf) @ crlf"
  by (simp add: auth_request_def)

lemma plain_fixed [simp]:
  "plain_line ''POST /connect HTTP/1.1''" "plain_line ''Host: gateway.icloud.com''"
  "plain_line ''Content-Length: 0''"
  by (simp_all add: plain_line_def crlf_defs)

lemma plain_creds: "cr \<notin> set (user @ pass) \<Longrightarrow> lf \<notin> set (user @ pass) \<Longrightarrow> plain_line (basic_prefix @ user @ '':'' @ pass)"
  by (auto simp: plain_line_def basic_prefix_def crlf_defs)

lemma read_request:
  assumes "cr \<notin> set (user @ pass)" "lf \<notin> set (user @ pass)"
  shows "read_auth [] (arrive (auth_request user pass) @ evs) = Some (auth_request user pass)"
proof -
  have "read_auth [] (arrive (auth_request user pass) @ evs) = read_auth []
      (arrive (''POST /connect HTTP/1.1'' @ crlf) @ arrive (''Host: gateway.icloud.com'' @ crlf)
       @ arrive ((basic_prefix @ user @ '':'' @ pass) @ crlf) @ arrive (''Content-Length: 0'' @ crlf)
       @ arrive crlf @ evs)"
    unfolding request_lines by (simp only: map_append append.assoc)
  also have "\<dots> = read_auth ([] @ ''POST /connect HTTP/1.1'' @ crlf)
      (arrive (''Host: gateway.icloud.com'' @ crlf)
       @ arrive ((basic_prefix @ user @ '':'' @ pass) @ crlf) @ arrive (''Content-Length: 0'' @ crlf)
       @ arrive crlf @ evs)"
    by (rule read_auth_plain) simp
  also have "\<dots> = read_auth (([] @ ''POST /connect HTTP/1.1'' @ crlf) @ ''Host: gateway.icloud.com'' @ crlf)
      (arrive ((basic_prefix @ user @ '':'' @ pass) @ crlf) @ arrive (''Content-Length: 0'' @ crlf)
       @ arrive crlf @ evs)"
    by (rule read_auth_plain) simp
  also have "\<dots> = read_auth ((([] @ ''POST /connect HTTP/1.1'' @ crlf) @ ''Host: gateway.icloud.com'' @ crlf)
       @ (basic_prefix @ user @ '':'' @ pass) @ crlf)
      (arrive (''Content-Length: 0'' @ crlf) @ arrive crlf @ evs)"
    by (rule read_auth_plain) (rule plain_creds [OF assms])
  also have "\<dots> = read_auth (((([] @ ''POST /connect HTTP/1.1'' @ crlf) @ ''Host: gateway.icloud.com'' @ crlf)
       @ (basic_prefix @ user @ '':'' @ pass) @ crlf) @ ''Content-Length: 0'' @ crlf)
      (arrive crlf @ evs)"
    by (rule read_auth_plain) simp
  also have "\<dots> = Some (auth_request user pass)"
    using read_auth_end [of "(([] @ ''POST /connect HTTP/1.1'' @ crlf) @ ''Host: gateway.icloud.com'' @ crlf)
        @ ((basic_prefix @ user @ '':'' @ pass) @ crlf) @ ''Content-Length: 0''" evs]
    by (simp only: auth_request_def append.assoc append_Nil)
  finally show ?thesis .
qed

lemma check_request:
  assumes "cr \<notin> set (u @ p)"
  shows "auth_ok user pass (auth_request u p)
    \<longleftrightarrow> (case cut (u @ '':'' @ p) CHR '':'' of (u', p', found) \<Rightarrow> found \<and> u' = user \<and> p' = pass)"
proof -
  have cr: "cr \<notin> set ''POST /connect HTTP/1.1''" "cr \<notin> set ''Host: gateway.icloud.com''"
    "cr \<notin> set (basic_prefix @ u @ '':'' @ p)"
    using assms by (auto simp: cr_def basic_prefix_def)
  have "split_str (auth_request u p) crlf = ''POST /connect HTTP/1.1'' # ''Host: gateway.icloud.com''
      # (basic_prefix @ u @ '':'' @ p) # split_str (''Content-Length: 0'' @ crlf @ crlf) crlf"
    unfolding auth_request_def
    using split_line [OF cr(1)] split_line [OF cr(2)] split_line [OF cr(3)] by (simp only: append.assoc)
  moreover have "\<not> has_prefix ''POST /connect HTTP/1.1'' basic_prefix"
    "\<not> has_prefix ''Host: gateway.icloud.com'' basic_prefix"
    by (simp_all add: basic_prefix_def)
  ultimately show ?thesis
    by (simp only: auth_ok_def check_lines.simps if_False has_prefix_append if_True trim_prefix_append)
qed

lemma contains_take: "contains (take n s) p \<Longrightarrow> contains s p"
  unfolding contains_iff by (metis append.assoc append_take_drop_id)

text \<open>The decoy announces more bytes than it carries.\<close>

lemma fallback_length: "length fallback_body = 139"
  by (simp add: fallback_body_def crlf_defs)

section \<open>Properties\<close>



text \<open>A server whose configured user name holds a colon locks everyone out: it splits the
  credentials at their first colon, so no request whatsoever is accepted.\<close>

lemma colon_user_locked_out:
  assumes "CHR '':'' \<in> set user"
  shows "\<not> auth_ok user pass req"
proof -
  have "\<not> check_lines user pass lines" for lines
    using assms by (induction lines) (auto split: prod.splits dest: cut_user)
  then show ?thesis by (simp add: auth_ok_def)
qed

text \<open>Both clients agree on the server's own responses however much of them one read
  returns: they go on exactly when the read holds at least the status line's first twelve
  bytes of the acceptance, and never on the rejection.\<close>

lemma clients_agree_on_responses:
  "desktop_accepts (take n ok_response) = (12 \<le> n) \<and> android_accepts (take n ok_response) = (12 \<le> n) \<and>
   \<not> desktop_accepts (take n fallback_response) \<and> \<not> android_accepts (take n fallback_response)"
proof -
  have ok: "ok_response = ''HTTP/1.1 200'' @ drop 12 ok_response" by code_simp
  have "take 11 ok_response = ''HTTP/1.1 20''" by code_simp
  then have short1: "\<not> desktop_accepts (take 11 ok_response)" by (simp add: desktop_accepts_def)
  have "CHR ''2'' \<notin> set fallback_response"
    by (simp add: fallback_response_def fallback_body_def crlf_defs)
  then have short2: "\<not> desktop_accepts fallback_response"
    by (auto simp: desktop_accepts_def contains_iff dest!: arg_cong [where f = set])
  have fb: "take 12 fallback_response \<noteq> ''HTTP/1.1 200''" by code_simp
  have mono: "desktop_accepts (take n s) \<Longrightarrow> desktop_accepts s" for n s
    unfolding desktop_accepts_def by (rule contains_take)
  have "\<not> desktop_accepts (take n ok_response)" if "n < 12"
    using short1 mono [of n "take 11 ok_response"] that by (auto simp: min_def)
  moreover have "desktop_accepts (take n ok_response) \<and> android_accepts (take n ok_response)" if "12 \<le> n"
  proof -
    have t: "take n ok_response = ''HTTP/1.1 200'' @ take (n - 12) (drop 12 ok_response)"
    proof -
      have "take n (p @ r) = p @ take (n - 12) r" if "length p = 12" for p r :: string
        using that \<open>12 \<le> n\<close> by simp
      from this [of "''HTTP/1.1 200''" "drop 12 ok_response"] show ?thesis
        by (simp only: ok [symmetric] list.size)
    qed
    have "contains (''HTTP/1.1 200'' @ x) ''200''" for x
      unfolding contains_iff by (rule exI [of _ "''HTTP/1.1 ''"]) simp
    then show ?thesis unfolding t desktop_accepts_def android_accepts_def by simp
  qed
  moreover have "\<not> android_accepts (take n ok_response)" if "n < 12"
    using that by (auto simp: android_accepts_def)
  moreover have "\<not> desktop_accepts (take n fallback_response)" using short2 mono by blast
  moreover have "\<not> android_accepts (take n fallback_response)"
    using fb by (auto simp: android_accepts_def min_def)
  ultimately show ?thesis by (cases "n < 12") auto
qed

end
