(* ===== verification/Server.thy ===== *)
theory Server
  imports Frame Runtime VPNAuth
begin

text \<open>
  The VPN server, \<open>server/internal/vpnserver/server.go\<close>: what \<open>handleClient\<close> does
  with one accepted connection, from the control stream to the deferred clean-up.  The QUIC
  connection, the TUN driver and the commands it runs are the session's environment: the
  results of its calls, in the order the code makes them.  The handler's effects are a list
  of actions in program order, and the registry it updates.
\<close>

section \<open>The server's address on the TUN device\<close>

text \<open>\<open>"10.0.8.0/24"\<close> gives \<open>"10.0.8.1/24"\<close>; an address with host bits is kept.\<close>

definition serverIPFromSubnet :: "string \<Rightarrow> string" where
  "serverIPFromSubnet subnet =
     (case ParseCIDR subnet of
        None \<Rightarrow> subnet
      | Some (ip, ipnet) \<Rightarrow>
          let network = ip_mask (net_ip ipnet) (net_mask ipnet);
              ip' = (if ip_equal ip network
                     then network[length network - 1 := network ! (length network - 1) OR 1]
                     else ip)
          in ip_string ip' @ ''/'' @ nat_str (mask_ones (net_mask ipnet)))"

text \<open>
  \<open>configureTUN\<close>: the commands it runs, and its error.  \<open>run cmd\<close> is the combined
  output and the error of \<open>exec.Command(cmd).CombinedOutput()\<close>.
\<close>

type_synonym shell = "string list \<Rightarrow> string \<times> go_error option"

definition first_mask_bytes :: "u8 list \<Rightarrow> string" where
  "first_mask_bytes m = dotted (take 4 m)"

definition configureTUN ::
  "string \<Rightarrow> shell \<Rightarrow> string \<Rightarrow> string \<Rightarrow> string list list \<times> go_error option" where
  "configureTUN goos run name subnet =
     (if subnet = [] then ([], None)
      else (case ParseCIDR subnet of
              None \<Rightarrow> ([], Some (Errf ''parse subnet %q'' [subnet]))
            | Some (ip, ipnet) \<Rightarrow>
                let ipStr = ip_string ip; maskStr = first_mask_bytes (net_mask ipnet) in
                if goos = ''linux'' then
                  (let c1 = [''ip'', ''addr'', ''add'', subnet, ''dev'', name] in
                   case run c1 of
                     (out, Some e) \<Rightarrow> ([c1], Some (Wrap ''ip addr add: %w: %s'' [out] e))
                   | (_, None) \<Rightarrow>
                       (let c2 = [''ip'', ''link'', ''set'', name, ''up''] in
                        case run c2 of
                          (out, Some e) \<Rightarrow> ([c1, c2], Some (Wrap ''ip link set up: %w: %s'' [out] e))
                        | (_, None) \<Rightarrow> ([c1, c2], None)))
                else if goos = ''darwin'' then
                  (let c = [''ifconfig'', name, ipStr, ipStr, ''netmask'', maskStr, ''up''] in
                   case run c of
                     (out, Some e) \<Rightarrow> ([c], Some (Wrap ''ifconfig: %w: %s'' [out] e))
                   | (_, None) \<Rightarrow> ([c], None))
                else ([], Some (Errf ''configureTUN not supported on %s'' [goos]))))"

section \<open>A session\<close>

record VPNServer =
  vs_ListenAddr :: string
  vs_Subnet :: string
  vs_Username :: string
  vs_Password :: string
  vs_Padding :: bool

record session_env =
  e_goos :: string
  e_remote :: "string option"
  e_now :: int
  e_ctl :: "(char option \<times> bool) list option"
  e_ok_write :: bool
  e_tun :: "string result"
  e_shell :: shell
  e_data :: bool
  e_up :: "u8 list"
  e_tun_write :: "nat \<Rightarrow> bool"
  e_down :: "u8 list list"
  e_data_write :: "nat \<Rightarrow> bool"
  e_sched :: "bool list"
  e_cut :: nat
  e_clock :: "nat \<Rightarrow> int"

text \<open>
  \<open>e_ctl\<close>: \<open>None\<close> when \<open>AcceptStream\<close> fails, otherwise the results of the reads of
  the control stream.  \<open>e_sched\<close> interleaves the two copying goroutines; \<open>e_cut\<close> is
  how far the sending one had come if the other one brings the process down.
\<close>

datatype session_act =
    CtlWrite string
  | CtlClose
  | ConnClose nat string
  | TunOpen string
  | TunClose
  | Command "string list"
  | DataClose
  | Pipe pipe_act

definition createTUN :: "string \<Rightarrow> string result \<Rightarrow> string result" where
  "createTUN name new =
     (case new of Inl e \<Rightarrow> Inl (Wrap ''create TUN %q: %w'' [name] e) | Inr dev \<Rightarrow> Inr dev)"

fun merge :: "bool list \<Rightarrow> 'a list \<Rightarrow> 'a list \<Rightarrow> 'a list" where
  "merge bs [] ys = ys"
| "merge bs (x # xs) [] = x # xs"
| "merge [] (x # xs) (y # ys) = x # merge [] xs (y # ys)"
| "merge (b # bs) (x # xs) (y # ys) =
     (if b then x # merge bs xs (y # ys) else y # merge bs (x # xs) ys)"

text \<open>A byte count, as the registry gets it: received from or sent to the client.\<close>

datatype dir = Up | Down

definition count_op :: "string \<Rightarrow> dir \<times> pipe_act \<Rightarrow> int \<Rightarrow> Runtime \<Rightarrow> Runtime" where
  "count_op i da now r =
     (case da of
        (Up, Count n) \<Rightarrow> AddClientTraffic now i (of_nat n) 0 r
      | (Down, Count n) \<Rightarrow> AddClientTraffic now i 0 (of_nat n) r
      | _ \<Rightarrow> r)"

fun count_all :: "string \<Rightarrow> (nat \<Rightarrow> int) \<Rightarrow> nat \<Rightarrow> (dir \<times> pipe_act) list \<Rightarrow> Runtime \<Rightarrow> Runtime" where
  "count_all i clock k [] r = r"
| "count_all i clock k (da # das) r = count_all i clock (Suc k) das (count_op i da (clock k) r)"

definition run_pipes :: "VPNServer \<Rightarrow> session_env \<Rightarrow> (dir \<times> pipe_act) list \<times> bool" where
  "run_pipes s env =
     (let (up, e) = srv_pipeQUICtoTUN (vs_Padding s) (e_tun_write env) 0 (e_up env);
          down = srv_pipeTUNtoQUIC (vs_Padding s) (e_data_write env) 0 (e_down env);
          crash = (e = SlicePanic)
      in (merge (e_sched env) (map (Pair Up) up)
            (map (Pair Down) (if crash then take (e_cut env) down else down)), crash))"

text \<open>
  The handler: the actions, the registry after them, and whether the process crashed (the
  handler's \<open>recover\<close> does not reach the goroutines it starts).  Deferred calls run last
  first: \<open>data.Close\<close>, \<open>iface.Close\<close>, \<open>UnregisterClient\<close>.
\<close>

definition after_auth :: "VPNServer \<Rightarrow> session_env \<Rightarrow> Runtime \<Rightarrow> session_act list \<times> Runtime \<times> bool" where
  "after_auth s env r0 =
     (let (clientID, r1) = RegisterClient (e_now env) (e_remote env) r0;
          r2 = SetClientUser clientID (vs_Username s) r1
      in case createTUN ''tun0'' (e_tun env) of
           Inl e \<Rightarrow> ([ConnClose 3 ''tun error''],
                    UnregisterClient clientID (SetClientError clientID (Some e) r2), False)
         | Inr dev \<Rightarrow>
             (let r3 = SetClientTUN clientID dev r2;
                  serverIP = serverIPFromSubnet (vs_Subnet s);
                  (cmds, err) = configureTUN (e_goos env) (e_shell env) dev serverIP;
                  r4 = SetClientError clientID err r3;
                  pre = TunOpen dev # map Command cmds
              in if \<not> e_data env then (pre @ [TunClose], UnregisterClient clientID r4, False)
                 else (let (das, crash) = run_pipes s env;
                           r5 = count_all clientID (e_clock env) 0 das r4;
                           acts = pre @ map (\<lambda>da. Pipe (snd da)) das
                       in if crash then (acts, r5, True)
                          else (acts @ [ConnClose 0 ''done'', DataClose, TunClose],
                                UnregisterClient clientID r5, False))))"

definition handleClient :: "VPNServer \<Rightarrow> session_env \<Rightarrow> Runtime \<Rightarrow> session_act list \<times> Runtime \<times> bool" where
  "handleClient s env r =
     (case e_ctl env of
        None \<Rightarrow> ([ConnClose 1 ''internal error''], r, False)
      | Some reads \<Rightarrow>
          (case read_auth [] reads of
             None \<Rightarrow> ([CtlClose, ConnClose 2 ''auth failed''], r, False)
           | Some authLine \<Rightarrow>
               if \<not> auth_ok (vs_Username s) (vs_Password s) authLine then
                 ([CtlWrite fallback_response, CtlClose, ConnClose 2 ''auth failed''], r, False)
               else if \<not> e_ok_write env then ([CtlClose, ConnClose 2 ''auth failed''], r, False)
               else (case after_auth s env r of
                       (acts, r', crash) \<Rightarrow> ([CtlWrite ok_response, CtlClose] @ acts, r', crash))))"

text \<open>
  \<open>Run\<close>: the accept loop, for the results of \<open>ln.Accept\<close> until the context ends: an
  error is logged and accepting goes on, except that \<open>context.Canceled\<close> ends the loop.
\<close>

datatype accept = Accepted nat | AcceptError | AcceptCanceled

fun accept_loop :: "accept list \<Rightarrow> nat list" where
  "accept_loop [] = []"
| "accept_loop (Accepted c # as) = c # accept_loop as"
| "accept_loop (AcceptError # as) = accept_loop as"
| "accept_loop (AcceptCanceled # as) = []"

section \<open>Lemmas\<close>

lemma merge_left: "\<forall>x\<in>set xs. P x \<Longrightarrow> \<forall>y\<in>set ys. \<not> P y \<Longrightarrow> filter P (merge bs xs ys) = xs"
  by (induction bs xs ys rule: merge.induct) (auto simp: filter_id_conv filter_empty_conv)

lemma merge_right: "\<forall>x\<in>set xs. \<not> P x \<Longrightarrow> \<forall>y\<in>set ys. P y \<Longrightarrow> filter P (merge bs xs ys) = ys"
  by (induction bs xs ys rule: merge.induct) (auto simp: filter_id_conv filter_empty_conv)

lemma merge_up: "map snd (filter (\<lambda>da. fst da = Up) (merge bs (map (Pair Up) xs) (map (Pair Down) ys))) = xs"
  by (subst merge_left) (auto simp: comp_def)

lemma merge_down: "map snd (filter (\<lambda>da. fst da = Down) (merge bs (map (Pair Up) xs) (map (Pair Down) ys))) = ys"
  by (subst merge_right) (auto simp: comp_def)

text \<open>Which client's entry an operation touches.\<close>

lemma clients_upd [simp]: "j \<noteq> i \<Longrightarrow> rt_clients (upd_client i f r) j = rt_clients r j"
  by (auto simp: upd_client_def put_client_def split: option.splits)

lemma only_own_entry [simp]:
  assumes "j \<noteq> i"
  shows "rt_clients (SetClientUser i u r) j = rt_clients r j"
    "rt_clients (SetClientTUN i u r) j = rt_clients r j"
    "rt_clients (SetClientError i e r) j = rt_clients r j"
    "rt_clients (AddClientTraffic now i a b r) j = rt_clients r j"
  using assms by (auto simp: SetClientUser_def SetClientTUN_def SetClientError_def AddClientTraffic_def
      split: option.splits)

lemma count_all_other: "j \<noteq> i \<Longrightarrow> rt_clients (count_all i clock k das r) j = rt_clients r j"
proof (induction das arbitrary: k r)
  case (Cons da das)
  then show ?case by (cases da) (auto simp: count_op_def split: dir.splits pipe_act.splits)
qed simp

lemma totals_keep [simp]:
  "rt_totalBytesIn (upd_client i f r) = rt_totalBytesIn r"
  "rt_totalBytesIn (SetClientUser i u r) = rt_totalBytesIn r"
  "rt_totalBytesIn (SetClientTUN i u r) = rt_totalBytesIn r"
  "rt_totalBytesIn (SetClientError i e r) = rt_totalBytesIn r"
  "rt_totalBytesIn (UnregisterClient i r) = rt_totalBytesIn r"
  "rt_totalBytesIn (snd (RegisterClient now rem r)) = rt_totalBytesIn r"
  by (auto simp: runtime_defs Let_def split: option.splits)

lemma totals_out_keep [simp]:
  "rt_totalBytesOut (upd_client i f r) = rt_totalBytesOut r"
  "rt_totalBytesOut (SetClientUser i u r) = rt_totalBytesOut r"
  "rt_totalBytesOut (SetClientTUN i u r) = rt_totalBytesOut r"
  "rt_totalBytesOut (SetClientError i e r) = rt_totalBytesOut r"
  "rt_totalBytesOut (UnregisterClient i r) = rt_totalBytesOut r"
  "rt_totalBytesOut (snd (RegisterClient now rem r)) = rt_totalBytesOut r"
  by (auto simp: runtime_defs Let_def split: option.splits)

lemma totals_traffic [simp]:
  "rt_totalBytesIn (AddClientTraffic now i a b r) = rt_totalBytesIn r + a"
  "rt_totalBytesOut (AddClientTraffic now i a b r) = rt_totalBytesOut r + b"
  by (simp_all add: AddClientTraffic_def)

definition dir_acts :: "dir \<Rightarrow> (dir \<times> pipe_act) list \<Rightarrow> pipe_act list" where
  "dir_acts d das = map snd (filter (\<lambda>da. fst da = d) das)"

lemma dir_acts_simps [simp]:
  "dir_acts d [] = []"
  "dir_acts d ((d', a) # das) = (if d' = d then a # dir_acts d das else dir_acts d das)"
  by (simp_all add: dir_acts_def)

lemma count_all_totals:
  "rt_totalBytesIn (count_all i clock k das r) = rt_totalBytesIn r + of_nat (counted (dir_acts Up das)) \<and>
   rt_totalBytesOut (count_all i clock k das r) = rt_totalBytesOut r + of_nat (counted (dir_acts Down das))"
proof (induction das arbitrary: k r)
  case (Cons da das)
  obtain d a where da: "da = (d, a)" by (cases da)
  show ?case by (cases d; cases a) (simp_all add: da count_op_def Cons)
qed simp

text \<open>Every registry update of a session is an operation of the registry.\<close>

lemma inv_steps:
  assumes "runtime_inv r"
  shows "runtime_inv (SetClientUser i u r)" "runtime_inv (SetClientTUN i u r)"
    "runtime_inv (SetClientError i e r)" "runtime_inv (UnregisterClient i r)"
    "runtime_inv (AddClientTraffic now i a b r)"
proof -
  have step: "runtime_inv (apply_op op r)" if "\<And>t rem. op \<noteq> Register t rem" for op
    by (rule registry.inv_step [OF assms runtime_step.intros]) (use that in \<open>auto split: runtime_op.splits\<close>)
  show "runtime_inv (SetClientUser i u r)" using step [of "SetUser i u"] by simp
  show "runtime_inv (SetClientTUN i u r)" using step [of "SetTUN i u"] by simp
  show "runtime_inv (SetClientError i e r)" using step [of "SetError i e"] by simp
  show "runtime_inv (UnregisterClient i r)" using step [of "Unregister i"] by simp
  show "runtime_inv (AddClientTraffic now i a b r)" using step [of "Traffic now i a b"] by simp
qed

lemma inv_count_all: "runtime_inv r \<Longrightarrow> runtime_inv (count_all i clock k das r)"
proof (induction das arbitrary: k r)
  case (Cons da das)
  then show ?case
    by (cases da) (auto simp: count_op_def inv_steps split: dir.splits pipe_act.splits)
qed simp

lemma Register_other: "j \<noteq> fst (RegisterClient now rem r) \<Longrightarrow> rt_clients (snd (RegisterClient now rem r)) j = rt_clients r j"
  by (simp add: RegisterClient_def put_client_def Let_def)

lemma Unregister_clients: "rt_clients (UnregisterClient i r) j = (if j = i then None else rt_clients r j)"
  by (simp add: UnregisterClient_def)

lemma fresh_fst:
  "runtime_inv r \<Longrightarrow> rt_nextClient r \<noteq> - 1 \<Longrightarrow> rt_clients r (fst (RegisterClient now rem r)) = None"
  using fresh_id [of r] by (simp add: RegisterClient_def Let_def)

lemma after_auth_registry:
  assumes "runtime_inv r0" "rt_nextClient r0 \<noteq> - 1" "after_auth s env r0 = (acts, r', False)"
  shows "rt_clients r' = rt_clients r0 \<and> runtime_inv r'"
proof -
  define i where "i = fst (RegisterClient (e_now env) (e_remote env) r0)"
  define r1 where "r1 = snd (RegisterClient (e_now env) (e_remote env) r0)"
  have reg: "RegisterClient (e_now env) (e_remote env) r0 = (i, r1)" by (simp add: i_def r1_def)
  have "runtime_inv r1" unfolding r1_def using assms(1,2) by (rule inv_Register)
  moreover have same: "rt_clients (UnregisterClient i q) = rt_clients r0"
    if "\<And>j. j \<noteq> i \<Longrightarrow> rt_clients q j = rt_clients r1 j" for q
    using that fresh_fst [OF assms(1,2)] Register_other
    by (intro ext) (auto simp: Unregister_clients i_def r1_def)
  ultimately show ?thesis
    using assms(3)
    by (auto simp: after_auth_def reg Let_def inv_steps inv_count_all count_all_other
        split: prod.splits sum.splits if_splits intro!: same)
qed

lemma after_auth_pipes:
  assumes "after_auth s env r0 = (acts, r', crash)" "Pipe a \<in> set acts"
  shows "\<exists>dev. e_tun env = Inr dev \<and> e_data env"
  using assms
  by (auto simp: after_auth_def createTUN_def Let_def split: prod.splits sum.splits if_splits)

lemma after_auth_crash:
  "after_auth s env r0 = (acts, r', True) \<Longrightarrow> vs_Padding s"
  using recv_no_panic [of "vs_Padding s" "e_tun_write env" 0 "e_up env"]
  by (cases "vs_Padding s")
     (auto simp: after_auth_def run_pipes_def Let_def split: prod.splits sum.splits if_splits)

text \<open>The packets of a session, in the order of its actions.\<close>

fun tun_of :: "session_act list \<Rightarrow> u8 list list" where
  "tun_of [] = []"
| "tun_of (Pipe (TunWrite p) # as) = p # tun_of as"
| "tun_of (_ # as) = tun_of as"

fun data_of :: "session_act list \<Rightarrow> u8 list" where
  "data_of [] = []"
| "data_of (Pipe (Write b) # as) = b @ data_of as"
| "data_of (_ # as) = data_of as"

lemma of_append [simp]: "tun_of (as @ bs) = tun_of as @ tun_of bs" "data_of (as @ bs) = data_of as @ data_of bs"
  by (induction as rule: tun_of.induct) (auto)

lemma of_commands [simp]: "tun_of (map Command cs) = []" "data_of (map Command cs) = []"
  by (induction cs) auto

definition well_directed :: "(dir \<times> pipe_act) list \<Rightarrow> bool" where
  "well_directed das \<longleftrightarrow> (\<forall>(d, a)\<in>set das. case a of TunWrite _ \<Rightarrow> d = Up | Write _ \<Rightarrow> d = Down | Count _ \<Rightarrow> True)"

lemma of_pipes:
  "well_directed das \<Longrightarrow> tun_of (map (\<lambda>da. Pipe (snd da)) das) = tun_packets (dir_acts Up das)
   \<and> data_of (map (\<lambda>da. Pipe (snd da)) das) = sent_bytes (dir_acts Down das)"
proof (induction das)
  case (Cons da das)
  then show ?case by (cases da; cases "snd da"; cases "fst da") (auto simp: well_directed_def)
qed simp

lemma up_acts: "Write b \<notin> set (fst (srv_pipeQUICtoTUN padding tw k bs))"
proof (induction bs arbitrary: padding k rule: length_induct)
  case (1 bs)
  have IH: "Write b \<notin> set (fst (srv_pipeQUICtoTUN q tw j xs))" if "length xs < length bs" for q j xs
    using 1 that by blast
  show ?case
    by (subst srv_pipeQUICtoTUN.simps) (simp add: Let_def HeaderSize_def split_beta IH)
qed

lemma down_acts: "a \<in> set (srv_pipeTUNtoQUIC padding wr k ps) \<Longrightarrow> \<forall>b. a \<noteq> TunWrite b"
proof (induction ps arbitrary: k)
  case (Cons p ps)
  have "\<forall>b. x \<noteq> TunWrite b" if "x \<in> set (fst (do_writes wr j cs))" for x j cs
    using that do_writes_prefix [of wr j cs] by auto
  then show ?case using Cons by (auto simp: Let_def split_beta split: if_splits)
qed simp

lemma set_merge: "set (merge bs xs ys) = set xs \<union> set ys"
  by (induction bs xs ys rule: merge.induct) auto

lemma run_pipes_directed: "well_directed (fst (run_pipes s env))"
proof -
  have "case a of TunWrite _ \<Rightarrow> d = Up | Write _ \<Rightarrow> d = Down | Count _ \<Rightarrow> True"
    if "(d, a) \<in> set (fst (run_pipes s env))" for d a
  proof -
    from that consider (up) "d = Up" "a \<in> set (fst (srv_pipeQUICtoTUN (vs_Padding s) (e_tun_write env) 0 (e_up env)))"
      | (down) "d = Down" "a \<in> set (srv_pipeTUNtoQUIC (vs_Padding s) (e_data_write env) 0 (e_down env))"
      by (auto simp: run_pipes_def Let_def split_beta set_merge split: if_splits dest: in_set_takeD)
    then show ?thesis
    proof cases
      case up
      then show ?thesis using up_acts by (auto split: pipe_act.splits)
    next
      case down
      then show ?thesis using down_acts [OF down(2)] by (auto split: pipe_act.splits)
    qed
  qed
  then show ?thesis by (auto simp: well_directed_def)
qed

lemma run_pipes_up:
  "dir_acts Up (fst (run_pipes s env)) = fst (srv_pipeQUICtoTUN (vs_Padding s) (e_tun_write env) 0 (e_up env))"
  by (simp add: run_pipes_def Let_def split_beta dir_acts_def merge_up)

lemma run_pipes_down:
  "\<not> snd (run_pipes s env) \<Longrightarrow>
   dir_acts Down (fst (run_pipes s env)) = srv_pipeTUNtoQUIC (vs_Padding s) (e_data_write env) 0 (e_down env)"
  by (simp add: run_pipes_def Let_def split_beta dir_acts_def merge_down)

lemma run_pipes_crash:
  "snd (run_pipes s env) \<longleftrightarrow>
   snd (srv_pipeQUICtoTUN (vs_Padding s) (e_tun_write env) 0 (e_up env)) = SlicePanic"
  by (simp add: run_pipes_def Let_def split_beta)

text \<open>Whether the peer gets past the authentication.\<close>

definition authenticated :: "VPNServer \<Rightarrow> session_env \<Rightarrow> bool" where
  "authenticated s env \<longleftrightarrow>
     (case e_ctl env of
        None \<Rightarrow> False
      | Some reads \<Rightarrow>
          (case read_auth [] reads of None \<Rightarrow> False | Some req \<Rightarrow> auth_ok (vs_Username s) (vs_Password s) req))"

lemma handle_rejected:
  "\<not> (authenticated s env \<and> e_ok_write env) \<Longrightarrow>
   fst (snd (handleClient s env r)) = r \<and> \<not> snd (snd (handleClient s env r)) \<and>
   set (fst (handleClient s env r)) \<subseteq>
     {CtlWrite fallback_response, CtlClose, ConnClose 1 ''internal error'', ConnClose 2 ''auth failed''}"
  by (auto simp: handleClient_def authenticated_def split: option.splits)

lemma handle_accepted:
  "authenticated s env \<Longrightarrow> e_ok_write env \<Longrightarrow>
   handleClient s env r = (case after_auth s env r of
      (acts, r', crash) \<Rightarrow> ([CtlWrite ok_response, CtlClose] @ acts, r', crash))"
  by (auto simp: handleClient_def authenticated_def split: option.splits)

section \<open>Properties\<close>

text \<open>C5: A peer that does not authenticate gets nothing: no TUN device, no command run, no
  data stream, no entry in the registry, not a byte counted, and no crash; it sees the decoy
  page at most, and the connection is closed.\<close>

theorem unauthenticated_is_inert:
  assumes "\<not> authenticated s env"
  shows "fst (snd (handleClient s env r)) = r \<and> \<not> snd (snd (handleClient s env r)) \<and>
    set (fst (handleClient s env r)) \<subseteq>
      {CtlWrite fallback_response, CtlClose, ConnClose 1 ''internal error'', ConnClose 2 ''auth failed''} \<and>
    (\<exists>code msg. last (fst (handleClient s env r)) = ConnClose code msg)"
  using assms handle_rejected [of s env r]
  by (auto simp: handleClient_def authenticated_def split: option.splits)

definition sample_server :: "bool \<Rightarrow> VPNServer" where
  "sample_server padding = \<lparr>vs_ListenAddr = '':443'', vs_Subnet = ''10.0.8.0/24'', vs_Username = ''me'',
     vs_Password = ''pw'', vs_Padding = padding\<rparr>"

definition sample_env :: "string \<Rightarrow> u8 list \<Rightarrow> u8 list list \<Rightarrow> session_env" where
  "sample_env req up down = \<lparr>e_goos = ''linux'', e_remote = Some ''198.51.100.7:4000'', e_now = 5,
     e_ctl = Some (arrive req), e_ok_write = True, e_tun = Inr ''tun0'', e_shell = (\<lambda>_. ([], None)),
     e_data = True, e_up = up, e_tun_write = (\<lambda>_. True), e_down = down, e_data_write = (\<lambda>_. True),
     e_sched = [], e_cut = 0, e_clock = (\<lambda>_. 6)\<rparr>"

lemma sample_auth: "authenticated (sample_server padding) (sample_env (auth_request ''me'' ''pw'') up down)"
proof -
  have "read_auth [] (arrive (auth_request ''me'' ''pw'') @ []) = Some (auth_request ''me'' ''pw'')"
    by (rule read_request) (simp_all add: crlf_defs)
  moreover have "auth_ok ''me'' ''pw'' (auth_request ''me'' ''pw'')"
    by (subst check_request) (simp_all add: crlf_defs)
  ultimately show ?thesis by (simp add: authenticated_def sample_env_def sample_server_def)
qed

lemma sample_ok_write: "e_ok_write (sample_env req up down)"
  by (simp add: sample_env_def)

lemma sample_reject: "\<not> authenticated (sample_server padding) (sample_env (auth_request ''me'' ''no'') up down)"
proof -
  have "read_auth [] (arrive (auth_request ''me'' ''no'') @ []) = Some (auth_request ''me'' ''no'')"
    by (rule read_request) (simp_all add: crlf_defs)
  moreover have "\<not> auth_ok ''me'' ''pw'' (auth_request ''me'' ''no'')"
    by (subst check_request) (simp_all add: crlf_defs)
  ultimately show ?thesis by (simp add: authenticated_def sample_env_def sample_server_def)
qed

theorem unauthenticated_is_inert_witness:
  "fst (snd (handleClient (sample_server True) (sample_env (auth_request ''me'' ''no'') [] []) (NewRuntime sample_cfg 0)))
     = NewRuntime sample_cfg 0"
  using unauthenticated_is_inert [OF sample_reject] by blast

text \<open>C6: A session leaves the registry as it found it, except for the totals: unless the
  process crashes, exactly the clients live before it are live after it, untouched, and the
  registry's invariant holds again, on every path through the handler.\<close>

theorem session_restores_registry:
  assumes "runtime_inv r" "rt_nextClient r \<noteq> - 1" "handleClient s env r = (acts, r', False)"
  shows "rt_clients r' = rt_clients r \<and> runtime_inv r'"
proof (cases "authenticated s env \<and> e_ok_write env")
  case True
  then obtain acts' where "after_auth s env r = (acts', r', False)"
    using assms(3) handle_accepted [of s env r] by (auto split: prod.splits)
  then show ?thesis by (rule after_auth_registry [OF assms(1,2)])
next
  case False
  then show ?thesis using handle_rejected [of s env r] assms by simp
qed

theorem session_restores_registry_witness:
  "\<exists>acts r'. handleClient (sample_server False) (sample_env (auth_request ''me'' ''pw'') [] [[1]]) (NewRuntime sample_cfg 0)
      = (acts, r', False) \<and> rt_clients r' = Map.empty"
proof -
  let ?h = "handleClient (sample_server False) (sample_env (auth_request ''me'' ''pw'') [] [[1]]) (NewRuntime sample_cfg 0)"
  have "\<not> snd (snd ?h)"
    unfolding handle_accepted [OF sample_auth sample_ok_write]
    using after_auth_crash [of "sample_server False"]
    by (auto simp: sample_server_def split: prod.splits)
  then obtain acts r' where h: "?h = (acts, r', False)" by (metis prod.collapse)
  have "rt_nextClient (NewRuntime sample_cfg 0) \<noteq> - 1" by (simp add: NewRuntime_def)
  from session_restores_registry [OF inv_New this h] have "rt_clients r' = Map.empty"
    by (simp add: NewRuntime_def)
  then show ?thesis using h by auto
qed

text \<open>C4: An authenticated session moves packets faithfully in both directions at once: for
  any interleaving of its two loops, the packets written to the TUN device are exactly those
  the client framed, in order, the bytes sent are exactly the frames of the packets read from
  the device, and the server's totals grow by the payload bytes of each direction.\<close>

theorem session_forwards:
  assumes "authenticated s env" "e_ok_write env" "e_tun env = Inr dev" "e_data env"
    and "e_tun_write env = (\<lambda>_. True)" "e_data_write env = (\<lambda>_. True)"
    and "e_up env = concat (map (frame (vs_Padding s)) ps)" "\<forall>p\<in>set ps. frame_ok (vs_Padding s) p"
  shows "case handleClient s env r of (acts, r', crash) \<Rightarrow>
    \<not> crash \<and> tun_of acts = ps \<and> data_of acts = concat (map (frame (vs_Padding s)) (e_down env)) \<and>
    rt_totalBytesIn r' = rt_totalBytesIn r + of_nat (sum_list (map length ps)) \<and>
    rt_totalBytesOut r' = rt_totalBytesOut r + of_nat (sum_list (map length (e_down env)))"
proof -
  let ?p = "vs_Padding s"
  have up: "tun_packets (fst (srv_pipeQUICtoTUN ?p (\<lambda>_. True) 0 (e_up env))) = ps"
    using received_frames [OF assms(8)] by (simp add: assms(7) received_def)
  have "snd (srv_pipeQUICtoTUN ?p (\<lambda>_. True) 0 (e_up env)) = StreamEnd"
    using recv_end_frames [OF assms(8), of 0 "[]"] by (simp add: assms(7) recv_Nil)
  then have nc: "\<not> snd (run_pipes s env)" by (simp add: run_pipes_crash assms(5))
  obtain das where das: "run_pipes s env = (das, False)" using nc by (cases "run_pipes s env") auto
  have U: "dir_acts Up das = fst (srv_pipeQUICtoTUN ?p (\<lambda>_. True) 0 (e_up env))"
    using run_pipes_up [of s env] by (simp add: das assms(5))
  have D: "dir_acts Down das = srv_pipeTUNtoQUIC ?p (\<lambda>_. True) 0 (e_down env)"
    using run_pipes_down [OF nc] by (simp add: das assms(6))
  have w: "well_directed das" using run_pipes_directed [of s env] by (simp add: das)
  have pk: "tun_of (map (\<lambda>da. Pipe (snd da)) das) = ps"
    "data_of (map (\<lambda>da. Pipe (snd da)) das) = concat (map (frame ?p) (e_down env))"
    using of_pipes [OF w] by (simp_all add: U D up srv_sent_all)
  have cnt: "counted (dir_acts Up das) = sum_list (map length ps)"
    "counted (dir_acts Down das) = sum_list (map length (e_down env))"
    by (simp_all add: U D recv_count_packets up srv_counted_all)
  obtain i r1 where reg: "RegisterClient (e_now env) (e_remote env) r = (i, r1)"
    by (cases "RegisterClient (e_now env) (e_remote env) r")
  have r1: "rt_totalBytesIn r1 = rt_totalBytesIn r" "rt_totalBytesOut r1 = rt_totalBytesOut r"
    using totals_keep(6) totals_out_keep(6) by (metis reg snd_conv)+
  show ?thesis
    unfolding handle_accepted [OF assms(1,2)]
    by (simp add: after_auth_def reg assms(3,4) createTUN_def das Let_def split_beta
        pk r1 count_all_totals cnt)
qed

theorem session_forwards_witness:
  "tun_of (fst (handleClient (sample_server False)
     (sample_env (auth_request ''me'' ''pw'') (concat (map (frame False) [[7, 8], []])) [[9]]) (NewRuntime sample_cfg 0))) = [[7, 8], []]"
proof -
  let ?r = "NewRuntime sample_cfg 0"
  let ?env = "sample_env (auth_request ''me'' ''pw'') (concat (map (frame False) [[7, 8], []])) [[9]]"
  have "case handleClient (sample_server False) ?env ?r of (acts, r', crash) \<Rightarrow>
    \<not> crash \<and> tun_of acts = [[7, 8], []] \<and>
    data_of acts = concat (map (frame (vs_Padding (sample_server False))) (e_down ?env)) \<and>
    rt_totalBytesIn r' = rt_totalBytesIn ?r + of_nat (sum_list (map length [[7, 8], [] :: u8 list])) \<and>
    rt_totalBytesOut r' = rt_totalBytesOut ?r + of_nat (sum_list (map length (e_down ?env)))"
    by (rule session_forwards [OF sample_auth sample_ok_write])
       (simp_all add: sample_env_def sample_server_def frame_ok_def MaxPacketLen_def)
  then show ?thesis by (simp add: split_beta)
qed

text \<open>C22: Only a server run with padding can be crashed by a session, and only by a peer
  that authenticated: that peer needs to send four bytes more.  The bound check on the
  header is not the bound of the buffer.\<close>

theorem session_crash:
  "(snd (snd (handleClient s env r)) \<longrightarrow> authenticated s env \<and> vs_Padding s) \<and>
   snd (snd (handleClient (sample_server True)
     (sample_env (auth_request ''me'' ''pw'') (put_u32 65533) []) r))"
proof -
  have "authenticated s env \<and> vs_Padding s" if "snd (snd (handleClient s env r))"
  proof (cases "authenticated s env \<and> e_ok_write env")
    case True
    then have "snd (snd (after_auth s env r))"
      using that handle_accepted [of s env r] by (simp add: split_beta)
    then show ?thesis using after_auth_crash True by (metis (full_types) prod.collapse)
  next
    case False
    then show ?thesis using handle_rejected [of s env r] that by blast
  qed
  moreover have "snd (snd (handleClient (sample_server True)
     (sample_env (auth_request ''me'' ''pw'') (put_u32 65533) []) r))"
  proof -
    have "snd (srv_pipeQUICtoTUN True tw 0 (put_u32 65533)) = SlicePanic" for tw
      using padded_panic [of 65533 tw 0 "[]"] by simp
    then have c: "snd (run_pipes (sample_server True) (sample_env (auth_request ''me'' ''pw'') (put_u32 65533) []))"
      by (simp add: run_pipes_crash sample_server_def sample_env_def)
    show ?thesis
      unfolding handle_accepted [OF sample_auth sample_ok_write] using c
      by (simp add: after_auth_def createTUN_def Let_def split_beta sample_env_def [of _ "put_u32 65533"])
  qed
  ultimately show ?thesis by blast
qed

theorem session_crash_witness:
  "\<not> snd (snd (handleClient (sample_server False) (sample_env [] [] []) (NewRuntime sample_cfg 0)))"
  using session_crash [of "sample_server False" "sample_env [] [] []" "NewRuntime sample_cfg 0"]
  by (auto simp: sample_server_def)

end
