(* ===== verification/Config.thy ===== *)
theory Config
  imports Interfaces NetAddr
begin

text \<open>
  Package \<open>pkg/config\<close>: the configuration records shared by server and client,
  \<open>ValidateTunnel\<close>, the rule-mode proxy rules with their normalisation and validation,
  the server's defaults, and \<open>ExpandHome\<close>.
\<close>

section \<open>Records (tunnel.go, server.go)\<close>

record SSHCfg =
  ssh_Addr :: string
  ssh_User :: string
  ssh_IdentityFile :: string
  ssh_Passphrase :: string
  ssh_Password :: string

record TunCfg =
  tun_Subnet :: string
  tun_DNS :: "string list"
  tun_AutoRoute :: bool
  tun_TLSCert :: string
  tun_TLSKey :: string
  tun_SNI :: string
  tun_PinSHA256 :: string
  tun_Padding :: "bool option"

record TunnelCfg =
  t_Name :: string
  t_Mode :: string
  t_SSH :: SSHCfg
  t_Listen :: string
  t_Forward :: string
  t_Transport :: string
  t_Tun :: TunCfg

text \<open>Durations are nanoseconds.\<close>

record ConnDefaults =
  KeepAliveInterval :: int
  KeepAliveMaxFails :: int
  DialTimeout :: int
  ReconnectInitial :: int
  ReconnectMax :: int

record UserCfg =
  Username :: string
  PasswordHash :: string

record AuthCfg =
  APIToken :: string
  Users :: "UserCfg list"

record WebCfg =
  web_Addr :: string
  web_Auth :: AuthCfg

record TLSCfg =
  tls_Cert :: string
  tls_Key :: string

record NATCfg =
  nat_Enabled :: bool
  nat_Iface :: string

record ServerCfg =
  srv_Listen :: string
  srv_Subnet :: string
  srv_Web :: WebCfg
  srv_TLS :: TLSCfg
  srv_NAT :: NATCfg

definition ModeLocal :: string where "ModeLocal = ''local''"
definition ModeRemote :: string where "ModeRemote = ''remote''"
definition ModeDynamic :: string where "ModeDynamic = ''dynamic''"
definition ModeVPN :: string where "ModeVPN = ''vpn''"

lemmas mode_defs = ModeLocal_def ModeRemote_def ModeDynamic_def ModeVPN_def

definition empty_ssh :: SSHCfg where
  "empty_ssh = \<lparr>ssh_Addr = [], ssh_User = [], ssh_IdentityFile = [], ssh_Passphrase = [], ssh_Password = []\<rparr>"

definition empty_tun :: TunCfg where
  "empty_tun = \<lparr>tun_Subnet = [], tun_DNS = [], tun_AutoRoute = False, tun_TLSCert = [], tun_TLSKey = [],
     tun_SNI = [], tun_PinSHA256 = [], tun_Padding = None\<rparr>"

definition empty_tunnel :: TunnelCfg where
  "empty_tunnel = \<lparr>t_Name = [], t_Mode = [], t_SSH = empty_ssh, t_Listen = [], t_Forward = [],
     t_Transport = [], t_Tun = empty_tun\<rparr>"

section \<open>ValidateTunnel (validate.go)\<close>

text \<open>\<open>None\<close> is the nil error.\<close>

definition ValidateTunnel :: "TunnelCfg \<Rightarrow> go_error option" where
  "ValidateTunnel t =
     (let ssh_checks =
        (if ssh_Addr (t_SSH t) = [] \<or> ssh_User (t_SSH t) = []
         then Some (Err ''ssh.addr and ssh.user are required'')
         else if ssh_IdentityFile (t_SSH t) = [] \<and> ssh_Password (t_SSH t) = []
         then Some (Err ''ssh.identity_file or ssh.password must be set'')
         else None)
      in
      if t_Name t = [] then Some (Err ''name is required'')
      else if t_Mode t = ModeLocal \<or> t_Mode t = ModeRemote then
        (if t_Listen t = [] \<or> t_Forward t = []
         then Some (Errf ''%s mode requires listen and forward'' [t_Mode t])
         else ssh_checks)
      else if t_Mode t = ModeDynamic then
        (if t_Listen t = [] then Some (Err ''dynamic mode requires listen'') else ssh_checks)
      else if t_Mode t = ModeVPN then
        (if t_Forward t = [] then Some (Err ''vpn mode requires server address'')
         else if ssh_User (t_SSH t) = [] then Some (Err ''vpn mode requires auth username'')
         else if ssh_Password (t_SSH t) = [] then Some (Err ''vpn mode requires auth password or token'')
         else None)
      else Some (Errf ''unknown mode %q (want local|remote|dynamic|vpn)'' [t_Mode t]))"

text \<open>What a valid configuration is, field by field.\<close>

definition tunnel_ready :: "TunnelCfg \<Rightarrow> bool" where
  "tunnel_ready t \<longleftrightarrow>
     t_Name t \<noteq> [] \<and>
     (let ssh = t_SSH t;
          login = (ssh_Addr ssh \<noteq> [] \<and> ssh_User ssh \<noteq> [] \<and> (ssh_IdentityFile ssh \<noteq> [] \<or> ssh_Password ssh \<noteq> []))
      in (t_Mode t \<in> {ModeLocal, ModeRemote} \<and> t_Listen t \<noteq> [] \<and> t_Forward t \<noteq> [] \<and> login) \<or>
         (t_Mode t = ModeDynamic \<and> t_Listen t \<noteq> [] \<and> login) \<or>
         (t_Mode t = ModeVPN \<and> t_Forward t \<noteq> [] \<and> ssh_User ssh \<noteq> [] \<and> ssh_Password ssh \<noteq> []))"

lemma ValidateTunnel_ready: "ValidateTunnel t = None \<longleftrightarrow> tunnel_ready t"
  by (auto simp: ValidateTunnel_def tunnel_ready_def Let_def mode_defs)

lemma ValidateTunnel_vpn:
  "t_Mode t = ModeVPN \<Longrightarrow>
   ValidateTunnel t = None \<longleftrightarrow>
     t_Name t \<noteq> [] \<and> t_Forward t \<noteq> [] \<and> ssh_User (t_SSH t) \<noteq> [] \<and> ssh_Password (t_SSH t) \<noteq> []"
  by (simp add: ValidateTunnel_ready tunnel_ready_def mode_defs Let_def)

lemma ValidateTunnel_nonempty_name: "ValidateTunnel t = None \<Longrightarrow> t_Name t \<noteq> []"
  by (simp add: ValidateTunnel_ready tunnel_ready_def)

section \<open>ExpandHome (validate.go)\<close>

text \<open>
  \<open>home\<close> is the answer of \<open>os.UserHomeDir\<close>; \<open>path_join\<close> is
  \<open>filepath.Join\<close> of the platform.
\<close>

definition ExpandHome ::
  "go_error + string \<Rightarrow> (string \<Rightarrow> string \<Rightarrow> string) \<Rightarrow> string \<Rightarrow> string result" where
  "ExpandHome home path_join p =
     (if p = [] \<or> hd p \<noteq> CHR ''~'' then Inr p
      else (case home of
              Inl e \<Rightarrow> Inl (Wrap ''resolve home dir for %q: %w'' [p] e)
            | Inr h \<Rightarrow>
                if p = ''~'' then Inr h
                else if has_prefix p ''~/'' \<or> has_prefix p [CHR ''~'', CHR 0x5C]
                then Inr (path_join h (drop 2 p))
                else Inr p))"

section \<open>Proxy rules (proxy_rule.go)\<close>

record ProxyRule =
  rule_ID :: string
  rule_Name :: string
  rule_Type :: string
  rule_Value :: string
  rule_Outbound :: string
  rule_Enabled :: bool

definition ProxyRuleTypeDomain :: string where "ProxyRuleTypeDomain = ''domain''"
definition ProxyRuleTypeDomainSuffix :: string where "ProxyRuleTypeDomainSuffix = ''domain_suffix''"
definition ProxyRuleTypeDomainKeyword :: string where "ProxyRuleTypeDomainKeyword = ''domain_keyword''"
definition ProxyRuleTypeIPCIDR :: string where "ProxyRuleTypeIPCIDR = ''ip_cidr''"
definition ProxyRuleTypeRuleSet :: string where "ProxyRuleTypeRuleSet = ''rule_set''"
definition ProxyRuleSetGeoIPCN :: string where "ProxyRuleSetGeoIPCN = ''geoip-cn''"
definition ProxyRuleSetGeositeGeolocationCN :: string where
  "ProxyRuleSetGeositeGeolocationCN = ''geosite-geolocation-cn''"
definition ProxyRuleSetGeositeGeolocationNotCN :: string where
  "ProxyRuleSetGeositeGeolocationNotCN = ''geosite-geolocation-!cn''"
definition ProxyRuleOutboundProxy :: string where "ProxyRuleOutboundProxy = ''selected''"
definition ProxyRuleOutboundDirect :: string where "ProxyRuleOutboundDirect = ''direct''"
definition ProxyRuleOutboundBlock :: string where "ProxyRuleOutboundBlock = ''block''"

lemmas rule_consts = ProxyRuleTypeDomain_def ProxyRuleTypeDomainSuffix_def
  ProxyRuleTypeDomainKeyword_def ProxyRuleTypeIPCIDR_def ProxyRuleTypeRuleSet_def
  ProxyRuleSetGeoIPCN_def ProxyRuleSetGeositeGeolocationCN_def
  ProxyRuleSetGeositeGeolocationNotCN_def ProxyRuleOutboundProxy_def
  ProxyRuleOutboundDirect_def ProxyRuleOutboundBlock_def

definition NormalizeProxyRuleType :: "string \<Rightarrow> string" where
  "NormalizeProxyRuleType ruleType =
     (let s = lower_trim ruleType in
      if s = ProxyRuleTypeDomain then ProxyRuleTypeDomain
      else if s = ProxyRuleTypeDomainKeyword then ProxyRuleTypeDomainKeyword
      else if s = ProxyRuleTypeIPCIDR \<or> s = ''cidr'' then ProxyRuleTypeIPCIDR
      else if s = ProxyRuleTypeRuleSet \<or> s = ''rule-set'' \<or> s = ''ruleset'' then ProxyRuleTypeRuleSet
      else ProxyRuleTypeDomainSuffix)"

definition IsKnownProxyRuleSet :: "string \<Rightarrow> bool" where
  "IsKnownProxyRuleSet ruleSet \<longleftrightarrow>
     lower_trim ruleSet \<in> {ProxyRuleSetGeoIPCN, ProxyRuleSetGeositeGeolocationCN,
       ProxyRuleSetGeositeGeolocationNotCN}"

definition NormalizeProxyRuleOutbound :: "string \<Rightarrow> string" where
  "NormalizeProxyRuleOutbound outbound =
     (let s = lower_trim outbound in
      if s = ProxyRuleOutboundDirect then ProxyRuleOutboundDirect
      else if s = ProxyRuleOutboundBlock then ProxyRuleOutboundBlock
      else if s = ''proxy'' \<or> s = ProxyRuleOutboundProxy then ProxyRuleOutboundProxy
      else ProxyRuleOutboundDirect)"

text \<open>The body of the loop of \<open>NormalizeProxyRules\<close>.\<close>

definition normalize_rule :: "ProxyRule \<Rightarrow> ProxyRule" where
  "normalize_rule r =
     (let ty = NormalizeProxyRuleType (rule_Type r); v = trim_space (rule_Value r)
      in r\<lparr>rule_ID := trim_space (rule_ID r),
           rule_Name := trim_space (rule_Name r),
           rule_Type := ty,
           rule_Value := (if ty = ProxyRuleTypeRuleSet then to_lower v else v),
           rule_Outbound := NormalizeProxyRuleOutbound (rule_Outbound r)\<rparr>)"

text \<open>A Go slice may be nil: \<open>None\<close> is the nil slice, which the caller distinguishes.\<close>

definition NormalizeProxyRules :: "ProxyRule list option \<Rightarrow> ProxyRule list option" where
  "NormalizeProxyRules rules = map_option (map normalize_rule) rules"

definition defaultIPRule :: "string \<Rightarrow> string \<Rightarrow> string \<Rightarrow> ProxyRule" where
  "defaultIPRule i n v =
     \<lparr>rule_ID = i, rule_Name = n, rule_Type = ProxyRuleTypeIPCIDR, rule_Value = v,
      rule_Outbound = ProxyRuleOutboundDirect, rule_Enabled = True\<rparr>"

definition defaultRuleSetRule :: "string \<Rightarrow> string \<Rightarrow> string \<Rightarrow> string \<Rightarrow> ProxyRule" where
  "defaultRuleSetRule i n v out =
     \<lparr>rule_ID = i, rule_Name = n, rule_Type = ProxyRuleTypeRuleSet, rule_Value = v,
      rule_Outbound = out, rule_Enabled = True\<rparr>"

text \<open>The display names of the built-in rules, as UTF-8.\<close>

definition label_reserved4 :: string where
  "label_reserved4 =
     ''IPv4 '' @ [CHR 0xE4, CHR 0xBF, CHR 0x9D, CHR 0xE7, CHR 0x95, CHR 0x99, CHR 0xE5,
     CHR 0x9C, CHR 0xB0, CHR 0xE5, CHR 0x9D, CHR 0x80]"

definition label_private4 :: string where
  "label_private4 =
     ''IPv4 '' @ [CHR 0xE7, CHR 0xA7, CHR 0x81, CHR 0xE6, CHR 0x9C, CHR 0x89, CHR 0xE5,
     CHR 0x9C, CHR 0xB0, CHR 0xE5, CHR 0x9D, CHR 0x80]"

definition label_carrier :: string where
  "label_carrier =
     [CHR 0xE8, CHR 0xBF, CHR 0x90, CHR 0xE8, CHR 0x90, CHR 0xA5, CHR 0xE5, CHR 0x95,
     CHR 0x86, CHR 0xE5, CHR 0x86, CHR 0x85, CHR 0xE7, CHR 0xBD, CHR 0x91]"

definition label_loopback :: string where
  "label_loopback =
     [CHR 0xE6, CHR 0x9C, CHR 0xAC, CHR 0xE6, CHR 0x9C, CHR 0xBA, CHR 0xE5, CHR 0x9C,
     CHR 0xB0, CHR 0xE5, CHR 0x9D, CHR 0x80]"

definition label_link_local :: string where
  "label_link_local =
     [CHR 0xE9, CHR 0x93, CHR 0xBE, CHR 0xE8, CHR 0xB7, CHR 0xAF, CHR 0xE6, CHR 0x9C,
     CHR 0xAC, CHR 0xE5, CHR 0x9C, CHR 0xB0]"

definition label_multicast :: string where
  "label_multicast =
     [CHR 0xE7, CHR 0xBB, CHR 0x84, CHR 0xE6, CHR 0x92, CHR 0xAD, CHR 0xE5, CHR 0x9C,
     CHR 0xB0, CHR 0xE5, CHR 0x9D, CHR 0x80]"

definition label_loopback6 :: string where
  "label_loopback6 =
     ''IPv6 '' @ [CHR 0xE6, CHR 0x9C, CHR 0xAC, CHR 0xE6, CHR 0x9C, CHR 0xBA, CHR 0xE5,
     CHR 0x9C, CHR 0xB0, CHR 0xE5, CHR 0x9D, CHR 0x80]"

definition label_private6 :: string where
  "label_private6 =
     ''IPv6 '' @ [CHR 0xE7, CHR 0xA7, CHR 0x81, CHR 0xE6, CHR 0x9C, CHR 0x89, CHR 0xE5,
     CHR 0x9C, CHR 0xB0, CHR 0xE5, CHR 0x9D, CHR 0x80]"

definition label_link_local6 :: string where
  "label_link_local6 =
     ''IPv6 '' @ [CHR 0xE9, CHR 0x93, CHR 0xBE, CHR 0xE8, CHR 0xB7, CHR 0xAF, CHR 0xE6,
     CHR 0x9C, CHR 0xAC, CHR 0xE5, CHR 0x9C, CHR 0xB0]"

definition label_foreign :: string where
  "label_foreign =
     [CHR 0xE5, CHR 0x9B, CHR 0xBD, CHR 0xE5, CHR 0xA4, CHR 0x96, CHR 0xE5, CHR 0x9F,
     CHR 0x9F, CHR 0xE5, CHR 0x90, CHR 0x8D]"

definition label_cn_domain :: string where
  "label_cn_domain =
     [CHR 0xE5, CHR 0x9B, CHR 0xBD, CHR 0xE5, CHR 0x86, CHR 0x85, CHR 0xE5, CHR 0x9F,
     CHR 0x9F, CHR 0xE5, CHR 0x90, CHR 0x8D]"

definition label_cn_ip :: string where
  "label_cn_ip =
     [CHR 0xE5, CHR 0x9B, CHR 0xBD, CHR 0xE5, CHR 0x86, CHR 0x85] @ '' IP''"

definition DefaultProxyRules :: "ProxyRule list" where
  "DefaultProxyRules =
     [defaultIPRule ''lan-ipv4-this-network'' label_reserved4 ''0.0.0.0/8'',
      defaultIPRule ''lan-ipv4-private-10'' label_private4 ''10.0.0.0/8'',
      defaultIPRule ''lan-ipv4-carrier'' label_carrier ''100.64.0.0/10'',
      defaultIPRule ''lan-ipv4-loopback'' label_loopback ''127.0.0.0/8'',
      defaultIPRule ''lan-ipv4-link-local'' label_link_local ''169.254.0.0/16'',
      defaultIPRule ''lan-ipv4-private-172'' label_private4 ''172.16.0.0/12'',
      defaultIPRule ''lan-ipv4-private-192'' label_private4 ''192.168.0.0/16'',
      defaultIPRule ''lan-ipv4-multicast'' label_multicast ''224.0.0.0/4'',
      defaultIPRule ''lan-ipv6-loopback'' label_loopback6 ''::1/128'',
      defaultIPRule ''lan-ipv6-unique-local'' label_private6 ''fc00::/7'',
      defaultIPRule ''lan-ipv6-link-local'' label_link_local6 ''fe80::/10'',
      defaultRuleSetRule ''foreign-geosite'' label_foreign ProxyRuleSetGeositeGeolocationNotCN ProxyRuleOutboundProxy,
      defaultRuleSetRule ''cn-geosite'' label_cn_domain ProxyRuleSetGeositeGeolocationCN ProxyRuleOutboundDirect,
      defaultRuleSetRule ''cn-geoip'' label_cn_ip ProxyRuleSetGeoIPCN ProxyRuleOutboundDirect]"

text \<open>
  The loop of \<open>ValidateProxyRules\<close> over the normalised rules; \<open>i\<close> is the 1-based
  position that the messages print.
\<close>

definition check_rule :: "nat \<Rightarrow> ProxyRule \<Rightarrow> go_error option" where
  "check_rule i r =
     (if \<not> rule_Enabled r then None
      else if rule_Value r = [] then Some (Errf ''rule %d has an empty match value'' [nat_str i])
      else if \<exists>c\<in>set (rule_Value r). c \<in> {CHR 0x0D, CHR 0x0A, CHR 0x09, CHR '' ''}
      then Some (Errf ''rule %d match value contains whitespace'' [nat_str i])
      else if rule_Type r = ProxyRuleTypeIPCIDR \<and> ParsePrefix (rule_Value r) = None
      then Some (Wrap ''rule %d has invalid CIDR %q: %w'' [nat_str i, rule_Value r]
                   (External ''netip.ParsePrefix''))
      else if rule_Type r = ProxyRuleTypeRuleSet \<and> \<not> IsKnownProxyRuleSet (rule_Value r)
      then Some (Errf ''rule %d uses unsupported rule set %q'' [nat_str i, rule_Value r])
      else None)"

fun check_rules :: "nat \<Rightarrow> ProxyRule list \<Rightarrow> go_error option" where
  "check_rules i [] = None"
| "check_rules i (r # rs) =
     (case check_rule i r of Some e \<Rightarrow> Some e | None \<Rightarrow> check_rules (Suc i) rs)"

definition ValidateProxyRules :: "ProxyRule list option \<Rightarrow> go_error option" where
  "ValidateProxyRules rules =
     (case NormalizeProxyRules rules of None \<Rightarrow> None | Some rs \<Rightarrow> check_rules 1 rs)"

section \<open>Server defaults (server.go)\<close>

definition DefaultServerConfig :: ServerCfg where
  "DefaultServerConfig =
     \<lparr>srv_Listen = '':1562'', srv_Subnet = ''10.0.8.0/24'',
      srv_Web = \<lparr>web_Addr = ''0.0.0.0:8080'', web_Auth = \<lparr>APIToken = [], Users = []\<rparr>\<rparr>,
      srv_TLS = \<lparr>tls_Cert = [], tls_Key = []\<rparr>, srv_NAT = \<lparr>nat_Enabled = False, nat_Iface = []\<rparr>\<rparr>"

definition applyDefaults :: "ServerCfg \<Rightarrow> ServerCfg" where
  "applyDefaults c =
     (let d = DefaultServerConfig in
      c\<lparr>srv_Listen := (if srv_Listen c = [] then srv_Listen d else srv_Listen c),
        srv_Subnet := (if srv_Subnet c = [] then srv_Subnet d else srv_Subnet c),
        srv_Web := (if web_Addr (srv_Web c) = []
                    then (srv_Web c)\<lparr>web_Addr := web_Addr (srv_Web d)\<rparr> else srv_Web c)\<rparr>)"

text \<open>
  \<open>LoadServerConfig\<close>: \<open>readfile\<close> is \<open>os.ReadFile\<close> (\<open>None\<close> the
  not-exist error) and \<open>unmarshal\<close> is \<open>yaml.Unmarshal\<close> into the given record.
\<close>

definition LoadServerConfig ::
  "(string \<Rightarrow> (string result) option) \<Rightarrow> (string \<Rightarrow> ServerCfg \<Rightarrow> ServerCfg result) \<Rightarrow>
   string \<Rightarrow> ServerCfg result" where
  "LoadServerConfig readfile unmarshal path =
     (let cfg = DefaultServerConfig in
      if path = [] then Inr cfg
      else (case readfile path of
              None \<Rightarrow> Inr cfg
            | Some (Inl e) \<Rightarrow> Inl (Wrap ''read server config: %w'' [] e)
            | Some (Inr data) \<Rightarrow>
                (case unmarshal data cfg of
                   Inl e \<Rightarrow> Inl (Wrap ''parse server config: %w'' [] e)
                 | Inr c \<Rightarrow> Inr (applyDefaults c))))"

section \<open>Lemmas\<close>

subsection \<open>Normalisation is a projection\<close>

lemma lower_trim_eval:
  "lower_trim ''domain'' = ''domain''" "lower_trim ''domain_keyword'' = ''domain_keyword''"
  "lower_trim ''ip_cidr'' = ''ip_cidr''" "lower_trim ''rule_set'' = ''rule_set''"
  "lower_trim ''domain_suffix'' = ''domain_suffix''" "lower_trim ''direct'' = ''direct''"
  "lower_trim ''block'' = ''block''" "lower_trim ''selected'' = ''selected''"
  by code_simp+

lemma NormalizeProxyRuleType_idem:
  "NormalizeProxyRuleType (NormalizeProxyRuleType s) = NormalizeProxyRuleType s"
  by (simp add: NormalizeProxyRuleType_def Let_def rule_consts lower_trim_eval)

lemma NormalizeProxyRuleOutbound_idem:
  "NormalizeProxyRuleOutbound (NormalizeProxyRuleOutbound s) = NormalizeProxyRuleOutbound s"
  by (simp add: NormalizeProxyRuleOutbound_def Let_def rule_consts lower_trim_eval)

lemma NormalizeProxyRuleOutbound_range:
  "NormalizeProxyRuleOutbound s \<in> {ProxyRuleOutboundDirect, ProxyRuleOutboundBlock, ProxyRuleOutboundProxy}"
  by (simp add: NormalizeProxyRuleOutbound_def Let_def)

lemma normalize_rule_idem: "normalize_rule (normalize_rule r) = normalize_rule r"
  by (simp add: normalize_rule_def Let_def NormalizeProxyRuleType_idem
      NormalizeProxyRuleOutbound_idem trim_to_lower)

lemma NormalizeProxyRules_idem:
  "NormalizeProxyRules (NormalizeProxyRules rs) = NormalizeProxyRules rs"
  by (cases rs) (simp_all add: NormalizeProxyRules_def normalize_rule_idem)

interpretation rules: checked_normaliser NormalizeProxyRules ValidateProxyRules
  by unfold_locales (simp_all add: NormalizeProxyRules_idem ValidateProxyRules_def)

interpretation rule: normaliser normalize_rule
  by unfold_locales (rule normalize_rule_idem)

lemma applyDefaults_idem: "applyDefaults (applyDefaults c) = applyDefaults c"
  by (simp add: applyDefaults_def Let_def DefaultServerConfig_def)

interpretation srvcfg: normaliser applyDefaults
  by unfold_locales (rule applyDefaults_idem)

subsection \<open>What validation guarantees\<close>

definition rule_usable :: "ProxyRule \<Rightarrow> bool" where
  "rule_usable r \<longleftrightarrow>
     rule_Value r \<noteq> [] \<and> (\<forall>c\<in>set (rule_Value r). c \<notin> {CHR 0x0D, CHR 0x0A, CHR 0x09, CHR '' ''}) \<and>
     (rule_Type r = ProxyRuleTypeIPCIDR \<longrightarrow> ParsePrefix (rule_Value r) \<noteq> None) \<and>
     (rule_Type r = ProxyRuleTypeRuleSet \<longrightarrow> IsKnownProxyRuleSet (rule_Value r))"

lemma check_rule_None: "check_rule i r = None \<longleftrightarrow> (rule_Enabled r \<longrightarrow> rule_usable r)"
  by (auto simp: check_rule_def rule_usable_def)

lemma check_rules_None:
  "check_rules i rs = None \<longleftrightarrow> (\<forall>r\<in>set rs. rule_Enabled r \<longrightarrow> rule_usable r)"
proof (induction rs arbitrary: i)
  case (Cons r rs)
  then show ?case using check_rule_None [of i r] by (cases "check_rule i r") auto
qed simp

lemma ValidateProxyRules_None:
  "ValidateProxyRules (Some rs) = None \<longleftrightarrow>
     (\<forall>r\<in>set rs. rule_Enabled r \<longrightarrow> rule_usable (normalize_rule r))"
  by (simp add: ValidateProxyRules_def NormalizeProxyRules_def check_rules_None)
     (auto simp: normalize_rule_def Let_def)

section \<open>Properties\<close>

text \<open>Rule validation says exactly which rule sets the proxy can be started with: every
  enabled rule, once normalised, has a value without blanks that is a CIDR block or a known
  rule set where its type asks for one.  Respelling rules (case, blanks, aliases) does not
  change the verdict, and normalising again changes nothing.\<close>

lemma proxy_rules_checked:
  "(ValidateProxyRules (Some rs) = None \<longleftrightarrow>
     list_all (\<lambda>r. if rule_Enabled r then rule_usable (normalize_rule r) else True) rs) \<and>
   ValidateProxyRules (NormalizeProxyRules (Some rs)) = ValidateProxyRules (Some rs) \<and>
   (NormalizeProxyRules ^^ Suc n) (Some rs) = NormalizeProxyRules (Some rs)"
  using rules.iterate [of "Suc n" "Some rs"]
  by (simp only: ValidateProxyRules_None rules.check_norm) (simp add: list_all_iff)

text \<open>The built-in rules pass the program's own validation, as normalised they are
  unchanged in number, and none of them is dropped as disabled.\<close>

lemma default_rules_valid:
  "ValidateProxyRules (Some DefaultProxyRules) = None \<and> list_all rule_Enabled DefaultProxyRules \<and>
   distinct (map rule_ID DefaultProxyRules)"
proof (intro conjI)
  show "ValidateProxyRules (Some DefaultProxyRules) = None" by code_simp
  show "list_all rule_Enabled DefaultProxyRules" by code_simp
  show "distinct (map rule_ID DefaultProxyRules)" by code_simp
qed

text \<open>Tunnel validation accepts exactly the configurations whose mode has every field it
  needs; each of the four modes has its own list.\<close>

lemma tunnel_validation:
  "ValidateTunnel t = None \<longleftrightarrow> tunnel_ready t"
  by (rule ValidateTunnel_ready)

end
