(* ===== verification/VPNSub.thy ===== *)
theory VPNSub
  imports Config
begin

text \<open>
  Package \<open>pkg/subscription\<close>: VPN subscription documents, as SafeLink JSON and as Clash
  YAML.  The marshallers of \<open>encoding/json\<close> and \<open>yaml.v3\<close> are parameters (the
  record \<open>codecs\<close>, over any type \<open>'b\<close> of byte strings); what they read and write are
  the two document structs.
\<close>

section \<open>Documents\<close>

definition sub_FormatAuto :: string where "sub_FormatAuto = ''auto''"
definition FormatSafeLinkJSON :: string where "FormatSafeLinkJSON = ''safelink-json''"
definition sub_FormatClashYAML :: string where "sub_FormatClashYAML = ''clash-yaml''"
definition clashSafeLinkType :: string where "clashSafeLinkType = ''safelink-vpn''"

lemmas sub_formats = sub_FormatAuto_def FormatSafeLinkJSON_def sub_FormatClashYAML_def

record Document =
  doc_Version :: int
  doc_Tunnels :: "TunnelCfg list"

record sub_clashProxy =
  cl_Name :: string
  cl_Type :: string
  cl_Server :: string
  cl_Port :: int
  cl_Username :: string
  cl_Password :: string
  cl_SNI :: string
  cl_Subnet :: string
  cl_DNS :: "string list"
  cl_AutoRoute :: bool
  cl_PinSHA256 :: string
  cl_Padding :: "bool option"

record 'b codecs =
  json_marshal :: "Document \<Rightarrow> 'b result"
  json_unmarshal :: "'b \<Rightarrow> Document result"
  yaml_marshal :: "sub_clashProxy list \<Rightarrow> 'b result"
  yaml_unmarshal :: "'b \<Rightarrow> sub_clashProxy list result"

section \<open>Operations\<close>

definition onlyVPN :: "TunnelCfg list \<Rightarrow> TunnelCfg list" where
  "onlyVPN tunnels = filter (\<lambda>t. t_Mode t = ModeVPN) tunnels"

definition sub_normalizeFormat :: "string \<Rightarrow> string" where
  "sub_normalizeFormat fmt =
     (let s = lower_trim fmt in
      if s = [] then sub_FormatAuto
      else if s = ''json'' then FormatSafeLinkJSON
      else if s = ''clash'' \<or> s = ''yaml'' \<or> s = ''yml'' then sub_FormatClashYAML
      else s)"

definition splitHostPort :: "string \<Rightarrow> (string \<times> int) result" where
  "splitHostPort addr =
     (case SplitHostPort addr of
        Inl e \<Rightarrow> Inl (Wrap ''invalid forward address %q: %w'' [addr] e)
      | Inr (host, portText) \<Rightarrow>
          (case atoi portText of
             Some port \<Rightarrow>
               if port \<le> 0 \<or> port > 65535 then Inl (Errf ''invalid port %q'' [portText]) else Inr (host, port)
           | None \<Rightarrow> Inl (Errf ''invalid port %q'' [portText])))"

text \<open>The loop of \<open>normalizeTunnels\<close>.\<close>

definition default_mode :: "TunnelCfg \<Rightarrow> TunnelCfg" where
  "default_mode t = (if t_Mode t = [] then t\<lparr>t_Mode := ModeVPN\<rparr> else t)"

fun normalize_loop :: "TunnelCfg list \<Rightarrow> TunnelCfg list result" where
  "normalize_loop [] = Inr []"
| "normalize_loop (t0 # ts) =
     (let t = default_mode t0 in
      if t_Mode t \<noteq> ModeVPN then normalize_loop ts
      else (case ValidateTunnel t of
              Some e \<Rightarrow> Inl (Wrap ''%s: %w'' [t_Name t] e)
            | None \<Rightarrow> (case normalize_loop ts of Inl e \<Rightarrow> Inl e | Inr out \<Rightarrow> Inr (t # out))))"

definition normalizeTunnels :: "TunnelCfg list \<Rightarrow> TunnelCfg list result" where
  "normalizeTunnels tunnels =
     (case normalize_loop tunnels of
        Inl e \<Rightarrow> Inl e
      | Inr out \<Rightarrow> if out = [] then Inl (Err ''subscription contains no VPN tunnels'') else Inr out)"

definition clash_tunnel :: "sub_clashProxy \<Rightarrow> TunnelCfg" where
  "clash_tunnel p =
     empty_tunnel\<lparr>
       t_Name := cl_Name p, t_Mode := ModeVPN,
       t_Forward := JoinHostPort (cl_Server p) (itoa (cl_Port p)),
       t_SSH := empty_ssh\<lparr>ssh_User := cl_Username p, ssh_Password := cl_Password p\<rparr>,
       t_Tun := empty_tun\<lparr>tun_Subnet := cl_Subnet p, tun_DNS := cl_DNS p, tun_AutoRoute := cl_AutoRoute p,
         tun_SNI := cl_SNI p, tun_PinSHA256 := cl_PinSHA256 p, tun_Padding := cl_Padding p\<rparr>\<rparr>"

fun clash_loop :: "sub_clashProxy list \<Rightarrow> TunnelCfg list result" where
  "clash_loop [] = Inr []"
| "clash_loop (p # ps) =
     (if cl_Type p \<noteq> clashSafeLinkType then clash_loop ps
      else if cl_Name p = [] \<or> cl_Server p = [] \<or> cl_Port p = 0
      then Inl (Errf ''safelink-vpn proxy %q requires name, server and port'' [cl_Name p])
      else (case clash_loop ps of Inl e \<Rightarrow> Inl e | Inr ts \<Rightarrow> Inr (clash_tunnel p # ts)))"

definition sub_parseClashYAML :: "'b codecs \<Rightarrow> 'b \<Rightarrow> TunnelCfg list result" where
  "sub_parseClashYAML c data =
     (case yaml_unmarshal c data of
        Inl e \<Rightarrow> Inl e
      | Inr proxies \<Rightarrow>
          if proxies = [] then Inl (Err ''Clash YAML contains no proxies'')
          else (case clash_loop proxies of
                  Inl e \<Rightarrow> Inl e
                | Inr tunnels \<Rightarrow>
                    if tunnels = [] then Inl (Err ''Clash YAML contains no safelink-vpn proxies'')
                    else normalizeTunnels tunnels))"

definition parseSafeLinkJSON :: "'b codecs \<Rightarrow> 'b \<Rightarrow> TunnelCfg list result" where
  "parseSafeLinkJSON c data =
     (case json_unmarshal c data of
        Inl e \<Rightarrow> Inl e
      | Inr doc \<Rightarrow>
          if doc_Tunnels doc = [] then Inl (Err ''SafeLink JSON contains no tunnels'')
          else normalizeTunnels (doc_Tunnels doc))"

definition sub_Parse :: "'b codecs \<Rightarrow> 'b \<Rightarrow> string \<Rightarrow> (TunnelCfg list \<times> string) result" where
  "sub_Parse c data fmt =
     (let tag = (\<lambda>f r. case r of Inl e \<Rightarrow> Inl e | Inr ts \<Rightarrow> Inr (ts, f));
          f = sub_normalizeFormat fmt
      in if f = FormatSafeLinkJSON then tag FormatSafeLinkJSON (parseSafeLinkJSON c data)
         else if f = sub_FormatClashYAML then tag sub_FormatClashYAML (sub_parseClashYAML c data)
         else if f = sub_FormatAuto then
           (case parseSafeLinkJSON c data of
              Inr ts \<Rightarrow> Inr (ts, FormatSafeLinkJSON)
            | Inl _ \<Rightarrow>
                (case sub_parseClashYAML c data of
                   Inr ts \<Rightarrow> Inr (ts, sub_FormatClashYAML)
                 | Inl _ \<Rightarrow> Inl (Err ''subscription is neither SafeLink JSON nor supported Clash YAML'')))
         else Inl (Errf ''unsupported subscription format %q'' [fmt]))"

definition EncodeSafeLinkJSON :: "'b codecs \<Rightarrow> TunnelCfg list \<Rightarrow> 'b result" where
  "EncodeSafeLinkJSON c tunnels = json_marshal c \<lparr>doc_Version = 1, doc_Tunnels = onlyVPN tunnels\<rparr>"

definition clash_proxy :: "TunnelCfg \<Rightarrow> string \<Rightarrow> int \<Rightarrow> sub_clashProxy" where
  "clash_proxy t host port =
     \<lparr>cl_Name = t_Name t, cl_Type = clashSafeLinkType, cl_Server = host, cl_Port = port,
      cl_Username = ssh_User (t_SSH t), cl_Password = ssh_Password (t_SSH t),
      cl_SNI = tun_SNI (t_Tun t), cl_Subnet = tun_Subnet (t_Tun t), cl_DNS = tun_DNS (t_Tun t),
      cl_AutoRoute = tun_AutoRoute (t_Tun t), cl_PinSHA256 = tun_PinSHA256 (t_Tun t),
      cl_Padding = tun_Padding (t_Tun t)\<rparr>"

fun encode_loop :: "TunnelCfg list \<Rightarrow> sub_clashProxy list result" where
  "encode_loop [] = Inr []"
| "encode_loop (t # ts) =
     (case splitHostPort (t_Forward t) of
        Inl e \<Rightarrow> Inl (Wrap ''%s: %w'' [t_Name t] e)
      | Inr (host, port) \<Rightarrow>
          (case encode_loop ts of Inl e \<Rightarrow> Inl e | Inr ps \<Rightarrow> Inr (clash_proxy t host port # ps)))"

definition EncodeClashYAML :: "'b codecs \<Rightarrow> TunnelCfg list \<Rightarrow> 'b result" where
  "EncodeClashYAML c tunnels =
     (case encode_loop (onlyVPN tunnels) of Inl e \<Rightarrow> Inl e | Inr ps \<Rightarrow> yaml_marshal c ps)"

section \<open>What parsing guarantees\<close>

lemma normalize_loop_valid:
  "normalize_loop ts = Inr out \<Longrightarrow> list_all (\<lambda>t. t_Mode t = ModeVPN \<and> ValidateTunnel t = None) out"
  by (induction ts arbitrary: out) (auto simp: Let_def split: if_splits option.splits sum.splits)

lemma normalizeTunnels_valid:
  "normalizeTunnels ts = Inr out \<Longrightarrow>
   out \<noteq> [] \<and> list_all (\<lambda>t. t_Mode t = ModeVPN \<and> ValidateTunnel t = None) out"
  using normalize_loop_valid by (auto simp: normalizeTunnels_def split: sum.splits if_splits)

lemma normalize_loop_id:
  "list_all (\<lambda>t. t_Mode t = ModeVPN \<and> ValidateTunnel t = None) ts \<Longrightarrow> normalize_loop ts = Inr ts"
  by (induction ts) (auto simp: default_mode_def mode_defs)

lemma normalizeTunnels_id:
  "ts \<noteq> [] \<Longrightarrow> list_all (\<lambda>t. t_Mode t = ModeVPN \<and> ValidateTunnel t = None) ts \<Longrightarrow>
   normalizeTunnels ts = Inr ts"
  by (simp add: normalizeTunnels_def normalize_loop_id)

lemma sub_Parse_valid:
  "sub_Parse c data fmt = Inr (ts, f) \<Longrightarrow>
   ts \<noteq> [] \<and> list_all (\<lambda>t. t_Mode t = ModeVPN \<and> ValidateTunnel t = None) ts"
  by (auto simp: sub_Parse_def Let_def sub_parseClashYAML_def parseSafeLinkJSON_def
      split: if_splits sum.splits dest: normalizeTunnels_valid)

section \<open>Round trips\<close>

text \<open>A tunnel that can be shared: a valid VPN tunnel whose server address splits.\<close>

definition shareable :: "TunnelCfg \<Rightarrow> bool" where
  "shareable t \<longleftrightarrow> t_Mode t = ModeVPN \<and> ValidateTunnel t = None \<and>
     (case splitHostPort (t_Forward t) of Inl _ \<Rightarrow> False | Inr (h, _) \<Rightarrow> h \<noteq> [])"

text \<open>What a Clash document carries of a tunnel.\<close>

definition clash_view :: "TunnelCfg \<Rightarrow> TunnelCfg" where
  "clash_view t =
     (case splitHostPort (t_Forward t) of
        Inl _ \<Rightarrow> t
      | Inr (h, p) \<Rightarrow> clash_tunnel (clash_proxy t h p))"

lemma splitHostPort_range: "splitHostPort a = Inr (h, p) \<Longrightarrow> 0 < p \<and> p \<le> 65535"
  by (auto simp: splitHostPort_def split: sum.splits prod.splits option.splits if_splits)

lemma splitHostPort_host: "splitHostPort a = Inr (h, p) \<Longrightarrow> host_text h"
  by (auto simp: splitHostPort_def split: sum.splits prod.splits option.splits if_splits
      dest: SplitHostPort_parts)

lemma splitHostPort_join:
  "host_text h \<Longrightarrow> 0 < p \<Longrightarrow> p \<le> 65535 \<Longrightarrow> splitHostPort (JoinHostPort h (itoa p)) = Inr (h, p)"
  by (simp add: splitHostPort_def SplitHostPort_JoinHostPort port_text_itoa atoi_itoa)

lemma clash_view_valid:
  assumes "shareable t"
  shows "t_Mode (clash_view t) = ModeVPN \<and> ValidateTunnel (clash_view t) = None"
proof -
  obtain h p where hp: "splitHostPort (t_Forward t) = Inr (h, p)" "h \<noteq> []"
    using assms by (auto simp: shareable_def split: sum.splits)
  have "JoinHostPort h (itoa p) \<noteq> []" by (simp add: JoinHostPort_def)
  then show ?thesis
    using assms hp ValidateTunnel_vpn [of t] ValidateTunnel_vpn [of "clash_view t"]
    by (simp add: shareable_def clash_view_def clash_tunnel_def clash_proxy_def)
qed

lemma encode_clash_loop:
  assumes "list_all shareable ts"
  shows "\<exists>ps. encode_loop ts = Inr ps \<and> clash_loop ps = Inr (map clash_view ts) \<and> length ps = length ts"
  using assms
proof (induction ts)
  case (Cons t ts)
  then obtain ps where ps: "encode_loop ts = Inr ps" "clash_loop ps = Inr (map clash_view ts)"
      "length ps = length ts" by auto
  obtain h p where hp: "splitHostPort (t_Forward t) = Inr (h, p)" "h \<noteq> []"
    using Cons.prems by (auto simp: shareable_def split: sum.splits)
  then have p: "p \<noteq> 0" using splitHostPort_range by fastforce
  have "t_Name t \<noteq> []" using Cons.prems by (simp add: shareable_def ValidateTunnel_nonempty_name)
  then show ?case
    using ps hp p by (simp add: clash_proxy_def clash_view_def)
qed simp

lemma clash_view_idem:
  assumes "shareable t"
  shows "shareable (clash_view t) \<and> clash_view (clash_view t) = clash_view t"
proof -
  obtain h p where hp: "splitHostPort (t_Forward t) = Inr (h, p)" "h \<noteq> []"
    using assms by (auto simp: shareable_def split: sum.splits)
  have f: "splitHostPort (t_Forward (clash_view t)) = Inr (h, p)"
    using hp splitHostPort_join splitHostPort_host splitHostPort_range
    by (auto simp: clash_view_def clash_tunnel_def clash_proxy_def)
  then have "shareable (clash_view t)"
    using clash_view_valid [OF assms] hp by (simp add: shareable_def)
  moreover have "clash_view (clash_view t) = clash_tunnel (clash_proxy (clash_view t) h p)"
    using f by (simp add: clash_view_def)
  then have "clash_view (clash_view t) = clash_view t"
    using hp by (simp add: clash_view_def clash_tunnel_def clash_proxy_def)
  ultimately show ?thesis by simp
qed

section \<open>Properties\<close>

text \<open>Publishing tunnels and reading the document back: SafeLink JSON gives the same VPN tunnels,
  Clash YAML gives them reduced to the fields a Clash document carries (and reduced ones are given
  back unchanged), for every pair of marshallers that are inverse on the two document structs.\<close>

lemma published_tunnels_roundtrip:
  assumes "\<And>doc. \<exists>b. json_marshal c doc = Inr b \<and> json_unmarshal c b = Inr doc"
    and "\<And>ps. \<exists>b. yaml_marshal c ps = Inr b \<and> yaml_unmarshal c b = Inr ps"
    and "onlyVPN ts \<noteq> []" "list_all shareable (onlyVPN ts)"
  shows "bind_result (EncodeSafeLinkJSON c ts) (parseSafeLinkJSON c) = Inr (onlyVPN ts) \<and>
    bind_result (EncodeClashYAML c ts) (sub_parseClashYAML c) = Inr (map clash_view (onlyVPN ts))"
proof -
  have v: "list_all (\<lambda>t. t_Mode t = ModeVPN \<and> ValidateTunnel t = None) (onlyVPN ts)"
    using assms(4) by (auto simp: list_all_iff shareable_def)
  obtain b where "json_marshal c \<lparr>doc_Version = 1, doc_Tunnels = onlyVPN ts\<rparr> = Inr b"
      "json_unmarshal c b = Inr \<lparr>doc_Version = 1, doc_Tunnels = onlyVPN ts\<rparr>"
    using assms(1) by blast
  then have "bind_result (EncodeSafeLinkJSON c ts) (parseSafeLinkJSON c) = Inr (onlyVPN ts)"
    using assms(3) v by (simp add: EncodeSafeLinkJSON_def parseSafeLinkJSON_def normalizeTunnels_id)
  moreover
  obtain ps where ps: "encode_loop (onlyVPN ts) = Inr ps"
      "clash_loop ps = Inr (map clash_view (onlyVPN ts))" "length ps = length (onlyVPN ts)"
    using encode_clash_loop [OF assms(4)] by blast
  obtain y where "yaml_marshal c ps = Inr y" "yaml_unmarshal c y = Inr ps" using assms(2) by blast
  moreover have "list_all (\<lambda>t. t_Mode t = ModeVPN \<and> ValidateTunnel t = None) (map clash_view (onlyVPN ts))"
    using assms(4) clash_view_valid by (simp add: list_all_iff)
  moreover have "ps \<noteq> []" using ps(3) assms(3) by auto
  ultimately show ?thesis
    using ps assms(3) by (simp add: EncodeClashYAML_def sub_parseClashYAML_def normalizeTunnels_id)
qed

text \<open>Marshallers that keep the struct itself, and a tunnel to publish.\<close>

datatype struct_bytes = JSON Document | YAML "sub_clashProxy list"

definition struct_codecs :: "struct_bytes codecs" where
  "struct_codecs =
     \<lparr>json_marshal = (\<lambda>d. Inr (JSON d)),
      json_unmarshal = (\<lambda>b. case b of JSON d \<Rightarrow> Inr d | YAML _ \<Rightarrow> Inl (External ''json'')),
      yaml_marshal = (\<lambda>p. Inr (YAML p)),
      yaml_unmarshal = (\<lambda>b. case b of YAML p \<Rightarrow> Inr p | JSON _ \<Rightarrow> Inl (External ''yaml''))\<rparr>"

definition shared_tunnel :: TunnelCfg where
  "shared_tunnel = empty_tunnel\<lparr>t_Name := ''home'', t_Mode := ModeVPN, t_Forward := ''vpn.example:443'',
     t_SSH := empty_ssh\<lparr>ssh_User := ''u'', ssh_Password := ''p''\<rparr>\<rparr>"

end
