(* ===== verification/Url.thy ===== *)
theory Url
  imports NetAddr
begin

text \<open>
  The parts of Go's \<open>encoding/base64\<close> and \<open>net/url\<close> that the subscription
  parsers call: \<open>Encoding.DecodeString\<close> for the four standard encodings,
  \<open>url.Parse\<close> for references with an authority, \<open>url.QueryUnescape\<close>,
  \<open>URL.Query\<close>, \<open>Hostname\<close> and \<open>Port\<close>.
\<close>

section \<open>Base64\<close>

definition b64_value :: "bool \<Rightarrow> char \<Rightarrow> nat option" where
  "b64_value url c =
     (let n = (of_char c :: nat) in
      if 65 \<le> n \<and> n \<le> 90 then Some (n - 65)
      else if 97 \<le> n \<and> n \<le> 122 then Some (n - 71)
      else if 48 \<le> n \<and> n \<le> 57 then Some (n + 4)
      else if n = (if url then 45 else 43) then Some 62
      else if n = (if url then 95 else 47) then Some 63
      else None)"

definition b64_char :: "nat \<Rightarrow> char" where
  "b64_char v =
     (if v < 26 then char_of (v + 65) else if v < 52 then char_of (v + 71)
      else if v < 62 then char_of (v - 4) else if v = 62 then CHR ''+'' else CHR ''/'')"

definition byte1 :: "nat \<Rightarrow> nat \<Rightarrow> char" where "byte1 x y = char_of (x * 4 + y div 16)"
definition byte2 :: "nat \<Rightarrow> nat \<Rightarrow> char" where "byte2 y z = char_of (y mod 16 * 16 + z div 4)"
definition byte3 :: "nat \<Rightarrow> nat \<Rightarrow> char" where "byte3 z w = char_of (z mod 4 * 64 + w)"

text \<open>
  The decoder on its four-character groups.  With padding (\<open>StdEncoding\<close>,
  \<open>URLEncoding\<close>) the last group is filled up with \<open>=\<close>; without
  (\<open>RawStdEncoding\<close>, \<open>RawURLEncoding\<close>) it may be cut short.
\<close>

fun b64_groups :: "bool \<Rightarrow> (char \<Rightarrow> nat option) \<Rightarrow> string \<Rightarrow> string option" where
  "b64_groups pad v [] = Some []"
| "b64_groups pad v [a] = None"
| "b64_groups pad v [a, b] =
     (if pad then None
      else (case (v a, v b) of (Some x, Some y) \<Rightarrow> Some [byte1 x y] | _ \<Rightarrow> None))"
| "b64_groups pad v [a, b, c] =
     (if pad then None
      else (case (v a, v b, v c) of
              (Some x, Some y, Some z) \<Rightarrow> Some [byte1 x y, byte2 y z] | _ \<Rightarrow> None))"
| "b64_groups pad v (a # b # c # d # r) =
     (case (v a, v b) of
        (Some x, Some y) \<Rightarrow>
          (case v c of
             None \<Rightarrow>
               if pad \<and> c = CHR ''='' \<and> d = CHR ''='' \<and> r = [] then Some [byte1 x y] else None
           | Some z \<Rightarrow>
               (case v d of
                  None \<Rightarrow>
                    if pad \<and> d = CHR ''='' \<and> r = [] then Some [byte1 x y, byte2 y z] else None
                | Some w \<Rightarrow>
                    map_option (\<lambda>t. byte1 x y # byte2 y z # byte3 z w # t) (b64_groups pad v r)))
      | _ \<Rightarrow> None)"

text \<open>The decoder skips line breaks anywhere in its input.\<close>

definition no_breaks :: "string \<Rightarrow> string" where
  "no_breaks s = filter (\<lambda>c. c \<noteq> CHR 0x0A \<and> c \<noteq> CHR 0x0D) s"

definition b64_decode :: "bool \<Rightarrow> bool \<Rightarrow> string \<Rightarrow> string option" where
  "b64_decode pad url s = b64_groups pad (b64_value url) (no_breaks s)"

text \<open>\<open>StdEncoding.EncodeToString\<close>: what a provider sends.\<close>

fun b64_encode :: "string \<Rightarrow> string" where
  "b64_encode [] = []"
| "b64_encode [a] =
     (let x = of_char a :: nat in [b64_char (x div 4), b64_char (x mod 4 * 16), CHR ''='', CHR ''=''])"
| "b64_encode [a, b] =
     (let x = of_char a :: nat; y = of_char b :: nat in
      [b64_char (x div 4), b64_char (x mod 4 * 16 + y div 16), b64_char (y mod 16 * 4), CHR ''=''])"
| "b64_encode (a # b # c # r) =
     (let x = of_char a :: nat; y = of_char b :: nat; z = of_char c :: nat in
      b64_char (x div 4) # b64_char (x mod 4 * 16 + y div 16) #
      b64_char (y mod 16 * 4 + z div 64) # b64_char (z mod 64) # b64_encode r)"

lemma b64_value_char [simp]: "v < 64 \<Longrightarrow> b64_value False (b64_char v) = Some v"
  by (auto simp: b64_value_def b64_char_def Let_def)

lemma char_bound [simp]: "(of_char (c :: char) :: nat) < 256"
  by (metis nat_of_char_less_256)

lemma bytes_of_groups [simp]:
  fixes x y z :: nat
  shows "x < 256 \<Longrightarrow> y < 256 \<Longrightarrow> byte1 (x div 4) (x mod 4 * 16 + y div 16) = char_of x"
    and "y < 256 \<Longrightarrow> z < 256 \<Longrightarrow>
      byte2 (x mod 4 * 16 + y div 16) (y mod 16 * 4 + z div 64) = char_of y"
    and "z < 256 \<Longrightarrow> byte3 (y mod 16 * 4 + z div 64) (z mod 64) = char_of z"
proof -
  assume "x < 256" "y < 256"
  then have "x div 4 * 4 + (x mod 4 * 16 + y div 16) div 16 = x" by auto
  then show "byte1 (x div 4) (x mod 4 * 16 + y div 16) = char_of x" by (simp only: byte1_def)
next
  assume "y < 256" "z < 256"
  then have "(x mod 4 * 16 + y div 16) mod 16 * 16 + (y mod 16 * 4 + z div 64) div 4 = y"
    by (simp add: mod_add_eq [symmetric])
  then show "byte2 (x mod 4 * 16 + y div 16) (y mod 16 * 4 + z div 64) = char_of y"
    by (simp only: byte2_def)
next
  assume "z < 256"
  then have "(y mod 16 * 4 + z div 64) mod 4 * 64 + z mod 64 = z"
    by (simp add: mod_add_eq [symmetric])
  then show "byte3 (y mod 16 * 4 + z div 64) (z mod 64) = char_of z" by (simp only: byte3_def)
qed

lemma bytes_of_tail [simp]:
  fixes x y :: nat
  shows "x < 256 \<Longrightarrow> byte1 (x div 4) (x mod 4 * 16) = char_of x"
    and "y < 256 \<Longrightarrow> byte2 (x mod 4 * 16 + y div 16) (y mod 16 * 4) = char_of y"
  using bytes_of_groups(1) [of x 0] bytes_of_groups(2) [of y 0 x] by simp_all

lemma b64_eq_no_value [simp]: "b64_value u CHR ''='' = None"
  by (simp add: b64_value_def)

lemma b64_digit_bounds [simp]:
  fixes x y z :: nat
  shows "x < 256 \<Longrightarrow> x div 4 < 64" "x mod 4 * 16 < 64"
    and "y < 256 \<Longrightarrow> x mod 4 * 16 + y div 16 < 64" "y mod 16 * 4 < 64"
    and "z < 256 \<Longrightarrow> y mod 16 * 4 + z div 64 < 64"
  by linarith+

lemma b64_groups_encode: "b64_groups True (b64_value False) (b64_encode s) = Some s"
  by (induction s rule: b64_encode.induct) (simp_all add: Let_def)

definition b64_alphabet :: "char \<Rightarrow> bool" where
  "b64_alphabet c \<longleftrightarrow> b64_value False c \<noteq> None \<or> c = CHR ''=''"

lemma b64_char_alphabet [simp]: "v < 64 \<Longrightarrow> b64_alphabet (b64_char v)"
  by (simp add: b64_alphabet_def)

lemma b64_encode_alphabet: "list_all b64_alphabet (b64_encode s)"
  by (induction s rule: b64_encode.induct) (simp_all add: Let_def b64_alphabet_def)

lemma b64_encode_length: "length (b64_encode s) mod 4 = 0"
proof (induction s rule: b64_encode.induct)
  case (4 a b c r)
  then show ?case by (simp add: Let_def)
qed (simp_all add: Let_def)

lemma no_breaks_id: "list_all b64_alphabet s \<Longrightarrow> no_breaks s = s"
  by (induction s) (auto simp: no_breaks_def b64_alphabet_def b64_value_def)

lemma b64_decode_encode: "b64_decode True False (b64_encode s) = Some s"
  by (simp add: b64_decode_def no_breaks_id b64_encode_alphabet b64_groups_encode)

section \<open>Escapes\<close>

text \<open>\<open>unescape(s, mode)\<close> of \<open>net/url\<close>; \<open>None\<close> is an \<open>EscapeError\<close> or
  \<open>InvalidHostError\<close>.\<close>

datatype esc_mode = EscPath | EscUser | EscHost | EscZone | EscQuery | EscFragment

definition is_alnum :: "char \<Rightarrow> bool" where
  "is_alnum c \<longleftrightarrow> (let n = (of_char c :: nat) in
     48 \<le> n \<and> n \<le> 57 \<or> 65 \<le> n \<and> n \<le> 90 \<or> 97 \<le> n \<and> n \<le> 122)"

text \<open>\<open>shouldEscape(c, encodeHost)\<close>.\<close>

definition escape_in_host :: "char \<Rightarrow> bool" where
  "escape_in_host c \<longleftrightarrow> \<not> is_alnum c \<and> c \<notin> set ''!$&'' \<and> c \<noteq> CHR 0x27 \<and> c \<notin> set ''()*+,;=:[]<>-_.~''
     \<and> c \<noteq> CHR 0x22"

fun unescape :: "esc_mode \<Rightarrow> string \<Rightarrow> string option" where
  "unescape m [] = Some []"
| "unescape m (c # s) =
     (if c = CHR ''%'' then
        (case s of
           h1 # h2 # r \<Rightarrow>
             (if \<not> is_hex h1 \<or> \<not> is_hex h2 then None
              else (let v = char_of (16 * hex_val h1 + hex_val h2) :: char; esc25 = ([h1, h2] = ''25'') in
                if m = EscHost \<and> hex_val h1 < 8 \<and> \<not> esc25 then None
                else if m = EscZone \<and> \<not> esc25 \<and> v \<noteq> CHR '' '' \<and> escape_in_host v then None
                else map_option ((#) v) (unescape m r)))
         | _ \<Rightarrow> None)
      else if (m = EscHost \<or> m = EscZone) \<and> (of_char c :: nat) < 128 \<and> escape_in_host c then None
      else map_option ((#) (if c = CHR ''+'' \<and> m = EscQuery then CHR '' '' else c)) (unescape m s))"

definition QueryUnescape :: "string \<Rightarrow> string option" where
  "QueryUnescape = unescape EscQuery"

section \<open>References with an authority\<close>

text \<open>
  The fields of \<open>url.URL\<close> the program reads.  \<open>u_User\<close> is the userinfo: a user name
  and, when a colon was present, a password.
\<close>

record URL =
  u_Scheme :: string
  u_User :: "(string \<times> string option) option"
  u_Host :: string
  u_RawQuery :: string

text \<open>\<open>strings.Cut\<close> for the separators of the parser.\<close>

definition before_after :: "string \<Rightarrow> char \<Rightarrow> string \<times> string" where
  "before_after s b = (case cut s b of (x, y, _) \<Rightarrow> (x, y))"

fun get_scheme :: "nat \<Rightarrow> string \<Rightarrow> string \<Rightarrow> (string \<times> string) option" where
  "get_scheme i whole [] = Some ([], whole)"
| "get_scheme i whole (c # s) =
     (let n = (of_char c :: nat) in
      if 65 \<le> n \<and> n \<le> 90 \<or> 97 \<le> n \<and> n \<le> 122 then get_scheme (Suc i) whole s
      else if 48 \<le> n \<and> n \<le> 57 \<or> c \<in> set ''+-.'' then
        (if i = 0 then Some ([], whole) else get_scheme (Suc i) whole s)
      else if c = CHR '':'' then (if i = 0 then None else Some (take i whole, s))
      else Some ([], whole))"

definition valid_optional_port :: "string \<Rightarrow> bool" where
  "valid_optional_port p \<longleftrightarrow> p = [] \<or> (hd p = CHR '':'' \<and> list_all is_digit (tl p))"

definition valid_userinfo :: "string \<Rightarrow> bool" where
  "valid_userinfo s \<longleftrightarrow>
     list_all (\<lambda>c. is_alnum c \<or> c \<in> set ''-._:~!$&()*+,;=%@'' \<or> c = CHR 0x27) s"

definition last_suffix :: "string \<Rightarrow> char \<Rightarrow> string" where
  "last_suffix s b = (case last_index_byte s b of None \<Rightarrow> [] | Some i \<Rightarrow> drop i s)"

definition parse_host :: "string \<Rightarrow> string option" where
  "parse_host host =
     (if has_prefix host ''['' then
        (case last_index_byte host CHR '']'' of
           None \<Rightarrow> None
         | Some i \<Rightarrow>
             if \<not> valid_optional_port (drop (i + 1) host) then None
             else (case index_str (take i host) ''%25'' of
                     Some z \<Rightarrow>
                       (case (unescape EscHost (take z host),
                              unescape EscZone (drop z (take i host)),
                              unescape EscHost (drop i host)) of
                          (Some h1, Some h2, Some h3) \<Rightarrow> Some (h1 @ h2 @ h3)
                        | _ \<Rightarrow> None)
                   | None \<Rightarrow> unescape EscHost host))
      else if \<not> valid_optional_port (last_suffix host CHR '':'') then None
      else unescape EscHost host)"

definition parse_user :: "string \<Rightarrow> (string \<times> string option) option" where
  "parse_user info =
     (if \<not> valid_userinfo info then None
      else if CHR '':'' \<notin> set info then map_option (\<lambda>u. (u, None)) (unescape EscUser info)
      else (case before_after info CHR '':'' of
              (u, p) \<Rightarrow>
                (case (unescape EscUser u, unescape EscUser p) of
                   (Some u', Some p') \<Rightarrow> Some (u', Some p')
                 | _ \<Rightarrow> None)))"

definition parse_authority :: "string \<Rightarrow> ((string \<times> string option) option \<times> string) option" where
  "parse_authority a =
     (case last_index_byte a CHR ''@'' of
        None \<Rightarrow> map_option (Pair None) (parse_host a)
      | Some i \<Rightarrow>
          (case parse_host (drop (i + 1) a) of
             None \<Rightarrow> None
           | Some h \<Rightarrow> map_option (\<lambda>u. (Some u, h)) (parse_user (take i a))))"

definition has_ctl :: "string \<Rightarrow> bool" where
  "has_ctl s \<longleftrightarrow> (\<exists>c\<in>set s. (of_char c :: nat) < 32 \<or> of_char c = (127::nat))"

definition split_path :: "string \<Rightarrow> string \<times> string" where
  "split_path a = (case index_byte a CHR ''/'' of None \<Rightarrow> (a, []) | Some i \<Rightarrow> (take i a, drop i a))"

lemma split_path_none: "CHR ''/'' \<notin> set a \<Longrightarrow> split_path a = (a, [])"
  by (simp add: split_path_def index_byte_absent)

text \<open>
  \<open>url.Parse\<close> of a text of the form \<open>scheme://...\<close>, the only one the program passes;
  other references (relative ones, opaque ones) are outside the model and answer \<open>None\<close>.
\<close>

definition parse_rest :: "string \<Rightarrow> string \<Rightarrow> URL option" where
  "parse_rest scheme rest =
     (case (if has_suffix rest ''?'' \<and> length (filter ((=) CHR ''?'') rest) = 1
            then (take (length rest - 1) rest, []) else before_after rest CHR ''?'') of
        (r, query) \<Rightarrow>
          if \<not> has_prefix r ''//'' then None
          else (case split_path (drop 2 r) of
                  (authority, path) \<Rightarrow>
                    (case parse_authority authority of
                       None \<Rightarrow> None
                     | Some (user, host) \<Rightarrow>
                         (if unescape EscPath path = None then None
                          else Some \<lparr>u_Scheme = to_lower scheme, u_User = user, u_Host = host,
                                     u_RawQuery = query\<rparr>))))"

definition url_Parse :: "string \<Rightarrow> URL option" where
  "url_Parse raw =
     (case before_after raw CHR ''#'' of
        (u, frag) \<Rightarrow>
          if has_ctl u then None
          else (case get_scheme 0 u u of
                  None \<Rightarrow> None
                | Some (scheme, rest) \<Rightarrow>
                    (case parse_rest scheme rest of
                       None \<Rightarrow> None
                     | Some url \<Rightarrow> if unescape EscFragment frag = None then None else Some url)))"

definition split_url_host :: "string \<Rightarrow> string \<times> string" where
  "split_url_host hp =
     (let (h, p) = (case last_index_byte hp CHR '':'' of
                      None \<Rightarrow> (hp, [])
                    | Some i \<Rightarrow> if valid_optional_port (drop i hp) then (take i hp, drop (i + 1) hp)
                               else (hp, []))
      in (if has_prefix h ''['' \<and> has_suffix h '']'' then take (length h - 2) (drop 1 h) else h, p))"

definition Hostname :: "URL \<Rightarrow> string" where "Hostname u = fst (split_url_host (u_Host u))"
definition Port :: "URL \<Rightarrow> string" where "Port u = snd (split_url_host (u_Host u))"

text \<open>\<open>u.User.Username()\<close> and \<open>u.User.Password()\<close>, both defined on a nil userinfo.\<close>

definition user_name :: "URL \<Rightarrow> string" where
  "user_name u = (case u_User u of None \<Rightarrow> [] | Some (n, _) \<Rightarrow> n)"

definition user_password :: "URL \<Rightarrow> string option" where
  "user_password u = (case u_User u of None \<Rightarrow> None | Some (_, p) \<Rightarrow> p)"

text \<open>\<open>u.Query()\<close>: malformed pairs are dropped.  \<open>q.Get\<close> is the first value of a key.\<close>

fun query_pairs :: "string list \<Rightarrow> (string \<times> string) list" where
  "query_pairs [] = []"
| "query_pairs (kv # ps) =
     (if kv = [] \<or> CHR '';'' \<in> set kv then query_pairs ps
      else (case before_after kv CHR ''='' of
              (k, v) \<Rightarrow>
                (case (QueryUnescape k, QueryUnescape v) of
                   (Some k', Some v') \<Rightarrow> (k', v') # query_pairs ps
                 | _ \<Rightarrow> query_pairs ps)))"

definition url_Query :: "URL \<Rightarrow> (string \<times> string) list" where
  "url_Query u = query_pairs (split_byte (u_RawQuery u) CHR ''&'')"

definition q_Get :: "(string \<times> string) list \<Rightarrow> string \<Rightarrow> string" where
  "q_Get q k = (case map_of q k of None \<Rightarrow> [] | Some v \<Rightarrow> v)"

end
