(* ===== verification/Web.thy ===== *)
theory Web
  imports Server VPNSub Url
begin

text \<open>
  The web console of the server, \<open>server/internal/web/auth.go\<close> and \<open>server.go\<close>:
  logins and sessions, the guarded API and the subscription download.  A request is what the
  handlers read of it; a response is its status, cookie and body.  bcrypt, the random token,
  the clock and the static files are parameters.
\<close>

section \<open>Data\<close>

record session =
  s_Username :: string
  s_ExpiresAt :: int

type_synonym sessions = "string \<Rightarrow> session option"

record SubscriptionConfig =
  sc_Name :: string
  sc_PublicAddr :: string
  sc_Username :: string
  sc_Password :: string
  sc_Token :: string
  sc_Subnet :: string
  sc_DNS :: "string list"
  sc_AutoRoute :: bool
  sc_SNI :: string
  sc_PinSHA256 :: string
  sc_Padding :: "bool option"

record Options =
  o_Subscription :: SubscriptionConfig
  o_Auth :: AuthCfg

text \<open>\<open>rq_Login\<close> is the decoded body of a login, \<open>None\<close> when it is not JSON.\<close>

record request =
  rq_Method :: string
  rq_Path :: string
  rq_Query :: "(string \<times> string) list"
  rq_Authorization :: string
  rq_Cookie :: "string option"
  rq_Login :: "(string \<times> string) option"
  rq_TLS :: bool
  rq_Host :: string

record summary =
  sum_enabled :: bool
  sum_name :: string
  sum_public_addr :: string
  sum_token_enabled :: bool
  sum_json_url :: string
  sum_yaml_url :: string
  sum_subnet :: string
  sum_auto_route :: bool

datatype set_cookie = SetSession string int | ClearSession

datatype 'b body =
    ErrorText string
  | LoginBody string
  | MeBody string
  | StatusBody RuntimeSnapshot summary
  | ClientsBody RuntimeSnapshot
  | InfoBody summary
  | ServersBody "TunnelCfg list"
  | Download string 'b
  | NoBody
  | Static

record 'b response =
  rp_Status :: int
  rp_Cookie :: "set_cookie option"
  rp_Body :: "'b body"

definition answer :: "int \<Rightarrow> 'b body \<Rightarrow> 'b response" where
  "answer st b = \<lparr>rp_Status = st, rp_Cookie = None, rp_Body = b\<rparr>"

text \<open>What surrounds one request: clock, random token, the registry and its map order.\<close>

record web_env =
  we_now :: int
  we_token :: "string result"
  we_runtime :: "(Runtime \<times> string list) option"

section \<open>Authentication (auth.go)\<close>

definition auth_enabled :: "AuthCfg \<Rightarrow> bool" where
  "auth_enabled cfg \<longleftrightarrow> APIToken cfg \<noteq> [] \<or> Users cfg \<noteq> []"

definition bearer :: "string \<Rightarrow> string" where "bearer t = ''Bearer '' @ t"

definition authorized :: "AuthCfg \<Rightarrow> int \<Rightarrow> request \<Rightarrow> sessions \<Rightarrow> bool \<times> sessions" where
  "authorized cfg now rq ss =
     (if APIToken cfg \<noteq> [] \<and> rq_Authorization rq = bearer (APIToken cfg) then (True, ss)
      else (case rq_Cookie rq of
              None \<Rightarrow> (False, ss)
            | Some v \<Rightarrow>
                if v = [] then (False, ss)
                else (case ss v of
                        None \<Rightarrow> (False, ss(v := None))
                      | Some s \<Rightarrow> if now > s_ExpiresAt s then (False, ss(v := None)) else (True, ss))))"

fun checkPassword :: "(string \<Rightarrow> string \<Rightarrow> bool) \<Rightarrow> UserCfg list \<Rightarrow> string \<Rightarrow> string \<Rightarrow> bool" where
  "checkPassword bcrypt [] username password = False"
| "checkPassword bcrypt (u # us) username password =
     (if Username u \<noteq> username then checkPassword bcrypt us username password
      else bcrypt (PasswordHash u) password)"

definition session_life :: int where "session_life = 24 * 3600 * 10 ^ 9"

definition handleLogin ::
  "(string \<Rightarrow> string \<Rightarrow> bool) \<Rightarrow> AuthCfg \<Rightarrow> web_env \<Rightarrow> request \<Rightarrow> sessions \<Rightarrow> 'b response \<times> sessions" where
  "handleLogin bcrypt cfg env rq ss =
     (case rq_Login rq of
        None \<Rightarrow> (answer 400 (ErrorText ''invalid json''), ss)
      | Some (username, password) \<Rightarrow>
          if \<not> checkPassword bcrypt (Users cfg) username password
          then (answer 401 (ErrorText ''unauthorized''), ss)
          else (case we_token env of
                  Inl _ \<Rightarrow> (answer 500 (ErrorText ''create session''), ss)
                | Inr token \<Rightarrow>
                    (let expires = we_now env + session_life in
                     (\<lparr>rp_Status = 200, rp_Cookie = Some (SetSession token expires), rp_Body = LoginBody username\<rparr>,
                      ss(token \<mapsto> \<lparr>s_Username = username, s_ExpiresAt = expires\<rparr>)))))"

definition handleLogout :: "request \<Rightarrow> sessions \<Rightarrow> 'b response \<times> sessions" where
  "handleLogout rq ss =
     (\<lparr>rp_Status = 204, rp_Cookie = Some ClearSession, rp_Body = NoBody\<rparr>,
      (case rq_Cookie rq of None \<Rightarrow> ss | Some v \<Rightarrow> ss(v := None)))"

definition handleMe :: "AuthCfg \<Rightarrow> int \<Rightarrow> request \<Rightarrow> sessions \<Rightarrow> 'b response" where
  "handleMe cfg now rq ss =
     (if \<not> auth_enabled cfg then answer 200 (MeBody ''anonymous'')
      else (case Option.bind (rq_Cookie rq) ss of
              Some s \<Rightarrow> if now < s_ExpiresAt s then answer 200 (MeBody (s_Username s))
                        else answer 401 (ErrorText ''unauthorized'')
            | None \<Rightarrow> answer 401 (ErrorText ''unauthorized'')))"

text \<open>\<open>require\<close>: the wrapped handler only reads.\<close>

definition require :: "AuthCfg \<Rightarrow> int \<Rightarrow> request \<Rightarrow> 'b response \<Rightarrow> sessions \<Rightarrow> 'b response \<times> sessions" where
  "require cfg now rq next ss =
     (if \<not> auth_enabled cfg then (next, ss)
      else (case authorized cfg now rq ss of
              (ok, ss') \<Rightarrow> (if ok then next else answer 401 (ErrorText ''unauthorized''), ss')))"

section \<open>Handlers (server.go)\<close>

definition sc_Tunnel :: "SubscriptionConfig \<Rightarrow> TunnelCfg result" where
  "sc_Tunnel cfg =
     (if sc_PublicAddr cfg = [] then Inl (Err ''subscription public address is not configured'')
      else (let t = empty_tunnel\<lparr>
                  t_Name := (if sc_Name cfg = [] then ''safelink-vpn'' else sc_Name cfg),
                  t_Mode := ModeVPN, t_Forward := sc_PublicAddr cfg,
                  t_SSH := empty_ssh\<lparr>ssh_User := sc_Username cfg, ssh_Password := sc_Password cfg\<rparr>,
                  t_Tun := empty_tun\<lparr>
                    tun_Subnet := (if sc_Subnet cfg = [] then ''10.8.0.2/24'' else sc_Subnet cfg),
                    tun_DNS := sc_DNS cfg, tun_AutoRoute := sc_AutoRoute cfg, tun_SNI := sc_SNI cfg,
                    tun_PinSHA256 := sc_PinSHA256 cfg, tun_Padding := sc_Padding cfg\<rparr>\<rparr>
            in case ValidateTunnel t of Some e \<Rightarrow> Inl e | None \<Rightarrow> Inr t))"

text \<open>The zero \<open>time.Time\<close> in nanoseconds since the epoch, and the zero snapshot.\<close>

definition zero_time :: int where "zero_time = - 62135596800 * 10 ^ 9"

definition runtimeSnapshot :: "web_env \<Rightarrow> RuntimeSnapshot" where
  "runtimeSnapshot env =
     (case we_runtime env of
        None \<Rightarrow> \<lparr>rs_StartedAt = zero_time, rs_UptimeSeconds = 0,
                  rs_cfg = \<lparr>rc_ListenAddr = [], rc_Subnet = [], rc_NATIface = [], rc_NATEnabled = False,
                             rc_Padding = False\<rparr>,
                  rs_ActiveClients = 0, rs_TotalClients = 0, rs_TotalBytesIn = 0, rs_TotalBytesOut = 0,
                  rs_Clients = []\<rparr>
      | Some (rt, ks) \<Rightarrow> Snapshot (we_now env) ks rt)"

definition publicBaseURL :: "request \<Rightarrow> string" where
  "publicBaseURL rq =
     (if rq_TLS rq then ''https'' else ''http'') @ ''://'' @
     (if rq_Host rq = [] then ''127.0.0.1'' else rq_Host rq)"

definition subscriptionSummary :: "request \<Rightarrow> SubscriptionConfig \<Rightarrow> summary" where
  "subscriptionSummary rq cfg =
     (let base = publicBaseURL rq;
          tok = (if sc_Token cfg \<noteq> [] then ''&token='' @ sc_Token cfg else [])
      in \<lparr>sum_enabled = (sc_PublicAddr cfg \<noteq> []), sum_name = sc_Name cfg,
          sum_public_addr = sc_PublicAddr cfg, sum_token_enabled = (sc_Token cfg \<noteq> []),
          sum_json_url = base @ ''/api/subscription?format=json'' @ tok,
          sum_yaml_url = base @ ''/api/subscription?format=clash'' @ tok,
          sum_subnet = sc_Subnet cfg, sum_auto_route = sc_AutoRoute cfg\<rparr>)"

definition subscriptionTokenOK :: "request \<Rightarrow> string \<Rightarrow> bool" where
  "subscriptionTokenOK rq want \<longleftrightarrow>
     q_Get (rq_Query rq) ''token'' = want \<or> rq_Authorization rq = bearer want"

definition handleStatus :: "Options \<Rightarrow> web_env \<Rightarrow> request \<Rightarrow> 'b response" where
  "handleStatus opts env rq =
     answer 200 (StatusBody (runtimeSnapshot env) (subscriptionSummary rq (o_Subscription opts)))"

definition handleRuntimeClients :: "web_env \<Rightarrow> 'b response" where
  "handleRuntimeClients env = answer 200 (ClientsBody (runtimeSnapshot env))"

definition handleSubscriptionInfo :: "Options \<Rightarrow> request \<Rightarrow> 'b response" where
  "handleSubscriptionInfo opts rq = answer 200 (InfoBody (subscriptionSummary rq (o_Subscription opts)))"

definition handleListServers :: "SubscriptionConfig \<Rightarrow> 'b response" where
  "handleListServers cfg =
     (case sc_Tunnel cfg of Inl _ \<Rightarrow> answer 200 (ServersBody []) | Inr t \<Rightarrow> answer 200 (ServersBody [t]))"

definition handleAddServer :: "'b response" where
  "handleAddServer = answer 405 (ErrorText ''server node is managed by server config'')"

definition handleDeleteServer :: "'b response" where
  "handleDeleteServer = answer 405 (ErrorText ''server node is managed by server config'')"

definition handleSubscription :: "'b codecs \<Rightarrow> SubscriptionConfig \<Rightarrow> request \<Rightarrow> 'b response" where
  "handleSubscription c cfg rq =
     (if sc_Token cfg \<noteq> [] \<and> \<not> subscriptionTokenOK rq (sc_Token cfg)
      then answer 401 (ErrorText ''unauthorized'')
      else (case sc_Tunnel cfg of
              Inl e \<Rightarrow> answer 503 (ErrorText (err_text e))
            | Inr tunnel \<Rightarrow>
                (let f = q_Get (rq_Query rq) ''format'';
                     fmt = (if f = [] then FormatSafeLinkJSON else f);
                     send = (\<lambda>ct out. case out of Inl e \<Rightarrow> answer 500 (ErrorText (err_text e))
                                               | Inr b \<Rightarrow> answer 200 (Download ct b))
                 in if fmt = ''json'' \<or> fmt = FormatSafeLinkJSON
                    then send ''application/json'' (EncodeSafeLinkJSON c [tunnel])
                    else if fmt \<in> {''clash'', ''yaml'', ''yml'', sub_FormatClashYAML}
                    then send ''application/x-yaml'' (EncodeClashYAML c [tunnel])
                    else answer 400 (ErrorText (format_text ''unsupported format %q'' [fmt])))))"

text \<open>
  The patterns of the mux, on a clean path.  A method pattern that does not fit falls through to
  the static handler, which is registered for every method; \<open>GET\<close> patterns take
  \<open>HEAD\<close> too.  The static handler answers 404 below \<open>/api/\<close>.
\<close>

definition is_get :: "request \<Rightarrow> bool" where
  "is_get rq \<longleftrightarrow> rq_Method rq = ''GET'' \<or> rq_Method rq = ''HEAD''"

definition spaHandler :: "request \<Rightarrow> 'b response" where
  "spaHandler rq =
     (if has_prefix (rq_Path rq) ''/api/'' then answer 404 (ErrorText ''404 page not found'')
      else answer 200 Static)"

definition server_item :: "string \<Rightarrow> bool" where
  "server_item path \<longleftrightarrow>
     has_prefix path ''/api/vpn/servers/'' \<and>
     (let i = trim_prefix path ''/api/vpn/servers/'' in i \<noteq> [] \<and> CHR ''/'' \<notin> set i)"

definition serve ::
  "(string \<Rightarrow> string \<Rightarrow> bool) \<Rightarrow> 'b codecs \<Rightarrow> Options \<Rightarrow> web_env \<Rightarrow> request \<Rightarrow> sessions \<Rightarrow>
   'b response \<times> sessions" where
  "serve bcrypt c opts env rq ss =
     (let cfg = o_Auth opts; sub = o_Subscription opts; path = rq_Path rq;
          guard = (\<lambda>rp. require cfg (we_now env) rq rp ss) in
      if rq_Method rq = ''POST'' \<and> path = ''/api/auth/login'' then handleLogin bcrypt cfg env rq ss
      else if rq_Method rq = ''POST'' \<and> path = ''/api/auth/logout'' then handleLogout rq ss
      else if is_get rq \<and> path = ''/api/auth/me'' then (handleMe cfg (we_now env) rq ss, ss)
      else if is_get rq \<and> path = ''/api/status'' then guard (handleStatus opts env rq)
      else if is_get rq \<and> path = ''/api/runtime/clients'' then guard (handleRuntimeClients env)
      else if is_get rq \<and> path = ''/api/subscription/info'' then guard (handleSubscriptionInfo opts rq)
      else if is_get rq \<and> (path = ''/api/subscription'' \<or> path = ''/subscription'') then
        (if sc_Token sub = [] then guard (handleSubscription c sub rq)
         else (handleSubscription c sub rq, ss))
      else if is_get rq \<and> path = ''/api/vpn/servers'' then guard (handleListServers sub)
      else if rq_Method rq = ''POST'' \<and> path = ''/api/vpn/servers'' then guard handleAddServer
      else if rq_Method rq = ''DELETE'' \<and> server_item path then guard handleDeleteServer
      else (spaHandler rq, ss))"

section \<open>Runs of the console\<close>

text \<open>The sessions after a list of requests, each with its surroundings.\<close>

definition sessions_after ::
  "(string \<Rightarrow> string \<Rightarrow> bool) \<Rightarrow> 'b codecs \<Rightarrow> Options \<Rightarrow> (web_env \<times> request) list \<Rightarrow> sessions" where
  "sessions_after bcrypt c opts es =
     fold (\<lambda>(env, rq) ss. snd (serve bcrypt c opts env rq ss)) es Map.empty"

text \<open>A request that logs a user in with the right password, and the session it opens.\<close>

definition login_of :: "(string \<Rightarrow> string \<Rightarrow> bool) \<Rightarrow> AuthCfg \<Rightarrow> web_env \<times> request \<Rightarrow> (string \<times> session) option" where
  "login_of bcrypt cfg er =
     (case er of (env, rq) \<Rightarrow>
        (case (rq_Login rq, we_token env) of
           (Some (u, p), Inr token) \<Rightarrow>
             if rq_Method rq = ''POST'' \<and> rq_Path rq = ''/api/auth/login'' \<and> checkPassword bcrypt (Users cfg) u p
             then Some (token, \<lparr>s_Username = u, s_ExpiresAt = we_now env + session_life\<rparr>) else None
         | _ \<Rightarrow> None))"

definition logs_out :: "string \<Rightarrow> web_env \<times> request \<Rightarrow> bool" where
  "logs_out token er \<longleftrightarrow>
     rq_Method (snd er) = ''POST'' \<and> rq_Path (snd er) = ''/api/auth/logout'' \<and> rq_Cookie (snd er) = Some token"

lemma require_sessions: "snd (require cfg now rq rp ss) tok = Some s \<Longrightarrow> ss tok = Some s"
  by (auto simp: require_def authorized_def split: if_splits option.splits prod.splits)

lemma serve_sessions:
  assumes "snd (serve bcrypt c opts env rq ss) tok = Some s"
  shows "login_of bcrypt (o_Auth opts) (env, rq) = Some (tok, s) \<or> ss tok = Some s \<and> \<not> logs_out tok (env, rq)"
proof -
  consider (login) "rq_Method rq = ''POST''" "rq_Path rq = ''/api/auth/login''"
    | (logout) "rq_Method rq = ''POST''" "rq_Path rq = ''/api/auth/logout''"
    | (other) "\<not> (rq_Method rq = ''POST'' \<and> rq_Path rq = ''/api/auth/login'')"
        "\<not> (rq_Method rq = ''POST'' \<and> rq_Path rq = ''/api/auth/logout'')"
    by blast
  then show ?thesis
  proof cases
    case login
    then show ?thesis using assms
      by (auto simp: serve_def Let_def handleLogin_def login_of_def logs_out_def
          split: option.splits sum.splits if_splits prod.splits)
  next
    case logout
    then show ?thesis using assms
      by (auto simp: serve_def Let_def handleLogout_def logs_out_def split: option.splits if_splits)
  next
    case other
    then have "ss tok = Some s"
      using assms require_sessions [of "o_Auth opts" "we_now env" rq _ ss tok s]
      by (auto simp: serve_def Let_def split: if_splits)
    then show ?thesis using other(2) by (auto simp: logs_out_def)
  qed
qed

text \<open>Every session in the table goes back to a login that was not logged out since.\<close>

lemma sessions_from_logins:
  "sessions_after bcrypt c opts es tok = Some s \<Longrightarrow>
   \<exists>a e b. es = a @ e # b \<and> login_of bcrypt (o_Auth opts) e = Some (tok, s) \<and> \<not> list_ex (logs_out tok) b"
proof (induction es rule: rev_induct)
  case (snoc er es)
  obtain env rq where er: "er = (env, rq)" by fastforce
  have "login_of bcrypt (o_Auth opts) er = Some (tok, s) \<or>
      sessions_after bcrypt c opts es tok = Some s \<and> \<not> logs_out tok er"
    using snoc.prems serve_sessions [of bcrypt c opts env rq "sessions_after bcrypt c opts es" tok s]
    by (simp add: sessions_after_def er)
  then show ?case
  proof
    assume "login_of bcrypt (o_Auth opts) er = Some (tok, s)"
    then show ?thesis by (intro exI [of _ es] exI [of _ er] exI [of _ "[]"]) simp
  next
    assume "sessions_after bcrypt c opts es tok = Some s \<and> \<not> logs_out tok er"
    then obtain a e b where "es = a @ e # b" "login_of bcrypt (o_Auth opts) e = Some (tok, s)"
        "\<not> list_ex (logs_out tok) b" "\<not> logs_out tok er" using snoc.IH by blast
    then show ?thesis by (intro exI [of _ a] exI [of _ e] exI [of _ "b @ [er]"]) simp
  qed
qed (simp add: sessions_after_def)

interpretation web_sessions: table "\<lambda>ss. ss" "\<lambda>t s (ss :: sessions). ss(t \<mapsto> s)" "\<lambda>t (ss :: sessions). ss(t := None)"
  by unfold_locales simp_all

text \<open>Bodies that tell something of the server: its clients, its addresses, its credentials.\<close>

definition discloses :: "'b body \<Rightarrow> bool" where
  "discloses b = (case b of StatusBody _ _ \<Rightarrow> True | ClientsBody _ \<Rightarrow> True | InfoBody _ \<Rightarrow> True
     | ServersBody _ \<Rightarrow> True | Download _ _ \<Rightarrow> True | _ \<Rightarrow> False)"

lemma discloses_simps [simp]:
  "\<not> discloses (ErrorText t)" "\<not> discloses (LoginBody u)" "\<not> discloses (MeBody u)" "\<not> discloses NoBody"
  "\<not> discloses Static" "discloses (StatusBody r m)" "discloses (ClientsBody r)" "discloses (InfoBody m)"
  "discloses (ServersBody ts)" "discloses (Download ct b)"
  by (simp_all add: discloses_def)

lemma answer_body [simp]: "rp_Body (answer st b) = b"
  by (simp add: answer_def)

lemma require_discloses:
  "auth_enabled cfg \<Longrightarrow> discloses (rp_Body (fst (require cfg now rq rp ss))) \<Longrightarrow> fst (authorized cfg now rq ss)"
  by (auto simp: require_def split: prod.splits if_splits)

lemma serve_discloses:
  assumes "auth_enabled (o_Auth opts)" "discloses (rp_Body (fst (serve bcrypt c opts env rq ss)))"
  shows "fst (authorized (o_Auth opts) (we_now env) rq ss) \<or>
    sc_Token (o_Subscription opts) \<noteq> [] \<and> subscriptionTokenOK rq (sc_Token (o_Subscription opts))"
proof -
  have l: "\<not> discloses (rp_Body (fst (handleLogin bcrypt cfg env rq ss)))"
    and m: "\<not> discloses (rp_Body (handleMe cfg now rq ss))" and o: "\<not> discloses (rp_Body (fst (handleLogout rq ss)))"
    and p: "\<not> discloses (rp_Body (spaHandler rq))" for cfg now
    by (auto simp: handleLogin_def handleMe_def handleLogout_def spaHandler_def Let_def
        split: option.splits sum.splits)
  have s: "subscriptionTokenOK rq (sc_Token sub)"
    if "sc_Token sub \<noteq> []" "discloses (rp_Body (handleSubscription c sub rq))" for sub
    using that by (auto simp: handleSubscription_def split: if_splits)
  show ?thesis
    using assms(2)
    by (auto simp: serve_def Let_def l m o p split: if_splits dest: s require_discloses [OF assms(1)])
qed

lemma authorized_cases:
  "fst (authorized cfg now rq ss) \<Longrightarrow>
   APIToken cfg \<noteq> [] \<and> rq_Authorization rq = bearer (APIToken cfg) \<or>
   (\<exists>tok s. rq_Cookie rq = Some tok \<and> ss tok = Some s \<and> now \<le> s_ExpiresAt s)"
  by (auto simp: authorized_def split: if_splits option.splits)

section \<open>Properties\<close>

text \<open>C23: With authentication on, nothing about the server leaves it without a credential: whatever
  was requested before, a response that names clients, addresses or credentials goes only to a
  request with the API token, with the subscription token (for downloads), or with the cookie of
  an earlier login whose user and password were right, which was not logged out since and is at
  most 24 hours old.\<close>

theorem web_access_needs_credentials:
  assumes "auth_enabled (o_Auth opts)"
    and "discloses (rp_Body (fst (serve bcrypt c opts env rq (sessions_after bcrypt c opts es))))"
  shows "(APIToken (o_Auth opts) \<noteq> [] \<and> rq_Authorization rq = bearer (APIToken (o_Auth opts))) \<or>
    (sc_Token (o_Subscription opts) \<noteq> [] \<and> subscriptionTokenOK rq (sc_Token (o_Subscription opts))) \<or>
    (\<exists>a e b tok s. es = a @ e # b \<and> login_of bcrypt (o_Auth opts) e = Some (tok, s) \<and>
       \<not> list_ex (logs_out tok) b \<and> rq_Cookie rq = Some tok \<and> we_now env \<le> s_ExpiresAt s)"
  using serve_discloses [OF assms] authorized_cases [of "o_Auth opts" "we_now env" rq "sessions_after bcrypt c opts es"]
    sessions_from_logins [of bcrypt c opts es]
  by blast

definition sample_web :: Options where
  "sample_web =
     \<lparr>o_Subscription = \<lparr>sc_Name = ''home'', sc_PublicAddr = ''vpn.example:1562'', sc_Username = ''admin'',
        sc_Password = ''pw'', sc_Token = [], sc_Subnet = [], sc_DNS = [], sc_AutoRoute = True, sc_SNI = [],
        sc_PinSHA256 = [], sc_Padding = Some True\<rparr>,
      o_Auth = \<lparr>APIToken = [], Users = [\<lparr>Username = ''root'', PasswordHash = ''h''\<rparr>]\<rparr>\<rparr>"

definition sample_request :: "string \<Rightarrow> string \<Rightarrow> string option \<Rightarrow> request" where
  "sample_request meth path cookie =
     \<lparr>rq_Method = meth, rq_Path = path, rq_Query = [], rq_Authorization = [], rq_Cookie = cookie,
      rq_Login = Some (''root'', ''secret''), rq_TLS = False, rq_Host = []\<rparr>"

definition at_time :: "int \<Rightarrow> web_env" where
  "at_time t = \<lparr>we_now = t, we_token = Inr ''tok'', we_runtime = None\<rparr>"

theorem web_access_needs_credentials_witness:
  "\<exists>a e b tok s. [(at_time 0, sample_request ''POST'' ''/api/auth/login'' None)] = a @ e # b \<and>
     login_of (\<lambda>h p. h = ''h'' \<and> p = ''secret'') (o_Auth sample_web) e = Some (tok, s) \<and>
     \<not> list_ex (logs_out tok) b \<and> Some ''tok'' = Some tok \<and> 5 \<le> s_ExpiresAt s"
proof -
  let ?b = "\<lambda>h p. h = ''h'' \<and> p = ''secret''"
  let ?es = "[(at_time 0, sample_request ''POST'' ''/api/auth/login'' None)]"
  have "discloses (rp_Body (fst (serve ?b struct_codecs sample_web (at_time 5)
      (sample_request ''GET'' ''/api/vpn/servers'' (Some ''tok'')) (sessions_after ?b struct_codecs sample_web ?es))))"
    by code_simp
  from web_access_needs_credentials [OF _ this] show ?thesis
    by (simp add: sample_web_def auth_enabled_def sample_request_def at_time_def)
qed

end
