(* ===== verification/Route.thy ===== *)
theory Route
  imports Server
begin

text \<open>
  Routing on the client: \<open>tunnel/route.go\<close> and the route helpers of \<open>tunnel/vpn.go\<close>.
  The commands are what the code hands to \<open>exec.Command\<close>; their outputs and errors come
  from a \<open>shell\<close>.  \<open>runtime.GOOS\<close> is an argument.
\<close>

record RouteConfig =
  rte_Gateway :: string
  rte_All :: bool
  rte_ExtraCIDRs :: "string list"

text \<open>"10.0.8.2/24" gives "10.0.8.1"; a client that has this address itself gets the next.\<close>

definition ParseGateway :: "string \<Rightarrow> string result" where
  "ParseGateway subnetCIDR =
     (case ParseCIDR subnetCIDR of
        None \<Rightarrow> Inl (Errf ''parse subnet %q'' [subnetCIDR])
      | Some (ip, ipnet) \<Rightarrow>
          let network = ip_mask (net_ip ipnet) (net_mask ipnet);
              n = length network - 1;
              gw = network[n := network ! n OR 1];
              gw' = (if ip_equal gw ip then gw[n := gw ! n + 1] else gw)
          in Inr (ip_string gw'))"

definition execRoute :: "shell \<Rightarrow> string list \<Rightarrow> go_error option" where
  "execRoute run args =
     (case run args of
        (out, Some e) \<Rightarrow> Some (Errf ''%s: %s'' [err_text e, out])
      | (_, None) \<Rightarrow> None)"

text \<open>
  A list of commands, each with whether its failure ends the list: the commands that are
  run, and the error returned.
\<close>

datatype cmd = Must "string list" | May "string list"

fun run_cmds :: "shell \<Rightarrow> cmd list \<Rightarrow> string list list \<times> go_error option" where
  "run_cmds run [] = ([], None)"
| "run_cmds run (May c # cs) = (case run_cmds run cs of (done, e) \<Rightarrow> (c # done, e))"
| "run_cmds run (Must c # cs) =
     (case execRoute run c of
        Some e \<Rightarrow> ([c], Some e)
      | None \<Rightarrow> (case run_cmds run cs of (done, e) \<Rightarrow> (c # done, e)))"

definition addRoutesWindows :: "string \<Rightarrow> RouteConfig \<Rightarrow> cmd list" where
  "addRoutesWindows subnet cfg =
     (if rte_All cfg then [Must [''route'', ''add'', ''0.0.0.0'', ''mask'', ''0.0.0.0'', rte_Gateway cfg]] else [])
     @ [Must [''route'', ''add'', subnet, rte_Gateway cfg]]
     @ map (\<lambda>c. May [''route'', ''add'', c, rte_Gateway cfg]) (rte_ExtraCIDRs cfg)"

definition delRoutesWindows :: "string \<Rightarrow> RouteConfig \<Rightarrow> cmd list" where
  "delRoutesWindows subnet cfg =
     [May [''route'', ''delete'', ''0.0.0.0'', ''mask'', ''0.0.0.0'', rte_Gateway cfg],
      May [''route'', ''delete'', subnet, rte_Gateway cfg]]
     @ map (\<lambda>c. May [''route'', ''delete'', c, rte_Gateway cfg]) (rte_ExtraCIDRs cfg)"

definition addRoutesLinux :: "string \<Rightarrow> RouteConfig \<Rightarrow> cmd list" where
  "addRoutesLinux subnet cfg =
     (if rte_All cfg
      then [Must [''ip'', ''route'', ''add'', ''default'', ''via'', rte_Gateway cfg, ''dev'', ''tun0'']] else [])
     @ [Must [''ip'', ''route'', ''add'', subnet, ''dev'', ''tun0'']]
     @ map (\<lambda>c. May [''ip'', ''route'', ''add'', c, ''via'', rte_Gateway cfg, ''dev'', ''tun0''])
         (rte_ExtraCIDRs cfg)"

definition delRoutesLinux :: "string \<Rightarrow> RouteConfig \<Rightarrow> cmd list" where
  "delRoutesLinux subnet cfg =
     [May [''ip'', ''route'', ''del'', ''default'', ''dev'', ''tun0''],
      May [''ip'', ''route'', ''del'', subnet, ''dev'', ''tun0'']]
     @ map (\<lambda>c. May [''ip'', ''route'', ''del'', c, ''dev'', ''tun0'']) (rte_ExtraCIDRs cfg)"

definition addRoutesMacOS :: "string \<Rightarrow> RouteConfig \<Rightarrow> cmd list" where
  "addRoutesMacOS subnet cfg =
     (if rte_All cfg then [Must [''route'', ''add'', ''default'', ''-interface'', ''tun0'']] else [])
     @ [Must [''route'', ''add'', ''-net'', subnet, ''-interface'', ''tun0'']]
     @ map (\<lambda>c. May [''route'', ''add'', ''-net'', c, ''-interface'', ''tun0'']) (rte_ExtraCIDRs cfg)"

definition delRoutesMacOS :: "string \<Rightarrow> RouteConfig \<Rightarrow> cmd list" where
  "delRoutesMacOS subnet cfg =
     [May [''route'', ''delete'', ''default'', ''-interface'', ''tun0''],
      May [''route'', ''delete'', ''-net'', subnet, ''-interface'', ''tun0'']]
     @ map (\<lambda>c. May [''route'', ''delete'', ''-net'', c, ''-interface'', ''tun0'']) (rte_ExtraCIDRs cfg)"

definition AddRoutes :: "string \<Rightarrow> shell \<Rightarrow> string \<Rightarrow> RouteConfig \<Rightarrow> string list list \<times> go_error option" where
  "AddRoutes goos run subnet cfg =
     (if goos = ''windows'' then run_cmds run (addRoutesWindows subnet cfg)
      else if goos = ''linux'' then run_cmds run (addRoutesLinux subnet cfg)
      else if goos = ''darwin'' then run_cmds run (addRoutesMacOS subnet cfg)
      else ([], Some (Errf ''route add not supported on %s'' [goos])))"

definition DelRoutes :: "string \<Rightarrow> shell \<Rightarrow> string \<Rightarrow> RouteConfig \<Rightarrow> string list list" where
  "DelRoutes goos run subnet cfg =
     (if goos = ''windows'' then fst (run_cmds run (delRoutesWindows subnet cfg))
      else if goos = ''linux'' then fst (run_cmds run (delRoutesLinux subnet cfg))
      else if goos = ''darwin'' then fst (run_cmds run (delRoutesMacOS subnet cfg))
      else [])"

section \<open>The route around the tunnel\<close>

definition extractHost :: "string \<Rightarrow> string" where
  "extractHost addr =
     (if addr = [] then [] else (case SplitHostPort addr of Inr (h, _) \<Rightarrow> h | Inl _ \<Rightarrow> addr))"

definition ascii_space :: "char \<Rightarrow> bool" where
  "ascii_space c \<longleftrightarrow> c \<in> {CHR '' '', CHR 0x09, CHR 0x0A, CHR 0x0B, CHR 0x0C, CHR 0x0D}"

fun after_via :: "string list \<Rightarrow> string" where
  "after_via (p # q # r) = (if p = ''via'' then q else after_via (q # r))"
| "after_via _ = []"

text \<open>
  The default gateway, read off the output of a command of the platform (whose output is
  ASCII).
\<close>

definition gateway_query :: "string \<Rightarrow> string list" where
  "gateway_query goos =
     (if goos = ''windows'' then [''powershell'', ''-Command'',
        ''(Get-NetRoute -DestinationPrefix '' @ [CHR 0x27] @ ''0.0.0.0/0'' @ [CHR 0x27] @
        '' | Sort-Object RouteMetric | Select-Object -First 1).NextHop'']
      else if goos = ''linux'' then [''ip'', ''route'', ''show'', ''default'']
      else [''route'', ''-n'', ''get'', ''default''])"

definition findDefaultGateway :: "string \<Rightarrow> shell \<Rightarrow> string" where
  "findDefaultGateway goos run =
     (if goos \<notin> {''windows'', ''linux'', ''darwin''} then []
      else (case run (gateway_query goos) of
              (_, Some e) \<Rightarrow> []
            | (out, None) \<Rightarrow>
                if goos = ''windows'' then trim_space out
                else if goos = ''linux'' then after_via (fields_func ascii_space out)
                else (case find (\<lambda>line. contains line ''gateway:'') (split_byte out (CHR 0x0A)) of
                        None \<Rightarrow> []
                      | Some line \<Rightarrow> trim_space (trim_prefix (trim_space line) ''gateway:''))))"

definition addServerExcludeRoute :: "string \<Rightarrow> shell \<Rightarrow> string \<Rightarrow> string list list \<times> go_error option" where
  "addServerExcludeRoute goos run serverIP =
     (let gw = findDefaultGateway goos run in
      if goos = ''windows'' then
        (if gw = [] then ([gateway_query goos], Some (Err ''cannot determine default gateway''))
         else (let c = [''route'', ''add'', serverIP, ''mask'', ''255.255.255.255'', gw]
               in ([gateway_query goos, c], execRoute run c)))
      else if goos = ''linux'' then
        (let c = [''ip'', ''route'', ''add'', serverIP @ ''/32'', ''via'', gw]
         in ([gateway_query goos, c], execRoute run c))
      else if goos = ''darwin'' then
        (let c = [''route'', ''add'', ''-host'', serverIP, gw]
         in ([gateway_query goos, c], execRoute run c))
      else ([], None))"

definition delServerExcludeRoute :: "string \<Rightarrow> string \<Rightarrow> string list list" where
  "delServerExcludeRoute goos serverIP =
     (if goos = ''windows'' then [[''route'', ''delete'', serverIP]]
      else if goos = ''linux'' then [[''ip'', ''route'', ''del'', serverIP @ ''/32'']]
      else if goos = ''darwin'' then [[''route'', ''delete'', ''-host'', serverIP]]
      else [])"

text \<open>The client's variant of \<open>configureTUN\<close>: a peer address on macOS, and Windows.\<close>

definition configureTUNDev ::
  "string \<Rightarrow> shell \<Rightarrow> string \<Rightarrow> string \<Rightarrow> string list list \<times> go_error option" where
  "configureTUNDev goos run name subnet =
     (if subnet = [] then ([], None)
      else (case ParseCIDR subnet of
              None \<Rightarrow> ([], Some (Errf ''parse subnet %q'' [subnet]))
            | Some (ip, ipnet) \<Rightarrow>
                let ipStr = ip_string ip; maskStr = first_mask_bytes (net_mask ipnet) in
                if goos = ''linux'' then configureTUN goos run name subnet
                else if goos = ''darwin'' then
                  (let gw = (case ParseGateway subnet of Inl _ \<Rightarrow> ipStr | Inr g \<Rightarrow> if g = [] then ipStr else g);
                       c = [''ifconfig'', name, ipStr, gw, ''netmask'', maskStr, ''up''] in
                   case run c of
                     (out, Some e) \<Rightarrow> ([c], Some (Wrap ''ifconfig: %w: %s'' [out] e))
                   | (_, None) \<Rightarrow> ([c], None))
                else if goos = ''windows'' then
                  (let c = [''netsh'', ''interface'', ''ip'', ''set'', ''address'', name, ''static'', ipStr, maskStr] in
                   case run c of
                     (out, Some e) \<Rightarrow> ([c], Some (Wrap ''netsh: %w: %s'' [out] e))
                   | (_, None) \<Rightarrow> ([c], None))
                else ([], Some (Errf ''configureTUN not supported on %s'' [goos]))))"

section \<open>Lemmas\<close>

lemma run_cmds_ok: "snd (run_cmds run cs) = None \<Longrightarrow> length (fst (run_cmds run cs)) = length cs"
  by (induction cs rule: run_cmds.induct) (auto split: prod.splits option.splits)

lemma run_cmds_may: "run_cmds run (map May cs) = (cs, None)"
  by (induction cs) auto

lemma run_cmds_append:
  "run_cmds run (as @ bs) =
     (case run_cmds run as of
        (done, Some e) \<Rightarrow> (done, Some e)
      | (done, None) \<Rightarrow> (case run_cmds run bs of (done', e) \<Rightarrow> (done @ done', e)))"
  by (induction as rule: run_cmds.induct) (auto split: prod.splits option.splits)

lemma last_byte_differs: "(x :: u8) + 1 \<noteq> x"
  by simp

lemma ip_equal_refl [simp]: "ip_equal a a"
  by (simp add: ip_equal_def)

lemma ip_equal_inj:
  assumes "ip_equal a ip" "ip_equal b ip" "length a = length b"
  shows "a = b"
proof (cases "length a = length ip")
  case True
  then show ?thesis using assms by (simp add: ip_equal_def)
next
  case False
  then consider "length a = 4" "length ip = 16" | "length a = 16" "length ip = 4"
    using assms(1) by (auto simp: ip_equal_def split: if_splits)
  then show ?thesis
  proof cases
    case 1
    then show ?thesis using assms by (simp add: ip_equal_def)
  next
    case 2
    then have "take 12 a = take 12 b" "drop 12 a = drop 12 b" using assms by (simp_all add: ip_equal_def)
    then show ?thesis by (metis append_take_drop_id)
  qed
qed

text \<open>The gateway is never the client's own address.\<close>

definition gateway_bytes :: "u8 list \<Rightarrow> u8 list \<Rightarrow> u8 list" where
  "gateway_bytes network ip =
     (let n = length network - 1; gw = network[n := network ! n OR 1]
      in if ip_equal gw ip then gw[n := gw ! n + 1] else gw)"

lemma gateway_not_own:
  assumes "network \<noteq> []"
  shows "\<not> ip_equal (gateway_bytes network ip) ip"
proof
  let ?n = "length network - 1"
  let ?g = "network[?n := network ! ?n OR 1]"
  assume eq: "ip_equal (gateway_bytes network ip) ip"
  show False
  proof (cases "ip_equal ?g ip")
    case True
    then have "ip_equal (?g[?n := ?g ! ?n + 1]) ip" using eq by (simp add: gateway_bytes_def Let_def)
    then have "?g[?n := ?g ! ?n + 1] = ?g" by (rule ip_equal_inj [OF _ True]) simp
    then have "?g ! ?n + 1 = ?g ! ?n" using assms
      by (metis length_list_update list_update_id nth_list_update_eq diff_less length_greater_0_conv zero_less_one)
    then show False by simp
  qed (use eq in \<open>simp add: gateway_bytes_def Let_def\<close>)
qed

lemma drop_shorter: "drop n s = c # r \<Longrightarrow> length r < length s \<and> length (tl r) < length s"
proof -
  assume "drop n s = c # r"
  from arg_cong [OF this, of length] have "Suc (length r) = length s - n" by simp
  then have "length r < length s" by linarith
  then show ?thesis by simp
qed

lemma v6_groups_cases:
  assumes "v6_groups s ip ell = Some (b, e)" "length ip < 16"
  obtains (last) x y where "b = ip @ [x, y]"
    | (v4) f t where "b = ip @ f" "length f = 4" "length ip + 4 \<le> 16"
    | (more) s' x y ell' where "length s' < length s" "v6_groups s' (ip @ [x, y]) ell' = Some (b, e)"
proof -
  let ?h = "takeWhile is_hex s"
  let ?rest = "drop (length ?h) s"
  let ?x = "of_nat (hexes_val ?h div 256) :: u8" and ?y = "of_nat (hexes_val ?h mod 256) :: u8"
  have n: "(16 \<le> length ip) = False" using assms(2) by simp
  have eq: "(if ?h = [] \<or> 4 < length ?h then None
        else if has_prefix ?rest ''.'' then
          (if ell = None \<and> length ip \<noteq> 12 \<or> 16 < length ip + 4 then None
           else map_option (\<lambda>f. (ip @ f, ell)) (parse_ipv4 s))
        else (case ?rest of
                [] \<Rightarrow> Some (ip @ [?x, ?y], ell)
              | c # r \<Rightarrow>
                  if c \<noteq> CHR '':'' \<or> r = [] then None
                  else if has_prefix r '':'' then
                    (if ell \<noteq> None then None
                     else if tl r = [] then Some (ip @ [?x, ?y], Some (length (ip @ [?x, ?y])))
                     else v6_groups (tl r) (ip @ [?x, ?y]) (Some (length (ip @ [?x, ?y]))))
                  else v6_groups r (ip @ [?x, ?y]) ell)) = Some (b, e)"
    using assms(1) unfolding v6_groups.simps [of s ip ell] n if_False Let_def .
  show thesis
  proof (cases "has_prefix ?rest ''.''")
    case True
    then have "\<not> (ell = None \<and> length ip \<noteq> 12 \<or> 16 < length ip + 4)" "parse_ipv4 s \<noteq> None"
      using eq by (auto split: if_splits)
    then obtain f where "parse_ipv4 s = Some f" by auto
    then show thesis
      using eq True parse_ipv4_length [of s f] by (intro v4 [of f]) (auto split: if_splits)
  next
    case False
    note nodot = this
    show thesis
    proof (cases ?rest)
      case Nil
      then show thesis using eq nodot by (intro last [of ?x ?y]) (auto split: if_splits)
    next
      case (Cons c r)
      then have sh: "length r < length s" "length (tl r) < length s" using drop_shorter [OF Cons] by simp_all
      show thesis
      proof (cases "has_prefix r '':''")
        case True
        show thesis
        proof (cases "tl r = []")
          case True
          then show thesis using eq nodot Cons \<open>has_prefix r '':''\<close>
            by (intro last [of ?x ?y]) (auto split: if_splits)
        next
          case False
          then show thesis using eq nodot Cons \<open>has_prefix r '':''\<close>
            by (intro more [OF sh(2), of ?x ?y]) (auto split: if_splits)
        qed
      next
        case False
        then show thesis using eq nodot Cons
          by (intro more [OF sh(1), of ?x ?y ell]) (auto split: if_splits)
      qed
    qed
  qed
qed

lemma length_v6_groups:
  "v6_groups s ip ell = Some (b, e) \<Longrightarrow> even (length ip) \<Longrightarrow> length ip \<le> 16 \<Longrightarrow> length b \<le> 16"
proof (induction s arbitrary: ip ell b e rule: length_induct)
  case (1 s)
  show ?case
  proof (cases "length ip < 16")
    case True
    then have l: "length ip + 2 \<le> 16" using 1(3) by presburger
    from 1(2) True show ?thesis
    proof (cases rule: v6_groups_cases)
      case (more s' x y ell')
      then show ?thesis using 1(1,3) l by (metis even_add even_numeral length_append length_Cons list.size(3)
            numeral_2_eq_2 dvd_refl One_nat_def add_2_eq_Suc')
    qed (use l in auto)
  next
    case False
    then show ?thesis using 1(2,4) by (subst (asm) v6_groups.simps) (auto split: if_splits)
  qed
qed

lemma v6_expand_length: "v6_expand (b, e) = Some x \<Longrightarrow> length b \<le> 16 \<Longrightarrow> length x = 16"
  by (auto simp: v6_expand_def split: if_splits)

lemma parse_ipv6_length: "parse_ipv6 s = Some a \<Longrightarrow> \<exists>b z. a = Addr6 b z \<and> length b = 16"
proof -
  have "length x = 16" if h: "Option.bind (v6_groups t [] ell) v6_expand = Some x" for t ell x
  proof -
    obtain b e where "v6_groups t [] ell = Some (b, e)" "v6_expand (b, e) = Some x"
      using h by (cases "v6_groups t [] ell") auto
    then show ?thesis using length_v6_groups [of t "[]" ell b e] v6_expand_length by simp
  qed
  then show "parse_ipv6 s = Some a \<Longrightarrow> \<exists>b z. a = Addr6 b z \<and> length b = 16"
    by (auto simp: parse_ipv6_def split: prod.splits if_splits)
qed

lemma ParseAddr_length:
  "ParseAddr s = Some a \<Longrightarrow> (\<exists>b. a = Addr4 b \<and> length b = 4) \<or> (\<exists>b z. a = Addr6 b z \<and> length b = 16)"
  by (auto simp: ParseAddr_def dest: parse_ipv4_length parse_ipv6_length split: list.splits if_splits)

lemma ip_mask_v4: "length b = 4 \<Longrightarrow> length m = 4 \<Longrightarrow> ip_mask (v4_in_v6 @ b) m = mask_bytes b m"
  by (simp add: ip_mask_def Let_def)

lemma ParseCIDR_net:
  assumes "ParseCIDR s = Some (ip, n)"
  shows "length ip = 16 \<and> length (net_mask n) \<in> {4, 16} \<and> length (net_ip n) = length (net_mask n) \<and>
    ip_mask (net_ip n) (net_mask n) = net_ip n"
proof -
  obtain a mask where a: "ParseAddr (fst (cut s CHR ''/'')) = Some a" "ip = as16 a"
    "net_mask n = cidr_mask mask (bit_len a div 8)" "net_ip n = ip_mask ip (net_mask n)"
    using assms by (auto simp: ParseCIDR_def Let_def split: prod.splits option.splits if_splits)
  show ?thesis
    using ParseAddr_length [OF a(1)]
  proof (elim disjE exE conjE)
    fix b
    assume "a = Addr4 b" "length b = 4"
    then show ?thesis
      using a by (simp add: ip_mask_v4) (simp add: ip_mask_def Let_def mask_bytes_idem)
  next
    fix b z
    assume "a = Addr6 b z" "length b = 16"
    then show ?thesis using a by (simp add: ip_mask_def Let_def mask_bytes_idem)
  qed
qed

lemma ParseGateway_eq:
  "ParseCIDR s = Some (ip, n) \<Longrightarrow> ParseGateway s = Inr (ip_string (gateway_bytes (net_ip n) ip))"
  using ParseCIDR_net [of s ip n] by (simp add: ParseGateway_def gateway_bytes_def Let_def)

section \<open>Properties\<close>

text \<open>The gateway a client routes through is an address of the same family as its
  network, never the client's own address; computing it never indexes out of range, and it
  fails exactly when the subnet is not a CIDR block.\<close>

lemma gateway_sound:
  "(case ParseCIDR s of
      None \<Rightarrow> ParseGateway s = Inl (Errf ''parse subnet %q'' [s])
    | Some (ip, n) \<Rightarrow>
        \<exists>gw. ParseGateway s = Inr (ip_string gw) \<and> length gw = length (net_mask n) \<and> gw \<noteq> [] \<and> \<not> ip_equal gw ip)"
proof (cases "ParseCIDR s")
  case None
  then show ?thesis by (simp add: ParseGateway_def)
next
  case (Some p)
  obtain ip n where p: "p = (ip, n)" by (cases p)
  have l: "length (net_mask n) \<in> {4, 16}" "length (net_ip n) = length (net_mask n)"
    using ParseCIDR_net [of s ip n] Some p by auto
  then have ne: "net_ip n \<noteq> []" by auto
  then have "length (gateway_bytes (net_ip n) ip) = length (net_mask n)" "gateway_bytes (net_ip n) ip \<noteq> []"
    using l by (auto simp: gateway_bytes_def Let_def)
  then show ?thesis
    using Some p ParseGateway_eq [of s ip n] gateway_not_own [OF ne, of ip]
    by (intro exI [of _ "gateway_bytes (net_ip n) ip"] conjI |simp)+
qed

text \<open>Client and server agree on the tunnel's addresses: when the server is given its
  network's own address and the client another one of the same network, the gateway the
  client routes through is the address the server puts on its TUN device, unless the client
  was given that address itself.\<close>

lemma gateway_is_server_address:
  assumes "ParseCIDR srv = Some (sip, n)" "ParseCIDR cli = Some (cip, n)"
    and "ip_equal sip (net_ip n)"
    and "\<not> ip_equal ((net_ip n)[length (net_ip n) - 1 := last (net_ip n) OR 1]) cip"
  shows "\<exists>gw. ParseGateway cli = Inr gw \<and> serverIPFromSubnet srv = gw @ ''/'' @ nat_str (mask_ones (net_mask n))"
proof -
  have "net_ip n \<noteq> []" "ip_mask (net_ip n) (net_mask n) = net_ip n"
    using ParseCIDR_net [OF assms(1)] by auto
  then show ?thesis
    using assms by (simp add: ParseGateway_def serverIPFromSubnet_def Let_def last_conv_nth)
qed

end
