(* ===== verification/ServerMain.thy ===== *)
theory ServerMain
  imports Web Route
begin

text \<open>
  The server's main program, \<open>server/cmd/safelink-server/main.go\<close>: how flags, the
  configuration file and the environment combine into the VPN server, the web console and the
  NAT commands.  Flag parsing, the environment and the file system are parameters.
\<close>

section \<open>Flags\<close>

text \<open>The flag values after parsing; \<open>f_explicit\<close> holds the names given on the command line.\<close>

record flags =
  f_config :: string
  f_listen :: string
  f_subnet :: string
  f_user :: string
  f_pass :: string
  f_tls_cert :: string
  f_tls_key :: string
  f_no_padding :: bool
  f_nat_iface :: string
  f_web :: string
  f_public_addr :: string
  f_subscription_token :: string
  f_subscription_name :: string
  f_client_subnet :: string
  f_explicit :: "string list"

definition default_flags :: flags where
  "default_flags =
     \<lparr>f_config = ''/etc/safelink/server.yaml'', f_listen = '':1562'', f_subnet = ''10.0.8.0/24'',
      f_user = ''admin'', f_pass = [], f_tls_cert = [], f_tls_key = [], f_no_padding = False,
      f_nat_iface = [], f_web = ''0.0.0.0:8080'', f_public_addr = [], f_subscription_token = [],
      f_subscription_name = ''safelink-vpn'', f_client_subnet = ''10.8.0.2/24'', f_explicit = []\<rparr>"

text \<open>Values from the configuration file, for the flags that were not given.\<close>

definition with_file :: "ServerCfg \<Rightarrow> flags \<Rightarrow> flags" where
  "with_file c f =
     (let given = (\<lambda>n. n \<in> set (f_explicit f)) in
      f\<lparr>f_listen := (if given ''listen'' then f_listen f else srv_Listen c),
        f_subnet := (if given ''subnet'' then f_subnet f else srv_Subnet c),
        f_tls_cert := (if given ''tls-cert'' then f_tls_cert f else tls_Cert (srv_TLS c)),
        f_tls_key := (if given ''tls-key'' then f_tls_key f else tls_Key (srv_TLS c)),
        f_web := (if given ''web'' then f_web f else web_Addr (srv_Web c)),
        f_nat_iface := (if \<not> given ''nat-iface'' \<and> nat_Enabled (srv_NAT c) then nat_Iface (srv_NAT c)
                        else f_nat_iface f)\<rparr>)"

text \<open>The environment (empty when unset) replaces values that still equal the built-in default.\<close>

definition env_over :: "string \<Rightarrow> string \<Rightarrow> string \<Rightarrow> string" where
  "env_over v dflt cur = (if v \<noteq> [] \<and> cur = dflt then v else cur)"

definition with_env :: "(string \<Rightarrow> string) \<Rightarrow> flags \<Rightarrow> flags" where
  "with_env getenv f =
     f\<lparr>f_user := env_over (getenv ''VPN_USER'') ''admin'' (f_user f),
       f_subnet := env_over (getenv ''VPN_SUBNET'') ''10.0.8.0/24'' (f_subnet f),
       f_public_addr := env_over (getenv ''VPN_PUBLIC_ADDR'') [] (f_public_addr f),
       f_subscription_token := env_over (getenv ''SUBSCRIPTION_TOKEN'') [] (f_subscription_token f),
       f_subscription_name := env_over (getenv ''SUBSCRIPTION_NAME'') ''safelink-vpn'' (f_subscription_name f),
       f_client_subnet := env_over (getenv ''VPN_CLIENT_SUBNET'') ''10.8.0.2/24'' (f_client_subnet f)\<rparr>"

section \<open>NAT\<close>

definition nat_commands :: "string \<Rightarrow> string \<Rightarrow> string list list" where
  "nat_commands subnet iface =
     [[''sysctl'', ''-w'', ''net.ipv4.ip_forward=1''],
      [''iptables'', ''-t'', ''nat'', ''-A'', ''POSTROUTING'', ''-s'', subnet, ''-o'', iface, ''-j'', ''MASQUERADE''],
      [''iptables'', ''-A'', ''FORWARD'', ''-i'', ''tun0'', ''-o'', iface, ''-j'', ''ACCEPT''],
      [''iptables'', ''-A'', ''FORWARD'', ''-i'', iface, ''-o'', ''tun0'', ''-m'', ''state'', ''--state'',
       ''RELATED,ESTABLISHED'', ''-j'', ''ACCEPT'']]"

text \<open>The commands run, and the error of the first that fails; \<open>run\<close> is the answer of the
  system to each command.\<close>

fun run_all :: "(string list \<Rightarrow> (go_error \<times> string) option) \<Rightarrow> string list list \<Rightarrow>
    string list list \<times> go_error option" where
  "run_all run [] = ([], None)"
| "run_all run (args # rest) =
     (case run args of
        Some (e, out) \<Rightarrow> ([args], Some (Wrap (hd args @ '': %w'' @ [CHR 0x0A] @ out) [] e))
      | None \<Rightarrow> (case run_all run rest of (cs, e) \<Rightarrow> (args # cs, e)))"

definition setupNAT :: "(string list \<Rightarrow> (go_error \<times> string) option) \<Rightarrow> string \<Rightarrow> string \<Rightarrow>
    string list list \<times> go_error option" where
  "setupNAT run subnet iface = run_all run (nat_commands subnet iface)"

definition teardownNAT :: "string \<Rightarrow> string \<Rightarrow> string list list" where
  "teardownNAT subnet iface =
     [[''iptables'', ''-t'', ''nat'', ''-D'', ''POSTROUTING'', ''-s'', subnet, ''-o'', iface, ''-j'', ''MASQUERADE''],
      [''iptables'', ''-D'', ''FORWARD'', ''-i'', ''tun0'', ''-o'', iface, ''-j'', ''ACCEPT''],
      [''iptables'', ''-D'', ''FORWARD'', ''-i'', iface, ''-o'', ''tun0'', ''-m'', ''state'', ''--state'',
       ''RELATED,ESTABLISHED'', ''-j'', ''ACCEPT'']]"

section \<open>main\<close>

definition webAuthConfigured :: "AuthCfg \<Rightarrow> bool" where
  "webAuthConfigured auth \<longleftrightarrow> APIToken auth \<noteq> [] \<or> Users auth \<noteq> []"

text \<open>
  What a start comes to: it exits with a message, or it serves, with the commands run before,
  those registered for the end, the VPN server, its registry's configuration and the console.
\<close>

record serving =
  sv_vpn :: VPNServer
  sv_runtime :: RuntimeConfig
  sv_tls :: "string \<times> string"
  sv_before :: "string list list"
  sv_at_end :: "string list list"
  sv_web :: "(string \<times> Options) option"

datatype startup = Exit string "string list list" | Serve serving

definition web_options :: "flags \<Rightarrow> AuthCfg \<Rightarrow> Options" where
  "web_options f auth =
     \<lparr>o_Subscription =
        \<lparr>sc_Name = f_subscription_name f, sc_PublicAddr = f_public_addr f, sc_Username = f_user f,
         sc_Password = f_pass f, sc_Token = f_subscription_token f, sc_Subnet = f_client_subnet f,
         sc_DNS = [], sc_AutoRoute = True, sc_SNI = [], sc_PinSHA256 = [],
         sc_Padding = Some (\<not> f_no_padding f)\<rparr>,
      o_Auth = auth\<rparr>"

definition vpn_server :: "flags \<Rightarrow> VPNServer" where
  "vpn_server f =
     \<lparr>vs_ListenAddr = f_listen f, vs_Subnet = f_subnet f, vs_Username = f_user f, vs_Password = f_pass f,
      vs_Padding = (\<not> f_no_padding f)\<rparr>"

definition launch_server ::
  "(string list \<Rightarrow> (go_error \<times> string) option) \<Rightarrow> AuthCfg \<Rightarrow> flags \<Rightarrow> startup" where
  "launch_server run auth f =
     (let (cmds, err) = (if f_nat_iface f \<noteq> [] then setupNAT run (f_subnet f) (f_nat_iface f) else ([], None))
      in if f_web f \<noteq> [] \<and> \<not> webAuthConfigured auth
         then Exit ''error: web auth is required when web control panel is enabled'' cmds
         else Serve
           \<lparr>sv_vpn = vpn_server f,
            sv_runtime = \<lparr>rc_ListenAddr = f_listen f, rc_Subnet = f_subnet f, rc_NATIface = f_nat_iface f,
               rc_NATEnabled = (f_nat_iface f \<noteq> []), rc_Padding = (\<not> f_no_padding f)\<rparr>,
            sv_tls = (f_tls_cert f, f_tls_key f),
            sv_before = cmds,
            sv_at_end = (if f_nat_iface f \<noteq> [] \<and> err = None then teardownNAT (f_subnet f) (f_nat_iface f) else []),
            sv_web = (if f_web f \<noteq> [] then Some (f_web f, web_options f auth) else None)\<rparr>)"

definition server_main ::
  "ServerCfg result \<Rightarrow> (string \<Rightarrow> string) \<Rightarrow> (string list \<Rightarrow> (go_error \<times> string) option) \<Rightarrow> flags \<Rightarrow> startup" where
  "server_main loaded getenv run f0 =
     (case loaded of
        Inl e \<Rightarrow> Exit (''error: load config: '' @ err_text e) []
      | Inr c \<Rightarrow>
          (let f1 = with_file c f0;
               f2 = (if f_pass f1 = [] then f1\<lparr>f_pass := getenv ''VPN_PASS''\<rparr> else f1)
           in if f_pass f2 = [] then Exit ''error: --pass or VPN_PASS environment variable is required'' []
              else launch_server run (web_Auth (srv_Web c)) (with_env getenv f2)))"

section \<open>What a start guarantees\<close>

lemma webAuth_enabled: "webAuthConfigured auth = auth_enabled auth"
  by (simp add: webAuthConfigured_def auth_enabled_def)

lemma launch_serves:
  assumes "launch_server run auth f = Serve sv"
  shows "sv_vpn sv = vpn_server f" "sv_web sv = Some (a, opts) \<Longrightarrow> opts = web_options f auth \<and> auth_enabled auth"
    "sv_web sv = Some (a, opts) \<Longrightarrow> a \<noteq> []"
  using assms by (auto simp: launch_server_def webAuth_enabled split: if_splits prod.splits)

lemma main_serves:
  assumes "server_main loaded getenv run f0 = Serve sv"
  obtains c f where "loaded = Inr c" "f_pass f \<noteq> []" "launch_server run (web_Auth (srv_Web c)) f = Serve sv"
    "f_subnet f = env_over (getenv ''VPN_SUBNET'') ''10.0.8.0/24'' (f_subnet (with_file c f0))"
    "f_client_subnet f = env_over (getenv ''VPN_CLIENT_SUBNET'') ''10.8.0.2/24'' (f_client_subnet f0)"
proof -
  obtain c where c: "loaded = Inr c" using assms by (cases loaded) (auto simp: server_main_def)
  define f2 where "f2 = (if f_pass (with_file c f0) = [] then (with_file c f0)\<lparr>f_pass := getenv ''VPN_PASS''\<rparr>
    else with_file c f0)"
  have "f_pass f2 \<noteq> []" "launch_server run (web_Auth (srv_Web c)) (with_env getenv f2) = Serve sv"
    using assms c by (auto simp: server_main_def Let_def f2_def split: if_splits)
  moreover have "f_pass (with_env getenv f2) = f_pass f2" by (simp add: with_env_def)
  moreover have "f_subnet f2 = f_subnet (with_file c f0)" "f_client_subnet f2 = f_client_subnet f0"
    by (simp_all add: f2_def with_file_def Let_def)
  ultimately show ?thesis using c that [of c "with_env getenv f2"] by (simp add: with_env_def)
qed

text \<open>The published tunnel takes its credentials and padding from the console's configuration.\<close>

lemma sc_Tunnel_fields:
  assumes "sc_Tunnel cfg = Inr t"
  shows "ssh_User (t_SSH t) = sc_Username cfg" "ssh_Password (t_SSH t) = sc_Password cfg"
    "tun_Padding (t_Tun t) = sc_Padding cfg" "t_Forward t = sc_PublicAddr cfg" "ValidateTunnel t = None"
  using assms by (auto simp: sc_Tunnel_def Let_def split: if_splits option.splits)

section \<open>Properties\<close>

text \<open>A server that starts is never open: its VPN password is not empty, and a console is served
  only with authentication on, so what the console discloses needs a credential.\<close>

lemma server_never_open:
  assumes "server_main loaded getenv run f0 = Serve sv"
  shows "vs_Password (sv_vpn sv) \<noteq> [] \<and>
    (case sv_web sv of None \<Rightarrow> True | Some (a, opts) \<Rightarrow> auth_enabled (o_Auth opts))"
  using assms
proof (rule main_serves)
  fix c f assume "f_pass f \<noteq> []" and sv: "launch_server run (web_Auth (srv_Web c)) f = Serve sv"
  then show ?thesis
    using launch_serves [OF sv] by (auto simp: vpn_server_def web_options_def split: option.split)
qed

definition sample_config :: ServerCfg where
  "sample_config = DefaultServerConfig\<lparr>srv_Web := \<lparr>web_Addr = ''0.0.0.0:8080'',
     web_Auth = \<lparr>APIToken = ''t0ken'', Users = []\<rparr>\<rparr>\<rparr>"

definition sample_vars :: "string \<Rightarrow> string" where
  "sample_vars n = (if n = ''VPN_PASS'' then ''pw'' else if n = ''VPN_PUBLIC_ADDR'' then ''vpn.example:1562'' else [])"

definition sample_start :: serving where
  "sample_start =
     \<lparr>sv_vpn = \<lparr>vs_ListenAddr = '':1562'', vs_Subnet = ''10.0.8.0/24'', vs_Username = ''admin'',
                vs_Password = ''pw'', vs_Padding = True\<rparr>,
      sv_runtime = \<lparr>rc_ListenAddr = '':1562'', rc_Subnet = ''10.0.8.0/24'', rc_NATIface = [],
                    rc_NATEnabled = False, rc_Padding = True\<rparr>,
      sv_tls = ([], []), sv_before = [], sv_at_end = [],
      sv_web = Some (''0.0.0.0:8080'',
        web_options (default_flags\<lparr>f_pass := ''pw'', f_public_addr := ''vpn.example:1562''\<rparr>)
          (web_Auth (srv_Web sample_config)))\<rparr>"

lemma sample_start_serves:
  "server_main (Inr sample_config) sample_vars (\<lambda>_. None) default_flags = Serve sample_start"
  by (simp add: sample_start_def server_main_def sample_config_def sample_vars_def default_flags_def
      with_file_def with_env_def env_over_def launch_server_def vpn_server_def web_options_def
      webAuthConfigured_def DefaultServerConfig_def Let_def)


definition sample_tunnel_published :: TunnelCfg where
  "sample_tunnel_published = empty_tunnel\<lparr>
     t_Name := ''safelink-vpn'', t_Mode := ModeVPN, t_Forward := ''vpn.example:1562'',
     t_SSH := empty_ssh\<lparr>ssh_User := ''admin'', ssh_Password := ''pw''\<rparr>,
     t_Tun := empty_tun\<lparr>tun_Subnet := ''10.8.0.2/24'', tun_AutoRoute := True, tun_Padding := Some True\<rparr>\<rparr>"


text \<open>The built-in subnets of the two ends do not belong together: started with the default
  subnets, in whatever environment that overrides neither, the address the server puts on its
  device is not the gateway a client of the published tunnel routes to, and the NAT rule's
  source network is not the client's.\<close>

lemma default_subnets_disagree:
  assumes "server_main (Inr c) getenv run default_flags = Serve sv" "sv_web sv = Some (addr, opts)"
    and "srv_Subnet c = srv_Subnet DefaultServerConfig" "getenv ''VPN_SUBNET'' = []" "getenv ''VPN_CLIENT_SUBNET'' = []"
    and "sc_Tunnel (o_Subscription opts) = Inr t"
  shows "serverIPFromSubnet (vs_Subnet (sv_vpn sv)) = ''10.0.8.1/24'' \<and>
    ParseGateway (tun_Subnet (t_Tun t)) = Inr ''10.8.0.1'' \<and>
    map_option (net_ip \<circ> snd) (ParseCIDR (vs_Subnet (sv_vpn sv))) \<noteq>
      map_option (net_ip \<circ> snd) (ParseCIDR (tun_Subnet (t_Tun t)))"
proof -
  have subnets: "vs_Subnet (sv_vpn sv) = ''10.0.8.0/24'' \<and> sc_Subnet (o_Subscription opts) = ''10.8.0.2/24''"
    using assms(1)
  proof (rule main_serves)
    fix c' f assume c: "Inr c = Inr c'" and sv: "launch_server run (web_Auth (srv_Web c')) f = Serve sv"
      and f: "f_subnet f = env_over (getenv ''VPN_SUBNET'') ''10.0.8.0/24'' (f_subnet (with_file c' default_flags))"
      "f_client_subnet f = env_over (getenv ''VPN_CLIENT_SUBNET'') ''10.8.0.2/24'' (f_client_subnet default_flags)"
    have "f_subnet f = ''10.0.8.0/24''" "f_client_subnet f = ''10.8.0.2/24''"
      using f c assms(3-5) by (simp_all add: env_over_def with_file_def default_flags_def DefaultServerConfig_def Let_def)
    then show ?thesis
      using launch_serves [OF sv] assms(2) by (simp add: vpn_server_def web_options_def)
  qed
  then have "tun_Subnet (t_Tun t) = ''10.8.0.2/24''"
    using assms(6) by (auto simp: sc_Tunnel_def Let_def split: if_splits option.splits)
  moreover have "serverIPFromSubnet ''10.0.8.0/24'' = ''10.0.8.1/24''" by code_simp
  moreover have "ParseGateway ''10.8.0.2/24'' = Inr ''10.8.0.1''" by code_simp
  moreover have "map_option (net_ip \<circ> snd) (ParseCIDR ''10.0.8.0/24'') \<noteq>
      map_option (net_ip \<circ> snd) (ParseCIDR ''10.8.0.2/24'')" by code_simp
  ultimately show ?thesis using subnets by simp
qed

end
