(* ===== verification/ProxySub.thy ===== *)
theory ProxySub
  imports Interfaces Url
begin

text \<open>
  Package \<open>pkg/proxysubscription\<close>: proxy nodes and the three subscription formats
  (Clash YAML, sing-box JSON, URI lists).  \<open>yaml.Unmarshal\<close> and \<open>json.Unmarshal\<close>
  into the document structs are parameters (the record \<open>decoders\<close>); the struct fields they
  fill are the records below, with the texts that the package's own \<open>UnmarshalYAML\<close> and
  \<open>UnmarshalJSON\<close> methods convert.
\<close>

section \<open>Formats, protocols, records\<close>

definition FormatAuto :: string where "FormatAuto = ''auto''"
definition FormatClashYAML :: string where "FormatClashYAML = ''clash-yaml''"
definition FormatURIList :: string where "FormatURIList = ''uri-list''"
definition FormatSingBoxJSON :: string where "FormatSingBoxJSON = ''sing-box-json''"

definition ProtocolShadowsocks :: string where "ProtocolShadowsocks = ''ss''"
definition ProtocolVMess :: string where "ProtocolVMess = ''vmess''"
definition ProtocolVLESS :: string where "ProtocolVLESS = ''vless''"
definition ProtocolTrojan :: string where "ProtocolTrojan = ''trojan''"
definition ProtocolHysteria :: string where "ProtocolHysteria = ''hysteria''"
definition ProtocolHysteria2 :: string where "ProtocolHysteria2 = ''hysteria2''"
definition ProtocolTUIC :: string where "ProtocolTUIC = ''tuic''"
definition ProtocolAnyTLS :: string where "ProtocolAnyTLS = ''anytls''"

definition PacketEncodingXUDP :: string where "PacketEncodingXUDP = ''xudp''"
definition PacketEncodingPacketAddr :: string where "PacketEncodingPacketAddr = ''packetaddr''"
definition PacketEncodingDisabled :: string where "PacketEncodingDisabled = ''none''"

lemmas format_consts = FormatAuto_def FormatClashYAML_def FormatURIList_def FormatSingBoxJSON_def
lemmas protocol_consts = ProtocolShadowsocks_def ProtocolVMess_def ProtocolVLESS_def
  ProtocolTrojan_def ProtocolHysteria_def ProtocolHysteria2_def ProtocolTUIC_def ProtocolAnyTLS_def
lemmas encoding_consts = PacketEncodingXUDP_def PacketEncodingPacketAddr_def PacketEncodingDisabled_def

definition NormalizePacketEncoding :: "string \<Rightarrow> string" where
  "NormalizePacketEncoding value =
     (let s = lower_trim value in
      if s = PacketEncodingXUDP then PacketEncodingXUDP
      else if s = PacketEncodingPacketAddr \<or> s = ''packet-addr'' \<or> s = ''packet_addr''
      then PacketEncodingPacketAddr
      else if s = PacketEncodingDisabled \<or> s = ''disabled'' \<or> s = ''false'' then PacketEncodingDisabled
      else [])"

record TLSOptions =
  tls_Enabled :: bool
  tls_ServerName :: string
  tls_Insecure :: bool
  tls_ALPN :: "string list"
  tls_PublicKey :: string
  tls_ShortID :: string
  tls_Fingerprint :: string

text \<open>A header map is an association list with distinct keys.\<close>

record TransportOptions =
  tr_Type :: string
  tr_Path :: string
  tr_Host :: string
  tr_Headers :: "(string \<times> string) list"

record ProxyNode =
  pn_ID :: string
  pn_SubscriptionID :: string
  pn_Name :: string
  pn_Protocol :: string
  pn_Server :: string
  pn_Port :: int
  pn_Method :: string
  pn_Password :: string
  pn_UUID :: string
  pn_AlterID :: int
  pn_Security :: string
  pn_Flow :: string
  pn_UDP :: bool
  pn_PacketEncoding :: string
  pn_TLS :: "TLSOptions option"
  pn_Transport :: TransportOptions

definition empty_transport :: TransportOptions where
  "empty_transport = \<lparr>tr_Type = [], tr_Path = [], tr_Host = [], tr_Headers = []\<rparr>"

text \<open>\<open>ProxyNode{}\<close>.\<close>

definition empty_node :: ProxyNode where
  "empty_node =
     \<lparr>pn_ID = [], pn_SubscriptionID = [], pn_Name = [], pn_Protocol = [], pn_Server = [], pn_Port = 0,
      pn_Method = [], pn_Password = [], pn_UUID = [], pn_AlterID = 0, pn_Security = [], pn_Flow = [],
      pn_UDP = False, pn_PacketEncoding = [], pn_TLS = None, pn_Transport = empty_transport\<rparr>"

text \<open>Scalars and sequences of a YAML document; a missing key is the empty scalar.\<close>

datatype yaml_node = YScalar string | YSequence "string list" | YOther

record clashProxy =
  cp_Name :: string
  cp_Type :: string
  cp_Server :: string
  cp_Port :: string
  cp_Cipher :: string
  cp_Password :: string
  cp_UUID :: string
  cp_AlterID :: string
  cp_Security :: string
  cp_TLS :: bool
  cp_ServerName :: string
  cp_SNI :: string
  cp_Network :: string
  cp_Flow :: string
  cp_UDP :: bool
  cp_PacketEncoding :: string
  cp_XUDP :: bool
  cp_SkipCertVerify :: bool
  cp_ClientFingerprint :: string
  cp_WSPath :: string
  cp_WSHeaders :: "(string \<times> string) list"
  cp_GRPCServiceName :: string
  cp_RealityPublicKey :: string
  cp_RealityShortID :: string
  cp_ALPN :: yaml_node
  cp_AuthStr :: string
  cp_Up :: string
  cp_Down :: string

record singBoxOutbound =
  so_Type :: string
  so_Tag :: string
  so_Server :: string
  so_ServerPort :: string
  so_Method :: string
  so_Password :: string
  so_UUID :: string
  so_AlterID :: string
  so_Security :: string
  so_Flow :: string
  so_UDP :: bool
  so_PacketEncoding :: string
  so_TLS :: "TLSOptions option"
  so_Transport :: TransportOptions

record vmessDoc =
  vm_Name :: string
  vm_Server :: string
  vm_Port :: string
  vm_UUID :: string
  vm_AlterID :: string
  vm_Network :: string
  vm_Security :: string
  vm_Host :: string
  vm_Path :: string
  vm_TLS :: string
  vm_SNI :: string

text \<open>The third-party and library decoders, each into its struct.\<close>

record decoders =
  yaml_proxies :: "string \<Rightarrow> clashProxy list result"
  json_outbounds :: "string \<Rightarrow> singBoxOutbound list result"
  json_vmess :: "string \<Rightarrow> vmessDoc result"

section \<open>Lenient integers and string lists\<close>

definition flexibleInt_parse :: "int \<Rightarrow> string \<Rightarrow> int" where
  "flexibleInt_parse f text = (case atoi (trim_space text) of Some n \<Rightarrow> n | None \<Rightarrow> f)"

definition flex_yaml :: "string \<Rightarrow> int" where
  "flex_yaml text = flexibleInt_parse 0 text"

definition flex_json :: "string \<Rightarrow> int" where
  "flex_json text = flexibleInt_parse 0 (trim_char CHR 0x22 (trim_space text))"

definition stringList_yaml :: "yaml_node \<Rightarrow> string list" where
  "stringList_yaml v =
     (case v of
        YSequence items \<Rightarrow> items
      | YScalar s \<Rightarrow> if s \<noteq> [] then map trim_space (split_byte s CHR '','') else []
      | YOther \<Rightarrow> [])"

section \<open>Names and protocols\<close>

definition kw_remaining_traffic :: string where
  "kw_remaining_traffic =
     [CHR 0xE5, CHR 0x89, CHR 0xA9, CHR 0xE4, CHR 0xBD, CHR 0x99, CHR 0xE6, CHR 0xB5,
      CHR 0x81, CHR 0xE9, CHR 0x87, CHR 0x8F]"

definition kw_traffic :: string where
  "kw_traffic =
     [CHR 0xE6, CHR 0xB5, CHR 0x81, CHR 0xE9, CHR 0x87, CHR 0x8F]"

definition kw_plan_expires :: string where
  "kw_plan_expires =
     [CHR 0xE5, CHR 0xA5, CHR 0x97, CHR 0xE9, CHR 0xA4, CHR 0x90, CHR 0xE5, CHR 0x88,
      CHR 0xB0, CHR 0xE6, CHR 0x9C, CHR 0x9F]"

definition kw_expires :: string where
  "kw_expires =
     [CHR 0xE5, CHR 0x88, CHR 0xB0, CHR 0xE6, CHR 0x9C, CHR 0x9F]"

definition kw_expired :: string where
  "kw_expired =
     [CHR 0xE8, CHR 0xBF, CHR 0x87, CHR 0xE6, CHR 0x9C, CHR 0x9F]"

definition kw_website :: string where
  "kw_website =
     [CHR 0xE5, CHR 0xAE, CHR 0x98, CHR 0xE7, CHR 0xBD, CHR 0x91]"

definition kw_reset :: string where
  "kw_reset =
     [CHR 0xE9, CHR 0x87, CHR 0x8D, CHR 0xE7, CHR 0xBD, CHR 0xAE]"

definition kw_subscription :: string where
  "kw_subscription =
     [CHR 0xE8, CHR 0xAE, CHR 0xA2, CHR 0xE9, CHR 0x98, CHR 0x85]"

definition informational_keywords :: "string list" where
  "informational_keywords =
     [kw_remaining_traffic, kw_traffic, kw_plan_expires, kw_expires, kw_expired, kw_website, kw_reset,
      kw_subscription, ''traffic'', ''remaining'', ''expire'', ''expired'', ''reset'', ''official'',
      ''website'', ''subscription'']"

definition IsInformationalNodeName :: "string \<Rightarrow> bool" where
  "IsInformationalNodeName name =
     (let n = lower_trim name in n \<noteq> [] \<and> list_ex (contains n) informational_keywords)"

definition normalizeProtocol :: "string \<Rightarrow> string" where
  "normalizeProtocol protocol =
     (let s = lower_trim protocol in
      if s = ''ss'' \<or> s = ''shadowsocks'' then ProtocolShadowsocks
      else if s = ''vmess'' then ProtocolVMess
      else if s = ''vless'' then ProtocolVLESS
      else if s = ''trojan'' then ProtocolTrojan
      else if s = ''hysteria'' then ProtocolHysteria
      else if s = ''hysteria2'' \<or> s = ''hy2'' then ProtocolHysteria2
      else if s = ''tuic'' then ProtocolTUIC
      else if s = ''anytls'' then ProtocolAnyTLS
      else s)"

definition isSupportedProtocol :: "string \<Rightarrow> bool" where
  "isSupportedProtocol p \<longleftrightarrow>
     p \<in> {ProtocolShadowsocks, ProtocolVMess, ProtocolVLESS, ProtocolTrojan, ProtocolHysteria,
       ProtocolHysteria2, ProtocolTUIC, ProtocolAnyTLS}"

definition normalizeFormat :: "string \<Rightarrow> string" where
  "normalizeFormat fmt =
     (let s = lower_trim fmt in
      if s = [] \<or> s = ''auto'' then FormatAuto
      else if s = ''clash'' \<or> s = ''yaml'' \<or> s = ''yml'' \<or> s = ''clash-yaml'' then FormatClashYAML
      else if s = ''uri'' \<or> s = ''uri-list'' \<or> s = ''v2ray'' \<or> s = ''base64'' then FormatURIList
      else if s = ''sing-box'' \<or> s = ''singbox'' \<or> s = ''json'' \<or> s = ''sing-box-json''
      then FormatSingBoxJSON
      else s)"

definition alwaysTLSProtocol :: "string \<Rightarrow> bool" where
  "alwaysTLSProtocol p \<longleftrightarrow> p \<in> {ProtocolHysteria, ProtocolHysteria2, ProtocolTUIC, ProtocolAnyTLS}"

definition validateNode :: "ProxyNode \<Rightarrow> go_error option" where
  "validateNode n =
     (if trim_space (pn_Name n) = [] then Some (Err ''proxy node requires name'')
      else if trim_space (pn_Server n) = [] then Some (Errf ''%s: proxy node requires server'' [pn_Name n])
      else if pn_Port n \<le> 0 \<or> pn_Port n > 65535
      then Some (Errf ''%s: proxy node requires valid port'' [pn_Name n])
      else if pn_Protocol n = ProtocolShadowsocks then
        (if pn_Method n = [] \<or> pn_Password n = []
         then Some (Errf ''%s: shadowsocks node requires method and password'' [pn_Name n]) else None)
      else if pn_Protocol n = ProtocolVMess \<or> pn_Protocol n = ProtocolVLESS then
        (if pn_UUID n = [] then Some (Errf ''%s: %s node requires uuid'' [pn_Name n, pn_Protocol n]) else None)
      else if pn_Protocol n \<in> {ProtocolTrojan, ProtocolHysteria, ProtocolHysteria2, ProtocolAnyTLS} then
        (if pn_Password n = []
         then Some (Errf ''%s: %s node requires password'' [pn_Name n, pn_Protocol n]) else None)
      else if pn_Protocol n = ProtocolTUIC then
        (if pn_UUID n = [] \<or> pn_Password n = []
         then Some (Errf ''%s: tuic node requires uuid and password'' [pn_Name n]) else None)
      else Some (Errf ''%s: unsupported proxy protocol %q'' [pn_Name n, pn_Protocol n]))"

section \<open>Structured documents\<close>

definition clash_tls :: "clashProxy \<Rightarrow> TLSOptions option" where
  "clash_tls p =
     (if cp_TLS p \<or> cp_SNI p \<noteq> [] \<or> cp_ServerName p \<noteq> [] \<or> cp_RealityPublicKey p \<noteq> []
      then Some \<lparr>tls_Enabled = True, tls_ServerName = firstNonEmpty [cp_ServerName p, cp_SNI p],
                 tls_Insecure = cp_SkipCertVerify p, tls_ALPN = stringList_yaml (cp_ALPN p),
                 tls_PublicKey = cp_RealityPublicKey p, tls_ShortID = cp_RealityShortID p,
                 tls_Fingerprint = cp_ClientFingerprint p\<rparr>
      else None)"

text \<open>The three assignments to \<open>node.Transport\<close>, in order.\<close>

definition clash_network :: "clashProxy \<Rightarrow> TransportOptions \<Rightarrow> TransportOptions" where
  "clash_network p t = (if cp_Network p \<noteq> [] then t\<lparr>tr_Type := cp_Network p\<rparr> else t)"

definition clash_ws :: "clashProxy \<Rightarrow> TransportOptions \<Rightarrow> TransportOptions" where
  "clash_ws p t =
     (if cp_WSPath p \<noteq> [] \<or> cp_WSHeaders p \<noteq> []
      then t\<lparr>tr_Type := firstNonEmpty [tr_Type t, ''ws''], tr_Path := cp_WSPath p,
             tr_Headers := cp_WSHeaders p, tr_Host := q_Get (cp_WSHeaders p) ''Host''\<rparr>
      else t)"

definition clash_grpc :: "clashProxy \<Rightarrow> TransportOptions \<Rightarrow> TransportOptions" where
  "clash_grpc p t =
     (if cp_GRPCServiceName p \<noteq> []
      then t\<lparr>tr_Type := firstNonEmpty [tr_Type t, ''grpc''], tr_Path := cp_GRPCServiceName p\<rparr>
      else t)"

definition clash_packet_encoding :: "clashProxy \<Rightarrow> string" where
  "clash_packet_encoding p =
     (let e = NormalizePacketEncoding (cp_PacketEncoding p)
      in if e = [] \<and> cp_XUDP p then PacketEncodingXUDP else e)"

definition clashProxyToNode :: "clashProxy \<Rightarrow> ProxyNode option" where
  "clashProxyToNode p =
     (let protocol = normalizeProtocol (cp_Type p);
          pw = firstNonEmpty [cp_Password p, cp_AuthStr p]
      in if \<not> isSupportedProtocol protocol then None
         else Some (empty_node\<lparr>
           pn_Name := firstNonEmpty [cp_Name p, cp_Server p],
           pn_Protocol := protocol,
           pn_Server := cp_Server p,
           pn_Port := flex_yaml (cp_Port p),
           pn_Method := cp_Cipher p,
           pn_Password := (if protocol = ProtocolHysteria2 \<and> pw = [] then cp_AuthStr p else pw),
           pn_UUID := cp_UUID p,
           pn_AlterID := flex_yaml (cp_AlterID p),
           pn_Security := cp_Security p,
           pn_Flow := cp_Flow p,
           pn_UDP := cp_UDP p,
           pn_PacketEncoding := clash_packet_encoding p,
           pn_TLS := clash_tls p,
           pn_Transport := clash_grpc p (clash_ws p (clash_network p empty_transport))\<rparr>))"

definition outboundToNode :: "singBoxOutbound \<Rightarrow> ProxyNode option" where
  "outboundToNode ob =
     (let protocol = normalizeProtocol (so_Type ob)
      in if \<not> isSupportedProtocol protocol then None
         else Some (empty_node\<lparr>
           pn_Name := firstNonEmpty [so_Tag ob, so_Server ob],
           pn_Protocol := protocol,
           pn_Server := so_Server ob,
           pn_Port := flex_json (so_ServerPort ob),
           pn_Method := so_Method ob,
           pn_Password := so_Password ob,
           pn_UUID := so_UUID ob,
           pn_AlterID := flex_json (so_AlterID ob),
           pn_Security := so_Security ob,
           pn_Flow := so_Flow ob,
           pn_UDP := so_UDP ob,
           pn_PacketEncoding := NormalizePacketEncoding (so_PacketEncoding ob),
           pn_TLS := so_TLS ob,
           pn_Transport := so_Transport ob\<rparr>))"

text \<open>
  The loop that \<open>parseClashYAML\<close> and \<open>parseSingBoxJSON\<close> share: \<open>to_node\<close> converts
  one entry, the accumulator is \<open>firstErr\<close>.
\<close>

fun node_loop :: "('a \<Rightarrow> ProxyNode option) \<Rightarrow> 'a list \<Rightarrow> go_error option \<Rightarrow>
    ProxyNode list \<times> go_error option" where
  "node_loop to_node [] firstErr = ([], firstErr)"
| "node_loop to_node (x # xs) firstErr =
     (case to_node x of
        None \<Rightarrow> node_loop to_node xs firstErr
      | Some node \<Rightarrow>
          if IsInformationalNodeName (pn_Name node) then node_loop to_node xs firstErr
          else (case validateNode node of
                  Some e \<Rightarrow> node_loop to_node xs (if firstErr = None then Some e else firstErr)
                | None \<Rightarrow> (case node_loop to_node xs firstErr of (ns, e) \<Rightarrow> (node # ns, e))))"

definition finish_nodes :: "ProxyNode list \<times> go_error option \<Rightarrow> string \<Rightarrow> ProxyNode list result" where
  "finish_nodes r none =
     (case r of (nodes, firstErr) \<Rightarrow>
        if nodes = [] then (case firstErr of Some e \<Rightarrow> Inl e | None \<Rightarrow> Inl (Err none))
        else Inr nodes)"

definition parseClashYAML :: "decoders \<Rightarrow> string \<Rightarrow> ProxyNode list result" where
  "parseClashYAML d data =
     (case yaml_proxies d data of
        Inl e \<Rightarrow> Inl e
      | Inr proxies \<Rightarrow>
          if proxies = [] then Inl (Err ''Clash YAML contains no proxies'')
          else finish_nodes (node_loop clashProxyToNode proxies None)
                 ''Clash YAML contains no supported proxy nodes'')"

definition parseSingBoxJSON :: "decoders \<Rightarrow> string \<Rightarrow> ProxyNode list result" where
  "parseSingBoxJSON d data =
     (case json_outbounds d data of
        Inl e \<Rightarrow> Inl e
      | Inr outbounds \<Rightarrow>
          if outbounds = [] then Inl (Err ''sing-box JSON contains no outbounds'')
          else finish_nodes (node_loop outboundToNode outbounds None)
                 ''sing-box JSON contains no supported proxy outbounds'')"

section \<open>Links\<close>

definition stripFragment :: "string \<Rightarrow> string" where
  "stripFragment raw = (case index_byte raw CHR ''#'' of Some i \<Rightarrow> take i raw | None \<Rightarrow> raw)"

definition fragmentName :: "string \<Rightarrow> string" where
  "fragmentName raw =
     (case index_byte raw CHR ''#'' of
        Some i \<Rightarrow> (case QueryUnescape (drop (i + 1) raw) of
                     Some name \<Rightarrow> name | None \<Rightarrow> drop (i + 1) raw)
      | None \<Rightarrow> [])"

definition parsePort :: "string \<Rightarrow> int result" where
  "parsePort text =
     (case atoi text of
        Some port \<Rightarrow> if port \<le> 0 \<or> port > 65535 then Inl (Errf ''invalid port %q'' [text]) else Inr port
      | None \<Rightarrow> Inl (Errf ''invalid port %q'' [text]))"

definition pad4 :: "string \<Rightarrow> string" where
  "pad4 t = (let padding = length t mod 4 in
     if padding \<noteq> 0 then t @ replicate (4 - padding) CHR ''='' else t)"

text \<open>The encodings in the order they are tried: padded?, URL alphabet?\<close>

fun first_decoding :: "(bool \<times> bool) list \<Rightarrow> string \<Rightarrow> string option" where
  "first_decoding [] t = None"
| "first_decoding ((pad, url) # es) t =
     (case b64_decode pad url t of Some d \<Rightarrow> Some d | None \<Rightarrow> first_decoding es t)"

definition decodeBase64Text :: "string \<Rightarrow> string option" where
  "decodeBase64Text text =
     first_decoding [(True, False), (True, True), (False, False), (False, True)] (pad4 (trim_space text))"

definition splitALPN :: "string \<Rightarrow> string list" where
  "splitALPN value =
     (let v = trim_space value in
      if v = [] then [] else filter (\<lambda>p. p \<noteq> []) (map trim_space (split_byte v CHR '','')))"

type_synonym query = "(string \<times> string) list"

definition shouldEnableTLS :: "query \<Rightarrow> bool" where
  "shouldEnableTLS q \<longleftrightarrow>
     lower_trim (q_Get q ''security'') \<in> {''tls'', ''reality'', ''xtls''} \<or>
     q_Get q ''sni'' \<noteq> [] \<or> q_Get q ''peer'' \<noteq> [] \<or> q_Get q ''pbk'' \<noteq> []"

definition tlsInsecureFromQuery :: "query \<Rightarrow> bool" where
  "tlsInsecureFromQuery q \<longleftrightarrow>
     q_Get q ''allowInsecure'' \<in> {''1'', ''true''} \<or> q_Get q ''insecure'' \<in> {''1'', ''true''} \<or>
     q_Get q ''skip-cert-verify'' = ''true''"

text \<open>\<open>return node, validateNode(node)\<close>; the caller drops the node when the error is not nil.\<close>

definition validated :: "ProxyNode \<Rightarrow> ProxyNode result" where
  "validated n = (case validateNode n of Some e \<Rightarrow> Inl e | None \<Rightarrow> Inr n)"

definition uri_tls :: "string \<Rightarrow> query \<Rightarrow> TLSOptions option" where
  "uri_tls protocol q =
     (if shouldEnableTLS q \<or> alwaysTLSProtocol protocol
      then Some \<lparr>tls_Enabled = True,
                 tls_ServerName = firstNonEmpty [q_Get q ''sni'', q_Get q ''peer'', q_Get q ''host''],
                 tls_Insecure = tlsInsecureFromQuery q, tls_ALPN = splitALPN (q_Get q ''alpn''),
                 tls_PublicKey = q_Get q ''pbk'', tls_ShortID = q_Get q ''sid'',
                 tls_Fingerprint = firstNonEmpty [q_Get q ''fp'', q_Get q ''fingerprint'']\<rparr>
      else None)"

definition uri_transport :: "query \<Rightarrow> TransportOptions" where
  "uri_transport q =
     \<lparr>tr_Type = q_Get q ''type'', tr_Path = firstNonEmpty [q_Get q ''path'', q_Get q ''serviceName''],
      tr_Host = firstNonEmpty [q_Get q ''host'', q_Get q ''Host''], tr_Headers = []\<rparr>"

definition uri_credentials :: "string \<Rightarrow> URL \<Rightarrow> query \<Rightarrow> ProxyNode \<Rightarrow> ProxyNode" where
  "uri_credentials protocol u q n =
     (if protocol = ProtocolVLESS then n\<lparr>pn_UUID := user_name u\<rparr>
      else if protocol = ProtocolTUIC then
        n\<lparr>pn_UUID := user_name u,
          pn_Password := (case user_password u of Some p \<Rightarrow> p | None \<Rightarrow> q_Get q ''password'')\<rparr>
      else n\<lparr>pn_Password := user_name u\<rparr>)"

definition uri_node :: "string \<Rightarrow> URL \<Rightarrow> int \<Rightarrow> query \<Rightarrow> string \<Rightarrow> ProxyNode" where
  "uri_node protocol u port q name =
     (uri_credentials protocol u q (empty_node\<lparr>
        pn_Name := firstNonEmpty [name, Hostname u],
        pn_Protocol := protocol,
        pn_Server := Hostname u,
        pn_Port := port,
        pn_Flow := q_Get q ''flow'',
        pn_Security := q_Get q ''security'',
        pn_PacketEncoding := NormalizePacketEncoding
          (firstNonEmpty [q_Get q ''packetEncoding'', q_Get q ''packet_encoding'']),
        pn_Transport := uri_transport q\<rparr>))\<lparr>pn_TLS := uri_tls protocol q\<rparr>"

definition parseUserInfoURI :: "string \<Rightarrow> string \<Rightarrow> ProxyNode result" where
  "parseUserInfoURI raw protocol =
     (case url_Parse raw of
        None \<Rightarrow> Inl (External ''url.Parse'')
      | Some u \<Rightarrow>
          (case parsePort (Port u) of
             Inl e \<Rightarrow> Inl e
           | Inr port \<Rightarrow> validated (uri_node protocol u port (url_Query u) (fragmentName raw))))"

text \<open>The body of an \<open>ss://\<close> link without its query, and the query with its question mark.\<close>

definition ss_split :: "string \<Rightarrow> string \<times> string" where
  "ss_split raw =
     (let body = trim_prefix (stripFragment raw) ''ss://'' in
      case index_byte body CHR ''?'' of Some i \<Rightarrow> (take i body, drop i body) | None \<Rightarrow> (body, []))"

definition ss_node :: "string \<Rightarrow> URL \<Rightarrow> int \<Rightarrow> ProxyNode" where
  "ss_node name u port = empty_node\<lparr>
     pn_Name := firstNonEmpty [name, Hostname u], pn_Protocol := ProtocolShadowsocks,
     pn_Server := Hostname u, pn_Port := port, pn_Method := user_name u,
     pn_Password := (case user_password u of Some p \<Rightarrow> p | None \<Rightarrow> [])\<rparr>"

definition parseShadowsocksURI :: "string \<Rightarrow> ProxyNode result" where
  "parseShadowsocksURI raw =
     (case ss_split raw of
        (body, query) \<Rightarrow>
          (case (if CHR ''@'' \<in> set body then Some body else decodeBase64Text body) of
             None \<Rightarrow> Inl (Err ''invalid shadowsocks URI credentials'')
           | Some body' \<Rightarrow>
               (case url_Parse (''ss://'' @ body' @ query) of
                  None \<Rightarrow> Inl (External ''url.Parse'')
                | Some u \<Rightarrow>
                    (case parsePort (Port u) of
                       Inl e \<Rightarrow> Inl e
                     | Inr port \<Rightarrow> validated (ss_node (fragmentName raw) u port)))))"

definition vmess_node :: "vmessDoc \<Rightarrow> ProxyNode" where
  "vmess_node doc = empty_node\<lparr>
     pn_Name := firstNonEmpty [vm_Name doc, vm_Server doc], pn_Protocol := ProtocolVMess,
     pn_Server := vm_Server doc, pn_Port := flex_json (vm_Port doc), pn_UUID := vm_UUID doc,
     pn_AlterID := flex_json (vm_AlterID doc), pn_Security := vm_Security doc,
     pn_Transport := \<lparr>tr_Type = vm_Network doc, tr_Path = vm_Path doc, tr_Host = vm_Host doc, tr_Headers = []\<rparr>,
     pn_TLS := (if vm_TLS doc = ''tls'' \<or> vm_SNI doc \<noteq> []
                then Some \<lparr>tls_Enabled = True, tls_ServerName = firstNonEmpty [vm_SNI doc, vm_Host doc],
                           tls_Insecure = False, tls_ALPN = [], tls_PublicKey = [], tls_ShortID = [],
                           tls_Fingerprint = []\<rparr>
                else None)\<rparr>"

definition parseVMessURI :: "decoders \<Rightarrow> string \<Rightarrow> ProxyNode result" where
  "parseVMessURI d raw =
     (case decodeBase64Text (trim_prefix (stripFragment raw) ''vmess://'') of
        None \<Rightarrow> Inl (Err ''invalid vmess URI payload'')
      | Some decoded \<Rightarrow>
          (case json_vmess d decoded of Inl e \<Rightarrow> Inl e | Inr doc \<Rightarrow> validated (vmess_node doc)))"

definition parseURI :: "decoders \<Rightarrow> string \<Rightarrow> ProxyNode result" where
  "parseURI d raw =
     (if has_prefix raw ''ss://'' then parseShadowsocksURI raw
      else if has_prefix raw ''vmess://'' then parseVMessURI d raw
      else if has_prefix raw ''vless://'' then parseUserInfoURI raw ProtocolVLESS
      else if has_prefix raw ''trojan://'' then parseUserInfoURI raw ProtocolTrojan
      else if has_prefix raw ''hysteria2://'' \<or> has_prefix raw ''hy2://''
      then parseUserInfoURI (replace_first raw ''hy2://'' ''hysteria2://'') ProtocolHysteria2
      else if has_prefix raw ''tuic://'' then parseUserInfoURI raw ProtocolTUIC
      else if has_prefix raw ''anytls://'' then parseUserInfoURI raw ProtocolAnyTLS
      else Inl (Errf ''unsupported proxy URI %q'' [raw]))"

definition is_item_break :: "char \<Rightarrow> bool" where
  "is_item_break c \<longleftrightarrow> c = CHR 0x0A \<or> c = CHR 0x0D \<or> c = CHR 0x09"

definition splitURIItems :: "string \<Rightarrow> string list" where
  "splitURIItems text = filter (\<lambda>f. f \<noteq> []) (map trim_space (fields_func is_item_break text))"

definition looksLikeURIList :: "string \<Rightarrow> bool" where
  "looksLikeURIList text =
     list_ex (contains text) [''ss://'', ''vmess://'', ''vless://'', ''trojan://'', ''hysteria2://'',
       ''hy2://'', ''tuic://'', ''anytls://'']"

fun uri_loop :: "decoders \<Rightarrow> string list \<Rightarrow> ProxyNode list" where
  "uri_loop d [] = []"
| "uri_loop d (l # ls) =
     (case parseURI d l of
        Inl _ \<Rightarrow> uri_loop d ls
      | Inr node \<Rightarrow>
          if IsInformationalNodeName (pn_Name node) then uri_loop d ls else node # uri_loop d ls)"

definition uri_text :: "string \<Rightarrow> string" where
  "uri_text text =
     (if looksLikeURIList text then text
      else (case decodeBase64Text text of Some decoded \<Rightarrow> decoded | None \<Rightarrow> text))"

definition parseURIList :: "decoders \<Rightarrow> string \<Rightarrow> ProxyNode list result" where
  "parseURIList d data =
     (let text = trim_space data in
      if text = [] then Inl (Err ''URI list is empty'')
      else (case uri_loop d (splitURIItems (uri_text text)) of
              [] \<Rightarrow> Inl (Err ''URI list contains no supported proxy nodes'')
            | nodes \<Rightarrow> Inr nodes))"

section \<open>Parse\<close>

definition psub_Parse :: "decoders \<Rightarrow> string \<Rightarrow> string \<Rightarrow> (ProxyNode list \<times> string) result" where
  "psub_Parse d data fmt =
     (let tag = (\<lambda>f r. case r of Inl e \<Rightarrow> Inl e | Inr ns \<Rightarrow> Inr (ns, f));
          f = normalizeFormat fmt
      in if f = FormatClashYAML then tag FormatClashYAML (parseClashYAML d data)
         else if f = FormatURIList then tag FormatURIList (parseURIList d data)
         else if f = FormatSingBoxJSON then tag FormatSingBoxJSON (parseSingBoxJSON d data)
         else if f = FormatAuto then
           (case parseSingBoxJSON d data of
              Inr ns \<Rightarrow> Inr (ns, FormatSingBoxJSON)
            | Inl _ \<Rightarrow>
                (case parseClashYAML d data of
                   Inr ns \<Rightarrow> Inr (ns, FormatClashYAML)
                 | Inl _ \<Rightarrow>
                     (case parseURIList d data of
                        Inr ns \<Rightarrow> Inr (ns, FormatURIList)
                      | Inl _ \<Rightarrow> Inl (Err
                          ''proxy subscription is not Clash YAML, URI list or sing-box JSON''))))
         else Inl (Errf ''unsupported proxy subscription format %q'' [fmt]))"

definition psub_splitHostPort :: "string \<Rightarrow> (string \<times> int) result" where
  "psub_splitHostPort hostport =
     (case SplitHostPort hostport of
        Inl e \<Rightarrow> Inl e
      | Inr (host, portText) \<Rightarrow>
          (case parsePort portText of Inl e \<Rightarrow> Inl e | Inr port \<Rightarrow> Inr (host, port)))"

section \<open>What the parsers keep\<close>

definition usable_node :: "ProxyNode \<Rightarrow> bool" where
  "usable_node n \<longleftrightarrow> \<not> IsInformationalNodeName (pn_Name n) \<and> validateNode n = None"

definition usable_entries :: "('a \<Rightarrow> ProxyNode option) \<Rightarrow> 'a list \<Rightarrow> ProxyNode list" where
  "usable_entries f xs = filter usable_node (List.map_filter f xs)"

lemma usable_entries_simps [simp]:
  "usable_entries f [] = []"
  "usable_entries f (x # xs) =
     (case f x of None \<Rightarrow> usable_entries f xs
      | Some n \<Rightarrow> if usable_node n then n # usable_entries f xs else usable_entries f xs)"
  by (simp_all add: usable_entries_def map_filter_simps split: option.split)

lemma node_loop_keeps: "fst (node_loop f xs e) = usable_entries f xs"
  by (induction f xs e rule: node_loop.induct)
    (auto simp: usable_node_def split: option.split prod.split)

lemma finish_nodes_ok: "finish_nodes r m = Inr ns \<longleftrightarrow> ns = fst r \<and> ns \<noteq> []"
  by (auto simp: finish_nodes_def split: prod.splits option.splits)

lemma parseClashYAML_ok:
  "parseClashYAML d data = Inr ns \<longleftrightarrow>
     (\<exists>ps. yaml_proxies d data = Inr ps \<and> ns = usable_entries clashProxyToNode ps \<and> ns \<noteq> [])"
  by (cases "yaml_proxies d data") (auto simp: parseClashYAML_def finish_nodes_ok node_loop_keeps)

lemma parseSingBoxJSON_ok:
  "parseSingBoxJSON d data = Inr ns \<longleftrightarrow>
     (\<exists>obs. json_outbounds d data = Inr obs \<and> ns = usable_entries outboundToNode obs \<and> ns \<noteq> [])"
  by (cases "json_outbounds d data") (auto simp: parseSingBoxJSON_def finish_nodes_ok node_loop_keeps)

lemma validated_ok [simp]: "validated n = Inr m \<longleftrightarrow> m = n \<and> validateNode n = None"
  by (auto simp: validated_def split: option.splits)

lemma parseUserInfoURI_ok: "parseUserInfoURI raw p = Inr n \<Longrightarrow> validateNode n = None"
  by (auto simp: parseUserInfoURI_def Let_def split: option.splits sum.splits)

lemma parseShadowsocksURI_ok: "parseShadowsocksURI raw = Inr n \<Longrightarrow> validateNode n = None"
  by (auto simp: parseShadowsocksURI_def split: option.splits sum.splits prod.splits if_splits)

lemma parseVMessURI_ok: "parseVMessURI d raw = Inr n \<Longrightarrow> validateNode n = None"
  by (auto simp: parseVMessURI_def split: option.splits sum.splits)

lemma parseURI_ok: "parseURI d raw = Inr n \<Longrightarrow> validateNode n = None"
  by (auto simp: parseURI_def dest: parseUserInfoURI_ok parseShadowsocksURI_ok parseVMessURI_ok
      split: if_splits)

lemma uri_loop_usable: "list_all usable_node (uri_loop d ls)"
  by (induction ls) (auto simp: usable_node_def split: sum.splits dest: parseURI_ok)

lemma parseURIList_ok:
  assumes "parseURIList d data = Inr ns"
  shows "ns \<noteq> [] \<and> list_all usable_node ns"
proof -
  have "uri_loop d (splitURIItems (uri_text (trim_space data))) = ns" "ns \<noteq> []"
    using assms by (auto simp: parseURIList_def Let_def split: list.splits if_splits)
  then show ?thesis using uri_loop_usable by metis
qed

lemma usable_entries_all: "list_all usable_node (usable_entries f xs)"
  by (simp add: usable_entries_def list_all_iff)

lemma psub_Parse_ok:
  assumes "psub_Parse d data fmt = Inr (ns, f)"
  shows "f = FormatClashYAML \<and> parseClashYAML d data = Inr ns \<or>
         f = FormatURIList \<and> parseURIList d data = Inr ns \<or>
         f = FormatSingBoxJSON \<and> parseSingBoxJSON d data = Inr ns"
  using assms by (auto simp: psub_Parse_def Let_def split: if_splits sum.splits)

section \<open>Shape of links\<close>

definition plain_char :: "char \<Rightarrow> bool" where
  "plain_char c \<longleftrightarrow> is_alnum c \<or> c \<in> set ''-_.''"

definition plain :: "string \<Rightarrow> bool" where
  "plain s \<longleftrightarrow> s \<noteq> [] \<and> list_all plain_char s"

lemma plain_charD:
  assumes "plain_char c"
  shows "c \<notin> set ''%+?#/:@[]&=; ''" "valid_userinfo [c]" "\<not> escape_in_host c"
    "\<not> (of_char c :: nat) < 32" "of_char c \<noteq> (127::nat)" "(of_char c :: nat) < 128"
    "\<not> is_item_break c"
  using assms by (auto simp: plain_char_def is_alnum_def Let_def valid_userinfo_def escape_in_host_def
      is_item_break_def)

lemma unescape_char: "plain_char c \<Longrightarrow> unescape m (c # s) = map_option ((#) c) (unescape m s)"
  using plain_charD [of c] by (auto simp: option.map_comp)

lemma unescape_plain: "list_all plain_char s \<Longrightarrow> unescape m s = Some s"
  by (induction s) (simp_all add: unescape_char del: unescape.simps(2))

lemma plain_notin: "list_all plain_char s \<Longrightarrow> c \<in> set ''%+?#/:@[]&=; '' \<Longrightarrow> c \<notin> set s"
  using plain_charD(1) by (fastforce simp: list_all_iff)

lemma stripped_by_hd: "\<forall>w\<in>set tab. w \<noteq> [] \<longrightarrow> hd w \<notin> set s \<Longrightarrow> stripped tab s"
  unfolding stripped_def
proof (intro ballI impI notI)
  fix w assume "\<forall>w\<in>set tab. w \<noteq> [] \<longrightarrow> hd w \<notin> set s" "w \<in> set tab" "w \<noteq> []" "has_prefix s w"
  then show False by (cases w) (auto simp: has_prefix_iff)
qed

lemma plain_trim: "list_all plain_char s \<Longrightarrow> trim_space s = s"
proof -
  assume s: "list_all plain_char s"
  have ends: "\<forall>w\<in>set ws_table. \<not> plain_char (hd w) \<and> \<not> plain_char (last w)"
    by (auto simp: ws_table_def plain_char_def is_alnum_def)
  have "stripped ws_table s" "stripped (map rev ws_table) (rev s)"
    using s ends by (intro stripped_by_hd, force simp: list_all_iff hd_rev)+
  then show ?thesis unfolding trim_space_def by (rule trim_by_id)
qed

lemma before_after_append: "b \<notin> set s \<Longrightarrow> before_after (s @ b # r) b = (s, r)"
  by (induction s) (auto simp: before_after_def split: prod.splits)

text \<open>A link as providers write it: \<open>scheme://secret@host:port?k=v&...#name\<close>.\<close>

definition query_text :: "query \<Rightarrow> string" where
  "query_text ps = join (map (\<lambda>(k, v). k @ CHR ''='' # v) ps) ''&''"

definition plain_query :: "query \<Rightarrow> bool" where
  "plain_query ps \<longleftrightarrow> ps \<noteq> [] \<and> list_all (\<lambda>(k, v). plain k \<and> plain v) ps"

definition share_link :: "string \<Rightarrow> string \<Rightarrow> string \<Rightarrow> int \<Rightarrow> query \<Rightarrow> string \<Rightarrow> string" where
  "share_link scheme secret host port ps name =
     scheme @ ''://'' @ secret @ ''@'' @ host @ '':'' @ itoa port @ ''?'' @ query_text ps @ ''#'' @ name"

lemma split_join: "xs \<noteq> [] \<Longrightarrow> list_all (\<lambda>x. b \<notin> set x) xs \<Longrightarrow> split_byte (join xs [b]) b = xs"
proof (induction xs "[b]" rule: join.induct)
  case (2 x)
  then show ?case by (induction x) auto
next
  case (3 x y xs)
  then have "b \<notin> set x" by simp
  then have "split_byte (x @ b # join (y # xs) [b]) b = x # split_byte (join (y # xs) [b]) b"
    by (induction x) auto
  then show ?case using 3 by simp
qed simp

lemma query_pairs_plain:
  "list_all (\<lambda>(k, v). plain k \<and> plain v) ps \<Longrightarrow> query_pairs (map (\<lambda>(k, v). k @ CHR ''='' # v) ps) = ps"
proof (induction ps)
  case (Cons p ps)
  obtain k v where p: "p = (k, v)" by fastforce
  have kv: "list_all plain_char k" "list_all plain_char v" using Cons p by (simp_all add: plain_def)
  then have "CHR ''='' \<notin> set k" "CHR '';'' \<notin> set k" "CHR '';'' \<notin> set v" by (auto dest: plain_notin)
  then show ?case using Cons p kv
    by (simp add: before_after_append QueryUnescape_def unescape_plain)
qed simp

lemma url_Query_text:
  assumes "plain_query ps"
  shows "query_pairs (split_byte (query_text ps) CHR ''&'') = ps"
proof -
  have "list_all (\<lambda>x. CHR ''&'' \<notin> set x) (map (\<lambda>(k, v). k @ CHR ''='' # v) ps)"
  proof -
    have "CHR ''&'' \<notin> set (k @ CHR ''='' # v)" if "(k, v) \<in> set ps" for k v
      using assms that plain_notin [of k "CHR ''&''"] plain_notin [of v "CHR ''&''"]
      by (auto simp: plain_query_def plain_def list_all_iff)
    then show ?thesis by (auto simp: list_all_iff)
  qed
  then have "split_byte (query_text ps) CHR ''&'' = map (\<lambda>(k, v). k @ CHR ''='' # v) ps"
    using assms by (simp add: query_text_def split_join plain_query_def)
  then show ?thesis using assms query_pairs_plain by (simp add: plain_query_def)
qed

lemma get_scheme_name:
  "list_all is_alnum s \<Longrightarrow> s = [] \<or> \<not> is_digit (hd s) \<or> i \<noteq> 0 \<Longrightarrow> i + length s \<noteq> 0 \<Longrightarrow>
   get_scheme i w (s @ CHR '':'' # r) = Some (take (i + length s) w, r)"
proof (induction s arbitrary: i)
  case (Cons c s)
  then have "get_scheme (Suc i) w (s @ CHR '':'' # r) = Some (take (Suc i + length s) w, r)" by simp
  then show ?case using Cons.prems by (auto simp: is_alnum_def is_digit_def Let_def)
qed simp

lemma url_host_port:
  assumes "list_all plain_char h" "h \<noteq> []" "0 \<le> port"
  shows "parse_host (h @ CHR '':'' # itoa port) = Some (h @ CHR '':'' # itoa port)"
    and "split_url_host (h @ CHR '':'' # itoa port) = (h, itoa port)"
proof -
  have p: "list_all is_digit (itoa port)" "list_all plain_char (itoa port)"
    using assms(3) nat_str_digits
    by (auto simp: itoa_def list_all_iff is_digit_def plain_char_def is_alnum_def Let_def)
  have l: "last_index_byte (h @ CHR '':'' # itoa port) CHR '':'' = Some (length h)"
    using p plain_notin by (intro last_index_byte_append) auto
  have b: "\<not> has_prefix (h @ x) ''[''" "\<not> has_prefix h ''[''" for x
    using assms plain_notin [of h "CHR ''[''"] by (cases h; auto)+
  have "unescape EscHost (h @ CHR '':'' # itoa port) = Some (h @ CHR '':'' # itoa port)"
    using assms(1) p(2)
  proof (induction h)
    case Nil
    then show ?case by (simp add: unescape_plain escape_in_host_def)
  next
    case (Cons c h)
    then show ?case by (simp add: unescape_char del: unescape.simps(2))
  qed
  then show "parse_host (h @ CHR '':'' # itoa port) = Some (h @ CHR '':'' # itoa port)"
    using l b p by (simp add: parse_host_def last_suffix_def valid_optional_port_def)
  show "split_url_host (h @ CHR '':'' # itoa port) = (h, itoa port)"
    using l b p by (simp add: split_url_host_def valid_optional_port_def)
qed

lemma parse_user_plain: "list_all plain_char s \<Longrightarrow> parse_user s = Some (s, None)"
proof -
  assume s: "list_all plain_char s"
  then have "valid_userinfo s" using plain_charD(2) by (auto simp: valid_userinfo_def list_all_iff)
  then show ?thesis using s plain_notin [OF s, of "CHR '':''"] by (simp add: parse_user_def unescape_plain)
qed

lemma parse_authority_plain:
  assumes "list_all plain_char s" "list_all plain_char h" "h \<noteq> []" "0 \<le> port"
  shows "parse_authority (s @ CHR ''@'' # h @ CHR '':'' # itoa port)
     = Some (Some (s, None), h @ CHR '':'' # itoa port)"
proof -
  have "list_all plain_char (itoa port)"
    using assms(4) nat_str_digits
    by (auto simp: itoa_def list_all_iff is_digit_def plain_char_def is_alnum_def Let_def)
  then have "last_index_byte (s @ CHR ''@'' # h @ CHR '':'' # itoa port) CHR ''@'' = Some (length s)"
    using assms(2) plain_notin by (intro last_index_byte_append) auto
  then show ?thesis
    using assms url_host_port parse_user_plain by (simp add: parse_authority_def)
qed

lemma set_join: "set (join xs sep) \<subseteq> \<Union> (set (map set xs)) \<union> set sep"
  by (induction xs sep rule: join.induct) auto

lemma query_text_chars:
  assumes "plain_query ps"
  shows "set (query_text ps) \<subseteq> {c. plain_char c} \<union> set ''=&''"
proof -
  have "set (k @ CHR ''='' # v) \<subseteq> {c. plain_char c} \<union> set ''=&''" if "(k, v) \<in> set ps" for k v
    using assms that by (auto simp: plain_query_def plain_def list_all_iff)
  then have "\<Union> (set (map set (map (\<lambda>(k, v). k @ CHR ''='' # v) ps))) \<subseteq> {c. plain_char c} \<union> set ''=&''"
    by fastforce
  then have "\<Union> (set (map set (map (\<lambda>(k, v). k @ CHR ''='' # v) ps))) \<union> set ''&''
      \<subseteq> {c. plain_char c} \<union> set ''=&''" by simp
  then show ?thesis
    unfolding query_text_def using set_join by (rule subset_trans [rotated])
qed

lemma has_ctl_simps [simp]:
  "\<not> has_ctl []"
  "has_ctl (c # s) \<longleftrightarrow> (of_char c :: nat) < 32 \<or> of_char c = (127::nat) \<or> has_ctl s"
  "has_ctl (s @ t) \<longleftrightarrow> has_ctl s \<or> has_ctl t"
  by (auto simp: has_ctl_def)

lemma plain_not_ctl: "list_all plain_char s \<Longrightarrow> \<not> has_ctl s"
  using plain_charD(4,5) by (auto simp: has_ctl_def list_all_iff)

lemma query_text_clean:
  assumes "plain_query ps"
  shows "CHR ''#'' \<notin> set (query_text ps)" "\<not> has_ctl (query_text ps)"
proof -
  have c: "c \<in> set (query_text ps) \<Longrightarrow> plain_char c \<or> c = CHR ''='' \<or> c = CHR ''&''" for c
    using query_text_chars [OF assms] by auto
  then show "CHR ''#'' \<notin> set (query_text ps)"
    using plain_charD(1) [of "CHR ''#''"] by fastforce
  show "\<not> has_ctl (query_text ps)"
    unfolding has_ctl_def using c plain_charD(4,5) by fastforce
qed

lemma query_text_nonempty: "plain_query ps \<Longrightarrow> query_text ps \<noteq> []"
  by (induction "map (\<lambda>(k, v). k @ CHR ''='' # v) ps" "''&''" rule: join.induct)
    (auto simp: plain_query_def query_text_def)

definition link_rest :: "string \<Rightarrow> string \<Rightarrow> int \<Rightarrow> query \<Rightarrow> string" where
  "link_rest secret host port ps =
     ''//'' @ secret @ ''@'' @ host @ '':'' @ itoa port @ ''?'' @ query_text ps"

lemma parse_rest_link:
  assumes "list_all plain_char secret" "plain host" "0 \<le> port" "plain_query ps"
  shows "parse_rest scheme (link_rest secret host port ps) =
    Some \<lparr>u_Scheme = to_lower scheme, u_User = Some (secret, None),
      u_Host = host @ CHR '':'' # itoa port, u_RawQuery = query_text ps\<rparr>"
proof -
  let ?a = "secret @ CHR ''@'' # host @ CHR '':'' # itoa port"
  have h: "list_all plain_char host" "host \<noteq> []" using assms(2) by (auto simp: plain_def)
  have p: "list_all plain_char (itoa port)"
    using assms(3) nat_str_digits
    by (auto simp: itoa_def list_all_iff is_digit_def plain_char_def is_alnum_def Let_def)
  have r: "link_rest secret host port ps = (''//'' @ ?a) @ CHR ''?'' # query_text ps"
    by (simp add: link_rest_def)
  have q: "query_text ps \<noteq> []" using assms(4) by (rule query_text_nonempty)
  moreover have "last (query_text ps) \<noteq> CHR ''?''"
    using query_text_chars [OF assms(4)] last_in_set [OF q] plain_charD(1) [of "CHR ''?''"] by auto
  ultimately have s: "\<not> has_suffix (link_rest secret host port ps) ''?''"
    unfolding r has_suffix_def by (cases "query_text ps" rule: rev_cases) auto
  have "CHR ''?'' \<notin> set (''//'' @ ?a)" and sl: "CHR ''/'' \<notin> set ?a"
    using assms(1) h(1) p plain_notin by auto
  then have "before_after (link_rest secret host port ps) CHR ''?'' = (''//'' @ ?a, query_text ps)"
    unfolding r by (intro before_after_append)
  moreover have "split_path ?a = (?a, [])" using sl by (rule split_path_none)
  ultimately show ?thesis
    using s parse_authority_plain [OF assms(1) h assms(3)]
    by (simp add: parse_rest_def Let_def del: index_byte.simps)
qed

lemma url_Parse_link:
  assumes "list_all is_alnum scheme" "scheme \<noteq> []" "\<not> is_digit (hd scheme)"
    and "list_all plain_char secret" "plain host" "0 \<le> port" "plain_query ps" "plain name"
  shows "url_Parse (share_link scheme secret host port ps name) =
    Some \<lparr>u_Scheme = to_lower scheme, u_User = Some (secret, None),
      u_Host = host @ CHR '':'' # itoa port, u_RawQuery = query_text ps\<rparr>"
    and "fragmentName (share_link scheme secret host port ps name) = name"
proof -
  let ?u = "scheme @ CHR '':'' # link_rest secret host port ps"
  have p: "list_all plain_char (itoa port)"
    using assms(6) nat_str_digits
    by (auto simp: itoa_def list_all_iff is_digit_def plain_char_def is_alnum_def Let_def)
  have sc: "list_all plain_char scheme" "list_all plain_char host"
    using assms(1,5) by (auto simp: plain_def list_all_iff plain_char_def)
  note q = query_text_clean [OF assms(7)]
  have hash: "CHR ''#'' \<notin> set ?u"
    using sc assms(4) p q by (simp add: link_rest_def plain_notin)
  have ctl: "\<not> has_ctl ?u"
    using sc assms(4) p q by (simp add: link_rest_def plain_not_ctl)
  have l: "share_link scheme secret host port ps name = ?u @ CHR ''#'' # name"
    by (simp add: share_link_def link_rest_def)
  have n: "list_all plain_char name" using assms(8) by (simp add: plain_def)
  have "get_scheme 0 ?u ?u = Some (scheme, link_rest secret host port ps)"
    using get_scheme_name [of scheme 0] assms(1-3) by simp
  then show "url_Parse (share_link scheme secret host port ps name) =
    Some \<lparr>u_Scheme = to_lower scheme, u_User = Some (secret, None),
      u_Host = host @ CHR '':'' # itoa port, u_RawQuery = query_text ps\<rparr>"
    using hash ctl parse_rest_link [OF assms(4-7)] n
    unfolding l url_Parse_def before_after_append [OF hash] by (simp add: unescape_plain)
  show "fragmentName (share_link scheme secret host port ps name) = name"
    using n unfolding l fragmentName_def index_byte_append [OF hash]
    by (simp add: QueryUnescape_def unescape_plain)
qed

text \<open>The node a link stands for.\<close>

definition link_node :: "string \<Rightarrow> string \<Rightarrow> string \<Rightarrow> int \<Rightarrow> query \<Rightarrow> string \<Rightarrow> ProxyNode" where
  "link_node protocol secret host port ps name =
     empty_node\<lparr>
       pn_Name := name, pn_Protocol := protocol, pn_Server := host, pn_Port := port,
       pn_Password := (if protocol = ProtocolVLESS then [] else secret),
       pn_UUID := (if protocol = ProtocolVLESS then secret else []),
       pn_Security := q_Get ps ''security'', pn_Flow := q_Get ps ''flow'',
       pn_PacketEncoding := NormalizePacketEncoding
         (firstNonEmpty [q_Get ps ''packetEncoding'', q_Get ps ''packet_encoding'']),
       pn_TLS := uri_tls protocol ps, pn_Transport := uri_transport ps\<rparr>"

lemma parsePort_itoa: "0 < port \<Longrightarrow> port \<le> 65535 \<Longrightarrow> parsePort (itoa port) = Inr port"
  by (simp add: parsePort_def atoi_itoa)

lemma parseUserInfoURI_link:
  assumes "list_all is_alnum scheme" "scheme \<noteq> []" "\<not> is_digit (hd scheme)"
    and "plain secret" "plain host" "0 < port" "port \<le> 65535" "plain_query ps" "plain name"
    and "protocol \<in> {ProtocolVLESS, ProtocolTrojan, ProtocolHysteria2, ProtocolAnyTLS}"
  shows "parseUserInfoURI (share_link scheme secret host port ps name) protocol
    = Inr (link_node protocol secret host port ps name)"
proof -
  note u = url_Parse_link [OF assms(1-3) _ assms(5) _ assms(8,9), of secret port]
  have t: "trim_space name = name" "trim_space host = host"
    using assms(5,9) by (simp_all add: plain_def plain_trim)
  have ne: "secret \<noteq> []" "host \<noteq> []" "name \<noteq> []" using assms by (simp_all add: plain_def)
  have hp: "list_all plain_char secret" "list_all plain_char host" "0 \<le> port"
    using assms by (simp_all add: plain_def)
  have "validateNode (link_node protocol secret host port ps name) = None"
    using assms(6,7,10) ne t by (auto simp: validateNode_def link_node_def protocol_consts)
  moreover have "uri_node protocol \<lparr>u_Scheme = x, u_User = Some (secret, None),
      u_Host = host @ CHR '':'' # itoa port, u_RawQuery = y\<rparr> port ps name
    = link_node protocol secret host port ps name" for x y
    using assms(10) ne t url_host_port(2) [OF hp(2) ne(2) hp(3)]
    by (auto simp: uri_node_def link_node_def Hostname_def uri_credentials_def user_name_def
        empty_node_def protocol_consts)
  ultimately show ?thesis
    using u hp url_host_port(2) [OF hp(2) ne(2) hp(3)] parsePort_itoa [OF assms(6,7)]
      url_Query_text [OF assms(8)]
    by (simp add: parseUserInfoURI_def Port_def url_Query_def validated_def)
qed

section \<open>Encoded lists\<close>

lemma b64_not_ws:
  assumes "w \<in> set ws_table"
  shows "\<not> b64_alphabet (hd w)" "\<not> b64_alphabet (last w)"
  using assms by (auto simp: ws_table_def b64_alphabet_def b64_value_def)

lemma trim_b64: "trim_space (b64_encode s) = b64_encode s"
proof -
  have "\<forall>c\<in>set (b64_encode s). b64_alphabet c" using b64_encode_alphabet by (simp add: list_all_iff)
  then have "stripped ws_table (b64_encode s)" "stripped (map rev ws_table) (rev (b64_encode s))"
    using b64_not_ws by (intro stripped_by_hd, force simp: hd_rev)+
  then show ?thesis unfolding trim_space_def by (rule trim_by_id)
qed

lemma b64_notin: "c \<in> set '':@#?'' \<Longrightarrow> c \<notin> set (b64_encode s)"
proof
  assume "c \<in> set '':@#?''" "c \<in> set (b64_encode s)"
  moreover then have "b64_alphabet c" using b64_encode_alphabet [of s] by (simp add: list_all_iff)
  ultimately show False by (auto simp: b64_alphabet_def b64_value_def)
qed

lemma b64_not_uri_list: "\<not> looksLikeURIList (b64_encode s)"
proof -
  have "\<not> contains (b64_encode s) p" if "CHR '':'' \<in> set p" for p
    using that b64_notin [of "CHR '':''" s] unfolding contains_iff
    by (metis UnI1 UnI2 list.set_intros(1) set_append)
  then show ?thesis by (simp add: looksLikeURIList_def)
qed

lemma decodeBase64Text_encode: "decodeBase64Text (b64_encode s) = Some s"
  by (simp add: decodeBase64Text_def trim_b64 pad4_def b64_encode_length b64_decode_encode)

lemma b64_encode_Nil [simp]: "b64_encode s = [] \<longleftrightarrow> s = []"
  by (cases s rule: b64_encode.cases) (simp_all add: Let_def)

lemma looks_nonempty: "looksLikeURIList s \<Longrightarrow> s \<noteq> []"
  by (auto simp: looksLikeURIList_def)

section \<open>Shadowsocks links without a password\<close>

lemma parse_user_no_password:
  "CHR '':'' \<notin> set info \<Longrightarrow> parse_user info = Some (n, p) \<Longrightarrow> p = None"
  by (auto simp: parse_user_def split: if_splits)

lemma parse_authority_no_password:
  assumes "parse_authority a = Some (Some (n, p), h)"
    and "\<And>i. last_index_byte a CHR ''@'' = Some i \<Longrightarrow> CHR '':'' \<notin> set (take i a)"
  shows "p = None"
proof -
  obtain i where "last_index_byte a CHR ''@'' = Some i" "parse_user (take i a) = Some (n, p)"
    using assms(1) by (auto simp: parse_authority_def split: option.splits)
  then show ?thesis using assms(2) parse_user_no_password by blast
qed

lemma cut_none: "b \<notin> set s \<Longrightarrow> cut s b = (s, [], False)"
  by (induction s) auto

lemma user_before_at:
  assumes "CHR ''@'' \<notin> set s" "CHR ''@'' \<notin> set hp"
    and "last_index_byte (take j (s @ CHR ''@'' # hp)) CHR ''@'' = Some i"
  shows "take i (take j (s @ CHR ''@'' # hp)) = s"
proof -
  let ?b = "s @ CHR ''@'' # hp"
  have l: "i < length (take j ?b)" "take j ?b ! i = CHR ''@''"
    using last_index_byte_Some [OF assms(3)] by blast+
  then have i: "i < length ?b" "i < j" by (simp_all only: length_take min_less_iff_conj)
  then have b: "?b ! i = CHR ''@''" using l(2) by (simp only: nth_take)
  have "i = length s"
  proof (rule ccontr)
    assume "i \<noteq> length s"
    then consider "i < length s" | "length s < i" by linarith
    then show False
    proof cases
      case 1
      then have "s ! i = CHR ''@''" using b by (simp add: nth_append)
      then show False using 1 assms(1) nth_mem by force
    next
      case 2
      then obtain k where k: "i = Suc (length s + k)" using less_iff_Suc_add by auto
      then have "hp ! k = CHR ''@''" "k < length hp" using i b by (simp_all add: nth_append)
      then show False using assms(2) nth_mem by force
    qed
  qed
  then show ?thesis using i by simp
qed

lemma split_path_take: "\<exists>j. fst (split_path a) = take j a"
proof (cases "index_byte a CHR ''/''")
  case None
  then have "fst (split_path a) = take (length a) a" by (simp add: split_path_none)
  then show ?thesis by blast
qed (auto simp: split_path_def)

lemma parse_rest_no_password:
  assumes "CHR '':'' \<notin> set s" "CHR ''@'' \<notin> set s" "CHR ''@'' \<notin> set hp"
    and "CHR ''?'' \<notin> set s" "CHR ''?'' \<notin> set hp"
    and "parse_rest scheme (''//'' @ s @ CHR ''@'' # hp) = Some u"
  shows "user_password u = None"
proof -
  let ?b = "s @ CHR ''@'' # hp"
  obtain a pa where sp: "split_path ?b = (a, pa)" by fastforce
  then obtain j where j: "a = take j ?b" using split_path_take [of ?b] by auto
  have "filter ((=) CHR ''?'') ?b = []" using assms(4,5) by (auto simp: filter_empty_conv)
  moreover have "before_after (''//'' @ ?b) CHR ''?'' = (''//'' @ ?b, [])"
    using assms(4,5) cut_none [of "CHR ''?''" "''//'' @ ?b"] by (simp add: before_after_def)
  ultimately obtain usr h where pa: "parse_authority a = Some (usr, h)" and u: "u_User u = usr"
    using assms(6) sp by (auto simp: parse_rest_def split: option.splits if_splits)
  show ?thesis
  proof (cases usr)
    case None
    then show ?thesis using u by (simp add: user_password_def)
  next
    case (Some np)
    obtain n q where np: "np = (n, q)" by fastforce
    have "q = None"
      using pa Some np user_before_at [OF assms(2,3)] assms(1) unfolding j
      by (metis parse_authority_no_password)
    then show ?thesis using u Some np by (simp add: user_password_def)
  qed
qed

lemma ss_no_password:
  assumes "CHR '':'' \<notin> set s" "\<forall>c\<in>set (s @ hp). c \<notin> set ''#?@''"
  shows "\<not> is_ok (parseShadowsocksURI (''ss://'' @ s @ ''@'' @ hp @ ''#'' @ name))"
proof -
  let ?b = "s @ CHR ''@'' # hp"
  let ?u = "''ss://'' @ ?b"
  have n: "CHR ''#'' \<notin> set ?u" "CHR ''?'' \<notin> set ?b" using assms(2) by auto
  have "stripFragment (?u @ CHR ''#'' # name) = ?u"
    using index_byte_append [OF n(1)] by (simp add: stripFragment_def del: index_byte.simps)
  then have sp: "ss_split (?u @ CHR ''#'' # name) = (?b, [])"
    unfolding ss_split_def Let_def by (simp only: trim_prefix_append index_byte_absent [OF n(2)] option.case)
  have "\<not> is_ok (validated (ss_node nm u port))" if "url_Parse ?u = Some u" for nm u port
  proof -
    have b: "before_after ?u CHR ''#'' = (?u, [])"
      using cut_none [OF n(1)] by (simp add: before_after_def)
    have g: "get_scheme 0 ?u ?u = Some (''ss'', ''//'' @ ?b)"
      using get_scheme_name [of "''ss''" 0 ?u "''//'' @ ?b"] by (simp add: is_alnum_def is_digit_def)
    have "parse_rest ''ss'' (''//'' @ ?b) = Some u"
      using that unfolding url_Parse_def b prod.case g by (auto split: if_splits option.splits)
    then have "user_password u = None"
      using parse_rest_no_password [of s hp "''ss''"] assms by auto
    then have "pn_Password (ss_node nm u port) = []" by (simp add: ss_node_def)
    then have "validateNode (ss_node nm u port) \<noteq> None"
      by (simp add: validateNode_def ss_node_def)
    then show ?thesis by (auto simp: validated_def)
  qed
  then show ?thesis
    using sp by (simp add: parseShadowsocksURI_def split: option.split sum.split)
qed

section \<open>Properties\<close>

definition sample_decoders :: decoders where
  "sample_decoders =
     \<lparr>yaml_proxies = (\<lambda>_. Inl (External ''yaml'')), json_outbounds = (\<lambda>_. Inl (External ''json'')),
      json_vmess = (\<lambda>_. Inl (External ''json''))\<rparr>"

lemma psub_Parse_usable:
  assumes "psub_Parse d data fmt = Inr (ns, f)"
  shows "ns \<noteq> [] \<and> list_all usable_node ns \<and> f \<in> {FormatClashYAML, FormatURIList, FormatSingBoxJSON}"
  using psub_Parse_ok [OF assms]
  by (auto simp: parseClashYAML_ok parseSingBoxJSON_ok usable_entries_all dest: parseURIList_ok)

text \<open>Whatever the format, an import hands on only nodes the proxy core can be started with:
  each has a name that is not a notice, a server, a port between 1 and 65535 and the credentials
  of its protocol; the list is not empty and its format is one of the three.\<close>

lemma parsed_nodes_usable:
  assumes "psub_Parse d data fmt = Inr (ns, f)"
  shows "ns \<noteq> [] \<and> list_all usable_node ns \<and> f \<in> {FormatClashYAML, FormatURIList, FormatSingBoxJSON}"
  using assms by (rule psub_Parse_usable)

text \<open>One unusable entry of a structured document never costs the others: the parser returns
  exactly the usable entries, in document order, and fails only when there is none.\<close>

lemma structured_parse_exact:
  assumes "yaml_proxies d data = Inr ps"
  shows "(\<exists>e. parseClashYAML d data = Inl e) \<and> usable_entries clashProxyToNode ps = [] \<or>
         parseClashYAML d data = Inr (usable_entries clashProxyToNode ps) \<and>
         usable_entries clashProxyToNode ps \<noteq> []"
  using assms parseClashYAML_ok [of d data]
  by (cases "parseClashYAML d data") auto



text \<open>A provider may send its list of links base64 encoded: the client reads exactly what it
  would read from the plain list.\<close>

lemma base64_list_same:
  assumes "trim_space text = text" "looksLikeURIList text"
  shows "parseURIList d (b64_encode text) = parseURIList d text"
  using assms looks_nonempty [OF assms(2)]
  by (simp add: parseURIList_def uri_text_def trim_b64 b64_not_uri_list decodeBase64Text_encode)

text \<open>Shadowsocks links of the standard form, where only method and password are base64
  encoded, are all rejected: the user part is never decoded.\<close>

lemma sip002_links_rejected:
  assumes "list_all (\<lambda>c. c \<notin> set ''#?@'') hostport"
  shows "\<not> is_ok (parseURI d (''ss://'' @ b64_encode credentials @ ''@'' @ hostport @ ''#'' @ name))"
proof -
  have "\<forall>c\<in>set (b64_encode credentials @ hostport). c \<notin> set ''#?@''"
    using assms b64_notin [of _ credentials] unfolding list_all_iff set_append by fastforce
  then have "\<not> is_ok (parseShadowsocksURI (''ss://'' @ b64_encode credentials @ ''@'' @ hostport @ ''#'' @ name))"
    using b64_notin [of "CHR '':''" credentials] by (intro ss_no_password) simp_all
  then show ?thesis by (simp add: parseURI_def)
qed

end
