(* ===== verification/Files.thy ===== *)
theory Files
  imports Prelude
begin

text \<open>
  Files under their paths, and the steps by which the program replaces one: both
  \<open>store.go\<close> and \<open>ruleset.go\<close> write a temporary file and rename it.  The lemmas say
  what an observer, or the next start after a crash, finds between two steps.
\<close>

type_synonym 'c disk = "string \<Rightarrow> 'c option"

datatype 'c fs_step = Put string 'c | Rename string string | Remove string

fun fs_apply :: "'c fs_step \<Rightarrow> 'c disk \<Rightarrow> 'c disk" where
  "fs_apply (Put p c) fs = fs(p \<mapsto> c)"
| "fs_apply (Rename p q) fs = (case fs p of None \<Rightarrow> fs | Some c \<Rightarrow> fs(q \<mapsto> c, p := None))"
| "fs_apply (Remove p) fs = fs(p := None)"

text \<open>\<open>filepath.Join\<close> of a clean directory and a plain name.\<close>

definition path_join :: "string \<Rightarrow> string \<Rightarrow> string" where
  "path_join dir name = dir @ ''/'' @ name"

lemma path_join_inj [simp]: "path_join d a = path_join d b \<longleftrightarrow> a = b"
  by (simp add: path_join_def)

text \<open>A step that leaves a path alone.\<close>

fun spares :: "string \<Rightarrow> 'c fs_step \<Rightarrow> bool" where
  "spares q (Put p c) = (p \<noteq> q)"
| "spares q (Rename p r) = (p \<noteq> q \<and> r \<noteq> q)"
| "spares q (Remove p) = (p \<noteq> q)"

lemma apply_spares: "spares q s \<Longrightarrow> fs_apply s fs q = fs q"
  by (cases s) (auto split: option.splits)

lemma run_spares: "list_all (spares q) steps \<Longrightarrow> fold fs_apply steps fs q = fs q"
  by (induction steps arbitrary: fs) (auto simp: apply_spares)

lemma moment_spares: "list_all (spares q) steps \<Longrightarrow> fold fs_apply (take n steps) fs q = fs q"
  by (rule run_spares) (auto simp: list_all_iff dest: in_set_takeD)

text \<open>The moments of a list of steps are those of its parts.\<close>

lemma moment_append:
  "fold fs_apply (take n (a @ b)) fs q =
     (if n \<le> length a then fold fs_apply (take n a) fs q
      else fold fs_apply (take (n - length a) b) (fold fs_apply a fs) q)"
  by simp

end
