(* ===== verification/Store.thy ===== *)
theory Store
  imports ProxySub Config Files
begin

text \<open>
  \<open>client/internal/store/store.go\<close>: the client's five JSON files.  The file system maps
  paths to contents; a content is the value its JSON text stands for, or bytes that no decoder
  accepts (\<open>Raw\<close>), so \<open>encoding/json\<close> is taken to read back what it wrote.  What the
  operating system answers to the calls of one operation is a parameter (\<open>io\<close>), and so are
  the random identifiers.  An operation runs on its own: the code holds its lock per load and
  per save only.
\<close>

section \<open>Records\<close>

definition SubscriptionKindVPN :: string where "SubscriptionKindVPN = ''vpn''"
definition SubscriptionKindProxy :: string where "SubscriptionKindProxy = ''proxy''"
definition ruleModeRulesVersion :: int where "ruleModeRulesVersion = 1"

record SubscriptionSource =
  src_ID :: string
  src_Name :: string
  src_URL :: string
  src_Format :: string
  src_Kind :: string
  src_Enabled :: bool
  src_AutoRefresh :: bool
  src_IntervalMin :: int
  src_LastRefresh :: string
  src_LastError :: string
  src_TunnelCount :: int
  src_NodeCount :: int
  src_UsageUpload :: "64 word"
  src_UsageDownload :: "64 word"
  src_UsageTotal :: "64 word"
  src_UsageExpire :: int

record SSHConnection =
  conn_ID :: string
  conn_Name :: string
  conn_Addr :: string
  conn_User :: string
  conn_Password :: string

record ClientSettings =
  set_ProxyMode :: string
  set_SystemProxy :: bool
  set_AutoStart :: bool
  set_BypassLAN :: bool
  set_AutoConnect :: bool
  set_MinimizeToTray :: bool
  set_RuleModeRules :: "ProxyRule list option"
  set_RuleModeRulesVersion :: int
  set_SelectedProxyNodeID :: string
  set_SelectedProxySubscriptionID :: string

record Store =
  st_dataDir :: string
  st_tunnelsPath :: string
  st_subsPath :: string
  st_proxyNodesPath :: string
  st_sshConnsPath :: string
  st_settingsPath :: string

definition store_New :: "string \<Rightarrow> Store" where
  "store_New dataDir =
     \<lparr>st_dataDir = dataDir,
      st_tunnelsPath = path_join dataDir ''tunnels.json'',
      st_subsPath = path_join dataDir ''subscriptions.json'',
      st_proxyNodesPath = path_join dataDir ''proxy_nodes.json'',
      st_sshConnsPath = path_join dataDir ''ssh_connections.json'',
      st_settingsPath = path_join dataDir ''settings.json''\<rparr>"

section \<open>Files\<close>

datatype content =
    Tunnels "TunnelCfg list"
  | Subs "SubscriptionSource list"
  | Nodes "ProxyNode list"
  | Conns "SSHConnection list"
  | Settings ClientSettings
  | Raw string

type_synonym files = "content disk"

text \<open>
  What the system answers to one operation, per target path: an error of \<open>os.ReadFile\<close>
  other than a missing file, the random part of the temporary name, and the errors of the steps
  of a write, with the bytes a failed write leaves behind.
\<close>

record answers =
  a_read :: "go_error option"
  a_tmp :: string
  a_mkdir :: "go_error option"
  a_create :: "go_error option"
  a_write :: "(go_error \<times> string) option"
  a_sync :: "go_error option"
  a_close :: "go_error option"
  a_rename :: "go_error option"

type_synonym io = "string \<Rightarrow> answers"

definition all_well :: "string \<Rightarrow> answers" where
  "all_well tmp = \<lparr>a_read = None, a_tmp = tmp, a_mkdir = None, a_create = None, a_write = None,
     a_sync = None, a_close = None, a_rename = None\<rparr>"

text \<open>The steps of \<open>writeFileAtomic\<close> that change the file system, in order.\<close>

definition tmp_path :: "string \<Rightarrow> answers \<Rightarrow> string" where
  "tmp_path dir a = path_join dir (''.tmp-'' @ a_tmp a)"

definition write_steps :: "string \<Rightarrow> string \<Rightarrow> content \<Rightarrow> answers \<Rightarrow> go_error option \<times> content fs_step list" where
  "write_steps dir path data a =
     (let tmp = tmp_path dir a in
      case a_mkdir a of
        Some e \<Rightarrow> (Some (Wrap ''mkdir %s: %w'' [dir] e), [])
      | None \<Rightarrow>
          (case a_create a of
             Some e \<Rightarrow> (Some (Wrap ''create tmp: %w'' [] e), [])
           | None \<Rightarrow>
               (case a_write a of
                  Some (e, part) \<Rightarrow>
                    (Some (Wrap ''write tmp: %w'' [] e), [Put tmp (Raw []), Put tmp (Raw part), Remove tmp])
                | None \<Rightarrow>
                    (case a_sync a of
                       Some e \<Rightarrow>
                         (Some (Wrap ''fsync tmp: %w'' [] e), [Put tmp (Raw []), Put tmp data, Remove tmp])
                     | None \<Rightarrow>
                         (case a_close a of
                            Some e \<Rightarrow>
                              (Some (Wrap ''close tmp: %w'' [] e), [Put tmp (Raw []), Put tmp data, Remove tmp])
                          | None \<Rightarrow>
                              (case a_rename a of
                                 Some e \<Rightarrow>
                                   (Some (Wrap ''rename %s: %w'' [path] e),
                                    [Put tmp (Raw []), Put tmp data, Remove tmp])
                               | None \<Rightarrow>
                                   (None, [Put tmp (Raw []), Put tmp data, Rename tmp path, Remove tmp])))))))"

definition writeFileAtomic :: "Store \<Rightarrow> io \<Rightarrow> string \<Rightarrow> content \<Rightarrow> files \<Rightarrow> go_error option \<times> files" where
  "writeFileAtomic s io path data fs =
     (case write_steps (st_dataDir s) path data (io path) of (e, steps) \<Rightarrow> (e, fold fs_apply steps fs))"

text \<open>\<open>os.ReadFile\<close> followed by \<open>json.Unmarshal\<close>; \<open>dflt\<close> when the file does not exist.\<close>

definition load_file :: "io \<Rightarrow> string \<Rightarrow> (content \<Rightarrow> 'a option) \<Rightarrow> 'a \<Rightarrow> files \<Rightarrow> 'a result" where
  "load_file io path dec dflt fs =
     (case a_read (io path) of
        Some e \<Rightarrow> Inl (Wrap ''read %s: %w'' [path] e)
      | None \<Rightarrow>
          (case fs path of
             None \<Rightarrow> Inr dflt
           | Some c \<Rightarrow>
               (case dec c of
                  None \<Rightarrow> Inl (Wrap ''parse %s: %w'' [path] (External ''json.Unmarshal''))
                | Some v \<Rightarrow> Inr v)))"

fun as_tunnels :: "content \<Rightarrow> TunnelCfg list option" where
  "as_tunnels (Tunnels v) = Some v" | "as_tunnels _ = None"
fun as_subs :: "content \<Rightarrow> SubscriptionSource list option" where
  "as_subs (Subs v) = Some v" | "as_subs _ = None"
fun as_nodes :: "content \<Rightarrow> ProxyNode list option" where
  "as_nodes (Nodes v) = Some v" | "as_nodes _ = None"
fun as_conns :: "content \<Rightarrow> SSHConnection list option" where
  "as_conns (Conns v) = Some v" | "as_conns _ = None"
fun as_settings :: "content \<Rightarrow> ClientSettings option" where
  "as_settings (Settings v) = Some v" | "as_settings _ = None"

definition LoadTunnels :: "Store \<Rightarrow> io \<Rightarrow> files \<Rightarrow> TunnelCfg list result" where
  "LoadTunnels s io fs = load_file io (st_tunnelsPath s) as_tunnels [] fs"
definition SaveTunnels :: "Store \<Rightarrow> io \<Rightarrow> TunnelCfg list \<Rightarrow> files \<Rightarrow> go_error option \<times> files" where
  "SaveTunnels s io ts fs = writeFileAtomic s io (st_tunnelsPath s) (Tunnels ts) fs"
definition LoadSubscriptions :: "Store \<Rightarrow> io \<Rightarrow> files \<Rightarrow> SubscriptionSource list result" where
  "LoadSubscriptions s io fs = load_file io (st_subsPath s) as_subs [] fs"
definition SaveSubscriptions :: "Store \<Rightarrow> io \<Rightarrow> SubscriptionSource list \<Rightarrow> files \<Rightarrow> go_error option \<times> files" where
  "SaveSubscriptions s io v fs = writeFileAtomic s io (st_subsPath s) (Subs v) fs"
definition LoadProxyNodes :: "Store \<Rightarrow> io \<Rightarrow> files \<Rightarrow> ProxyNode list result" where
  "LoadProxyNodes s io fs = load_file io (st_proxyNodesPath s) as_nodes [] fs"
definition SaveProxyNodes :: "Store \<Rightarrow> io \<Rightarrow> ProxyNode list \<Rightarrow> files \<Rightarrow> go_error option \<times> files" where
  "SaveProxyNodes s io v fs = writeFileAtomic s io (st_proxyNodesPath s) (Nodes v) fs"
definition LoadSSHConnections :: "Store \<Rightarrow> io \<Rightarrow> files \<Rightarrow> SSHConnection list result" where
  "LoadSSHConnections s io fs = load_file io (st_sshConnsPath s) as_conns [] fs"
definition SaveSSHConnections :: "Store \<Rightarrow> io \<Rightarrow> SSHConnection list \<Rightarrow> files \<Rightarrow> go_error option \<times> files" where
  "SaveSSHConnections s io v fs = writeFileAtomic s io (st_sshConnsPath s) (Conns v) fs"

section \<open>Settings\<close>

definition has_rule_set :: "ProxyRule list \<Rightarrow> bool" where
  "has_rule_set rules = list_ex (\<lambda>r. rule_Type r = ProxyRuleTypeRuleSet) rules"

definition migrateRuleModeRules :: "ProxyRule list \<Rightarrow> ProxyRule list" where
  "migrateRuleModeRules rules =
     (if has_rule_set rules then rules
      else rules @ filter (\<lambda>r. rule_Type r = ProxyRuleTypeRuleSet) DefaultProxyRules)"

text \<open>\<open>ids i\<close> is the random identifier that rule number \<open>i\<close> would get.\<close>

definition fill_rule_ids :: "(nat \<Rightarrow> string) \<Rightarrow> ProxyRule list \<Rightarrow> ProxyRule list" where
  "fill_rule_ids ids rules =
     map (\<lambda>(i, r). if rule_ID r = [] then r\<lparr>rule_ID := ids i\<rparr> else r) (List.enumerate 0 rules)"

definition settings_rules :: "ClientSettings \<Rightarrow> ProxyRule list" where
  "settings_rules c =
     (case NormalizeProxyRules (set_RuleModeRules c) of
        None \<Rightarrow> DefaultProxyRules
      | Some rs \<Rightarrow>
          if set_RuleModeRulesVersion c < ruleModeRulesVersion then migrateRuleModeRules rs else rs)"

definition normalizeSettings :: "(nat \<Rightarrow> string) \<Rightarrow> ClientSettings \<Rightarrow> ClientSettings" where
  "normalizeSettings ids c =
     c\<lparr>set_ProxyMode := (if set_ProxyMode c \<in> {''rule'', ''global'', ''direct''}
                          then set_ProxyMode c else ''rule''),
       set_RuleModeRules := Some (fill_rule_ids ids (settings_rules c)),
       set_RuleModeRulesVersion := ruleModeRulesVersion\<rparr>"

definition empty_settings :: ClientSettings where
  "empty_settings =
     \<lparr>set_ProxyMode = [], set_SystemProxy = False, set_AutoStart = False, set_BypassLAN = False,
      set_AutoConnect = False, set_MinimizeToTray = False, set_RuleModeRules = None,
      set_RuleModeRulesVersion = 0, set_SelectedProxyNodeID = [], set_SelectedProxySubscriptionID = []\<rparr>"

definition LoadSettings :: "Store \<Rightarrow> io \<Rightarrow> (nat \<Rightarrow> string) \<Rightarrow> files \<Rightarrow> ClientSettings result" where
  "LoadSettings s io ids fs =
     (case load_file io (st_settingsPath s) as_settings empty_settings fs of
        Inl e \<Rightarrow> Inl e
      | Inr c \<Rightarrow> Inr (normalizeSettings ids c))"

definition SaveSettings ::
  "Store \<Rightarrow> io \<Rightarrow> (nat \<Rightarrow> string) \<Rightarrow> ClientSettings \<Rightarrow> files \<Rightarrow> go_error option \<times> files" where
  "SaveSettings s io ids c fs =
     writeFileAtomic s io (st_settingsPath s) (Settings (normalizeSettings ids c)) fs"

section \<open>SSH connections\<close>

text \<open>\<open>new\<close> is the identifier \<open>randomID\<close> would give.\<close>

definition replace_conn :: "SSHConnection \<Rightarrow> SSHConnection list \<Rightarrow> SSHConnection list" where
  "replace_conn c conns =
     (case List.extract (\<lambda>x. conn_ID x = conn_ID c) conns of
        None \<Rightarrow> conns @ [c]
      | Some (before, _, rest) \<Rightarrow> before @ c # rest)"

definition SaveSSHConnection ::
  "Store \<Rightarrow> io \<Rightarrow> string \<Rightarrow> SSHConnection \<Rightarrow> files \<Rightarrow> SSHConnection result \<times> files" where
  "SaveSSHConnection s io new conn fs =
     (if conn_Name conn = [] then (Inl (Err ''ssh connection name is required''), fs)
      else if conn_Addr conn = [] then (Inl (Err ''ssh connection addr is required''), fs)
      else if conn_User conn = [] then (Inl (Err ''ssh connection user is required''), fs)
      else if conn_Password conn = [] then (Inl (Err ''ssh connection password is required''), fs)
      else (case LoadSSHConnections s io fs of
              Inl e \<Rightarrow> (Inl e, fs)
            | Inr conns \<Rightarrow>
                (let c = (if conn_ID conn = [] then conn\<lparr>conn_ID := new\<rparr> else conn) in
                 case SaveSSHConnections s io (replace_conn c conns) fs of
                   (Some e, fs') \<Rightarrow> (Inl e, fs')
                 | (None, fs') \<Rightarrow> (Inr c, fs'))))"

definition DeleteSSHConnection :: "Store \<Rightarrow> io \<Rightarrow> string \<Rightarrow> files \<Rightarrow> go_error option \<times> files" where
  "DeleteSSHConnection s io i fs =
     (case LoadSSHConnections s io fs of
        Inl e \<Rightarrow> (Some e, fs)
      | Inr conns \<Rightarrow>
          if \<not> list_ex (\<lambda>c. conn_ID c = i) conns
          then (Some (Errf ''ssh connection %q not found'' [i]), fs)
          else SaveSSHConnections s io (filter (\<lambda>c. conn_ID c \<noteq> i) conns) fs)"

section \<open>Proxy nodes\<close>

text \<open>\<open>byName\<close>: the position of each name, the last one when a name occurs twice.\<close>

definition by_name :: "ProxyNode list \<Rightarrow> string \<Rightarrow> nat option" where
  "by_name nodes = fold (\<lambda>(i, n) m. m(pn_Name n \<mapsto> i)) (List.enumerate 0 nodes) (\<lambda>_. None)"

text \<open>The loop of \<open>UpsertProxyNodes\<close>; \<open>ids i\<close> is the random identifier drawn when the
  list has \<open>i\<close> nodes.\<close>

record upsert =
  up_nodes :: "ProxyNode list"
  up_byName :: "string \<Rightarrow> nat option"
  up_imported :: nat
  up_skipped :: nat
  up_errs :: "string list"

definition upsert_node :: "(nat \<Rightarrow> string) \<Rightarrow> ProxyNode \<Rightarrow> upsert \<Rightarrow> upsert" where
  "upsert_node ids node u =
     (if pn_Name node = [] then
        u\<lparr>up_errs := up_errs u @ [''proxy node requires name''], up_skipped := up_skipped u + 1\<rparr>
      else (case up_byName u (pn_Name node) of
              Some idx \<Rightarrow>
                u\<lparr>up_nodes := (up_nodes u)[idx := (if pn_ID node = []
                     then node\<lparr>pn_ID := pn_ID (up_nodes u ! idx)\<rparr> else node)],
                  up_imported := up_imported u + 1\<rparr>
            | None \<Rightarrow>
                u\<lparr>up_byName := (up_byName u)(pn_Name node \<mapsto> length (up_nodes u)),
                  up_nodes := up_nodes u @ [if pn_ID node = []
                     then node\<lparr>pn_ID := ids (length (up_nodes u))\<rparr> else node],
                  up_imported := up_imported u + 1\<rparr>))"

definition upsert_start :: "ProxyNode list \<Rightarrow> upsert" where
  "upsert_start nodes =
     \<lparr>up_nodes = nodes, up_byName = by_name nodes, up_imported = 0, up_skipped = 0, up_errs = []\<rparr>"

definition UpsertProxyNodes ::
  "Store \<Rightarrow> io \<Rightarrow> (nat \<Rightarrow> string) \<Rightarrow> ProxyNode list \<Rightarrow> files \<Rightarrow> (nat \<times> nat \<times> string list) \<times> files" where
  "UpsertProxyNodes s io ids incoming fs =
     (case LoadProxyNodes s io fs of
        Inl e \<Rightarrow> ((0, length incoming, [err_text e]), fs)
      | Inr nodes \<Rightarrow>
          (let u = fold (upsert_node ids) incoming (upsert_start nodes) in
           if up_imported u = 0 then ((up_imported u, up_skipped u, up_errs u), fs)
           else (case SaveProxyNodes s io (up_nodes u) fs of
                   (Some e, fs') \<Rightarrow>
                     ((up_imported u, up_skipped u,
                       up_errs u @ [format_text ''persist proxy nodes: %v'' [err_text e]]), fs')
                 | (None, fs') \<Rightarrow> ((up_imported u, up_skipped u, up_errs u), fs'))))"

definition DeleteProxyNodesBySubscriptionID ::
  "Store \<Rightarrow> io \<Rightarrow> string \<Rightarrow> files \<Rightarrow> go_error option \<times> files" where
  "DeleteProxyNodesBySubscriptionID s io i fs =
     (case LoadProxyNodes s io fs of
        Inl e \<Rightarrow> (Some e, fs)
      | Inr nodes \<Rightarrow> SaveProxyNodes s io (filter (\<lambda>n. pn_SubscriptionID n \<noteq> i) nodes) fs)"

text \<open>
  The file-name-like prefix of a subscription's nodes.  A rune outside the list becomes one
  dash, so the continuation bytes of its UTF-8 encoding are dropped.
\<close>

definition prefix_char :: "char \<Rightarrow> bool" where
  "prefix_char c \<longleftrightarrow> is_alnum c \<or> c = CHR ''-'' \<or> c = CHR ''_'' \<or> c = CHR ''.''"

definition utf8_continuation :: "char \<Rightarrow> bool" where
  "utf8_continuation c \<longleftrightarrow> (let n = (of_char c :: nat) in 128 \<le> n \<and> n < 192)"

definition dashed :: "string \<Rightarrow> string" where
  "dashed name =
     map (\<lambda>c. if prefix_char c then c else CHR ''-'') (filter (\<lambda>c. \<not> utf8_continuation c) name)"

definition subscriptionPrefix :: "string \<Rightarrow> string" where
  "subscriptionPrefix name =
     (let prefix = trim_char CHR ''-'' (dashed name)
      in (if prefix = [] then ''subscription'' else prefix) @ ''-'')"

definition proxyNodeProtocolRank :: "string \<Rightarrow> nat" where
  "proxyNodeProtocolRank p =
     (if p \<in> {ProtocolShadowsocks, ProtocolTrojan, ProtocolVLESS, ProtocolVMess} then 0
      else if p \<in> {ProtocolHysteria2, ProtocolHysteria, ProtocolTUIC} then 1
      else if p = ProtocolAnyTLS then 2
      else 3)"

text \<open>
  \<open>strings.EqualFold(s, t)\<close> for a lower-case ASCII \<open>t\<close> without the letter i: besides
  case, the long s (U+017F) folds to s and the Kelvin sign (U+212A) to k.
\<close>

fun fold_long_s :: "string \<Rightarrow> string" where
  "fold_long_s (c # d # s) =
     (if c = CHR 0xC5 \<and> d = CHR 0xBF then CHR ''s'' # fold_long_s s else c # fold_long_s (d # s))"
| "fold_long_s s = s"

definition equal_fold :: "string \<Rightarrow> string \<Rightarrow> bool" where
  "equal_fold s t \<longleftrightarrow> to_lower (fold_long_s s) = t"

definition proxyNodeVariantRank :: "ProxyNode \<Rightarrow> nat" where
  "proxyNodeVariantRank n =
     (let reality = (case pn_TLS n of None \<Rightarrow> False | Some t \<Rightarrow> trim_space (tls_PublicKey t) \<noteq> []);
          vision = contains (pn_Flow n) ''vision'';
          ty = trim_space (tr_Type (pn_Transport n));
          ws = (equal_fold ty ''ws'' \<or> equal_fold ty ''websocket'')
      in if reality \<and> vision \<and> \<not> ws then 0
         else if reality \<and> vision then 1
         else if reality then 2
         else if \<not> ws then 3
         else 4)"

text \<open>
  The less function of the sort compares the protocol rank first and the variant rank second;
  both are below 5, so it compares this number.
\<close>

definition node_rank :: "ProxyNode \<Rightarrow> nat" where
  "node_rank n = 5 * proxyNodeProtocolRank (pn_Protocol n) + proxyNodeVariantRank n"

text \<open>\<open>activeSubscriptions\<close>: identifier to prefix; a later source wins.\<close>

definition active_prefixes :: "SubscriptionSource list \<Rightarrow> string \<Rightarrow> string option" where
  "active_prefixes sources =
     fold (\<lambda>src m. if src_Kind src = SubscriptionKindProxy \<and> src_Enabled src
                    then m(src_ID src \<mapsto> subscriptionPrefix (src_Name src)) else m) sources (\<lambda>_. None)"

definition node_active :: "(string \<Rightarrow> string option) \<Rightarrow> ProxyNode \<Rightarrow> bool" where
  "node_active act n =
     (case act (pn_SubscriptionID n) of
        None \<Rightarrow> False
      | Some prefix \<Rightarrow> \<not> IsInformationalNodeName (trim_prefix (pn_Name n) prefix))"

definition LoadActiveProxyNodes :: "Store \<Rightarrow> io \<Rightarrow> files \<Rightarrow> ProxyNode list result" where
  "LoadActiveProxyNodes s io fs =
     (case LoadSubscriptions s io fs of
        Inl e \<Rightarrow> Inl e
      | Inr sources \<Rightarrow>
          if \<not> list_ex (\<lambda>src. src_Kind src = SubscriptionKindProxy \<and> src_Enabled src) sources then Inr []
          else (case LoadProxyNodes s io fs of
                  Inl e \<Rightarrow> Inl e
                | Inr nodes \<Rightarrow>
                    Inr (sort_key node_rank (filter (node_active (active_prefixes sources)) nodes))))"

section \<open>Subscriptions\<close>

definition subscriptionKind :: "SubscriptionSource \<Rightarrow> string" where
  "subscriptionKind src = (if src_Kind src = [] then SubscriptionKindVPN else src_Kind src)"

definition with_defaults :: "string \<Rightarrow> SubscriptionSource \<Rightarrow> SubscriptionSource" where
  "with_defaults new src0 =
     (let src1 = (if src_ID src0 = [] then src0\<lparr>src_ID := new\<rparr> else src0)
      in if src_Kind src1 = [] then src1\<lparr>src_Kind := SubscriptionKindVPN\<rparr> else src1)"

definition added_source :: "string \<Rightarrow> SubscriptionSource list \<Rightarrow> SubscriptionSource \<Rightarrow> SubscriptionSource" where
  "added_source new sources src0 =
     (let src = with_defaults new src0
      in if src_Enabled src \<and> list_ex (\<lambda>x. src_Enabled x \<and> subscriptionKind x = src_Kind src) sources
         then src\<lparr>src_Enabled := False\<rparr> else src)"

definition AddSubscription ::
  "Store \<Rightarrow> io \<Rightarrow> string \<Rightarrow> SubscriptionSource \<Rightarrow> files \<Rightarrow> go_error option \<times> files" where
  "AddSubscription s io new src fs =
     (case LoadSubscriptions s io fs of
        Inl e \<Rightarrow> (Some e, fs)
      | Inr sources \<Rightarrow> SaveSubscriptions s io (sources @ [added_source new sources src]) fs)"

text \<open>The first source with the identifier, replaced.\<close>

definition replace_source :: "SubscriptionSource \<Rightarrow> SubscriptionSource list \<Rightarrow> SubscriptionSource list option" where
  "replace_source src sources =
     (case List.extract (\<lambda>x. src_ID x = src_ID src) sources of
        None \<Rightarrow> None
      | Some (before, old, rest) \<Rightarrow>
          Some (before @ (if src_Kind src = [] then src\<lparr>src_Kind := src_Kind old\<rparr> else src) # rest))"

definition UpdateSubscription ::
  "Store \<Rightarrow> io \<Rightarrow> SubscriptionSource \<Rightarrow> files \<Rightarrow> go_error option \<times> files" where
  "UpdateSubscription s io src fs =
     (if src_ID src = [] then (Some (Err ''subscription id is required''), fs)
      else (case LoadSubscriptions s io fs of
              Inl e \<Rightarrow> (Some e, fs)
            | Inr sources \<Rightarrow>
                (case replace_source src sources of
                   None \<Rightarrow> (Some (Errf ''subscription %q not found'' [src_ID src]), fs)
                 | Some sources' \<Rightarrow> SaveSubscriptions s io sources' fs)))"

definition disable_kind :: "string \<Rightarrow> SubscriptionSource list \<Rightarrow> SubscriptionSource list" where
  "disable_kind kind = map (\<lambda>x. if subscriptionKind x = kind then x\<lparr>src_Enabled := False\<rparr> else x)"

definition enable_source :: "string \<Rightarrow> bool \<Rightarrow> SubscriptionSource list \<Rightarrow>
    (SubscriptionSource \<times> SubscriptionSource list) option" where
  "enable_source i enabled sources =
     (case List.extract (\<lambda>x. src_ID x = i) sources of
        None \<Rightarrow> None
      | Some (before, x, rest) \<Rightarrow>
          (let x' = x\<lparr>src_Enabled := enabled\<rparr>;
               off = (if enabled then disable_kind (subscriptionKind x') else (\<lambda>xs. xs))
           in Some (x', off before @ x' # off rest)))"

definition SetSubscriptionEnabled ::
  "Store \<Rightarrow> io \<Rightarrow> string \<Rightarrow> bool \<Rightarrow> files \<Rightarrow> SubscriptionSource result \<times> files" where
  "SetSubscriptionEnabled s io i enabled fs =
     (case LoadSubscriptions s io fs of
        Inl e \<Rightarrow> (Inl e, fs)
      | Inr sources \<Rightarrow>
          (case enable_source i enabled sources of
             None \<Rightarrow> (Inl (Errf ''subscription %q not found'' [i]), fs)
           | Some (x, sources') \<Rightarrow>
               (case SaveSubscriptions s io sources' fs of
                  (Some e, fs') \<Rightarrow> (Inl e, fs')
                | (None, fs') \<Rightarrow> (Inr x, fs'))))"

text \<open>The loop of \<open>NormalizeEnabledSubscriptions\<close>: the kinds kept so far, and whether
  something was switched off.\<close>

fun keep_first :: "string list \<Rightarrow> SubscriptionSource list \<Rightarrow> SubscriptionSource list \<times> bool" where
  "keep_first kept [] = ([], False)"
| "keep_first kept (x # xs) =
     (if \<not> src_Enabled x then (case keep_first kept xs of (ys, ch) \<Rightarrow> (x # ys, ch))
      else if subscriptionKind x \<in> set kept
      then (case keep_first kept xs of (ys, ch) \<Rightarrow> (x\<lparr>src_Enabled := False\<rparr> # ys, True))
      else (case keep_first (subscriptionKind x # kept) xs of (ys, ch) \<Rightarrow> (x # ys, ch)))"

definition NormalizeEnabledSubscriptions :: "Store \<Rightarrow> io \<Rightarrow> files \<Rightarrow> go_error option \<times> files" where
  "NormalizeEnabledSubscriptions s io fs =
     (case LoadSubscriptions s io fs of
        Inl e \<Rightarrow> (Some e, fs)
      | Inr sources \<Rightarrow>
          (case keep_first [] sources of
             (sources', changed) \<Rightarrow>
               if \<not> changed then (None, fs) else SaveSubscriptions s io sources' fs))"

text \<open>\<open>removed\<close> is the last source with the identifier.\<close>

definition DeleteSubscription :: "Store \<Rightarrow> io \<Rightarrow> string \<Rightarrow> files \<Rightarrow> go_error option \<times> files" where
  "DeleteSubscription s io i fs =
     (case LoadSubscriptions s io fs of
        Inl e \<Rightarrow> (Some e, fs)
      | Inr sources \<Rightarrow>
          (let hits = filter (\<lambda>x. src_ID x = i) sources in
           if hits = [] then (Some (Errf ''subscription %q not found'' [i]), fs)
           else (case SaveSubscriptions s io (filter (\<lambda>x. src_ID x \<noteq> i) sources) fs of
                   (Some e, fs') \<Rightarrow> (Some e, fs')
                 | (None, fs') \<Rightarrow>
                     if src_Kind (last hits) = SubscriptionKindProxy
                     then DeleteProxyNodesBySubscriptionID s io i fs'
                     else (None, fs'))))"

section \<open>Atomic writes\<close>

lemma tmp_other [simp]:
  "tmp_path dir a \<noteq> st_tunnelsPath (store_New dir)" "tmp_path dir a \<noteq> st_subsPath (store_New dir)"
  "tmp_path dir a \<noteq> st_proxyNodesPath (store_New dir)" "tmp_path dir a \<noteq> st_sshConnsPath (store_New dir)"
  "tmp_path dir a \<noteq> st_settingsPath (store_New dir)"
  by (simp_all add: tmp_path_def store_New_def path_join_def)

lemma store_paths [simp]:
  "st_tunnelsPath (store_New dir) \<noteq> st_subsPath (store_New dir)"
  "st_tunnelsPath (store_New dir) \<noteq> st_proxyNodesPath (store_New dir)"
  "st_tunnelsPath (store_New dir) \<noteq> st_sshConnsPath (store_New dir)"
  "st_tunnelsPath (store_New dir) \<noteq> st_settingsPath (store_New dir)"
  "st_subsPath (store_New dir) \<noteq> st_tunnelsPath (store_New dir)"
  "st_subsPath (store_New dir) \<noteq> st_proxyNodesPath (store_New dir)"
  "st_subsPath (store_New dir) \<noteq> st_sshConnsPath (store_New dir)"
  "st_subsPath (store_New dir) \<noteq> st_settingsPath (store_New dir)"
  "st_proxyNodesPath (store_New dir) \<noteq> st_tunnelsPath (store_New dir)"
  "st_proxyNodesPath (store_New dir) \<noteq> st_subsPath (store_New dir)"
  "st_proxyNodesPath (store_New dir) \<noteq> st_sshConnsPath (store_New dir)"
  "st_proxyNodesPath (store_New dir) \<noteq> st_settingsPath (store_New dir)"
  "st_sshConnsPath (store_New dir) \<noteq> st_tunnelsPath (store_New dir)"
  "st_sshConnsPath (store_New dir) \<noteq> st_subsPath (store_New dir)"
  "st_sshConnsPath (store_New dir) \<noteq> st_proxyNodesPath (store_New dir)"
  "st_sshConnsPath (store_New dir) \<noteq> st_settingsPath (store_New dir)"
  "st_settingsPath (store_New dir) \<noteq> st_tunnelsPath (store_New dir)"
  "st_settingsPath (store_New dir) \<noteq> st_subsPath (store_New dir)"
  "st_settingsPath (store_New dir) \<noteq> st_proxyNodesPath (store_New dir)"
  "st_settingsPath (store_New dir) \<noteq> st_sshConnsPath (store_New dir)"
  "st_dataDir (store_New dir) = dir"
  by (simp_all add: store_New_def path_join_def)

lemma write_outcome:
  assumes "tmp_path (st_dataDir s) (io path) \<noteq> path"
  shows "writeFileAtomic s io path data fs = (e, fs') \<Longrightarrow>
    fs' path = (if e = None then Some data else fs path) \<and>
    (\<forall>q. q \<noteq> path \<longrightarrow> q \<noteq> tmp_path (st_dataDir s) (io path) \<longrightarrow> fs' q = fs q)"
  using assms
  by (auto simp: writeFileAtomic_def write_steps_def Let_def split: option.splits prod.splits if_splits)

lemma write_outcome_other:
  "writeFileAtomic s io path data fs = (e, fs') \<Longrightarrow> tmp_path (st_dataDir s) (io path) \<noteq> path \<Longrightarrow>
   q \<noteq> path \<Longrightarrow> tmp_path (st_dataDir s) (io path) \<noteq> q \<Longrightarrow> fs' q = fs q"
  using write_outcome [of s io path data fs e fs'] by metis

text \<open>Every moment of a write: what an observer, or the next start after a crash, finds.\<close>

lemma write_moments:
  assumes "tmp_path dir a \<noteq> path"
  shows "fold fs_apply (take n (snd (write_steps dir path data a))) fs path \<in> {fs path, Some data}"
proof -
  obtain e steps where st: "write_steps dir path data a = (e, steps)" by fastforce
  have c: "steps = [] \<or> (\<exists>d. steps = [Put (tmp_path dir a) (Raw []), Put (tmp_path dir a) d, Remove (tmp_path dir a)])
      \<or> steps = [Put (tmp_path dir a) (Raw []), Put (tmp_path dir a) data, Rename (tmp_path dir a) path,
        Remove (tmp_path dir a)]"
    using st by (auto simp: write_steps_def Let_def split: option.splits prod.splits)
  have "n = 0 \<or> n = 1 \<or> n = 2 \<or> n = 3 \<or> n \<ge> 4" by linarith
  then show ?thesis
    using c assms by (auto simp: st numeral_eq_Suc)
qed

section \<open>One enabled subscription per kind\<close>

definition enabled_of :: "string \<Rightarrow> SubscriptionSource list \<Rightarrow> SubscriptionSource list" where
  "enabled_of kind sources = filter (\<lambda>x. src_Enabled x \<and> subscriptionKind x = kind) sources"

definition single_enabled :: "SubscriptionSource list \<Rightarrow> bool" where
  "single_enabled sources \<longleftrightarrow> (\<forall>kind. length (enabled_of kind sources) \<le> 1)"

lemma enabled_of_simps [simp]:
  "enabled_of k [] = []"
  "enabled_of k (x # xs) =
     (if src_Enabled x \<and> subscriptionKind x = k then x # enabled_of k xs else enabled_of k xs)"
  "enabled_of k (xs @ ys) = enabled_of k xs @ enabled_of k ys"
  by (simp_all add: enabled_of_def)

lemma subscriptionKind_update [simp]: "subscriptionKind (x\<lparr>src_Enabled := b\<rparr>) = subscriptionKind x"
  by (simp add: subscriptionKind_def)

lemma enabled_of_disable [simp]:
  "enabled_of k (disable_kind k' xs) = (if k = k' then [] else enabled_of k xs)"
  by (induction xs) (auto simp: disable_kind_def)

lemma disable_kind_ids [simp]: "map src_ID (disable_kind k xs) = map src_ID xs"
  by (induction xs) (auto simp: disable_kind_def)

lemma enabled_of_filter_le: "length (enabled_of k (filter P xs)) \<le> length (enabled_of k xs)"
  by (induction xs) auto

lemma enabled_of_kind: "x \<in> set (enabled_of k xs) \<Longrightarrow> subscriptionKind x = k \<and> src_Enabled x \<and> x \<in> set xs"
  by (auto simp: enabled_of_def)

lemma extract_parts:
  "List.extract P xs = Some (a, x, b) \<Longrightarrow> xs = a @ x # b \<and> P x \<and> (\<forall>y\<in>set a. \<not> P y)"
  by (simp add: extract_Some_iff)

lemma with_defaults_fields [simp]:
  "src_Enabled (with_defaults new src) = src_Enabled src"
  "src_Kind (with_defaults new src) = subscriptionKind src"
  "subscriptionKind (with_defaults new src) = subscriptionKind src"
  "src_ID (with_defaults new src) = (if src_ID src = [] then new else src_ID src)"
  by (simp_all add: with_defaults_def subscriptionKind_def SubscriptionKindVPN_def)

lemma enabled_of_ex:
  "list_ex (\<lambda>x. src_Enabled x \<and> subscriptionKind x = k) xs \<longleftrightarrow> enabled_of k xs \<noteq> []"
  by (auto simp: enabled_of_def list_ex_iff filter_empty_conv)

lemma added_fields [simp]:
  "src_ID (added_source new xs src) = (if src_ID src = [] then new else src_ID src)"
  "subscriptionKind (added_source new xs src) = subscriptionKind src"
  "src_Enabled (added_source new xs src) \<longleftrightarrow>
     src_Enabled src \<and> enabled_of (subscriptionKind src) xs = []"
  by (auto simp: added_source_def Let_def enabled_of_ex)

lemma enable_enabled:
  assumes "enable_source i b xs = Some (x, ys)"
  shows "\<exists>a y r. xs = a @ y # r \<and> src_ID y = i \<and> (\<forall>z\<in>set a. src_ID z \<noteq> i) \<and> x = y\<lparr>src_Enabled := b\<rparr> \<and>
    map src_ID ys = map src_ID xs \<and>
    (\<forall>k. enabled_of k ys = (if k = subscriptionKind y then (if b then [x] else enabled_of k a @ enabled_of k r)
          else enabled_of k xs))"
proof -
  obtain a y r where e: "List.extract (\<lambda>x. src_ID x = i) xs = Some (a, y, r)"
    using assms by (auto simp: enable_source_def split: option.splits)
  note p = extract_parts [OF e]
  show ?thesis
    using assms e p
    by (intro exI [of _ a] exI [of _ y] exI [of _ r]) (auto simp: enable_source_def Let_def split: if_splits)
qed

lemma keep_first_enabled:
  "keep_first kept xs = (ys, ch) \<Longrightarrow>
   enabled_of k ys = (if k \<in> set kept then [] else take 1 (enabled_of k xs)) \<and>
   (\<not> ch \<longrightarrow> ys = xs)"
  by (induction kept xs arbitrary: ys ch rule: keep_first.induct) (auto split: prod.splits if_splits)

lemma single_add: "single_enabled xs \<Longrightarrow> single_enabled (xs @ [added_source new xs src])"
  by (simp add: single_enabled_def)

lemma single_enable: "single_enabled xs \<Longrightarrow> enable_source i b xs = Some (x, ys) \<Longrightarrow> single_enabled ys"
proof -
  assume xs: "single_enabled xs" and "enable_source i b xs = Some (x, ys)"
  then obtain a y r where p: "xs = a @ y # r" and
    e: "\<And>k. enabled_of k ys = (if k = subscriptionKind y then (if b then [x] else enabled_of k a @ enabled_of k r)
          else enabled_of k xs)"
    using enable_enabled by blast
  have "length (enabled_of k a) + length (enabled_of k r) \<le> 1" for k
    using xs p le_trans [of _ "length (enabled_of k xs)" 1] by (auto simp: single_enabled_def)
  then show ?thesis using xs unfolding single_enabled_def e by simp
qed

lemma single_delete: "single_enabled xs \<Longrightarrow> single_enabled (filter P xs)"
  using enabled_of_filter_le unfolding single_enabled_def by (meson le_trans)

lemma single_keep_first: "keep_first [] xs = (ys, ch) \<Longrightarrow> single_enabled ys"
  using keep_first_enabled [of "[]" xs ys ch] by (simp add: single_enabled_def)

text \<open>The subscriptions on disk, and one call of the store with what the system answers to it.\<close>

definition subs_of :: "Store \<Rightarrow> files \<Rightarrow> SubscriptionSource list" where
  "subs_of s fs = (case fs (st_subsPath s) of Some (Subs v) \<Rightarrow> v | _ \<Rightarrow> [])"

definition nodes_of :: "Store \<Rightarrow> files \<Rightarrow> ProxyNode list" where
  "nodes_of s fs = (case fs (st_proxyNodesPath s) of Some (Nodes v) \<Rightarrow> v | _ \<Rightarrow> [])"

datatype sub_op =
    OpAdd string SubscriptionSource
  | OpEnable string bool
  | OpNormalize
  | OpDelete string
  | OpUpsert "nat \<Rightarrow> string" "ProxyNode list"
  | OpSettings "nat \<Rightarrow> string" ClientSettings

fun sub_step :: "Store \<Rightarrow> io \<times> sub_op \<Rightarrow> files \<Rightarrow> files" where
  "sub_step s (io, OpAdd new src) fs = snd (AddSubscription s io new src fs)"
| "sub_step s (io, OpEnable i b) fs = snd (SetSubscriptionEnabled s io i b fs)"
| "sub_step s (io, OpNormalize) fs = snd (NormalizeEnabledSubscriptions s io fs)"
| "sub_step s (io, OpDelete i) fs = snd (DeleteSubscription s io i fs)"
| "sub_step s (io, OpUpsert ids ns) fs = snd (UpsertProxyNodes s io ids ns fs)"
| "sub_step s (io, OpSettings ids c) fs = snd (SaveSettings s io ids c fs)"

lemma LoadSubscriptions_cases:
  obtains (bad) e where "LoadSubscriptions s io fs = Inl e" | (ok) "LoadSubscriptions s io fs = Inr (subs_of s fs)"
proof -
  have "(\<exists>e. LoadSubscriptions s io fs = Inl e) \<or> LoadSubscriptions s io fs = Inr (subs_of s fs)"
    by (simp add: LoadSubscriptions_def load_file_def subs_of_def split: option.split content.split)
  then show ?thesis using bad ok by blast
qed

lemma LoadProxyNodes_cases:
  obtains (bad) e where "LoadProxyNodes s io fs = Inl e" | (ok) "LoadProxyNodes s io fs = Inr (nodes_of s fs)"
proof -
  have "(\<exists>e. LoadProxyNodes s io fs = Inl e) \<or> LoadProxyNodes s io fs = Inr (nodes_of s fs)"
    by (simp add: LoadProxyNodes_def load_file_def nodes_of_def split: option.split content.split)
  then show ?thesis using bad ok by blast
qed

lemma SaveSubscriptions_subs:
  assumes "SaveSubscriptions (store_New dir) io v fs = (e, fs')"
  shows "subs_of (store_New dir) fs' = (if e = None then v else subs_of (store_New dir) fs) \<and>
    nodes_of (store_New dir) fs' = nodes_of (store_New dir) fs"
proof -
  let ?s = "store_New dir"
  have w: "writeFileAtomic ?s io (st_subsPath ?s) (Subs v) fs = (e, fs')"
    using assms by (simp add: SaveSubscriptions_def)
  have "fs' (st_subsPath ?s) = (if e = None then Some (Subs v) else fs (st_subsPath ?s))"
    using write_outcome [OF _ w] by simp
  moreover have "fs' (st_proxyNodesPath ?s) = fs (st_proxyNodesPath ?s)"
    by (intro write_outcome_other [OF w]) auto
  ultimately show ?thesis by (simp add: subs_of_def nodes_of_def)
qed

lemma SaveProxyNodes_nodes:
  assumes "SaveProxyNodes (store_New dir) io v fs = (e, fs')"
  shows "nodes_of (store_New dir) fs' = (if e = None then v else nodes_of (store_New dir) fs) \<and>
    subs_of (store_New dir) fs' = subs_of (store_New dir) fs"
proof -
  let ?s = "store_New dir"
  have w: "writeFileAtomic ?s io (st_proxyNodesPath ?s) (Nodes v) fs = (e, fs')"
    using assms by (simp add: SaveProxyNodes_def)
  have "fs' (st_proxyNodesPath ?s) = (if e = None then Some (Nodes v) else fs (st_proxyNodesPath ?s))"
    using write_outcome [OF _ w] by simp
  moreover have "fs' (st_subsPath ?s) = fs (st_subsPath ?s)"
    by (intro write_outcome_other [OF w]) auto
  ultimately show ?thesis by (simp add: subs_of_def nodes_of_def)
qed

lemma SaveSettings_keeps:
  assumes "SaveSettings (store_New dir) io ids c fs = (e, fs')"
  shows "subs_of (store_New dir) fs' = subs_of (store_New dir) fs"
proof -
  have "fs' (st_subsPath (store_New dir)) = fs (st_subsPath (store_New dir))"
    using assms unfolding SaveSettings_def
    by (intro write_outcome_other [of "store_New dir" io "st_settingsPath (store_New dir)"]) auto
  then show ?thesis by (simp add: subs_of_def)
qed

text \<open>What a call does to the subscriptions on disk, whatever the system answers.\<close>

lemma AddSubscription_subs:
  "AddSubscription (store_New dir) io new src fs = (e, fs') \<Longrightarrow>
   nodes_of (store_New dir) fs' = nodes_of (store_New dir) fs \<and>
   subs_of (store_New dir) fs' =
     (if e = None then subs_of (store_New dir) fs @ [added_source new (subs_of (store_New dir) fs) src]
      else subs_of (store_New dir) fs)"
  by (cases rule: LoadSubscriptions_cases [of "store_New dir" io fs])
    (auto simp: AddSubscription_def dest: SaveSubscriptions_subs)

lemma SetSubscriptionEnabled_subs:
  "SetSubscriptionEnabled (store_New dir) io i b fs = (r, fs') \<Longrightarrow>
   nodes_of (store_New dir) fs' = nodes_of (store_New dir) fs \<and>
   (case r of
      Inl _ \<Rightarrow> subs_of (store_New dir) fs' = subs_of (store_New dir) fs
    | Inr x \<Rightarrow> enable_source i b (subs_of (store_New dir) fs) = Some (x, subs_of (store_New dir) fs'))"
  by (cases rule: LoadSubscriptions_cases [of "store_New dir" io fs])
    (auto simp: SetSubscriptionEnabled_def split: option.splits prod.splits dest: SaveSubscriptions_subs)

lemma NormalizeEnabled_subs:
  assumes "NormalizeEnabledSubscriptions (store_New dir) io fs = (e, fs')"
  shows "subs_of (store_New dir) fs' =
     (if e = None then fst (keep_first [] (subs_of (store_New dir) fs)) else subs_of (store_New dir) fs)"
proof -
  obtain ys ch where k: "keep_first [] (subs_of (store_New dir) fs) = (ys, ch)" by fastforce
  then show ?thesis
    using assms keep_first_enabled [OF k]
    by (cases rule: LoadSubscriptions_cases [of "store_New dir" io fs])
      (auto simp: NormalizeEnabledSubscriptions_def split: if_splits dest: SaveSubscriptions_subs)
qed

lemma DeleteNodes_keeps:
  "DeleteProxyNodesBySubscriptionID (store_New dir) io i fs = (e, fs') \<Longrightarrow>
   subs_of (store_New dir) fs' = subs_of (store_New dir) fs \<and>
   nodes_of (store_New dir) fs' =
     (if e = None then filter (\<lambda>n. pn_SubscriptionID n \<noteq> i) (nodes_of (store_New dir) fs)
      else nodes_of (store_New dir) fs)"
  by (cases rule: LoadProxyNodes_cases [of "store_New dir" io fs])
    (auto simp: DeleteProxyNodesBySubscriptionID_def dest: SaveProxyNodes_nodes)

lemma DeleteSubscription_subs:
  assumes "DeleteSubscription (store_New dir) io i fs = (e, fs')"
  shows "subs_of (store_New dir) fs' = filter (\<lambda>x. src_ID x \<noteq> i) (subs_of (store_New dir) fs) \<or>
   e \<noteq> None \<and> subs_of (store_New dir) fs' = subs_of (store_New dir) fs"
proof (cases rule: LoadSubscriptions_cases [of "store_New dir" io fs])
  case ok
  obtain e1 fs1 where sv: "SaveSubscriptions (store_New dir) io
      (filter (\<lambda>x. src_ID x \<noteq> i) (subs_of (store_New dir) fs)) fs = (e1, fs1)" by fastforce
  show ?thesis
    using assms ok sv SaveSubscriptions_subs [OF sv]
    by (cases e1) (auto simp: DeleteSubscription_def Let_def split: if_splits dest: DeleteNodes_keeps)
qed (use assms in \<open>auto simp: DeleteSubscription_def\<close>)

lemma UpsertProxyNodes_keeps:
  "UpsertProxyNodes (store_New dir) io ids ns fs = (r, fs') \<Longrightarrow>
   subs_of (store_New dir) fs' = subs_of (store_New dir) fs"
  by (auto simp: UpsertProxyNodes_def Let_def split: sum.splits prod.splits option.splits if_splits
      dest: SaveProxyNodes_nodes)

lemma single_sub_step:
  assumes "single_enabled (subs_of (store_New dir) fs)"
  shows "single_enabled (subs_of (store_New dir) (sub_step (store_New dir) op fs))"
proof -
  obtain io act where op: "op = (io, act)" by fastforce
  show ?thesis
  proof (cases act)
    case (OpAdd new src)
    then show ?thesis
      using assms op AddSubscription_subs [of dir io new src fs] single_add
      by (cases "AddSubscription (store_New dir) io new src fs") auto
  next
    case (OpEnable i b)
    then show ?thesis
      using assms op SetSubscriptionEnabled_subs [of dir io i b fs] single_enable
      by (cases "SetSubscriptionEnabled (store_New dir) io i b fs") (auto split: sum.splits)
  next
    case OpNormalize
    then show ?thesis
      using assms op NormalizeEnabled_subs [of dir io fs] single_keep_first
      by (cases "NormalizeEnabledSubscriptions (store_New dir) io fs";
          cases "keep_first [] (subs_of (store_New dir) fs)") auto
  next
    case (OpDelete i)
    then show ?thesis
      using assms op DeleteSubscription_subs [of dir io i fs] single_delete
      by (cases "DeleteSubscription (store_New dir) io i fs") auto
  next
    case (OpUpsert ids ns)
    then show ?thesis
      using assms op UpsertProxyNodes_keeps [of dir io ids ns fs]
      by (cases "UpsertProxyNodes (store_New dir) io ids ns fs") auto
  next
    case (OpSettings ids c)
    then show ?thesis
      using assms op SaveSettings_keeps [of dir io ids c fs]
      by (cases "SaveSettings (store_New dir) io ids c fs") auto
  qed
qed

interpretation subs: operations "sub_step (store_New dir)" "\<lambda>fs. single_enabled (subs_of (store_New dir) fs)"
  for dir
  by unfold_locales (rule single_sub_step)

section \<open>The abstract registry of sources\<close>

text \<open>
  What the client is told about its sources: the kind of each one, and which one is active for
  each kind.  The lists on disk implement it.
\<close>

record registry =
  reg_kind :: "string \<Rightarrow> string option"
  reg_active :: "string \<Rightarrow> string option"

definition registry_of :: "SubscriptionSource list \<Rightarrow> registry" where
  "registry_of xs =
     \<lparr>reg_kind = (\<lambda>i. map_option subscriptionKind (find (\<lambda>x. src_ID x = i) xs)),
      reg_active = (\<lambda>k. map_option src_ID (find (\<lambda>x. src_Enabled x \<and> subscriptionKind x = k) xs))\<rparr>"

definition reg_add :: "string \<Rightarrow> string \<Rightarrow> bool \<Rightarrow> registry \<Rightarrow> registry" where
  "reg_add i k e r =
     \<lparr>reg_kind = (reg_kind r)(i \<mapsto> k),
      reg_active = (if e \<and> reg_active r k = None then (reg_active r)(k \<mapsto> i) else reg_active r)\<rparr>"

definition reg_enable :: "string \<Rightarrow> bool \<Rightarrow> registry \<Rightarrow> registry" where
  "reg_enable i b r =
     (case reg_kind r i of
        None \<Rightarrow> r
      | Some k \<Rightarrow>
          r\<lparr>reg_active := (if b then (reg_active r)(k \<mapsto> i)
                          else if reg_active r k = Some i then (reg_active r)(k := None)
                          else reg_active r)\<rparr>)"

definition reg_delete :: "string \<Rightarrow> registry \<Rightarrow> registry" where
  "reg_delete i r =
     \<lparr>reg_kind = (reg_kind r)(i := None),
      reg_active = (\<lambda>k. if reg_active r k = Some i then None else reg_active r k)\<rparr>"

lemma find_enabled: "find (\<lambda>x. src_Enabled x \<and> subscriptionKind x = k) xs =
    (case enabled_of k xs of [] \<Rightarrow> None | x # _ \<Rightarrow> Some x)"
  by (induction xs) auto

definition active_id :: "string \<Rightarrow> SubscriptionSource list \<Rightarrow> string option" where
  "active_id k xs = (case enabled_of k xs of [] \<Rightarrow> None | x # _ \<Rightarrow> Some (src_ID x))"

lemma registry_of_simps [simp]:
  "reg_active (registry_of xs) k = active_id k xs"
  "reg_kind (registry_of xs) i = map_option subscriptionKind (find (\<lambda>x. src_ID x = i) xs)"
  by (simp_all add: registry_of_def find_enabled active_id_def split: list.split)

lemma find_append: "find P (xs @ ys) = (case find P xs of None \<Rightarrow> find P ys | Some x \<Rightarrow> Some x)"
  by (induction xs) auto

lemma find_first: "\<forall>z\<in>set a. \<not> P z \<Longrightarrow> P y \<Longrightarrow> find P (a @ y # r) = Some y"
  by (induction a) auto

lemma registry_add:
  assumes "src_ID (added_source new xs src) \<notin> src_ID ` set xs"
  shows "registry_of (xs @ [added_source new xs src]) =
    reg_add (src_ID (added_source new xs src)) (subscriptionKind src) (src_Enabled src) (registry_of xs)"
proof -
  have "find (\<lambda>x. src_ID x = src_ID (added_source new xs src)) xs = None"
    using assms unfolding find_None_iff by (metis imageI)
  then show ?thesis
    by (auto simp: registry_of_def reg_add_def find_enabled find_append fun_eq_iff
        simp del: added_fields(1) split: option.splits list.splits)
qed

lemma find_id_same:
  "map src_ID ys = map src_ID xs \<Longrightarrow> map subscriptionKind ys = map subscriptionKind xs \<Longrightarrow>
   map_option subscriptionKind (find (\<lambda>x. src_ID x = i) ys) =
   map_option subscriptionKind (find (\<lambda>x. src_ID x = i) xs)"
proof (induction xs arbitrary: ys)
  case (Cons x xs)
  then obtain y zs where ys: "ys = y # zs" by (cases ys) auto
  then have "map_option subscriptionKind (find (\<lambda>x. src_ID x = i) zs) =
      map_option subscriptionKind (find (\<lambda>x. src_ID x = i) xs)"
    using Cons.prems by (intro Cons.IH) auto
  then show ?case using Cons.prems ys by simp
qed simp

lemma enable_kinds:
  "enable_source i b xs = Some (x, ys) \<Longrightarrow>
   map src_ID ys = map src_ID xs \<and> map subscriptionKind ys = map subscriptionKind xs"
  by (auto simp: enable_source_def Let_def disable_kind_def subscriptionKind_def
      split: option.splits if_splits dest!: extract_parts)

lemma registry_enable:
  assumes "enable_source i b xs = Some (x, ys)" "single_enabled xs" "distinct (map src_ID xs)"
  shows "registry_of ys = reg_enable i b (registry_of xs)"
proof -
  obtain a y r where xs: "xs = a @ y # r" "src_ID y = i" "\<forall>z\<in>set a. src_ID z \<noteq> i"
    and x: "x = y\<lparr>src_Enabled := b\<rparr>"
    and e: "\<And>k. enabled_of k ys = (if k = subscriptionKind y
          then (if b then [x] else enabled_of k a @ enabled_of k r) else enabled_of k xs)"
    using enable_enabled [OF assms(1)] by blast
  let ?k = "subscriptionKind y"
  have f: "find (\<lambda>x. src_ID x = i) xs = Some y" using xs by (simp add: find_first)
  have others: "src_ID z \<noteq> i" if "z \<in> set (enabled_of k a) \<union> set (enabled_of k r)" for z k
  proof -
    have "i \<notin> src_ID ` (set a \<union> set r)" using assms(3) xs by auto
    then show ?thesis using that by (auto dest!: enabled_of_kind)
  qed
  have k: "reg_kind (registry_of ys) = reg_kind (registry_of xs)"
    using find_id_same [of ys xs] enable_kinds [OF assms(1)] by (intro ext) simp
  have len: "length (enabled_of ?k xs) \<le> 1" using assms(2) by (simp add: single_enabled_def)
  have en: "enabled_of ?k xs = enabled_of ?k a @ (if src_Enabled y then [y] else []) @ enabled_of ?k r"
    using xs by simp
  have same: "active_id ?k ys = (if b then Some i else if active_id ?k xs = Some i then None else active_id ?k xs)"
  proof (cases "b \<or> src_Enabled y")
    case True
    show ?thesis
    proof (cases b)
      case True
      then show ?thesis using e [of ?k] x xs(2) by (simp add: active_id_def)
    next
      case False
      with \<open>b \<or> src_Enabled y\<close> have y: "src_Enabled y" by simp
      then have "enabled_of ?k a = []" "enabled_of ?k r = []" using len en by auto
      then show ?thesis using e [of ?k] en y False xs(2) by (simp add: active_id_def)
    qed
  next
    case False
    then have "enabled_of ?k ys = enabled_of ?k xs" "set (enabled_of ?k xs) \<subseteq> set (enabled_of ?k a) \<union> set (enabled_of ?k r)"
      using e [of ?k] en by auto
    then have "active_id ?k ys = active_id ?k xs" "active_id ?k xs \<noteq> Some i"
      using others by (cases "enabled_of ?k xs"; auto simp: active_id_def)+
    then show ?thesis using False by simp
  qed
  have act: "reg_active (registry_of ys) k' = reg_active (reg_enable i b (registry_of xs)) k'" for k'
  proof (cases "k' = ?k")
    case True
    then show ?thesis using same f by (simp add: reg_enable_def)
  next
    case False
    then have "active_id k' ys = active_id k' xs" using e [of k'] by (simp add: active_id_def)
    then show ?thesis using False f by (simp add: reg_enable_def)
  qed
  have "reg_kind (reg_enable i b (registry_of xs)) = reg_kind (registry_of xs)"
    by (simp add: reg_enable_def split: option.split)
  then show ?thesis using k act by (simp add: fun_eq_iff)
qed

lemma find_filter_id:
  "find (\<lambda>x. src_ID x = j) (filter (\<lambda>x. src_ID x \<noteq> i) xs) = (if j = i then None else find (\<lambda>x. src_ID x = j) xs)"
  by (induction xs) auto

lemma registry_delete:
  assumes "single_enabled xs"
  shows "registry_of (filter (\<lambda>x. src_ID x \<noteq> i) xs) = reg_delete i (registry_of xs)"
proof -
  have "enabled_of k (filter (\<lambda>x. src_ID x \<noteq> i) xs) = filter (\<lambda>x. src_ID x \<noteq> i) (enabled_of k xs)" for k
    by (simp add: enabled_of_def filter_filter conj_commute)
  then have "active_id k (filter (\<lambda>x. src_ID x \<noteq> i) xs) = (if active_id k xs = Some i then None else active_id k xs)"
    for k
    using assms [unfolded single_enabled_def, rule_format, of k]
    by (cases "enabled_of k xs") (auto simp: active_id_def)
  then show ?thesis
    by (simp add: reg_delete_def find_filter_id fun_eq_iff)
qed

text \<open>The calls of the store on the registry, and whether a call reports success.\<close>

fun reg_call :: "sub_op \<Rightarrow> registry \<Rightarrow> registry" where
  "reg_call (OpAdd new src) r =
     reg_add (if src_ID src = [] then new else src_ID src) (subscriptionKind src) (src_Enabled src) r"
| "reg_call (OpEnable i b) r = reg_enable i b r"
| "reg_call (OpDelete i) r = reg_delete i r"
| "reg_call _ r = r"

fun call_ok :: "Store \<Rightarrow> io \<times> sub_op \<Rightarrow> files \<Rightarrow> bool" where
  "call_ok s (io, OpAdd new src) fs = (fst (AddSubscription s io new src fs) = None)"
| "call_ok s (io, OpEnable i b) fs = is_ok (fst (SetSubscriptionEnabled s io i b fs))"
| "call_ok s (io, OpNormalize) fs = (fst (NormalizeEnabledSubscriptions s io fs) = None)"
| "call_ok s (io, OpDelete i) fs = (fst (DeleteSubscription s io i fs) = None)"
| "call_ok s (io, OpUpsert ids ns) fs = (snd (snd (fst (UpsertProxyNodes s io ids ns fs))) = [])"
| "call_ok s (io, OpSettings ids c) fs = (fst (SaveSettings s io ids c fs) = None)"

definition fresh_add :: "sub_op \<Rightarrow> SubscriptionSource list \<Rightarrow> bool" where
  "fresh_add act xs =
     (case act of OpAdd new src \<Rightarrow> (if src_ID src = [] then new else src_ID src) \<notin> src_ID ` set xs | _ \<Rightarrow> True)"

lemma keep_first_registry:
  assumes "single_enabled xs" "keep_first [] xs = (ys, ch)"
  shows "registry_of ys = registry_of xs"
proof -
  have "map src_ID ys = map src_ID xs \<and> map subscriptionKind ys = map subscriptionKind xs"
    if "keep_first kept xs = (ys, ch)" for kept xs ys ch
    using that by (induction kept xs arbitrary: ys ch rule: keep_first.induct) (auto split: prod.splits if_splits)
  then have "reg_kind (registry_of ys) = reg_kind (registry_of xs)"
    using assms(2) find_id_same [of ys xs] by (intro ext) simp
  moreover have "take 1 (enabled_of k xs) = enabled_of k xs" for k
    using assms(1) by (simp add: single_enabled_def)
  then have "reg_active (registry_of ys) = reg_active (registry_of xs)"
    using keep_first_enabled [OF assms(2)] by (intro ext) (simp add: active_id_def)
  ultimately show ?thesis by simp
qed

lemma registry_call:
  fixes dir :: string and io :: io
  defines "s \<equiv> store_New dir"
  assumes "single_enabled (subs_of s fs)" "distinct (map src_ID (subs_of s fs))" "fresh_add act (subs_of s fs)"
  defines "r \<equiv> registry_of (subs_of s fs)"
    and "r' \<equiv> registry_of (subs_of s (sub_step s (io, act) fs))"
  shows "r' = reg_call act r \<or> \<not> call_ok s (io, act) fs \<and> r' = r"
proof (cases act)
  case (OpAdd new src)
  then have "(if src_ID src = [] then new else src_ID src) \<notin> src_ID ` set (subs_of s fs)"
    using assms(4) by (simp add: fresh_add_def)
  then show ?thesis
    using OpAdd AddSubscription_subs [of dir io new src fs] registry_add [of new "subs_of s fs" src]
    unfolding r_def r'_def s_def by (cases "AddSubscription (store_New dir) io new src fs") auto
next
  case (OpEnable i b)
  show ?thesis
  proof (cases "SetSubscriptionEnabled s io i b fs")
    case (Pair res fs')
    then show ?thesis
      using OpEnable SetSubscriptionEnabled_subs [of dir io i b fs res fs']
        registry_enable [of i b "subs_of s fs"] assms(2,3)
      unfolding r_def r'_def s_def by (auto split: sum.splits)
  qed
next
  case OpNormalize
  then show ?thesis
    using NormalizeEnabled_subs [of dir io fs] keep_first_registry [of "subs_of s fs"] assms(2)
    unfolding r_def r'_def s_def
    by (cases "NormalizeEnabledSubscriptions (store_New dir) io fs";
        cases "keep_first [] (subs_of (store_New dir) fs)") auto
next
  case (OpDelete i)
  then show ?thesis
    using DeleteSubscription_subs [of dir io i fs] registry_delete [OF assms(2), of i]
    unfolding r_def r'_def s_def by (cases "DeleteSubscription (store_New dir) io i fs") auto
next
  case (OpUpsert ids ns)
  then show ?thesis
    using UpsertProxyNodes_keeps [of dir io ids ns fs]
    unfolding r_def r'_def s_def by (cases "UpsertProxyNodes (store_New dir) io ids ns fs") auto
next
  case (OpSettings ids c)
  then show ?thesis
    using SaveSettings_keeps [of dir io ids c fs]
    unfolding r_def r'_def s_def by (cases "SaveSettings (store_New dir) io ids c fs") auto
qed

section \<open>Upserting by name\<close>

definition node_named :: "string \<Rightarrow> ProxyNode list \<Rightarrow> ProxyNode option" where
  "node_named nm ns = find (\<lambda>n. pn_Name n = nm) ns"

definition indexed :: "upsert \<Rightarrow> bool" where
  "indexed u \<longleftrightarrow> distinct (map pn_Name (up_nodes u)) \<and>
     (\<forall>nm i. up_byName u nm = Some i \<longleftrightarrow> i < length (up_nodes u) \<and> pn_Name (up_nodes u ! i) = nm)"

lemma by_name_snoc:
  "by_name (ns @ [n]) = (by_name ns)(pn_Name n \<mapsto> length ns)"
  by (simp add: by_name_def enumerate_append_eq)

lemma indexed_start:
  assumes "distinct (map pn_Name ns)"
  shows "indexed (upsert_start ns)"
proof -
  have "distinct (map pn_Name ns) \<Longrightarrow>
      by_name ns nm = Some i \<longleftrightarrow> i < length ns \<and> pn_Name (ns ! i) = nm" for nm i
  proof (induction ns arbitrary: i rule: rev_induct)
    case Nil
    then show ?case by (simp add: by_name_def)
  next
    case (snoc n ns)
    have "pn_Name n \<notin> pn_Name ` set ns" using snoc.prems by simp
    then have "\<forall>j<length ns. pn_Name (ns ! j) \<noteq> pn_Name n" by (metis imageI nth_mem)
    then show ?case using snoc by (auto simp: by_name_snoc nth_append less_Suc_eq)
  qed
  then show ?thesis using assms by (simp add: indexed_def upsert_start_def)
qed

lemma node_named_nth:
  "distinct (map pn_Name ns) \<Longrightarrow> i < length ns \<Longrightarrow> node_named (pn_Name (ns ! i)) ns = Some (ns ! i)"
  by (induction ns arbitrary: i) (auto simp: node_named_def nth_Cons' split: if_splits)

lemma node_named_none: "node_named nm ns = None \<longleftrightarrow> nm \<notin> pn_Name ` set ns"
  by (auto simp: node_named_def find_None_iff)

lemma node_named_update:
  assumes "distinct (map pn_Name ns)" "i < length ns" "pn_Name n = pn_Name (ns ! i)"
  shows "node_named nm (ns[i := n]) = (if nm = pn_Name n then Some n else node_named nm ns)"
  using assms
proof (induction ns arbitrary: i)
  case (Cons x ns)
  then show ?case by (cases i) (auto simp: node_named_def)
qed simp

lemma node_named_append:
  "pn_Name n \<notin> pn_Name ` set ns \<Longrightarrow>
   node_named nm (ns @ [n]) = (if nm = pn_Name n then Some n else node_named nm ns)"
proof -
  assume n: "pn_Name n \<notin> pn_Name ` set ns"
  then have "find (\<lambda>x. pn_Name x = pn_Name n) ns = None" unfolding find_None_iff by (metis imageI)
  then show ?thesis
    by (cases "nm = pn_Name n") (simp_all add: node_named_def find_append split: option.split)
qed

text \<open>The node as it is stored: its own identifier, the one it had, or a new one.\<close>

definition stored_node :: "(nat \<Rightarrow> string) \<Rightarrow> ProxyNode \<Rightarrow> ProxyNode list \<Rightarrow> ProxyNode" where
  "stored_node ids n ns =
     (if pn_ID n \<noteq> [] then n
      else n\<lparr>pn_ID := (case node_named (pn_Name n) ns of Some old \<Rightarrow> pn_ID old | None \<Rightarrow> ids (length ns))\<rparr>)"

lemma stored_node_name [simp]: "pn_Name (stored_node ids n ns) = pn_Name n"
  by (simp add: stored_node_def)

lemma upsert_nameless:
  "pn_Name n = [] \<Longrightarrow> upsert_node ids n u =
     u\<lparr>up_errs := up_errs u @ [''proxy node requires name''], up_skipped := up_skipped u + 1\<rparr>"
  by (simp add: upsert_node_def)

lemma upsert_step:
  assumes "indexed u" "pn_Name n \<noteq> []"
  shows "indexed (upsert_node ids n u)"
    and "up_nodes (upsert_node ids n u) = up_nodes u @ [stored_node ids n (up_nodes u)] \<and>
           pn_Name n \<notin> pn_Name ` set (up_nodes u) \<or>
         (\<exists>i<length (up_nodes u). pn_Name (up_nodes u ! i) = pn_Name n \<and>
           up_nodes (upsert_node ids n u) = (up_nodes u)[i := stored_node ids n (up_nodes u)])"
    and "up_imported (upsert_node ids n u) = up_imported u + 1"
    and "up_skipped (upsert_node ids n u) = up_skipped u" "up_errs (upsert_node ids n u) = up_errs u"
proof -
  let ?ns = "up_nodes u"
  have d: "distinct (map pn_Name ?ns)"
    and b: "\<And>nm i. up_byName u nm = Some i \<longleftrightarrow> i < length ?ns \<and> pn_Name (?ns ! i) = nm"
    using assms(1) by (auto simp: indexed_def)
  consider (old) i where "up_byName u (pn_Name n) = Some i" | (new) "up_byName u (pn_Name n) = None"
    by (cases "up_byName u (pn_Name n)") auto
  then have "indexed (upsert_node ids n u) \<and>
      (up_nodes (upsert_node ids n u) = ?ns @ [stored_node ids n ?ns] \<and> pn_Name n \<notin> pn_Name ` set ?ns \<or>
       (\<exists>i<length ?ns. pn_Name (?ns ! i) = pn_Name n \<and>
          up_nodes (upsert_node ids n u) = ?ns[i := stored_node ids n ?ns]))"
  proof cases
    case old
    then have i: "i < length ?ns" "pn_Name (?ns ! i) = pn_Name n" using b by auto
    then have nn: "node_named (pn_Name n) ?ns = Some (?ns ! i)" using node_named_nth [OF d i(1)] by simp
    have u: "up_nodes (upsert_node ids n u) = ?ns[i := stored_node ids n ?ns]"
      "up_byName (upsert_node ids n u) = up_byName u"
      using assms(2) old nn by (auto simp: upsert_node_def stored_node_def)
    have "map pn_Name (?ns[i := stored_node ids n ?ns]) = map pn_Name ?ns"
      using i by (simp add: map_update list_update_same_conv)
    moreover have "\<forall>j<length ?ns. pn_Name (?ns[i := stored_node ids n ?ns] ! j) = pn_Name (?ns ! j)"
      using i by (simp add: nth_list_update)
    ultimately have "indexed (upsert_node ids n u)"
      using d b unfolding indexed_def u by auto
    then show ?thesis using u i by blast
  next
    case new
    have nin: "pn_Name n \<notin> pn_Name ` set ?ns"
    proof
      assume "pn_Name n \<in> pn_Name ` set ?ns"
      then obtain i where "i < length ?ns" "pn_Name (?ns ! i) = pn_Name n" by (auto simp: in_set_conv_nth)
      then show False using b [of "pn_Name n" i] new by simp
    qed
    have u: "up_nodes (upsert_node ids n u) = ?ns @ [stored_node ids n ?ns]"
      "up_byName (upsert_node ids n u) = (up_byName u)(pn_Name n \<mapsto> length ?ns)"
      using assms(2) new nin node_named_none [of "pn_Name n" ?ns] by (auto simp: upsert_node_def stored_node_def)
    have "\<forall>j<length ?ns. pn_Name (?ns ! j) \<noteq> pn_Name n" using nin by (metis imageI nth_mem)
    then have "indexed (upsert_node ids n u)"
      unfolding indexed_def u using d nin b by (auto simp: nth_append less_Suc_eq)
    then show ?thesis using u nin by blast
  qed
  then show "indexed (upsert_node ids n u)"
    and "up_nodes (upsert_node ids n u) = ?ns @ [stored_node ids n ?ns] \<and> pn_Name n \<notin> pn_Name ` set ?ns \<or>
       (\<exists>i<length ?ns. pn_Name (?ns ! i) = pn_Name n \<and>
          up_nodes (upsert_node ids n u) = ?ns[i := stored_node ids n ?ns])" by blast+
  show "up_imported (upsert_node ids n u) = up_imported u + 1"
    "up_skipped (upsert_node ids n u) = up_skipped u" "up_errs (upsert_node ids n u) = up_errs u"
    using assms(2) by (simp_all add: upsert_node_def split: option.split)
qed

lemma upsert_lookup:
  assumes "indexed u" "pn_Name n \<noteq> []"
  shows "node_named nm (up_nodes (upsert_node ids n u)) =
    (if nm = pn_Name n then Some (stored_node ids n (up_nodes u)) else node_named nm (up_nodes u))"
proof -
  let ?n = "stored_node ids n (up_nodes u)"
  from upsert_step(2) [OF assms, of ids] show ?thesis
  proof (elim disjE exE conjE)
    assume "up_nodes (upsert_node ids n u) = up_nodes u @ [?n]" "pn_Name n \<notin> pn_Name ` set (up_nodes u)"
    then show ?thesis using node_named_append [of ?n "up_nodes u" nm] by simp
  next
    fix i assume "i < length (up_nodes u)" "pn_Name (up_nodes u ! i) = pn_Name n"
      "up_nodes (upsert_node ids n u) = (up_nodes u)[i := ?n]"
    then show ?thesis
      using node_named_update [of "up_nodes u" i ?n nm] assms(1) by (simp add: indexed_def)
  qed
qed

lemma upsert_fold:
  assumes "indexed u"
  shows "indexed (fold (upsert_node ids) ns u)"
    and "up_imported (fold (upsert_node ids) ns u) + up_skipped (fold (upsert_node ids) ns u) =
      up_imported u + up_skipped u + length ns"
    and "up_skipped (fold (upsert_node ids) ns u) = up_skipped u + length (filter (\<lambda>n. pn_Name n = []) ns)"
    and "length (up_errs (fold (upsert_node ids) ns u)) + up_skipped u =
      length (up_errs u) + up_skipped (fold (upsert_node ids) ns u)"
proof -
  have "indexed (fold (upsert_node ids) ns u) \<and>
    up_imported (fold (upsert_node ids) ns u) + up_skipped (fold (upsert_node ids) ns u) =
      up_imported u + up_skipped u + length ns \<and>
    up_skipped (fold (upsert_node ids) ns u) = up_skipped u + length (filter (\<lambda>n. pn_Name n = []) ns) \<and>
    length (up_errs (fold (upsert_node ids) ns u)) + up_skipped u =
      length (up_errs u) + up_skipped (fold (upsert_node ids) ns u)"
    using assms
  proof (induction ns arbitrary: u)
    case (Cons n ns)
    show ?case
    proof (cases "pn_Name n = []")
      case True
      have "indexed (upsert_node ids n u)"
        using Cons.prems True by (simp add: upsert_nameless indexed_def)
      then show ?thesis using Cons.IH [of "upsert_node ids n u"] True by (simp add: upsert_nameless)
    next
      case False
      then show ?thesis
        using Cons.IH [of "upsert_node ids n u"] upsert_step [OF Cons.prems False, of ids] by simp
    qed
  qed simp
  then show "indexed (fold (upsert_node ids) ns u)"
    and "up_imported (fold (upsert_node ids) ns u) + up_skipped (fold (upsert_node ids) ns u) =
      up_imported u + up_skipped u + length ns"
    and "up_skipped (fold (upsert_node ids) ns u) = up_skipped u + length (filter (\<lambda>n. pn_Name n = []) ns)"
    and "length (up_errs (fold (upsert_node ids) ns u)) + up_skipped u =
      length (up_errs u) + up_skipped (fold (upsert_node ids) ns u)" by blast+
qed

section \<open>Settings are normalised once\<close>

lemma default_rules_normal: "map normalize_rule DefaultProxyRules = DefaultProxyRules"
  by code_simp

lemma settings_rules_normal: "map normalize_rule (settings_rules c) = settings_rules c"
proof -
  have m: "map normalize_rule (migrateRuleModeRules rs) = migrateRuleModeRules rs"
    if "map normalize_rule rs = rs" for rs
  proof -
    have "map normalize_rule (filter P DefaultProxyRules) = filter P DefaultProxyRules" for P
      using default_rules_normal by (intro map_idI) (simp add: list_eq_iff_nth_eq in_set_conv_nth, metis nth_map)
    then show ?thesis using that by (simp add: migrateRuleModeRules_def)
  qed
  show ?thesis
    using m [of "map normalize_rule r" for r] default_rules_normal
    by (cases "set_RuleModeRules c")
      (auto simp: settings_rules_def NormalizeProxyRules_def normalize_rule_idem)
qed

lemma fill_ids_nonempty: "(\<And>i. ids i \<noteq> []) \<Longrightarrow> list_all (\<lambda>r. rule_ID r \<noteq> []) (fill_rule_ids ids rs)"
  by (simp add: fill_rule_ids_def list_all_iff split: prod.split)

lemma fill_ids_id: "list_all (\<lambda>r. rule_ID r \<noteq> []) rs \<Longrightarrow> fill_rule_ids ids rs = rs"
  by (rule nth_equalityI) (auto simp: fill_rule_ids_def nth_enumerate_eq list_all_length)

lemma fill_ids_normal:
  assumes "\<And>i. plain (ids i)" "map normalize_rule rs = rs"
  shows "map normalize_rule (fill_rule_ids ids rs) = fill_rule_ids ids rs"
proof (rule nth_equalityI)
  fix i assume "i < length (map normalize_rule (fill_rule_ids ids rs))"
  then have i: "i < length rs" by (simp add: fill_rule_ids_def)
  have "normalize_rule (rs ! i) = rs ! i" using assms(2) i by (metis nth_map)
  moreover have "trim_space (ids i) = ids i" using assms(1) plain_trim by (simp add: plain_def)
  moreover have "normalize_rule (r\<lparr>rule_ID := x\<rparr>) = (normalize_rule r)\<lparr>rule_ID := trim_space x\<rparr>" for r x
    by (simp add: normalize_rule_def Let_def)
  ultimately show "map normalize_rule (fill_rule_ids ids rs) ! i = fill_rule_ids ids rs ! i"
    using i by (simp add: fill_rule_ids_def nth_enumerate_eq)
qed simp

lemma normalizeSettings_again:
  assumes "\<And>i. plain (ids i)"
  shows "normalizeSettings ids' (normalizeSettings ids c) = normalizeSettings ids c"
proof -
  have "map normalize_rule (fill_rule_ids ids (settings_rules c)) = fill_rule_ids ids (settings_rules c)"
    using assms settings_rules_normal by (rule fill_ids_normal)
  then have "settings_rules (normalizeSettings ids c) = fill_rule_ids ids (settings_rules c)"
    by (simp add: normalizeSettings_def settings_rules_def [of "_\<lparr>set_RuleModeRulesVersion := _\<rparr>"]
        NormalizeProxyRules_def)
  moreover have "\<And>i. ids i \<noteq> []" using assms by (simp add: plain_def)
  ultimately have "fill_rule_ids ids' (settings_rules (normalizeSettings ids c)) = fill_rule_ids ids (settings_rules c)"
    using fill_ids_nonempty fill_ids_id by metis
  then show ?thesis
    unfolding normalizeSettings_def [of ids'] by (simp add: normalizeSettings_def)
qed

text \<open>Identifiers as \<open>randomID\<close> makes them, one per position.\<close>

definition sample_ids :: "nat \<Rightarrow> string" where "sample_ids i = CHR ''r'' # nat_str i"

lemma sample_ids_plain: "plain (sample_ids i)"
  using nat_str_digits [of i]
  by (auto simp: sample_ids_def plain_def list_all_iff plain_char_def is_alnum_def is_digit_def Let_def)

interpretation settings: normaliser "normalizeSettings sample_ids"
  by unfold_locales (rule normalizeSettings_again [OF sample_ids_plain])

section \<open>The node list is fed by one source\<close>

lemma active_prefixes_dom:
  "active_prefixes xs i \<noteq> None \<longleftrightarrow> i \<in> src_ID ` {x \<in> set xs. src_Kind x = SubscriptionKindProxy \<and> src_Enabled x}"
  by (induction xs rule: rev_induct) (auto simp: active_prefixes_def)

lemma active_one_source:
  assumes "single_enabled xs"
  shows "\<exists>i. \<forall>n\<in>set ns. node_active (active_prefixes xs) n \<longrightarrow> pn_SubscriptionID n = i"
proof -
  let ?e = "enabled_of SubscriptionKindProxy xs"
  have "length ?e \<le> 1" using assms unfolding single_enabled_def by blast
  then obtain x where x: "set ?e \<subseteq> {x}"
    by (cases ?e) force+
  have "pn_SubscriptionID n = src_ID x" if n: "node_active (active_prefixes xs) n" for n
  proof -
    have "active_prefixes xs (pn_SubscriptionID n) \<noteq> None"
      using n by (cases "active_prefixes xs (pn_SubscriptionID n)") (simp_all add: node_active_def)
    then obtain y where y: "pn_SubscriptionID n = src_ID y" "y \<in> set xs" "src_Kind y = SubscriptionKindProxy"
        "src_Enabled y"
      unfolding active_prefixes_dom by blast
    then have "subscriptionKind y = SubscriptionKindProxy"
      by (simp add: subscriptionKind_def SubscriptionKindProxy_def)
    then have "y \<in> set ?e" using y by (simp add: enabled_of_def)
    then show ?thesis using x y(1) by blast
  qed
  then show ?thesis by blast
qed

section \<open>Properties\<close>

definition sample_src :: "string \<Rightarrow> string \<Rightarrow> SubscriptionSource" where
  "sample_src i kind =
     \<lparr>src_ID = i, src_Name = i, src_URL = ''https://e/'', src_Format = ''auto'', src_Kind = kind,
      src_Enabled = True, src_AutoRefresh = False, src_IntervalMin = 0, src_LastRefresh = [],
      src_LastError = [], src_TunnelCount = 0, src_NodeCount = 0, src_UsageUpload = 0,
      src_UsageDownload = 0, src_UsageTotal = 0, src_UsageExpire = 0\<rparr>"

definition sample_io :: io where "sample_io = (\<lambda>_. all_well ''1'')"

text \<open>C19: Writing a store file is all or nothing: at every moment of the write, whatever fails and
  wherever the process dies, the file holds its old content or the whole new one; a write that
  reports success has put the new one in place, a failed one has changed nothing, and the
  temporary file is gone.\<close>

theorem store_write_atomic:
  assumes "tmp_path dir a \<noteq> path" "fs (tmp_path dir a) = None"
    and "write_steps dir path data a = (e, steps)"
  shows "fold fs_apply (take n steps) fs path \<in> {fs path, Some data} \<and>
    fold fs_apply steps fs = (if e = None then fs(path \<mapsto> data) else fs)"
proof -
  have "fold fs_apply steps fs = (if e = None then fs(path \<mapsto> data) else fs)"
    using assms by (auto simp: write_steps_def Let_def fun_upd_idem split: option.splits prod.splits)
  then show ?thesis using write_moments [OF assms(1), of n data fs] assms(3) by simp
qed

theorem store_write_atomic_witness:
  "fold fs_apply (snd (write_steps ''d'' ''d/settings.json'' (Raw ''x'') (all_well ''1''))) Map.empty =
     [''d/settings.json'' \<mapsto> Raw ''x'']"
  using store_write_atomic [of "''d''" "all_well ''1''" "''d/settings.json''" Map.empty "Raw ''x''" None
    "[Put ''d/.tmp-1'' (Raw []), Put ''d/.tmp-1'' (Raw ''x''), Rename ''d/.tmp-1'' ''d/settings.json'', Remove ''d/.tmp-1'']" 0]
  by (simp add: write_steps_def tmp_path_def path_join_def all_well_def Let_def)


definition sample_node :: "string \<Rightarrow> string \<Rightarrow> ProxyNode" where
  "sample_node i src = (link_node ProtocolTrojan ''pw'' ''h'' 443 [(''type'', ''ws'')] (i @ ''-n''))
     \<lparr>pn_ID := i, pn_SubscriptionID := src\<rparr>"

text \<open>Two enabled sources of one kind, as older versions left them, with a node each.\<close>

definition sample_files :: files where
  "sample_files = [''d/subscriptions.json'' \<mapsto> Subs [sample_src ''a'' ''proxy'', sample_src ''b'' ''proxy''],
     ''d/proxy_nodes.json'' \<mapsto> Nodes [sample_node ''1'' ''a'', sample_node ''2'' ''b'']]"




text \<open>Settings that were saved are read back as they were normalised for saving, however often
  they are loaded and whatever identifiers would be drawn: mode, rules, identifiers and version
  no longer change.\<close>

lemma settings_roundtrip:
  assumes "\<And>i. plain (ids i)" "fst (SaveSettings (store_New dir) io ids c fs) = None"
    and "a_read (io' (st_settingsPath (store_New dir))) = None"
  shows "LoadSettings (store_New dir) io' ids' (snd (SaveSettings (store_New dir) io ids c fs)) =
    Inr (normalizeSettings ids c)"
proof -
  obtain fs' where w: "writeFileAtomic (store_New dir) io (st_settingsPath (store_New dir))
      (Settings (normalizeSettings ids c)) fs = (None, fs')"
    using assms(2) unfolding SaveSettings_def by (metis prod.collapse)
  have "fs' (st_settingsPath (store_New dir)) = Some (Settings (normalizeSettings ids c))"
    using write_outcome [OF _ w] by simp
  then show ?thesis
    using assms(3) normalizeSettings_again [OF assms(1)]
    by (simp add: SaveSettings_def w LoadSettings_def load_file_def)
qed

end
