(* ===== verification/SysProxy.thy ===== *)
theory SysProxy
  imports NetAddr
begin

text \<open>
  The system proxy and the start-up entry of the desktop client on Windows
  (\<open>client/internal/sysproxy/sysproxy_windows.go\<close>): the values of the user's registry that the
  code sets.  The registry's answers are a parameter.
\<close>

definition appName :: string where "appName = ''SafeLink''"

text \<open>The values of the two keys; \<open>rg_Run\<close> is the entry named \<open>appName\<close>.\<close>

record registry_values =
  rg_ProxyEnable :: bool
  rg_ProxyServer :: string
  rg_ProxyOverride :: string
  rg_Run :: "string option"

text \<open>The errors of the calls, by what they do; \<open>rw_exe\<close> is the executable's absolute path.\<close>

record registry_answers =
  rw_open :: "go_error option"
  rw_server :: "go_error option"
  rw_override :: "go_error option"
  rw_enable :: "go_error option"
  rw_create :: "go_error option"
  rw_delete :: "(go_error \<times> bool) option"
  rw_exe :: "string result"
  rw_abs :: "string result"
  rw_run :: "go_error option"

definition normalizeEndpoint :: "string \<Rightarrow> string" where
  "normalizeEndpoint addr =
     (case SplitHostPort addr of
        Inl _ \<Rightarrow> addr
      | Inr (host, port) \<Rightarrow> JoinHostPort (if host = [] then ''127.0.0.1'' else host) port)"

definition buildProxyServer :: "string \<Rightarrow> string \<Rightarrow> string" where
  "buildProxyServer httpAddr socksAddr =
     (let httpEndpoint = normalizeEndpoint httpAddr; socksEndpoint = normalizeEndpoint socksAddr in
      if httpEndpoint \<noteq> [] then httpEndpoint else ''socks='' @ socksEndpoint)"

definition SetSystemProxy ::
  "registry_answers \<Rightarrow> bool \<Rightarrow> string \<Rightarrow> string \<Rightarrow> registry_values \<Rightarrow> go_error option \<times> registry_values" where
  "SetSystemProxy w enabled httpAddr socksAddr r =
     (case rw_open w of
        Some e \<Rightarrow> (Some (Wrap ''open internet settings: %w'' [] e), r)
      | None \<Rightarrow>
          if \<not> enabled then
            (case rw_enable w of
               Some e \<Rightarrow> (Some (Wrap ''disable system proxy: %w'' [] e), r)
             | None \<Rightarrow> (None, r\<lparr>rg_ProxyEnable := False\<rparr>))
          else if httpAddr = [] \<and> socksAddr = [] then (Some (Err ''proxy listener is not available''), r)
          else (case rw_server w of
                  Some e \<Rightarrow> (Some (Wrap ''set proxy server: %w'' [] e), r)
                | None \<Rightarrow>
                    (let r1 = r\<lparr>rg_ProxyServer := buildProxyServer httpAddr socksAddr\<rparr> in
                     case rw_override w of
                       Some e \<Rightarrow> (Some (Wrap ''set proxy bypass: %w'' [] e), r1)
                     | None \<Rightarrow>
                         (let r2 = r1\<lparr>rg_ProxyOverride := ''<local>''\<rparr> in
                          case rw_enable w of
                            Some e \<Rightarrow> (Some (Wrap ''enable system proxy: %w'' [] e), r2)
                          | None \<Rightarrow> (None, r2\<lparr>rg_ProxyEnable := True\<rparr>)))))"

text \<open>The boolean of \<open>rw_delete\<close>: the entry did not exist.\<close>

definition SetAutoStart :: "registry_answers \<Rightarrow> bool \<Rightarrow> registry_values \<Rightarrow> go_error option \<times> registry_values" where
  "SetAutoStart w enabled r =
     (case rw_create w of
        Some e \<Rightarrow> (Some (Wrap ''open startup key: %w'' [] e), r)
      | None \<Rightarrow>
          if \<not> enabled then
            (case rw_delete w of
               Some (e, missing) \<Rightarrow> if \<not> missing then (Some (Wrap ''remove startup entry: %w'' [] e), r) else (None, r\<lparr>rg_Run := None\<rparr>)
             | None \<Rightarrow> (None, r\<lparr>rg_Run := None\<rparr>))
          else (case rw_exe w of
                  Inl e \<Rightarrow> (Some (Wrap ''locate executable: %w'' [] e), r)
                | Inr _ \<Rightarrow>
                    (case rw_abs w of
                       Inl e \<Rightarrow> (Some (Wrap ''resolve executable: %w'' [] e), r)
                     | Inr exe \<Rightarrow>
                         (case rw_run w of
                            Some e \<Rightarrow> (Some (Wrap ''set startup entry: %w'' [] e), r)
                          | None \<Rightarrow> (None, r\<lparr>rg_Run := Some (go_quote exe)\<rparr>)))))"

section \<open>Lemmas\<close>

lemma SetSystemProxy_off:
  "SetSystemProxy w False h s r = (e, r') \<Longrightarrow> rg_ProxyEnable r' = (e \<noteq> None \<and> rg_ProxyEnable r)"
  by (auto simp: SetSystemProxy_def split: option.splits)

lemma SetSystemProxy_on:
  "SetSystemProxy w True h s r = (e, r') \<Longrightarrow>
   rg_ProxyEnable r' = (e = None \<or> rg_ProxyEnable r) \<and> (e = None \<longrightarrow> rg_ProxyServer r' = buildProxyServer h s)"
  by (auto simp: SetSystemProxy_def Let_def split: option.splits if_splits)

text \<open>A failure to switch on leaves the switch, but perhaps another server behind it.\<close>

lemma SetSystemProxy_enable_failed:
  "SetSystemProxy w True h s r = (Some e, r') \<Longrightarrow> rg_ProxyEnable r' = rg_ProxyEnable r"
  by (auto simp: SetSystemProxy_def Let_def split: option.splits if_splits)

end
