(* ===== verification/CoreConfig.thy ===== *)
theory CoreConfig
  imports ProxySub Config Files "HOL-Library.AList"
begin

text \<open>
  The configuration that the proxy client writes for its core process:
  \<open>client/internal/proxycore/core.go\<close> (options, outbounds, routes, DNS) and the rule-set
  files of \<open>ruleset.go\<close>.  A document is its JSON value; \<open>json.MarshalIndent\<close>, which
  does not fail on such values, is left out.  The bytes of the embedded rule sets, the answers of
  the operating system and of the download are parameters.
\<close>

section \<open>JSON values\<close>

text \<open>A Go map with string keys is an association list, written with \<open>put_field\<close>.\<close>

datatype json =
    JString string
  | JNumber int
  | JBool bool
  | JArray "json list"
  | JObject "(string \<times> json) list"

type_synonym fields = "(string \<times> json) list"

definition put_field :: "string \<Rightarrow> json \<Rightarrow> fields \<Rightarrow> fields" where
  "put_field k v obj = AList.update k v obj"

definition get_field :: "fields \<Rightarrow> string \<Rightarrow> json option" where
  "get_field obj k = map_of obj k"

lemma get_put [simp]: "get_field (put_field k v obj) j = (if j = k then Some v else get_field obj j)"
  by (simp add: get_field_def put_field_def update_conv')

lemma get_field_simps [simp]:
  "get_field [] j = None"
  "get_field ((k, v) # obj) j = (if j = k then Some v else get_field obj j)"
  by (auto simp: get_field_def)

text \<open>The strings of an array, and the values of a field over an array of objects.\<close>

fun str_of :: "json \<Rightarrow> string option" where
  "str_of (JString s) = Some s"
| "str_of _ = None"

fun items :: "json option \<Rightarrow> json list" where
  "items (Some (JArray xs)) = xs"
| "items _ = []"

fun field :: "string \<Rightarrow> json \<Rightarrow> json option" where
  "field k (JObject obj) = get_field obj k"
| "field k _ = None"

definition column :: "string \<Rightarrow> json list \<Rightarrow> string list" where
  "column k xs = concat (map (\<lambda>x. case Option.bind (field k x) str_of of None \<Rightarrow> [] | Some s \<Rightarrow> [s]) xs)"

lemma column_simps [simp]:
  "column k [] = []"
  "column k (x # xs) = (case Option.bind (field k x) str_of of None \<Rightarrow> [] | Some s \<Rightarrow> [s]) @ column k xs"
  "column k (xs @ ys) = column k xs @ column k ys"
  by (simp_all add: column_def)

section \<open>Options\<close>

definition ProxyModeRule :: string where "ProxyModeRule = ''rule''"
definition ProxyModeGlobal :: string where "ProxyModeGlobal = ''global''"
definition ProxyModeDirect :: string where "ProxyModeDirect = ''direct''"
definition defaultHysteriaMbps :: int where "defaultHysteriaMbps = 100"
definition defaultUTLSFingerprint :: string where "defaultUTLSFingerprint = ''chrome''"
definition dnsDirectTag :: string where "dnsDirectTag = ''dns-direct''"
definition fallbackDNSServers :: "string list" where "fallbackDNSServers = [''223.5.5.5'', ''119.29.29.29'']"

lemmas core_consts = ProxyModeRule_def ProxyModeGlobal_def ProxyModeDirect_def defaultHysteriaMbps_def
  defaultUTLSFingerprint_def dnsDirectTag_def

definition NormalizeMode :: "string \<Rightarrow> string" where
  "NormalizeMode mode =
     (let m = lower_trim mode in
      if m = ProxyModeGlobal then ProxyModeGlobal
      else if m = ProxyModeDirect then ProxyModeDirect
      else ProxyModeRule)"

record core_options =
  co_CorePath :: string
  co_WorkDir :: string
  co_SOCKSAddr :: string
  co_HTTPAddr :: string
  co_ClashAPIAddr :: string
  co_Mode :: string
  co_RuleModeRules :: "ProxyRule list option"
  co_DNSServers :: "string list"
  co_RuleSetDir :: string
  co_withoutRuleSets :: bool

text \<open>What the platform answers: \<open>runtime.GOOS\<close> and \<open>os.TempDir\<close>.\<close>

record platform =
  pf_GOOS :: string
  pf_TempDir :: string

subsection \<open>DNS servers\<close>

text \<open>The predicates of \<open>netip.Addr\<close>; those on scope look through a 4-in-6 address.\<close>

definition is_4in6 :: "netip_addr \<Rightarrow> bool" where
  "is_4in6 a = (case a of Addr4 b \<Rightarrow> False | Addr6 b z \<Rightarrow> take 12 b = v4_in_v6)"

definition unmap :: "netip_addr \<Rightarrow> netip_addr" where
  "unmap a = (case a of Addr4 b \<Rightarrow> a | Addr6 b z \<Rightarrow> if take 12 b = v4_in_v6 then Addr4 (drop 12 b) else a)"

definition is_loopback :: "netip_addr \<Rightarrow> bool" where
  "is_loopback a = (case unmap a of Addr4 b \<Rightarrow> hd b = 127 | Addr6 b z \<Rightarrow> b = replicate 15 0 @ [1])"

definition is_unspecified :: "netip_addr \<Rightarrow> bool" where
  "is_unspecified a = (a = Addr4 [0, 0, 0, 0] \<or> a = Addr6 (replicate 16 0) [])"

definition is_link_local_unicast :: "netip_addr \<Rightarrow> bool" where
  "is_link_local_unicast a =
     (case unmap a of Addr4 b \<Rightarrow> take 2 b = [169, 254] | Addr6 b z \<Rightarrow> hd b = 0xFE \<and> b ! 1 AND 0xC0 = 0x80)"

definition is_link_local_multicast :: "netip_addr \<Rightarrow> bool" where
  "is_link_local_multicast a =
     (case unmap a of Addr4 b \<Rightarrow> take 3 b = [224, 0, 0] | Addr6 b z \<Rightarrow> hd b = 0xFF \<and> b ! 1 AND 0x0F = 0x02)"

text \<open>\<open>Addr.String\<close> of an unmapped address without zone.\<close>

definition addr_string :: "netip_addr \<Rightarrow> string" where
  "addr_string a = (case a of Addr4 b \<Rightarrow> dotted b | Addr6 b z \<Rightarrow> v6_text b)"

text \<open>The address a server entry stands for, if the core can use it.\<close>

definition dns_addr :: "string \<Rightarrow> netip_addr option" where
  "dns_addr server =
     (let addr = trim_space server in
      if addr = [] then None
      else (case ParseAddr addr of
              None \<Rightarrow> None
            | Some ip \<Rightarrow>
                if is_loopback ip \<or> is_unspecified ip \<or> zone_of ip \<noteq> [] \<or> is_link_local_unicast ip \<or>
                   is_link_local_multicast ip then None
                else Some (unmap ip)))"

fun dns_split :: "string list \<Rightarrow> string list \<times> string list" where
  "dns_split [] = ([], [])"
| "dns_split (server # rest) =
     (case dns_split rest of (v4, v6) \<Rightarrow>
        (case dns_addr server of
           None \<Rightarrow> (v4, v6)
         | Some (Addr4 b) \<Rightarrow> (addr_string (Addr4 b) # v4, v6)
         | Some (Addr6 b z) \<Rightarrow> (v4, addr_string (Addr6 b z) # v6)))"

definition normalizeDNSServers :: "platform \<Rightarrow> string list \<Rightarrow> string list" where
  "normalizeDNSServers pf servers =
     (case dns_split servers of (v4, v6) \<Rightarrow>
        if v4 @ v6 = [] \<and> pf_GOOS pf = ''android'' then fallbackDNSServers else v4 @ v6)"

definition firstDNSServer :: "string list \<Rightarrow> string" where
  "firstDNSServer servers = (case filter (\<lambda>s. s \<noteq> []) (map trim_space servers) of [] \<Rightarrow> [] | s # _ \<Rightarrow> s)"

subsection \<open>Normalisation\<close>

definition normalizeRuleModeRules :: "ProxyRule list option \<Rightarrow> ProxyRule list" where
  "normalizeRuleModeRules rules =
     map normalize_rule (case rules of None \<Rightarrow> DefaultProxyRules | Some rs \<Rightarrow> rs)"

definition normalizeOptions :: "platform \<Rightarrow> core_options \<Rightarrow> core_options" where
  "normalizeOptions pf opts =
     (let work = (if co_WorkDir opts = [] then path_join (pf_TempDir pf) ''safelink-proxy'' else co_WorkDir opts) in
      opts\<lparr>co_SOCKSAddr := (if co_SOCKSAddr opts = [] then ''127.0.0.1:10808'' else co_SOCKSAddr opts),
           co_HTTPAddr := (if co_HTTPAddr opts = [] then ''127.0.0.1:10809'' else co_HTTPAddr opts),
           co_WorkDir := work,
           co_RuleSetDir := (if co_RuleSetDir opts = [] then path_join work ''rule-sets'' else co_RuleSetDir opts),
           co_Mode := NormalizeMode (co_Mode opts),
           co_RuleModeRules := Some (normalizeRuleModeRules (co_RuleModeRules opts)),
           co_DNSServers := normalizeDNSServers pf (co_DNSServers opts)\<rparr>)"

section \<open>Outbounds\<close>

definition singBoxProtocol :: "string \<Rightarrow> string" where
  "singBoxProtocol p =
     (if p = ProtocolShadowsocks then ''shadowsocks''
      else if p = ProtocolVMess then ''vmess''
      else if p = ProtocolVLESS then ''vless''
      else if p = ProtocolTrojan then ''trojan''
      else if p = ProtocolHysteria then ''hysteria''
      else if p = ProtocolHysteria2 then ''hysteria2''
      else if p = ProtocolTUIC then ''tuic''
      else if p = ProtocolAnyTLS then ''anytls''
      else [])"

definition core_alwaysTLS :: "string \<Rightarrow> bool" where
  "core_alwaysTLS p \<longleftrightarrow>
     p = ProtocolHysteria \<or> p = ProtocolHysteria2 \<or> p = ProtocolTUIC \<or> p = ProtocolAnyTLS"

definition supportsOutboundTransport :: "string \<Rightarrow> bool" where
  "supportsOutboundTransport p \<longleftrightarrow> p = ProtocolVMess \<or> p = ProtocolVLESS \<or> p = ProtocolTrojan"

definition normalizedTransportType :: "string \<Rightarrow> string" where
  "normalizedTransportType t =
     (let s = lower_trim t in
      if s = [] \<or> s = ''tcp'' then []
      else if s = ''websocket'' then ''ws''
      else s)"

definition packetEncodingFor :: "string \<Rightarrow> string" where
  "packetEncodingFor nodeValue =
     (let e = NormalizePacketEncoding nodeValue in
      if e = PacketEncodingDisabled then []
      else if e = [] then PacketEncodingXUDP
      else e)"

definition buildTLS :: "TLSOptions \<Rightarrow> json" where
  "buildTLS tls =
     (let out0 = [(''enabled'', JBool (tls_Enabled tls))];
          out1 = (if tls_ServerName tls \<noteq> [] then put_field ''server_name'' (JString (tls_ServerName tls)) out0 else out0);
          out2 = (if tls_Insecure tls then put_field ''insecure'' (JBool True) out1 else out1);
          out3 = (if tls_ALPN tls \<noteq> [] then put_field ''alpn'' (JArray (map JString (tls_ALPN tls))) out2 else out2);
          (out4, fp) =
            (if tls_PublicKey tls \<noteq> []
             then (put_field ''reality''
                     (JObject [(''enabled'', JBool True), (''public_key'', JString (tls_PublicKey tls)),
                               (''short_id'', JString (tls_ShortID tls))]) out3,
                   firstNonEmpty [tls_Fingerprint tls, defaultUTLSFingerprint])
             else (out3, tls_Fingerprint tls));
          out5 = (if fp \<noteq> []
                  then put_field ''utls'' (JObject [(''enabled'', JBool True), (''fingerprint'', JString fp)]) out4
                  else out4)
      in JObject out5)"

definition default_tls :: TLSOptions where
  "default_tls =
     \<lparr>tls_Enabled = True, tls_ServerName = [], tls_Insecure = False, tls_ALPN = [], tls_PublicKey = [],
      tls_ShortID = [], tls_Fingerprint = []\<rparr>"

definition buildTransport :: "TransportOptions \<Rightarrow> json" where
  "buildTransport tr =
     (let ty = normalizedTransportType (tr_Type tr);
          out = [(''type'', JString ty)];
          service = trim_prefix (trim_space (tr_Path tr)) ''/''
      in if ty = ''grpc'' then JObject (if service \<noteq> [] then put_field ''service_name'' (JString service) out else out)
         else if ty = ''quic'' then JObject out
         else (let out1 = (if tr_Path tr \<noteq> [] then put_field ''path'' (JString (tr_Path tr)) out else out)
               in JObject
                 (if tr_Host tr \<noteq> [] then
                    (if ty = ''http'' then put_field ''host'' (JArray [JString (tr_Host tr)]) out1
                     else put_field ''headers'' (JObject [(''Host'', JString (tr_Host tr))]) out1)
                  else if tr_Headers tr \<noteq> []
                  then put_field ''headers'' (JObject (map (\<lambda>(k, v). (k, JString v)) (tr_Headers tr))) out1
                  else out1)))"

text \<open>The switch over the protocol.\<close>

definition protocol_fields :: "ProxyNode \<Rightarrow> fields \<Rightarrow> fields" where
  "protocol_fields node out =
     (let p = pn_Protocol node; enc = packetEncodingFor (pn_PacketEncoding node);
          with_enc = (\<lambda>o1. if enc \<noteq> [] then put_field ''packet_encoding'' (JString enc) o1 else o1);
          password = put_field ''password'' (JString (pn_Password node));
          uuid = put_field ''uuid'' (JString (pn_UUID node)) in
      if p = ProtocolShadowsocks then password (put_field ''method'' (JString (pn_Method node)) out)
      else if p = ProtocolVMess then
        with_enc
          ((if 0 < pn_AlterID node then put_field ''alter_id'' (JNumber (pn_AlterID node)) else id)
            (put_field ''security'' (JString (firstNonEmpty [pn_Security node, ''auto''])) (uuid out)))
      else if p = ProtocolVLESS then
        with_enc ((if pn_Flow node \<noteq> [] then put_field ''flow'' (JString (pn_Flow node)) else id) (uuid out))
      else if p = ProtocolTrojan \<or> p = ProtocolHysteria2 \<or> p = ProtocolAnyTLS then password out
      else if p = ProtocolHysteria then
        put_field ''down_mbps'' (JNumber defaultHysteriaMbps)
          (put_field ''up_mbps'' (JNumber defaultHysteriaMbps)
            (put_field ''auth_str'' (JString (pn_Password node)) out))
      else if p = ProtocolTUIC then password (uuid out)
      else out)"

definition tls_field :: "ProxyNode \<Rightarrow> fields \<Rightarrow> fields" where
  "tls_field node out =
     (case pn_TLS node of
        Some tls \<Rightarrow>
          if tls_Enabled tls then put_field ''tls'' (buildTLS tls) out
          else if core_alwaysTLS (pn_Protocol node) then put_field ''tls'' (buildTLS default_tls) out
          else out
      | None \<Rightarrow> if core_alwaysTLS (pn_Protocol node) then put_field ''tls'' (buildTLS default_tls) out else out)"

definition transport_field :: "ProxyNode \<Rightarrow> fields \<Rightarrow> fields" where
  "transport_field node out =
     (if supportsOutboundTransport (pn_Protocol node) \<and> normalizedTransportType (tr_Type (pn_Transport node)) \<noteq> []
      then put_field ''transport'' (buildTransport (pn_Transport node)) out
      else out)"

definition buildOutbound :: "ProxyNode \<Rightarrow> fields result" where
  "buildOutbound node =
     (if singBoxProtocol (pn_Protocol node) = []
      then Inl (Errf ''unsupported proxy protocol %q'' [pn_Protocol node])
      else Inr (transport_field node (tls_field node (protocol_fields node
             [(''type'', JString (singBoxProtocol (pn_Protocol node))), (''tag'', JString ''selected''),
              (''server'', JString (pn_Server node)), (''server_port'', JNumber (pn_Port node))]))))"

section \<open>Listening addresses\<close>

text \<open>An \<open>int\<close> of 64 bits: the sum wraps around.\<close>

fun atoi_loop :: "64 word \<Rightarrow> string \<Rightarrow> 64 word option" where
  "atoi_loop n [] = Some n"
| "atoi_loop n (c # s) = (if is_digit c then atoi_loop (n * 10 + of_nat (digit_val c)) s else None)"

definition strconvAtoi :: "string \<Rightarrow> int result" where
  "strconvAtoi txt =
     (case atoi_loop 0 (trim_space txt) of
        None \<Rightarrow> Inl (Errf ''invalid integer %q'' [txt])
      | Some n \<Rightarrow> Inr (sint n))"

definition splitListenAddr :: "string \<Rightarrow> string \<times> int" where
  "splitListenAddr addr =
     (case SplitHostPort addr of
        Inl _ \<Rightarrow> (''127.0.0.1'', 0)
      | Inr (host, portText) \<Rightarrow> (host, case strconvAtoi portText of Inl _ \<Rightarrow> 0 | Inr p \<Rightarrow> p))"

definition buildInbound :: "string \<Rightarrow> string \<Rightarrow> string \<Rightarrow> json" where
  "buildInbound tag inboundType addr =
     (case splitListenAddr addr of (host, port) \<Rightarrow>
        JObject [(''type'', JString inboundType), (''tag'', JString tag), (''listen'', JString host),
                 (''listen_port'', JNumber port)])"

section \<open>Rule-set files (ruleset.go)\<close>

text \<open>A file of the rule-set directory: its bytes and its modification time in nanoseconds.\<close>

type_synonym rule_files = "(string \<times> int) disk"

definition embeddedRuleSetFiles :: "(string \<times> string) list" where
  "embeddedRuleSetFiles =
     [(ProxyRuleSetGeoIPCN, ''geoip-cn.srs''),
      (ProxyRuleSetGeositeGeolocationCN, ''geosite-geolocation-cn.srs''),
      (ProxyRuleSetGeositeGeolocationNotCN, ''geosite-geolocation-not-cn.srs'')]"

definition remoteProxyRuleSetURLs :: "(string \<times> string) list" where
  "remoteProxyRuleSetURLs =
     [(ProxyRuleSetGeoIPCN, ''https://raw.githubusercontent.com/SagerNet/sing-geoip/rule-set/geoip-cn.srs''),
      (ProxyRuleSetGeositeGeolocationCN,
       ''https://raw.githubusercontent.com/SagerNet/sing-geosite/rule-set/geosite-geolocation-cn.srs''),
      (ProxyRuleSetGeositeGeolocationNotCN,
       ''https://raw.githubusercontent.com/SagerNet/sing-geosite/rule-set/geosite-geolocation-!cn.srs'')]"

definition ruleSetRefreshInterval :: int where "ruleSetRefreshInterval = 24 * 3600 * 10 ^ 9"
definition minRuleSetBytes :: nat where "minRuleSetBytes = 1024"

text \<open>
  What the system answers while one file is replaced: the random part of the temporary name, the
  errors of the steps (a failed write leaves some bytes), whether the old file could be removed.
\<close>

record rs_answers =
  ra_tmp :: string
  ra_create :: "go_error option"
  ra_write :: "(go_error \<times> string) option"
  ra_close :: "go_error option"
  ra_remove :: bool
  ra_rename :: "go_error option"
  ra_now :: int

definition rs_tmp :: "string \<Rightarrow> rs_answers \<Rightarrow> string" where
  "rs_tmp dir a = path_join dir (''.tmp-'' @ ra_tmp a)"

text \<open>The steps of \<open>writeFileAtomic\<close>: it removes the old file before it renames the new one.\<close>

definition rs_write_steps ::
  "string \<Rightarrow> string \<Rightarrow> string \<Rightarrow> rs_answers \<Rightarrow> go_error option \<times> (string \<times> int) fs_step list" where
  "rs_write_steps dir path data a =
     (let tmp = rs_tmp dir a; now = ra_now a in
      case ra_create a of
        Some e \<Rightarrow> (Some e, [])
      | None \<Rightarrow>
          (case ra_write a of
             Some (e, part) \<Rightarrow> (Some e, [Put tmp ([], now), Put tmp (part, now), Remove tmp])
           | None \<Rightarrow>
               (case ra_close a of
                  Some e \<Rightarrow> (Some e, [Put tmp ([], now), Put tmp (data, now), Remove tmp])
                | None \<Rightarrow>
                    (let staged = [Put tmp ([], now), Put tmp (data, now)] @ (if ra_remove a then [Remove path] else []) in
                     case ra_rename a of
                       Some e \<Rightarrow> (Some e, staged @ [Remove tmp])
                     | None \<Rightarrow> (None, staged @ [Rename tmp path, Remove tmp])))))"

definition rs_writeFileAtomic ::
  "(string \<Rightarrow> rs_answers) \<Rightarrow> string \<Rightarrow> string \<Rightarrow> string \<Rightarrow> rule_files \<Rightarrow> go_error option \<times> rule_files" where
  "rs_writeFileAtomic io dir path data fs =
     (case rs_write_steps dir path data (io path) of (e, steps) \<Rightarrow> (e, fold fs_apply steps fs))"

text \<open>
  The loop of \<open>ensureLocalRuleSetFiles\<close>; \<open>mk\<close> is the answer of \<open>os.MkdirAll\<close>,
  \<open>embedded\<close> the compiled-in bytes per tag.
\<close>

fun ensure_loop ::
  "(string \<Rightarrow> string result) \<Rightarrow> go_error option \<Rightarrow> (string \<Rightarrow> rs_answers) \<Rightarrow> string \<Rightarrow> bool \<Rightarrow> string list \<Rightarrow>
   rule_files \<Rightarrow> (string \<times> string) list result \<times> rule_files" where
  "ensure_loop embedded mk io dir created [] fs = (Inr [], fs)"
| "ensure_loop embedded mk io dir created (tag # tags) fs =
     (case map_of embeddedRuleSetFiles tag of
        None \<Rightarrow> ensure_loop embedded mk io dir created tags fs
      | Some filename \<Rightarrow>
          (case embedded tag of
             Inl e \<Rightarrow> (Inl (Wrap ''read embedded rule set %s: %w'' [tag] e), fs)
           | Inr bytes \<Rightarrow>
               (let path = path_join dir filename;
                    cont = (\<lambda>created fs. case ensure_loop embedded mk io dir created tags fs of
                              (Inl e, fs') \<Rightarrow> (Inl e, fs')
                            | (Inr paths, fs') \<Rightarrow> (Inr ((tag, path) # paths), fs'))
                in if (case fs path of None \<Rightarrow> False | Some (c, t) \<Rightarrow> length c = length bytes)
                   then cont created fs
                   else if \<not> created \<and> mk \<noteq> None
                   then (Inl (Wrap ''create rule set dir: %w'' [] (the mk)), fs)
                   else (case rs_writeFileAtomic io dir path bytes fs of
                           (Some e, fs') \<Rightarrow> (Inl (Wrap ''write rule set %s: %w'' [tag] e), fs')
                         | (None, fs') \<Rightarrow> cont True fs'))))"

text \<open>The surroundings of one call that builds a configuration.\<close>

record core_env =
  ce_platform :: platform
  ce_embedded :: "string \<Rightarrow> string result"
  ce_mkdir :: "go_error option"
  ce_io :: "string \<Rightarrow> rs_answers"

definition ensureLocalRuleSetFiles ::
  "core_env \<Rightarrow> string \<Rightarrow> string list \<Rightarrow> rule_files \<Rightarrow> (string \<times> string) list result \<times> rule_files" where
  "ensureLocalRuleSetFiles env dir tags fs =
     (if tags = [] then (Inr [], fs)
      else ensure_loop (ce_embedded env) (ce_mkdir env) (ce_io env) dir False tags fs)"

text \<open>\<open>get\<close> answers a request with an error or a status and the body as far as it could be read.\<close>

type_synonym web_get = "string \<Rightarrow> (int \<times> string result) result"

definition downloadRuleSet :: "web_get \<Rightarrow> string \<Rightarrow> string result" where
  "downloadRuleSet get url =
     (case get url of
        Inl e \<Rightarrow> Inl e
      | Inr (st, body) \<Rightarrow>
          if st \<noteq> 200 then Inl (Errf ''unexpected status %d'' [itoa st])
          else (case body of
                  Inl e \<Rightarrow> Inl e
                | Inr b \<Rightarrow>
                    (let data = take (8 * 1024 * 1024) b in
                     if length data < minRuleSetBytes
                     then Inl (Errf ''rule set too small: %d bytes'' [nat_str (length data)])
                     else if hd data = CHR ''<'' then Inl (Err ''response is not a binary rule set'')
                     else Inr data)))"

text \<open>
  One entry of \<open>refreshLocalRuleSets\<close>, at the time \<open>now\<close>, and the loop over the map of
  files, whose order is an argument; \<open>alive\<close> says whether the context still runs.
\<close>

definition refresh_one ::
  "(string \<Rightarrow> rs_answers) \<Rightarrow> web_get \<Rightarrow> int \<Rightarrow> string \<Rightarrow> string \<times> string \<Rightarrow> rule_files \<Rightarrow> rule_files" where
  "refresh_one io get now dir entry fs =
     (case entry of (tag, filename) \<Rightarrow>
        (case map_of remoteProxyRuleSetURLs tag of
           None \<Rightarrow> fs
         | Some url \<Rightarrow>
             (let path = path_join dir filename in
              if (case fs path of None \<Rightarrow> False | Some (c, t) \<Rightarrow> now - t < ruleSetRefreshInterval) then fs
              else (case downloadRuleSet get url of
                      Inl _ \<Rightarrow> fs
                    | Inr data \<Rightarrow> snd (rs_writeFileAtomic io dir path data fs)))))"

fun refreshLocalRuleSets ::
  "(string \<Rightarrow> rs_answers) \<Rightarrow> web_get \<Rightarrow> int \<Rightarrow> string \<Rightarrow> (string \<Rightarrow> bool) \<Rightarrow> (string \<times> string) list \<Rightarrow> rule_files \<Rightarrow>
   rule_files" where
  "refreshLocalRuleSets io get now dir alive [] fs = fs"
| "refreshLocalRuleSets io get now dir alive (entry # rest) fs =
     (if \<not> alive (fst entry) then fs
      else refreshLocalRuleSets io get now dir alive rest (refresh_one io get now dir entry fs))"

section \<open>Routes\<close>

definition proxyRuleRouteKey :: "string \<Rightarrow> string" where
  "proxyRuleRouteKey ruleType =
     (let ty = NormalizeProxyRuleType ruleType in
      if ty = ProxyRuleTypeDomain then ''domain''
      else if ty = ProxyRuleTypeDomainKeyword then ''domain_keyword''
      else if ty = ProxyRuleTypeIPCIDR then ''ip_cidr''
      else if ty = ProxyRuleTypeRuleSet then ''rule_set''
      else ''domain_suffix'')"

fun rule_set_tags :: "string list \<Rightarrow> string list \<Rightarrow> string list" where
  "rule_set_tags seen [] = []"
| "rule_set_tags seen (r # rs) =
     (let tag = lower_trim r in
      if tag \<in> set seen \<or> map_of embeddedRuleSetFiles tag = None then rule_set_tags seen rs
      else tag # rule_set_tags (tag # seen) rs)"

definition rule_set_definition :: "string \<times> string \<Rightarrow> json" where
  "rule_set_definition tp =
     (case tp of (tag, path) \<Rightarrow>
        JObject [(''type'', JString ''local''), (''tag'', JString tag), (''format'', JString ''binary''),
                 (''path'', JString path)])"

definition buildLocalRuleSetDefinitions ::
  "core_env \<Rightarrow> string list \<Rightarrow> string \<Rightarrow> rule_files \<Rightarrow> json list result \<times> rule_files" where
  "buildLocalRuleSetDefinitions env ruleSets dir fs =
     (let tags = rule_set_tags [] ruleSets in
      case ensureLocalRuleSetFiles env dir tags fs of
        (Inl e, fs') \<Rightarrow> (Inl e, fs')
      | (Inr paths, fs') \<Rightarrow>
          (Inr (concat (map (\<lambda>t. case map_of paths t of None \<Rightarrow> [] | Some p \<Rightarrow> [rule_set_definition (t, p)]) tags)), fs'))"

text \<open>The loop over the rules: the entries of the route and the rule sets they name.\<close>

definition is_rule_set :: "ProxyRule \<Rightarrow> bool" where
  "is_rule_set r \<longleftrightarrow> NormalizeProxyRuleType (rule_Type r) = ProxyRuleTypeRuleSet"

definition routed :: "bool \<Rightarrow> ProxyRule \<Rightarrow> bool" where
  "routed useRuleSets r \<longleftrightarrow>
     \<not> (\<not> rule_Enabled r \<or> trim_space (rule_Value r) = []) \<and> \<not> (is_rule_set r \<and> \<not> useRuleSets)"

definition route_rule :: "ProxyRule \<Rightarrow> json" where
  "route_rule r =
     JObject [(proxyRuleRouteKey (rule_Type r), JArray [JString (rule_Value r)]), (''outbound'', JString (rule_Outbound r))]"

definition buildRoute ::
  "core_env \<Rightarrow> string \<Rightarrow> ProxyRule list option \<Rightarrow> string \<Rightarrow> bool \<Rightarrow> rule_files \<Rightarrow> fields result \<times> rule_files" where
  "buildRoute env mode rules ruleSetDir useRuleSets fs =
     (let m = NormalizeMode mode in
      if m = ProxyModeDirect then (Inr [(''final'', JString ''direct'')], fs)
      else if m = ProxyModeGlobal then (Inr [(''final'', JString ''selected'')], fs)
      else (let rs = normalizeRuleModeRules rules in
            case ValidateProxyRules (Some rs) of
              Some e \<Rightarrow> (Inl e, fs)
            | None \<Rightarrow>
                (let kept = filter (routed useRuleSets) rs;
                     route = [(''rules'', JArray (map route_rule kept)), (''final'', JString ''selected'')]
                 in case buildLocalRuleSetDefinitions env (map rule_Value (filter is_rule_set kept)) ruleSetDir fs of
                      (Inl e, fs') \<Rightarrow> (Inl e, fs')
                    | (Inr defs, fs') \<Rightarrow>
                        (Inr (if defs \<noteq> [] then put_field ''rule_set'' (JArray defs) route else route), fs'))))"

section \<open>The document\<close>

text \<open>\<open>applyDNSConfig\<close>: the fields added to the document, and the route.\<close>

definition applyDNSConfig :: "core_options \<Rightarrow> fields \<Rightarrow> fields \<Rightarrow> fields \<times> fields" where
  "applyDNSConfig opts cfg route =
     (let server = firstDNSServer (co_DNSServers opts) in
      if server = [] then (cfg, route)
      else (put_field ''dns''
              (JObject [(''servers'', JArray [JObject [(''type'', JString ''udp''), (''tag'', JString dnsDirectTag),
                                                      (''server'', JString server)]]),
                        (''final'', JString dnsDirectTag), (''strategy'', JString ''prefer_ipv4'')]) cfg,
            put_field ''default_domain_resolver'' (JObject [(''server'', JString dnsDirectTag)]) route))"

definition plain_outbounds :: "json list" where
  "plain_outbounds =
     [JObject [(''type'', JString ''direct''), (''tag'', JString ''direct'')],
      JObject [(''type'', JString ''block''), (''tag'', JString ''block'')]]"

definition clash_api :: "string \<Rightarrow> string \<times> json" where
  "clash_api addr =
     (''clash_api'', JObject [(''external_controller'', JString addr), (''secret'', JString [])])"

definition the_inbounds :: "core_options \<Rightarrow> json" where
  "the_inbounds opts =
     JArray [buildInbound ''socks-in'' ''socks'' (co_SOCKSAddr opts), buildInbound ''http-in'' ''http'' (co_HTTPAddr opts)]"

definition BuildConfig :: "core_env \<Rightarrow> ProxyNode \<Rightarrow> core_options \<Rightarrow> rule_files \<Rightarrow> fields result \<times> rule_files" where
  "BuildConfig env node opts0 fs =
     (let opts = normalizeOptions (ce_platform env) opts0 in
      case buildOutbound node of
        Inl e \<Rightarrow> (Inl e, fs)
      | Inr outbound \<Rightarrow>
          (case buildRoute env (co_Mode opts) (co_RuleModeRules opts) (co_RuleSetDir opts)
                  (\<not> co_withoutRuleSets opts) fs of
             (Inl e, fs') \<Rightarrow> (Inl e, fs')
           | (Inr route, fs') \<Rightarrow>
               (let cfg = [(''log'', JObject [(''level'', JString ''info'')]), (''inbounds'', the_inbounds opts),
                           (''outbounds'', JArray (JObject outbound # plain_outbounds))];
                    (cfg1, route1) = applyDNSConfig opts cfg route;
                    cache = (''cache_file'', JObject [(''enabled'', JBool True),
                              (''path'', JString (path_join (co_WorkDir opts) ''cache.db''))]);
                    experimental = (if co_ClashAPIAddr opts \<noteq> [] then [cache, clash_api (co_ClashAPIAddr opts)] else [cache])
                in (Inr (put_field ''experimental'' (JObject experimental)
                           (put_field ''route'' (JObject route1) cfg1)), fs'))))"

record batchTestOutbound =
  bt_index :: nat
  bt_tag :: string
  bt_node :: ProxyNode
  bt_outbound :: fields

definition buildBatchTestConfig :: "platform \<Rightarrow> batchTestOutbound list \<Rightarrow> core_options \<Rightarrow> fields result" where
  "buildBatchTestConfig pf nodes opts0 =
     (let opts = normalizeOptions pf opts0 in
      if nodes = [] then Inl (Err ''no proxy nodes to test'')
      else (let cfg = [(''log'', JObject [(''level'', JString ''warn'')]), (''inbounds'', the_inbounds opts),
                       (''outbounds'', JArray (map (\<lambda>b. JObject (bt_outbound b)) nodes @ plain_outbounds)),
                       (''experimental'', JObject [clash_api (co_ClashAPIAddr opts)])];
                (cfg1, route1) = applyDNSConfig opts cfg [(''final'', JString (bt_tag (hd nodes)))]
            in Inr (put_field ''route'' (JObject route1) cfg1)))"

section \<open>Rule-set files\<close>

definition rule_file :: "string \<Rightarrow> string \<Rightarrow> string option" where
  "rule_file dir tag = map_option (path_join dir) (map_of embeddedRuleSetFiles tag)"

text \<open>The file of a tag is there, with as many bytes as the embedded copy.\<close>

definition fits :: "(string \<Rightarrow> string result) \<Rightarrow> string \<Rightarrow> rule_files \<Rightarrow> string \<Rightarrow> bool" where
  "fits embedded dir fs tag =
     (case rule_file dir tag of
        None \<Rightarrow> False
      | Some path \<Rightarrow>
          (case (embedded tag, fs path) of
             (Inr bytes, Some (c, t)) \<Rightarrow> length c = length bytes
           | _ \<Rightarrow> False))"

lemma embedded_entries:
  "map_of embeddedRuleSetFiles tag = Some filename \<longleftrightarrow>
     tag = ''geoip-cn'' \<and> filename = ''geoip-cn.srs'' \<or>
     tag = ''geosite-geolocation-cn'' \<and> filename = ''geosite-geolocation-cn.srs'' \<or>
     tag = ''geosite-geolocation-!cn'' \<and> filename = ''geosite-geolocation-not-cn.srs''"
  by (auto simp: embeddedRuleSetFiles_def rule_consts)

lemma embedded_known: "map_of embeddedRuleSetFiles (lower_trim s) \<noteq> None \<longleftrightarrow> IsKnownProxyRuleSet s"
  by (simp add: embeddedRuleSetFiles_def IsKnownProxyRuleSet_def)

lemma rule_file_inj: "rule_file dir a = Some p \<Longrightarrow> rule_file dir b = Some p \<Longrightarrow> a = b"
  by (auto simp: rule_file_def embedded_entries)

lemma rule_file_not_tmp: "rule_file dir t = Some p \<Longrightarrow> p \<noteq> rs_tmp dir a"
  by (auto simp: rule_file_def embedded_entries rs_tmp_def)

lemma rs_write_ok:
  assumes "rs_writeFileAtomic io dir path data fs = (None, fs')" "rule_file dir tag = Some path"
  shows "fs' path = Some (data, ra_now (io path))"
    "q \<noteq> path \<Longrightarrow> q \<noteq> rs_tmp dir (io path) \<Longrightarrow> fs' q = fs q"
  using assms(1) rule_file_not_tmp [OF assms(2)] not_sym [OF rule_file_not_tmp [OF assms(2)]]
  by (auto simp: rs_writeFileAtomic_def rs_write_steps_def Let_def split: option.splits prod.splits if_splits)

lemma write_fits:
  assumes "rs_writeFileAtomic io dir path bytes fs = (None, fs')" "rule_file dir tag = Some path"
    "embedded tag = Inr bytes" "fits embedded dir fs t \<or> t = tag"
  shows "fits embedded dir fs' t"
proof (cases "t = tag")
  case True
  then show ?thesis using assms(2,3) rs_write_ok(1) [OF assms(1,2)] by (simp add: fits_def)
next
  case False
  then have f: "fits embedded dir fs t" using assms(4) by blast
  then obtain p where p: "rule_file dir t = Some p" by (auto simp: fits_def split: option.splits)
  have "p \<noteq> path" using False p assms(2) rule_file_inj by blast
  then have "fs' p = fs p" using rs_write_ok(2) [OF assms(1,2)] rule_file_not_tmp [OF p] by blast
  then show ?thesis using f p by (simp add: fits_def)
qed

text \<open>One turn of the loop that does not fail: the file of the tag fits afterwards.\<close>

lemma ensure_loop_Cons:
  assumes "ensure_loop embedded mk io dir created (tag # tags) fs = (Inr paths, fs')"
  obtains (skip) "rule_file dir tag = None" "ensure_loop embedded mk io dir created tags fs = (Inr paths, fs')"
    | (present) path paths' created' fs1 where "rule_file dir tag = Some path" "paths = (tag, path) # paths'"
      "fits embedded dir fs1 tag" "\<And>t. fits embedded dir fs t \<Longrightarrow> fits embedded dir fs1 t"
      "\<And>t p b. rule_file dir t = Some p \<Longrightarrow> embedded t = Inr b \<Longrightarrow> fs1 p = fs p \<or> (\<exists>n. fs1 p = Some (b, n))"
      "ensure_loop embedded mk io dir created' tags fs1 = (Inr paths', fs')"
proof (cases "map_of embeddedRuleSetFiles tag")
  case None
  then show thesis using assms by (intro skip) (simp_all add: rule_file_def)
next
  case (Some filename)
  let ?path = "path_join dir filename"
  have rf: "rule_file dir tag = Some ?path" using Some by (simp add: rule_file_def)
  obtain bytes where b: "embedded tag = Inr bytes" using assms Some by (cases "embedded tag") auto
  show thesis
  proof (cases "case fs ?path of None \<Rightarrow> False | Some (c, t) \<Rightarrow> length c = length bytes")
    case True
    then have "fits embedded dir fs tag" using b rf by (auto simp: fits_def split: option.splits)
    moreover obtain paths' where "ensure_loop embedded mk io dir created tags fs = (Inr paths', fs')"
        "paths = (tag, ?path) # paths'"
      using assms Some b True by (auto simp: Let_def split: prod.splits sum.splits)
    ultimately show thesis using present [OF rf, of paths' fs created] by blast
  next
    case False
    then obtain fs1 where w: "rs_writeFileAtomic io dir ?path bytes fs = (None, fs1)"
      using assms Some b by (auto simp: Let_def split: prod.splits sum.splits if_splits option.splits)
    obtain paths' where "ensure_loop embedded mk io dir True tags fs1 = (Inr paths', fs')"
        "paths = (tag, ?path) # paths'"
      using assms Some b False w by (auto simp: Let_def split: prod.splits sum.splits if_splits)
    moreover have "fits embedded dir fs1 tag" using write_fits [where embedded = embedded and t = tag, OF w rf b] by blast
    moreover have "fits embedded dir fs1 t" if "fits embedded dir fs t" for t
      using write_fits [where embedded = embedded and t = t, OF w rf b] that by blast
    moreover have "fs1 p = fs p \<or> (\<exists>n. fs1 p = Some (b, n))" if "rule_file dir t = Some p" "embedded t = Inr b" for t p b
      using rs_write_ok [OF w rf] rule_file_not_tmp [OF that(1)] rule_file_inj [OF that(1), of tag] rf that(2) \<open>embedded tag = Inr bytes\<close>
      by (metis sum.inject(2))
    ultimately show thesis using present [OF rf, of paths' fs1 True] by blast
  qed
qed

lemma ensure_loop_ok:
  "ensure_loop embedded mk io dir created tags fs = (Inr paths, fs') \<Longrightarrow>
   (\<forall>t. fits embedded dir fs t \<longrightarrow> fits embedded dir fs' t) \<and>
   (\<forall>t\<in>set tags. rule_file dir t \<noteq> None \<longrightarrow> fits embedded dir fs' t \<and> map_of paths t = rule_file dir t)"
proof (induction tags arbitrary: created fs paths)
  case (Cons tag tags)
  from Cons.prems show ?case
  proof (cases rule: ensure_loop_Cons)
    case skip
    then show ?thesis using Cons.IH [OF skip(2)] by auto
  next
    case (present path paths' created' fs1)
    then show ?thesis using Cons.IH [OF present(6)] by auto
  qed
qed simp

lemma ensure_loop_content:
  "ensure_loop embedded mk io dir created tags fs = (Inr paths, fs') \<Longrightarrow> rule_file dir t = Some p \<Longrightarrow>
   embedded t = Inr b \<Longrightarrow> fs' p = fs p \<or> (\<exists>n. fs' p = Some (b, n))"
proof (induction tags arbitrary: created fs paths)
  case (Cons tag tags)
  from Cons.prems(1) show ?case
  proof (cases rule: ensure_loop_Cons)
    case skip
    then show ?thesis using Cons.IH [OF skip(2)] Cons.prems by auto
  next
    case (present path paths' created' fs1)
    then show ?thesis using Cons.IH [OF present(6)] present(5) [OF Cons.prems(2,3)] Cons.prems by metis
  qed
qed simp

section \<open>References of a document\<close>

text \<open>
  The core refuses a document whose routes name an outbound, a rule set or a DNS server that it
  does not define.
\<close>

definition strings_in :: "string \<Rightarrow> json \<Rightarrow> string list" where
  "strings_in k x = concat (map (\<lambda>y. case str_of y of None \<Rightarrow> [] | Some s \<Rightarrow> [s]) (items (field k x)))"

definition route_of :: "fields \<Rightarrow> json" where
  "route_of cfg = (case get_field cfg ''route'' of None \<Rightarrow> JObject [] | Some r \<Rightarrow> r)"

definition outbound_tags :: "fields \<Rightarrow> string list" where
  "outbound_tags cfg = column ''tag'' (items (get_field cfg ''outbounds''))"

definition outbound_refs :: "fields \<Rightarrow> string list" where
  "outbound_refs cfg =
     column ''final'' [route_of cfg] @ column ''outbound'' (items (field ''rules'' (route_of cfg)))"

definition rule_set_refs :: "fields \<Rightarrow> string list" where
  "rule_set_refs cfg = concat (map (strings_in ''rule_set'') (items (field ''rules'' (route_of cfg))))"

definition rule_set_defs :: "fields \<Rightarrow> json list" where
  "rule_set_defs cfg = items (field ''rule_set'' (route_of cfg))"

definition dns_tags :: "fields \<Rightarrow> string list" where
  "dns_tags cfg = (case get_field cfg ''dns'' of None \<Rightarrow> [] | Some d \<Rightarrow> column ''tag'' (items (field ''servers'' d)))"

definition dns_refs :: "fields \<Rightarrow> string list" where
  "dns_refs cfg =
     (case get_field cfg ''dns'' of None \<Rightarrow> [] | Some d \<Rightarrow> column ''final'' [d]) @
     (case field ''default_domain_resolver'' (route_of cfg) of None \<Rightarrow> [] | Some r \<Rightarrow> column ''server'' [r])"

definition resolved :: "fields \<Rightarrow> bool" where
  "resolved cfg \<longleftrightarrow>
     distinct (outbound_tags cfg) \<and> set (outbound_refs cfg) \<subseteq> set (outbound_tags cfg) \<and>
     distinct (column ''tag'' (rule_set_defs cfg)) \<and>
     set (rule_set_refs cfg) \<subseteq> set (column ''tag'' (rule_set_defs cfg)) \<and>
     set (dns_refs cfg) \<subseteq> set (dns_tags cfg)"

lemma rule_set_tags_set:
  "set (rule_set_tags seen rs) = lower_trim ` {r \<in> set rs. IsKnownProxyRuleSet r} - set seen"
  by (induction seen rs rule: rule_set_tags.induct) (auto simp: Let_def embedded_known [symmetric])

lemma rule_set_tags_distinct: "distinct (rule_set_tags seen rs)"
  by (induction seen rs rule: rule_set_tags.induct) (auto simp: Let_def rule_set_tags_set)

lemma rule_set_tags_file: "t \<in> set (rule_set_tags seen rs) \<Longrightarrow> rule_file dir t \<noteq> None"
  by (auto simp: rule_set_tags_set rule_file_def embedded_known [symmetric])

lemma column_definitions:
  "column ''tag'' (map (\<lambda>t. rule_set_definition (t, f t)) tags) = tags"
  "column ''path'' (map (\<lambda>t. rule_set_definition (t, f t)) tags) = map f tags"
  by (induction tags) (simp_all add: rule_set_definition_def)

lemma buildLocalRuleSetDefinitions_ok:
  assumes "buildLocalRuleSetDefinitions env ruleSets dir fs = (Inr defs, fs')"
  shows "defs = map (\<lambda>t. rule_set_definition (t, the (rule_file dir t))) (rule_set_tags [] ruleSets) \<and>
    (\<forall>t\<in>set (rule_set_tags [] ruleSets). fits (ce_embedded env) dir fs' t)"
proof -
  let ?tags = "rule_set_tags [] ruleSets"
  obtain paths where e: "ensureLocalRuleSetFiles env dir ?tags fs = (Inr paths, fs')"
    and d: "defs = concat (map (\<lambda>t. case map_of paths t of None \<Rightarrow> [] | Some p \<Rightarrow> [rule_set_definition (t, p)]) ?tags)"
    using assms by (auto simp: buildLocalRuleSetDefinitions_def Let_def split: prod.splits sum.splits)
  have f: "fits (ce_embedded env) dir fs' t \<and> map_of paths t = rule_file dir t" if "t \<in> set ?tags" for t
    using e that rule_set_tags_file [of t "[]" ruleSets dir] ensure_loop_ok
    by (fastforce simp: ensureLocalRuleSetFiles_def split: if_splits)
  have "defs = concat (map (\<lambda>t. [rule_set_definition (t, the (rule_file dir t))]) ?tags)"
    unfolding d using f rule_set_tags_file [of _ "[]" ruleSets dir]
    by (intro arg_cong [where f = concat] map_cong) (auto split: option.split)
  then show ?thesis using f by simp
qed

lemma route_rule_columns:
  "column ''outbound'' (map route_rule rs) = map rule_Outbound rs"
  "strings_in ''rule_set'' (route_rule r) = (if is_rule_set r then [rule_Value r] else [])"
  by (induction rs)
    (auto simp: route_rule_def proxyRuleRouteKey_def strings_in_def is_rule_set_def Let_def rule_consts)

lemma normalized_value:
  assumes "rule_Type (normalize_rule r) = ProxyRuleTypeRuleSet"
  shows "lower_trim (rule_Value (normalize_rule r)) = rule_Value (normalize_rule r)"
  using assms by (simp add: normalize_rule_def Let_def lower_trim_def trim_to_lower)

text \<open>The route of rule mode, once its rules are valid.\<close>

lemma rule_route_ok:
  assumes "rs = normalizeRuleModeRules rules" "ValidateProxyRules (Some rs) = None"
    "kept = filter (routed use) rs"
  shows "set (map rule_Outbound kept) \<subseteq> {''direct'', ''block'', ''selected''}"
    "r \<in> set kept \<Longrightarrow> is_rule_set r \<Longrightarrow> IsKnownProxyRuleSet (rule_Value r) \<and> lower_trim (rule_Value r) = rule_Value r"
proof -
  obtain rs0 where rs0: "rs = map normalize_rule rs0" using assms(1) by (simp add: normalizeRuleModeRules_def)
  show "set (map rule_Outbound kept) \<subseteq> {''direct'', ''block'', ''selected''}"
    using NormalizeProxyRuleOutbound_range
    by (force simp: assms(3) rs0 normalize_rule_def Let_def rule_consts)
  assume r: "r \<in> set kept" "is_rule_set r"
  then obtain r0 where r0: "r = normalize_rule r0" "r \<in> set rs" using assms(3) rs0 by auto
  have n: "normalize_rule r = r" using r0 normalize_rule_idem by simp
  have "rule_Type (normalize_rule r) = NormalizeProxyRuleType (rule_Type r)" by (simp add: normalize_rule_def Let_def)
  then have ty: "rule_Type r = ProxyRuleTypeRuleSet" using r(2) by (simp add: n is_rule_set_def)
  have "rule_usable (normalize_rule r)"
    using assms(2) r r0 by (auto simp: ValidateProxyRules_None assms(3) routed_def)
  then have "IsKnownProxyRuleSet (rule_Value r)" using ty by (simp add: n rule_usable_def)
  moreover have "lower_trim (rule_Value r) = rule_Value r" using normalized_value [of r] ty by (simp add: n)
  ultimately show "IsKnownProxyRuleSet (rule_Value r) \<and> lower_trim (rule_Value r) = rule_Value r" ..
qed

definition json_resolved :: "string list \<Rightarrow> fields \<Rightarrow> bool" where
  "json_resolved tags route \<longleftrightarrow>
     set (column ''final'' [JObject route] @ column ''outbound'' (items (get_field route ''rules''))) \<subseteq> set tags \<and>
     distinct (column ''tag'' (items (get_field route ''rule_set''))) \<and>
     set (concat (map (strings_in ''rule_set'') (items (get_field route ''rules''))))
       \<subseteq> set (column ''tag'' (items (get_field route ''rule_set'')))"

lemma rule_mode_route:
  assumes "rs = normalizeRuleModeRules rules" "ValidateProxyRules (Some rs) = None"
    "kept = filter (routed use) rs"
    and defs: "buildLocalRuleSetDefinitions env (map rule_Value (filter is_rule_set kept)) dir fs = (Inr defs, fs')"
    and route: "route = [(''rules'', JArray (map route_rule kept)), (''final'', JString ''selected'')]"
  shows "json_resolved [''selected'', ''direct'', ''block''] (if defs \<noteq> [] then put_field ''rule_set'' (JArray defs) route else route)"
proof -
  let ?tags = "rule_set_tags [] (map rule_Value (filter is_rule_set kept))"
  have d: "defs = map (\<lambda>t. rule_set_definition (t, the (rule_file dir t))) ?tags"
    using buildLocalRuleSetDefinitions_ok [OF defs] by blast
  have cols: "column ''tag'' defs = ?tags" unfolding d by (rule column_definitions)
  have refs: "concat (map (strings_in ''rule_set'') (map route_rule kept)) = map rule_Value (filter is_rule_set kept)"
    by (induction kept) (simp_all add: route_rule_columns)
  have known: "rule_Value r \<in> set ?tags" if "r \<in> set kept" "is_rule_set r" for r
    using rule_route_ok(2) [OF assms(1-3) that] that by (force simp: rule_set_tags_set)
  then have "defs = [] \<Longrightarrow> filter is_rule_set kept = []"
    using cols by (auto simp: filter_empty_conv)
  then show ?thesis
    using known rule_route_ok(1) [OF assms(1-3)] rule_set_tags_distinct
    by (auto simp: json_resolved_def route refs route_rule_columns cols simp del: map_map)
qed

lemma buildRoute_ok:
  assumes "buildRoute env mode rules dir use fs = (Inr route, fs')"
    and "rs = normalizeRuleModeRules rules" "kept = filter (routed use) rs"
  obtains (plain) s where "route = [(''final'', JString s)]" "s = ''direct'' \<or> s = ''selected''"
    | (rules) defs where "ValidateProxyRules (Some rs) = None"
      "buildLocalRuleSetDefinitions env (map rule_Value (filter is_rule_set kept)) dir fs = (Inr defs, fs')"
      "route = (if defs \<noteq> [] then put_field ''rule_set'' (JArray defs) else id)
         [(''rules'', JArray (map route_rule kept)), (''final'', JString ''selected'')]"
proof (cases "NormalizeMode mode = ProxyModeDirect \<or> NormalizeMode mode = ProxyModeGlobal")
  case True
  then show thesis using assms(1) plain by (auto simp: buildRoute_def Let_def split: if_splits)
next
  case False
  then have v: "ValidateProxyRules (Some rs) = None"
    using assms by (cases "ValidateProxyRules (Some rs)") (simp_all add: buildRoute_def Let_def)
  with False show thesis
    using assms(1) rules [OF v]
    by (cases "buildLocalRuleSetDefinitions env (map rule_Value (filter is_rule_set kept)) dir fs")
      (auto simp: assms(2,3) buildRoute_def Let_def split: sum.splits)
qed

lemma buildRoute_resolved:
  assumes "buildRoute env mode rules dir use fs = (Inr route, fs')"
  shows "json_resolved [''selected'', ''direct'', ''block''] route \<and> get_field route ''default_domain_resolver'' = None"
  using assms refl refl
proof (cases rule: buildRoute_ok)
  case (rules defs)
  then show ?thesis using rule_mode_route [OF refl rules(1) refl rules(2) refl] by (auto split: if_splits)
qed (auto simp: json_resolved_def)

text \<open>The tag of an outbound is set once and never touched by the other fields.\<close>

lemma get_put_other: "k \<noteq> j \<Longrightarrow> get_field (put_field j v out) k = get_field out k"
  by simp

lemma protocol_other_fields:
  assumes "k \<noteq> ''method''" "k \<noteq> ''password''" "k \<noteq> ''uuid''" "k \<noteq> ''security''" "k \<noteq> ''alter_id''"
    "k \<noteq> ''packet_encoding''" "k \<noteq> ''flow''" "k \<noteq> ''auth_str''" "k \<noteq> ''up_mbps''" "k \<noteq> ''down_mbps''"
  shows "get_field (protocol_fields node out) k = get_field out k"
  by (simp add: protocol_fields_def Let_def assms get_put_other del: get_put)

lemma tls_other_fields: "k \<noteq> ''tls'' \<Longrightarrow> get_field (tls_field node out) k = get_field out k"
  by (simp add: tls_field_def split: option.split)

lemma transport_other_fields: "k \<noteq> ''transport'' \<Longrightarrow> get_field (transport_field node out) k = get_field out k"
  by (simp add: transport_field_def)

lemma buildOutbound_tag: "buildOutbound node = Inr out \<Longrightarrow> get_field out ''tag'' = Some (JString ''selected'')"
  by (auto simp: buildOutbound_def protocol_other_fields tls_other_fields transport_other_fields split: if_splits)

lemma document_parts:
  assumes "BuildConfig env node opts fs = (Inr cfg, fs')"
  obtains outbound route where "buildOutbound node = Inr outbound"
    "buildRoute env (co_Mode (normalizeOptions (ce_platform env) opts))
       (co_RuleModeRules (normalizeOptions (ce_platform env) opts))
       (co_RuleSetDir (normalizeOptions (ce_platform env) opts)) (\<not> co_withoutRuleSets opts) fs = (Inr route, fs')"
    "items (get_field cfg ''outbounds'') = JObject outbound # plain_outbounds"
    "\<And>k. k \<noteq> ''default_domain_resolver'' \<Longrightarrow> field k (route_of cfg) = get_field route k"
    "get_field route ''default_domain_resolver'' = None \<Longrightarrow> set (dns_refs cfg) \<subseteq> set (dns_tags cfg)"
proof -
  let ?o = "normalizeOptions (ce_platform env) opts"
  obtain outbound where ob: "buildOutbound node = Inr outbound"
    using assms by (cases "buildOutbound node") (auto simp: BuildConfig_def Let_def)
  obtain route where rt: "buildRoute env (co_Mode ?o) (co_RuleModeRules ?o) (co_RuleSetDir ?o) (\<not> co_withoutRuleSets ?o) fs
      = (Inr route, fs')"
    using assms ob by (auto simp: BuildConfig_def Let_def split: prod.splits sum.splits)
  have wo: "co_withoutRuleSets ?o = co_withoutRuleSets opts" by (simp add: normalizeOptions_def Let_def)
  have cfg: "\<exists>ex c. cfg = put_field ''experimental'' (JObject ex) (put_field ''route'' (JObject (snd (applyDNSConfig ?o c route)))
      (fst (applyDNSConfig ?o c route))) \<and>
      c = [(''log'', JObject [(''level'', JString ''info'')]), (''inbounds'', the_inbounds ?o),
           (''outbounds'', JArray (JObject outbound # plain_outbounds))]"
    using assms ob rt by (auto simp: BuildConfig_def Let_def split: prod.splits if_splits)
  then obtain ex c where c: "cfg = put_field ''experimental'' (JObject ex) (put_field ''route'' (JObject (snd (applyDNSConfig ?o c route)))
      (fst (applyDNSConfig ?o c route)))"
    "c = [(''log'', JObject [(''level'', JString ''info'')]), (''inbounds'', the_inbounds ?o),
           (''outbounds'', JArray (JObject outbound # plain_outbounds))]" by blast
  have "items (get_field cfg ''outbounds'') = JObject outbound # plain_outbounds"
    by (simp add: c applyDNSConfig_def Let_def)
  moreover have "field k (route_of cfg) = get_field route k" if "k \<noteq> ''default_domain_resolver''" for k
    using that by (simp add: c(1) route_of_def applyDNSConfig_def Let_def)
  moreover have "set (dns_refs cfg) \<subseteq> set (dns_tags cfg)" if "get_field route ''default_domain_resolver'' = None"
    using that by (simp add: c dns_refs_def dns_tags_def route_of_def applyDNSConfig_def Let_def)
  ultimately show thesis using that ob rt wo by simp
qed

lemma fits_file: "fits embedded dir fs t \<Longrightarrow> fs (the (rule_file dir t)) \<noteq> None"
  by (auto simp: fits_def split: option.splits sum.splits)

lemma rule_set_paths:
  assumes "buildRoute env mode rules dir use fs = (Inr route, fs')"
  shows "list_all (\<lambda>p. fs' p \<noteq> None) (column ''path'' (items (get_field route ''rule_set'')))"
  using assms refl refl
proof (cases rule: buildRoute_ok)
  case (rules defs)
  have "list_all (\<lambda>p. fs' p \<noteq> None) (column ''path'' defs)"
    using buildLocalRuleSetDefinitions_ok [OF rules(2)] fits_file
    by (simp only: column_definitions list_all_iff set_map) blast
  then show ?thesis using rules(3) by auto
qed auto

section \<open>What the core demands of an outbound\<close>

definition sub_string :: "string \<Rightarrow> string \<Rightarrow> fields \<Rightarrow> string option" where
  "sub_string a b out = Option.bind (get_field out a) (\<lambda>x. Option.bind (field b x) str_of)"

definition tls_acceptable :: "json \<Rightarrow> bool" where
  "tls_acceptable tls \<longleftrightarrow>
     field ''enabled'' tls = Some (JBool True) \<and>
     (field ''reality'' tls = None \<or>
      (case field ''utls'' tls of
         None \<Rightarrow> False
       | Some u \<Rightarrow> field ''enabled'' u = Some (JBool True) \<and> field ''fingerprint'' u \<notin> {None, Some (JString [])}))"

definition transport_acceptable :: "json \<Rightarrow> bool" where
  "transport_acceptable tr \<longleftrightarrow>
     (case field ''type'' tr of
        Some (JString ty) \<Rightarrow>
          ty \<noteq> [] \<and> ty \<noteq> ''tcp'' \<and> ty \<noteq> ''websocket'' \<and>
          (if ty = ''grpc'' \<or> ty = ''quic''
           then field ''path'' tr = None \<and> field ''headers'' tr = None \<and> field ''host'' tr = None
           else field ''service_name'' tr = None)
      | _ \<Rightarrow> False)"

text \<open>
  The rules the comments of \<open>core.go\<close> name: TLS on the protocols over QUIC, uTLS under
  REALITY, bandwidth hints for hysteria, transports and packet encodings only where known.
\<close>

definition acceptable :: "fields \<Rightarrow> bool" where
  "acceptable out \<longleftrightarrow>
     (case (get_field out ''type'', get_field out ''server'', get_field out ''server_port'') of
        (Some (JString ty), Some (JString server), Some (JNumber port)) \<Rightarrow>
          ty \<in> {''shadowsocks'', ''vmess'', ''vless'', ''trojan'', ''hysteria'', ''hysteria2'', ''tuic'', ''anytls''} \<and>
          server \<noteq> [] \<and> 0 < port \<and> port < 65536 \<and>
          (case get_field out ''tls'' of
             None \<Rightarrow> ty \<notin> {''hysteria'', ''hysteria2'', ''tuic'', ''anytls''}
           | Some tls \<Rightarrow> tls_acceptable tls) \<and>
          (case get_field out ''transport'' of
             None \<Rightarrow> True
           | Some tr \<Rightarrow> ty \<in> {''vmess'', ''vless'', ''trojan''} \<and> transport_acceptable tr) \<and>
          (case get_field out ''packet_encoding'' of
             None \<Rightarrow> True
           | Some e \<Rightarrow> ty \<in> {''vmess'', ''vless''} \<and> e \<in> {JString ''xudp'', JString ''packetaddr''}) \<and>
          (if ty = ''hysteria''
           then get_field out ''up_mbps'' \<noteq> None \<and> get_field out ''down_mbps'' \<noteq> None else True)
      | _ \<Rightarrow> False)"

lemma acceptableI:
  assumes "get_field out ''type'' = Some (JString ty)" "get_field out ''server'' = Some (JString server)"
    "get_field out ''server_port'' = Some (JNumber port)"
    and "ty \<in> {''shadowsocks'', ''vmess'', ''vless'', ''trojan'', ''hysteria'', ''hysteria2'', ''tuic'', ''anytls''}"
    and "server \<noteq> []" "0 < port" "port < 65536"
    and "case get_field out ''tls'' of None \<Rightarrow> ty \<notin> {''hysteria'', ''hysteria2'', ''tuic'', ''anytls''}
      | Some tls \<Rightarrow> tls_acceptable tls"
    and "case get_field out ''transport'' of None \<Rightarrow> True
      | Some tr \<Rightarrow> ty \<in> {''vmess'', ''vless'', ''trojan''} \<and> transport_acceptable tr"
    and "case get_field out ''packet_encoding'' of None \<Rightarrow> True
      | Some e \<Rightarrow> ty \<in> {''vmess'', ''vless''} \<and> e \<in> {JString ''xudp'', JString ''packetaddr''}"
    and "ty = ''hysteria'' \<Longrightarrow> get_field out ''up_mbps'' \<noteq> None \<and> get_field out ''down_mbps'' \<noteq> None"
  shows "acceptable out"
  unfolding acceptable_def using assms by (simp only: option.case json.case prod.case) simp

lemmas protocol_names = ProtocolShadowsocks_def ProtocolVMess_def ProtocolVLESS_def ProtocolTrojan_def
  ProtocolHysteria_def ProtocolHysteria2_def ProtocolTUIC_def ProtocolAnyTLS_def

lemma buildTLS_acceptable: "tls_Enabled tls \<Longrightarrow> tls_acceptable (buildTLS tls)"
proof -
  assume on: "tls_Enabled tls"
  have "trim_space ''chrome'' = ''chrome''" by code_simp
  then have fp: "firstNonEmpty [f, ''chrome''] \<noteq> []" for f by simp
  show ?thesis using on fp [of "tls_Fingerprint tls"]
    by (simp add: buildTLS_def tls_acceptable_def Let_def defaultUTLSFingerprint_def del: firstNonEmpty.simps)
qed

lemma buildTransport_acceptable:
  assumes "normalizedTransportType (tr_Type tr) \<noteq> []"
  shows "transport_acceptable (buildTransport tr)"
proof -
  let ?ty = "normalizedTransportType (tr_Type tr)"
  have "?ty \<noteq> ''tcp''" "?ty \<noteq> ''websocket''" by (simp_all add: normalizedTransportType_def Let_def)
  then show ?thesis using assms
    by (simp add: buildTransport_def transport_acceptable_def Let_def)
qed

lemma validateNode_ok:
  assumes "validateNode n = None"
  shows "pn_Server n \<noteq> []" "0 < pn_Port n" "pn_Port n < 65536" "isSupportedProtocol (pn_Protocol n)"
  using assms by (auto simp: validateNode_def isSupportedProtocol_def split: if_splits)

abbreviation base_fields :: "ProxyNode \<Rightarrow> fields" where
  "base_fields node \<equiv>
     [(''type'', JString (singBoxProtocol (pn_Protocol node))), (''tag'', JString ''selected''),
      (''server'', JString (pn_Server node)), (''server_port'', JNumber (pn_Port node))]"

lemma protocol_packet_encoding:
  "get_field (protocol_fields node (base_fields node)) ''packet_encoding'' =
     (if (pn_Protocol node = ProtocolVMess \<or> pn_Protocol node = ProtocolVLESS) \<and>
         packetEncodingFor (pn_PacketEncoding node) \<noteq> []
      then Some (JString (packetEncodingFor (pn_PacketEncoding node))) else None)"
  by (simp add: protocol_fields_def Let_def protocol_names)

lemma packetEncodingFor_range: "packetEncodingFor e \<in> {[], ''xudp'', ''packetaddr''}"
  by (auto simp: packetEncodingFor_def NormalizePacketEncoding_def PacketEncodingXUDP_def
      PacketEncodingPacketAddr_def PacketEncodingDisabled_def Let_def)

lemma protocol_hysteria:
  "pn_Protocol node = ProtocolHysteria \<Longrightarrow>
   get_field (protocol_fields node out) ''up_mbps'' \<noteq> None \<and> get_field (protocol_fields node out) ''down_mbps'' \<noteq> None"
  by (simp add: protocol_fields_def Let_def protocol_names)

lemma singBoxProtocol_supported:
  assumes "isSupportedProtocol p"
  shows "singBoxProtocol p \<in> {''shadowsocks'', ''vmess'', ''vless'', ''trojan'', ''hysteria'', ''hysteria2'', ''tuic'', ''anytls''}"
    "singBoxProtocol p \<noteq> []"
    "singBoxProtocol p \<in> {''hysteria'', ''hysteria2'', ''tuic'', ''anytls''} \<longleftrightarrow> core_alwaysTLS p"
    "singBoxProtocol p \<in> {''vmess'', ''vless'', ''trojan''} \<longleftrightarrow> supportsOutboundTransport p"
    "singBoxProtocol p \<in> {''vmess'', ''vless''} \<longleftrightarrow> p = ProtocolVMess \<or> p = ProtocolVLESS"
    "singBoxProtocol p = ''hysteria'' \<longleftrightarrow> p = ProtocolHysteria"
  using assms
  by (auto simp: isSupportedProtocol_def singBoxProtocol_def core_alwaysTLS_def supportsOutboundTransport_def protocol_names)

lemma tls_field_acceptable:
  "get_field out ''tls'' = None \<Longrightarrow>
   (case get_field (tls_field node out) ''tls'' of
      None \<Rightarrow> \<not> core_alwaysTLS (pn_Protocol node) | Some tls \<Rightarrow> tls_acceptable tls)"
  using buildTLS_acceptable
  by (auto simp: tls_field_def default_tls_def split: option.split)

lemma transport_field_acceptable:
  "get_field out ''transport'' = None \<Longrightarrow>
   (case get_field (transport_field node out) ''transport'' of
      None \<Rightarrow> True | Some tr \<Rightarrow> supportsOutboundTransport (pn_Protocol node) \<and> transport_acceptable tr)"
  by (simp add: transport_field_def buildTransport_acceptable)

lemma valid_node_acceptable:
  assumes "validateNode n = None"
  shows "\<exists>out. buildOutbound n = Inr out \<and> acceptable out"
proof -
  let ?p = "protocol_fields n (base_fields n)"
  let ?out = "transport_field n (tls_field n ?p)"
  note s = singBoxProtocol_supported [OF validateNode_ok(4) [OF assms]]
  have k: "get_field ?out ''type'' = Some (JString (singBoxProtocol (pn_Protocol n)))"
    "get_field ?out ''server'' = Some (JString (pn_Server n))"
    "get_field ?out ''server_port'' = Some (JNumber (pn_Port n))"
    by (simp_all add: protocol_other_fields tls_other_fields transport_other_fields)
  have "get_field ?p ''tls'' = None" "get_field (tls_field n ?p) ''transport'' = None"
    by (simp_all add: protocol_other_fields tls_other_fields)
  then have f: "case get_field ?out ''tls'' of None \<Rightarrow> \<not> core_alwaysTLS (pn_Protocol n) | Some tls \<Rightarrow> tls_acceptable tls"
    "case get_field ?out ''transport'' of None \<Rightarrow> True
     | Some tr \<Rightarrow> supportsOutboundTransport (pn_Protocol n) \<and> transport_acceptable tr"
    using tls_field_acceptable [of ?p n] transport_field_acceptable [of "tls_field n ?p" n]
    by (simp_all add: transport_other_fields)
  have pe: "get_field ?out ''packet_encoding'' = get_field ?p ''packet_encoding''"
    "get_field ?out ''up_mbps'' = get_field ?p ''up_mbps''" "get_field ?out ''down_mbps'' = get_field ?p ''down_mbps''"
    by (simp_all add: tls_other_fields transport_other_fields)
  have "acceptable ?out"
  proof (rule acceptableI [OF k s(1) validateNode_ok(1-3) [OF assms]])
    show "case get_field ?out ''tls'' of
        None \<Rightarrow> singBoxProtocol (pn_Protocol n) \<notin> {''hysteria'', ''hysteria2'', ''tuic'', ''anytls''}
      | Some tls \<Rightarrow> tls_acceptable tls" unfolding s(3) by (rule f(1))
    show "case get_field ?out ''transport'' of None \<Rightarrow> True
      | Some tr \<Rightarrow> singBoxProtocol (pn_Protocol n) \<in> {''vmess'', ''vless'', ''trojan''} \<and> transport_acceptable tr"
      unfolding s(4) by (rule f(2))
    show "case get_field ?out ''packet_encoding'' of None \<Rightarrow> True
      | Some e \<Rightarrow> singBoxProtocol (pn_Protocol n) \<in> {''vmess'', ''vless''} \<and> e \<in> {JString ''xudp'', JString ''packetaddr''}"
      unfolding s(5) pe protocol_packet_encoding using packetEncodingFor_range [of "pn_PacketEncoding n"]
      by (cases "packetEncodingFor (pn_PacketEncoding n) = []") auto
    show "get_field ?out ''up_mbps'' \<noteq> None \<and> get_field ?out ''down_mbps'' \<noteq> None"
      if "singBoxProtocol (pn_Protocol n) = ''hysteria''"
      using that protocol_hysteria [of n "base_fields n"] unfolding s(6) pe by simp
  qed
  then show ?thesis using s(2) by (simp add: buildOutbound_def)
qed

section \<open>Properties\<close>

text \<open>C3: The core can always resolve what the client writes: in every configuration that is built,
  whatever the node, mode and rules, outbound tags and rule-set tags are unique, every outbound,
  rule set and DNS server that the routes name is defined, and every rule-set file is on disk.\<close>

theorem config_references_resolve:
  assumes "BuildConfig env node opts fs = (Inr cfg, fs')"
  shows "resolved cfg \<and> list_all (\<lambda>p. fs' p \<noteq> None) (column ''path'' (rule_set_defs cfg))"
  using assms
proof (rule document_parts)
  fix outbound route
  assume ob: "buildOutbound node = Inr outbound"
    and rt: "buildRoute env (co_Mode (normalizeOptions (ce_platform env) opts))
       (co_RuleModeRules (normalizeOptions (ce_platform env) opts))
       (co_RuleSetDir (normalizeOptions (ce_platform env) opts)) (\<not> co_withoutRuleSets opts) fs = (Inr route, fs')"
    and outs: "items (get_field cfg ''outbounds'') = JObject outbound # plain_outbounds"
    and fields: "\<And>k. k \<noteq> ''default_domain_resolver'' \<Longrightarrow> field k (route_of cfg) = get_field route k"
    and dns: "get_field route ''default_domain_resolver'' = None \<Longrightarrow> set (dns_refs cfg) \<subseteq> set (dns_tags cfg)"
  have "outbound_tags cfg = [''selected'', ''direct'', ''block'']"
    by (simp add: outbound_tags_def outs plain_outbounds_def buildOutbound_tag [OF ob])
  then show ?thesis
    using buildRoute_resolved [OF rt] rule_set_paths [OF rt] dns
    by (simp add: resolved_def json_resolved_def outbound_refs_def rule_set_refs_def rule_set_defs_def fields)
qed

definition sample_core_env :: core_env where
  "sample_core_env =
     \<lparr>ce_platform = \<lparr>pf_GOOS = ''android'', pf_TempDir = ''/tmp''\<rparr>, ce_embedded = (\<lambda>tag. Inr tag), ce_mkdir = None,
      ce_io = (\<lambda>_. \<lparr>ra_tmp = ''1'', ra_create = None, ra_write = None, ra_close = None, ra_remove = True,
                    ra_rename = None, ra_now = 7\<rparr>)\<rparr>"

definition sample_core_options :: core_options where
  "sample_core_options =
     \<lparr>co_CorePath = [], co_WorkDir = ''/w'', co_SOCKSAddr = ''h:1'', co_HTTPAddr = ''h:2'', co_ClashAPIAddr = [],
      co_Mode = [],
      co_RuleModeRules = Some [defaultRuleSetRule ''cn'' ''cn'' ''geoip-cn'' ''direct''],
      co_DNSServers = [], co_RuleSetDir = [], co_withoutRuleSets = False\<rparr>"

definition sample_core_node :: ProxyNode where
  "sample_core_node = empty_node\<lparr>pn_Name := ''n'', pn_Protocol := ProtocolTrojan, pn_Server := ''h'', pn_Port := 443,
     pn_Password := ''pw''\<rparr>"

theorem config_references_resolve_witness:
  "\<exists>cfg. fst (BuildConfig sample_core_env sample_core_node sample_core_options Map.empty) = Inr cfg \<and>
     resolved cfg \<and> rule_set_refs cfg = [''geoip-cn'']"
proof -
  let ?b = "BuildConfig sample_core_env sample_core_node sample_core_options Map.empty"
  have "case fst ?b of Inl _ \<Rightarrow> False | Inr cfg \<Rightarrow> rule_set_refs cfg = [''geoip-cn'']" by code_simp
  then obtain cfg where c: "fst ?b = Inr cfg" "rule_set_refs cfg = [''geoip-cn'']" by (auto split: sum.splits)
  then have "?b = (Inr cfg, snd ?b)" by (metis prod.collapse)
  from config_references_resolve [OF this] c show ?thesis by blast
qed



text \<open>A rule-set file is not replaced atomically: at any moment of the write it holds its old
  content, the whole new one, or is missing; when the final rename fails after the old file could
  be removed, it is gone, and any other failure leaves it unchanged.\<close>

lemma rule_file_write_moments:
  assumes "rule_file dir tag = Some path" "rs_write_steps dir path data a = (e, steps)"
  shows "fold fs_apply (take n steps) fs path \<in> {fs path, None, Some (data, ra_now a)} \<and>
    fold fs_apply steps fs path =
      (if e = None then Some (data, ra_now a)
       else if ra_create a = None \<and> ra_write a = None \<and> ra_close a = None \<and> ra_remove a then None
       else fs path)"
proof -
  let ?tmp = "rs_tmp dir a"
  have ne: "?tmp \<noteq> path" "path \<noteq> ?tmp" using rule_file_not_tmp [OF assms(1)] by blast+
  have "fold fs_apply steps fs path =
      (if e = None then Some (data, ra_now a)
       else if ra_create a = None \<and> ra_write a = None \<and> ra_close a = None \<and> ra_remove a then None
       else fs path)"
    using assms(2) ne
    by (auto simp: rs_write_steps_def Let_def split: option.splits prod.splits if_splits)
  moreover have "\<exists>d tl. (steps = [] \<or> steps = [Put ?tmp ([], ra_now a), Put ?tmp d] @ tl) \<and>
      (tl \<in> {[Remove ?tmp], [Remove path, Remove ?tmp]} \<or>
       d = (data, ra_now a) \<and> tl \<in> {[Rename ?tmp path, Remove ?tmp], [Remove path, Rename ?tmp path, Remove ?tmp]})"
    using assms(2)
    by (auto simp: rs_write_steps_def Let_def split: option.splits prod.splits if_splits)
  then have "fold fs_apply (take n steps) fs path \<in> {fs path, None, Some (data, ra_now a)}"
    using ne by (elim exE conjE disjE) (auto simp: take_Cons' split: if_splits)
  ultimately show ?thesis by blast
qed

definition failing_rename :: rs_answers where
  "failing_rename = \<lparr>ra_tmp = ''1'', ra_create = None, ra_write = None, ra_close = None, ra_remove = True,
     ra_rename = Some (External ''busy''), ra_now = 7\<rparr>"

text \<open>The background update of the rule sets is lost at the next start: when the downloaded file
  differs in size from the embedded one, the next configuration writes the embedded bytes back.\<close>

lemma refresh_is_undone:
  assumes "map_of embeddedRuleSetFiles tag = Some filename" "path = path_join dir filename"
    and "rs_writeFileAtomic io dir path data fs = (None, fs1)"
    and "ce_embedded env tag = Inr bytes" "length data \<noteq> length bytes"
    and "tag \<in> set tags" "ensureLocalRuleSetFiles env dir tags fs1 = (Inr paths, fs2)"
  shows "fs1 path = Some (data, ra_now (io path)) \<and> (\<exists>t. fs2 path = Some (bytes, t))"
proof -
  have rf: "rule_file dir tag = Some path" using assms(1,2) by (simp add: rule_file_def)
  have fs1: "fs1 path = Some (data, ra_now (io path))" using rs_write_ok(1) [OF assms(3) rf] .
  have e: "ensure_loop (ce_embedded env) (ce_mkdir env) (ce_io env) dir False tags fs1 = (Inr paths, fs2)"
    using assms(6,7) by (auto simp: ensureLocalRuleSetFiles_def split: if_splits)
  have "fits (ce_embedded env) dir fs2 tag" using ensure_loop_ok [OF e] assms(6) rf by auto
  then have "fs2 path \<noteq> fs1 path" using fs1 assms(4,5) rf by (auto simp: fits_def)
  then show ?thesis using ensure_loop_content [OF e rf assms(4)] fs1 by blast
qed

end
