(* ===== verification/CoreRunner.thy ===== *)
theory CoreRunner
  imports CoreConfig Interfaces
begin

text \<open>
  The runner of the proxy core (\<open>client/internal/proxycore/core.go\<close>): finding, checking and
  starting the core process, waiting for it, stopping it, its status and log.  The runner's lock
  makes each critical section one step; a run of the program is a list of events, in whatever
  order the goroutines and callers bring them.  Processes are numbered in the order they start.
\<close>

definition StateStopped :: string where "StateStopped = ''stopped''"
definition StateRunning :: string where "StateRunning = ''running''"
definition StateError :: string where "StateError = ''error''"
definition maxCoreLogTailBytes :: nat where "maxCoreLogTailBytes = 8 * 1024"

lemmas state_names = StateStopped_def StateRunning_def StateError_def

section \<open>Logs and messages\<close>

text \<open>\<open>coreLogTail.Write\<close>: the number of bytes reported, and the buffer.\<close>

definition log_Write :: "string \<Rightarrow> string \<Rightarrow> nat \<times> string" where
  "log_Write p buf =
     (let n = length p in
      if length buf < maxCoreLogTailBytes
      then (n, buf @ (if maxCoreLogTailBytes - length buf < length p
                      then take (maxCoreLogTailBytes - length buf) p else p))
      else (n, buf))"

definition log_String :: "string \<Rightarrow> string" where "log_String buf = trim_space buf"

definition withCoreLogs :: "go_error \<Rightarrow> string option \<Rightarrow> go_error" where
  "withCoreLogs err logs =
     (case logs of
        None \<Rightarrow> err
      | Some buf \<Rightarrow>
          (let output = log_String buf in
           if output = [] then err else Err (err_text err @ '': '' @ output)))"

definition isRuleSetInitFailure :: "string \<Rightarrow> bool" where
  "isRuleSetInitFailure message =
     (let lower = to_lower message in
      if \<not> contains lower ''rule-set'' \<and> \<not> contains lower ''rule_set'' then False
      else contains lower ''initial'' \<or> contains lower ''download'')"

text \<open>\<open>check\<close> is what the run of the check command returned: output and error.\<close>

definition checkCoreConfig :: "(string \<times> go_error) option \<Rightarrow> go_error option" where
  "checkCoreConfig check =
     (case check of
        None \<Rightarrow> None
      | Some (output, err) \<Rightarrow>
          (let message = trim_space output in
           if message \<noteq> [] then Some (Errf ''check sing-box config: %s'' [message])
           else Some (Wrap ''check sing-box config: %w'' [] err)))"

text \<open>\<open>look\<close> is \<open>exec.LookPath\<close>, \<open>stat\<close> whether the file exists, \<open>absolute\<close> is
  \<open>filepath.Abs\<close>.\<close>

definition absPath :: "(string \<Rightarrow> string result) \<Rightarrow> string \<Rightarrow> string" where
  "absPath absolute path = (case absolute path of Inl _ \<Rightarrow> path | Inr a \<Rightarrow> a)"

fun first_core :: "(string \<Rightarrow> string option) \<Rightarrow> (string \<Rightarrow> bool) \<Rightarrow> (string \<Rightarrow> string result) \<Rightarrow> string list \<Rightarrow> string" where
  "first_core look stat absolute [] = []"
| "first_core look stat absolute (c # cs) =
     (case look c of
        Some path \<Rightarrow> absPath absolute path
      | None \<Rightarrow> if stat c then absPath absolute c else first_core look stat absolute cs)"

definition rel_join :: "string \<Rightarrow> string \<Rightarrow> string" where
  "rel_join dir name = (if dir = [] then name else path_join dir name)"

definition FindCorePath ::
  "(string \<Rightarrow> string option) \<Rightarrow> (string \<Rightarrow> bool) \<Rightarrow> (string \<Rightarrow> string result) \<Rightarrow> string \<Rightarrow> string" where
  "FindCorePath look stat absolute baseDir =
     first_core look stat absolute
       [rel_join baseDir (path_join ''bin'' ''sing-box.exe''), rel_join baseDir ''sing-box.exe'', ''sing-box.exe'',
        ''sing-box'']"

definition proxyReadyAddrs :: "core_options \<Rightarrow> string list" where
  "proxyReadyAddrs opts =
     (if co_ClashAPIAddr opts \<noteq> [] then [co_ClashAPIAddr opts] else []) @
     (if co_HTTPAddr opts \<noteq> [] then [co_HTTPAddr opts]
      else if co_SOCKSAddr opts \<noteq> [] then [co_SOCKSAddr opts] else [])"

section \<open>The runner\<close>

record connectionTraffic =
  ct_UploadTotal :: "64 word"
  ct_DownloadTotal :: "64 word"

definition no_traffic :: connectionTraffic where
  "no_traffic = \<lparr>ct_UploadTotal = 0, ct_DownloadTotal = 0\<rparr>"

text \<open>
  The command, its cancel function and its channel \<open>done\<close> belong to one process, whose number
  stands for them.  A zero time is \<open>None\<close>.
\<close>

record Runner =
  rn_opts :: core_options
  rn_cmd :: "nat option"
  rn_cancel :: "nat option"
  rn_done :: "nat option"
  rn_state :: string
  rn_nodeName :: string
  rn_lastError :: string
  rn_startedAt :: "int option"
  rn_lastTraffic :: connectionTraffic
  rn_lastTrafficAt :: "int option"
  rn_lastTrafficNode :: string

definition runner_New :: "platform \<Rightarrow> core_options \<Rightarrow> Runner" where
  "runner_New pf opts =
     \<lparr>rn_opts = normalizeOptions pf opts, rn_cmd = None, rn_cancel = None, rn_done = None, rn_state = StateStopped,
      rn_nodeName = [], rn_lastError = [], rn_startedAt = None, rn_lastTraffic = no_traffic,
      rn_lastTrafficAt = None, rn_lastTrafficNode = []\<rparr>"

definition SetMode :: "string \<Rightarrow> Runner \<Rightarrow> Runner" where
  "SetMode mode r = r\<lparr>rn_opts := (rn_opts r)\<lparr>co_Mode := NormalizeMode mode\<rparr>\<rparr>"

definition SetRuleModeRules :: "ProxyRule list option \<Rightarrow> Runner \<Rightarrow> Runner" where
  "SetRuleModeRules rules r =
     r\<lparr>rn_opts := (rn_opts r)\<lparr>co_RuleModeRules := Some (normalizeRuleModeRules rules)\<rparr>\<rparr>"

text \<open>What the surroundings answer while \<open>start\<close> holds the lock.\<close>

record start_env =
  se_core :: core_env
  se_find :: string
  se_mkdir :: "go_error option"
  se_free :: "string result"
  se_write :: "go_error option"
  se_check :: "(string \<times> go_error) option"
  se_spawn :: "go_error option"
  se_now :: int

definition started :: "start_env \<Rightarrow> core_options \<Rightarrow> ProxyNode \<Rightarrow> nat \<Rightarrow> Runner \<Rightarrow> Runner" where
  "started e opts node p r =
     r\<lparr>rn_opts := opts, rn_cmd := Some p, rn_cancel := Some p, rn_done := Some p, rn_state := StateRunning,
       rn_nodeName := pn_Name node, rn_lastError := [], rn_startedAt := Some (se_now e),
       rn_lastTraffic := no_traffic, rn_lastTrafficAt := None, rn_lastTrafficNode := pn_Name node\<rparr>"

text \<open>The first critical section of \<open>start\<close>: an error, or the process \<open>p\<close> runs.\<close>

definition start_options :: "start_env \<Rightarrow> bool \<Rightarrow> core_options \<Rightarrow> core_options" where
  "start_options e useRuleSets opts =
     (let o1 = (normalizeOptions (ce_platform (se_core e)) opts)\<lparr>co_withoutRuleSets := \<not> useRuleSets\<rparr>
      in if co_CorePath o1 = [] then o1\<lparr>co_CorePath := se_find e\<rparr> else o1)"

definition with_api :: "start_env \<Rightarrow> core_options \<Rightarrow> core_options" where
  "with_api e opts =
     (if co_ClashAPIAddr opts \<noteq> [] then opts
      else (case se_free e of Inl _ \<Rightarrow> opts | Inr a \<Rightarrow> opts\<lparr>co_ClashAPIAddr := a\<rparr>))"

definition begin_start ::
  "start_env \<Rightarrow> ProxyNode \<Rightarrow> bool \<Rightarrow> nat \<Rightarrow> Runner \<Rightarrow> rule_files \<Rightarrow> go_error option \<times> Runner \<times> rule_files" where
  "begin_start e node useRuleSets p r fs =
     (if rn_cmd r \<noteq> None then (Some (Err ''proxy core is already running''), r, fs)
      else (let opts = start_options e useRuleSets (rn_opts r) in
        if co_CorePath opts = [] then (Some (Err ''sing-box executable not found''), r, fs)
        else (case se_mkdir e of
          Some er \<Rightarrow> (Some (Wrap ''create proxy work dir: %w'' [] er), r, fs)
        | None \<Rightarrow>
            (let opts' = with_api e opts in
             case BuildConfig (se_core e) node opts' fs of
               (Inl er, fs') \<Rightarrow> (Some er, r, fs')
             | (Inr cfg, fs') \<Rightarrow>
                 (case se_write e of
                    Some er \<Rightarrow> (Some (Wrap ''write sing-box config: %w'' [] er), r, fs')
                  | None \<Rightarrow>
                      (case checkCoreConfig (se_check e) of
                         Some er \<Rightarrow> (Some er, r, fs')
                       | None \<Rightarrow>
                           (case se_spawn e of
                              Some er \<Rightarrow> (Some (Wrap ''start sing-box: %w'' [] er), r, fs')
                            | None \<Rightarrow> (None, started e opts' node p r, fs'))))))))"

text \<open>The critical section of the goroutine that waits for process \<open>p\<close>.\<close>

definition idle :: "Runner \<Rightarrow> Runner" where
  "idle r = r\<lparr>rn_startedAt := None, rn_lastTraffic := no_traffic, rn_lastTrafficAt := None, rn_lastTrafficNode := []\<rparr>"

definition after_exit :: "nat \<Rightarrow> go_error option \<Rightarrow> bool \<Rightarrow> string \<Rightarrow> Runner \<Rightarrow> Runner" where
  "after_exit p err cancelled logs r =
     (if rn_cmd r = Some p then
        idle (case err of
          Some er \<Rightarrow>
            if \<not> cancelled
            then r\<lparr>rn_cmd := None, rn_cancel := None, rn_state := StateError,
                   rn_lastError := err_text (withCoreLogs er (Some logs))\<rparr>
            else r\<lparr>rn_cmd := None, rn_cancel := None, rn_state := StateStopped\<rparr>
        | None \<Rightarrow> r\<lparr>rn_cmd := None, rn_cancel := None, rn_state := StateStopped\<rparr>)
      else r)"

text \<open>The last critical section of a \<open>start\<close> whose process did not become ready.\<close>

definition not_ready :: "string \<Rightarrow> go_error \<Rightarrow> Runner \<Rightarrow> Runner" where
  "not_ready node err r =
     idle (r\<lparr>rn_state := StateError, rn_nodeName := node, rn_lastError := err_text err\<rparr>)"

text \<open>\<open>Start\<close> over the outcomes of its two calls of \<open>start\<close>; the retry runs on the second
  condition only.\<close>

definition retries :: "go_error option \<Rightarrow> bool" where
  "retries first = (case first of None \<Rightarrow> False | Some e \<Rightarrow> isRuleSetInitFailure (err_text e))"

definition Start_outcome :: "go_error option \<Rightarrow> go_error option \<Rightarrow> go_error option" where
  "Start_outcome first retry =
     (case first of
        None \<Rightarrow> None
      | Some e \<Rightarrow> if \<not> isRuleSetInitFailure (err_text e) then Some e
                  else (case retry of Some _ \<Rightarrow> Some e | None \<Rightarrow> None))"

section \<open>Status\<close>

record Status =
  ps_State :: string
  ps_NodeName :: string
  ps_SOCKSAddr :: string
  ps_HTTPAddr :: string
  ps_Mode :: string
  ps_CorePath :: string
  ps_CoreAvailable :: bool
  ps_LastError :: string
  ps_StartedAt :: "int option"
  ps_UploadSpeedBps :: "64 word"
  ps_DownloadSpeedBps :: "64 word"
  ps_UploadTotalBytes :: "64 word"
  ps_DownloadTotalBytes :: "64 word"

text \<open>\<open>per_second d t\<close> is the conversion of the quotient of \<open>d\<close> bytes and \<open>t\<close>
  nanoseconds in floating point.\<close>

definition speed :: "(64 word \<Rightarrow> int \<Rightarrow> 64 word) \<Rightarrow> 64 word \<Rightarrow> 64 word \<Rightarrow> int \<Rightarrow> 64 word \<Rightarrow> 64 word" where
  "speed per_second counter before elapsed current =
     (if 0 < elapsed \<and> before \<le> counter then per_second (counter - before) elapsed else current)"

definition applyTraffic ::
  "(64 word \<Rightarrow> int \<Rightarrow> 64 word) \<Rightarrow> connectionTraffic \<Rightarrow> int \<Rightarrow> Status \<Rightarrow> Runner \<Rightarrow> Status \<times> Runner" where
  "applyTraffic per_second traffic now st r =
     (let st1 = st\<lparr>ps_UploadTotalBytes := ct_UploadTotal traffic, ps_DownloadTotalBytes := ct_DownloadTotal traffic\<rparr> in
      if rn_state r \<noteq> StateRunning \<or> rn_nodeName r \<noteq> ps_NodeName st then (st1, r)
      else (let r1 = (if rn_lastTrafficNode r \<noteq> ps_NodeName st
                      then r\<lparr>rn_lastTraffic := no_traffic, rn_lastTrafficAt := None, rn_lastTrafficNode := ps_NodeName st\<rparr>
                      else r);
                st2 = (case rn_lastTrafficAt r1 of
                         None \<Rightarrow> st1
                       | Some t \<Rightarrow>
                           st1\<lparr>ps_UploadSpeedBps := speed per_second (ct_UploadTotal traffic)
                                 (ct_UploadTotal (rn_lastTraffic r1)) (now - t) (ps_UploadSpeedBps st1),
                               ps_DownloadSpeedBps := speed per_second (ct_DownloadTotal traffic)
                                 (ct_DownloadTotal (rn_lastTraffic r1)) (now - t) (ps_DownloadSpeedBps st1)\<rparr>)
            in (st2, r1\<lparr>rn_lastTraffic := traffic, rn_lastTrafficAt := Some now, rn_lastTrafficNode := ps_NodeName st\<rparr>)))"

definition status_of :: "platform \<Rightarrow> string \<Rightarrow> Runner \<Rightarrow> Status \<times> string" where
  "status_of pf found r =
     (let o1 = normalizeOptions pf (rn_opts r);
          opts = (if co_CorePath o1 = [] then o1\<lparr>co_CorePath := found\<rparr> else o1)
      in (\<lparr>ps_State = rn_state r, ps_NodeName = rn_nodeName r, ps_SOCKSAddr = co_SOCKSAddr opts,
           ps_HTTPAddr = co_HTTPAddr opts, ps_Mode = co_Mode opts, ps_CorePath = co_CorePath opts,
           ps_CoreAvailable = (co_CorePath opts \<noteq> []), ps_LastError = rn_lastError r,
           ps_StartedAt = rn_startedAt r, ps_UploadSpeedBps = 0, ps_DownloadSpeedBps = 0,
           ps_UploadTotalBytes = 0, ps_DownloadTotalBytes = 0\<rparr>, co_ClashAPIAddr opts))"

text \<open>
  The query of the core's counters: \<open>decode\<close> is the JSON decoder, which reads at most a
  mebibyte; \<open>Status\<close> puts the two critical sections together, the runner being \<open>r2\<close> by
  the time of the second.
\<close>

definition queryConnectionTraffic ::
  "(string \<Rightarrow> connectionTraffic result) \<Rightarrow> (int \<times> string) result \<Rightarrow> connectionTraffic result" where
  "queryConnectionTraffic decode resp =
     (case resp of
        Inl e \<Rightarrow> Inl e
      | Inr (st, body) \<Rightarrow>
          if 400 \<le> st
          then Inl (Errf ''query sing-box connections: HTTP %d %s'' [itoa st, trim_space (take 4096 body)])
          else (case decode (take (2 ^ 20) body) of
                  Inl e \<Rightarrow> Inl (Wrap ''parse sing-box connections: %w'' [] e)
                | Inr t \<Rightarrow> Inr t))"

definition runner_Status ::
  "(64 word \<Rightarrow> int \<Rightarrow> 64 word) \<Rightarrow> platform \<Rightarrow> string \<Rightarrow> connectionTraffic result \<Rightarrow> int \<Rightarrow> Runner \<Rightarrow> Runner \<Rightarrow>
   Status \<times> Runner" where
  "runner_Status per_second pf found answer now r r2 =
     (case status_of pf found r of (st, api) \<Rightarrow>
        if ps_State st \<noteq> StateRunning \<or> api = [] then (st, r2)
        else (case answer of Inl _ \<Rightarrow> (st, r2) | Inr traffic \<Rightarrow> applyTraffic per_second traffic now st r2))"

section \<open>Runs of the runner\<close>

text \<open>
  The world around a runner: processes that run, processes that ended and whose waiting goroutine
  is not in its critical section yet, contexts cancelled, calls of \<open>start\<close> that wait for the
  listeners, and those that gave up and wait for their process to be gone.
\<close>

record core_world =
  cw_runner :: Runner
  cw_files :: rule_files
  cw_next :: nat
  cw_alive :: "nat list"
  cw_exited :: "(nat \<times> go_error option \<times> string) list"
  cw_cancelled :: "nat list"
  cw_readying :: "(nat \<times> string) list"
  cw_failing :: "(nat \<times> string \<times> go_error) list"

datatype core_event =
    Begin start_env ProxyNode bool
  | Exits nat "go_error option" string
  | Waited nat
  | Ready nat
  | NotReady nat go_error
  | GaveUp nat
  | StopCall
  | ContextDone nat
  | SetModeCall string
  | SetRulesCall "ProxyRule list option"
  | TrafficSeen connectionTraffic int Status

definition core_init :: "platform \<Rightarrow> core_options \<Rightarrow> rule_files \<Rightarrow> core_world" where
  "core_init pf opts fs =
     \<lparr>cw_runner = runner_New pf opts, cw_files = fs, cw_next = 0, cw_alive = [], cw_exited = [], cw_cancelled = [],
      cw_readying = [], cw_failing = []\<rparr>"

text \<open>An event that cannot happen in a world leaves it unchanged.\<close>

fun core_apply :: "(64 word \<Rightarrow> int \<Rightarrow> 64 word) \<Rightarrow> core_event \<Rightarrow> core_world \<Rightarrow> core_world" where
  "core_apply ps (Begin e node use) w =
     (let p = cw_next w in
      case begin_start e node use p (cw_runner w) (cw_files w) of
        (Some _, r, fs) \<Rightarrow> w\<lparr>cw_runner := r, cw_files := fs\<rparr>
      | (None, r, fs) \<Rightarrow>
          w\<lparr>cw_runner := r, cw_files := fs, cw_next := Suc p, cw_alive := p # cw_alive w,
            cw_readying := (p, pn_Name node) # cw_readying w\<rparr>)"
| "core_apply ps (Exits p err logs) w =
     (if p \<in> set (cw_alive w)
      then w\<lparr>cw_alive := remove1 p (cw_alive w), cw_exited := (p, err, logs) # cw_exited w\<rparr> else w)"
| "core_apply ps (Waited p) w =
     (case map_of (cw_exited w) p of
        None \<Rightarrow> w
      | Some (err, logs) \<Rightarrow>
          w\<lparr>cw_exited := filter (\<lambda>x. fst x \<noteq> p) (cw_exited w),
            cw_runner := after_exit p err (p \<in> set (cw_cancelled w)) logs (cw_runner w)\<rparr>)"
| "core_apply ps (Ready p) w = w\<lparr>cw_readying := filter (\<lambda>x. fst x \<noteq> p) (cw_readying w)\<rparr>"
| "core_apply ps (NotReady p err) w =
     (case map_of (cw_readying w) p of
        None \<Rightarrow> w
      | Some node \<Rightarrow>
          w\<lparr>cw_readying := filter (\<lambda>x. fst x \<noteq> p) (cw_readying w), cw_cancelled := p # cw_cancelled w,
            cw_failing := (p, node, err) # cw_failing w\<rparr>)"
| "core_apply ps (GaveUp p) w =
     (case map_of (cw_failing w) p of
        None \<Rightarrow> w
      | Some (node, err) \<Rightarrow>
          if p \<in> set (cw_alive w) \<or> p \<in> fst ` set (cw_exited w) then w
          else w\<lparr>cw_failing := filter (\<lambda>x. fst x \<noteq> p) (cw_failing w), cw_runner := not_ready node err (cw_runner w)\<rparr>)"
| "core_apply ps StopCall w =
     (case rn_cancel (cw_runner w) of None \<Rightarrow> w | Some p \<Rightarrow> w\<lparr>cw_cancelled := p # cw_cancelled w\<rparr>)"
| "core_apply ps (ContextDone p) w = w\<lparr>cw_cancelled := p # cw_cancelled w\<rparr>"
| "core_apply ps (SetModeCall mode) w = w\<lparr>cw_runner := SetMode mode (cw_runner w)\<rparr>"
| "core_apply ps (SetRulesCall rules) w = w\<lparr>cw_runner := SetRuleModeRules rules (cw_runner w)\<rparr>"
| "core_apply ps (TrafficSeen t now st) w = w\<lparr>cw_runner := snd (applyTraffic ps t now st (cw_runner w))\<rparr>"

text \<open>At most one process, and the runner holds on to it until its end was seen.\<close>

definition core_inv :: "core_world \<Rightarrow> bool" where
  "core_inv w \<longleftrightarrow>
     cw_alive w @ map fst (cw_exited w) = (case rn_cmd (cw_runner w) of None \<Rightarrow> [] | Some p \<Rightarrow> [p]) \<and>
     rn_cancel (cw_runner w) = rn_cmd (cw_runner w) \<and>
     (rn_state (cw_runner w) = StateRunning \<longrightarrow> rn_cmd (cw_runner w) \<noteq> None)"

lemma begin_start_cases:
  assumes "begin_start e node use p r fs = (err, r', fs')"
  obtains (failed) er where "err = Some er" "r' = r"
    | (ok) opts where "err = None" "rn_cmd r = None" "r' = started e opts node p r"
proof -
  define c where "c = checkCoreConfig (se_check e)"
  show thesis
    using assms failed ok unfolding begin_start_def c_def [symmetric]
    by (cases c) (auto simp: Let_def split: if_splits option.splits prod.splits sum.splits)
qed

lemma applyTraffic_keeps:
  "rn_cmd (snd (applyTraffic ps t now st r)) = rn_cmd r" "rn_cancel (snd (applyTraffic ps t now st r)) = rn_cancel r"
  "rn_state (snd (applyTraffic ps t now st r)) = rn_state r"
  by (auto simp: applyTraffic_def Let_def split: option.split)

lemma core_apply_inv: "core_inv w \<Longrightarrow> core_inv (core_apply ps ev w)"
proof (cases ev)
  case (Begin e node use)
  assume inv: "core_inv w"
  obtain err r fs where b: "begin_start e node use (cw_next w) (cw_runner w) (cw_files w) = (err, r, fs)"
    by (metis prod.collapse)
  from b show ?thesis
    by (cases rule: begin_start_cases) (use inv b Begin in \<open>auto simp: core_inv_def started_def Let_def\<close>)
next
  case (Exits p err logs)
  assume "core_inv w"
  then show ?thesis using Exits
    by (cases "cw_alive w") (auto simp: core_inv_def split: option.splits)
next
  case (Waited p)
  assume inv: "core_inv w"
  show ?thesis
  proof (cases "map_of (cw_exited w) p")
    case (Some el)
    then have "p \<in> fst ` set (cw_exited w)" by (metis domI dom_map_of_conv_image_fst)
    then have "cw_alive w = []" "map fst (cw_exited w) = [p]" "rn_cmd (cw_runner w) = Some p"
      using inv by (auto simp: core_inv_def append_eq_Cons_conv split: option.splits)
    then show ?thesis using Some Waited inv
      by (cases el; cases "fst el") (auto simp: core_inv_def after_exit_def idle_def filter_empty_conv state_names)
  qed (use Waited inv in simp)
next
  case (GaveUp p)
  assume "core_inv w"
  then show ?thesis using GaveUp
    by (auto simp: core_inv_def not_ready_def idle_def state_names split: option.splits)
qed (auto simp: core_inv_def SetMode_def SetRuleModeRules_def applyTraffic_keeps split: option.splits)

interpretation core: operations "core_apply ps" core_inv for ps
  by unfold_locales (rule core_apply_inv)

lemma core_init_inv: "core_inv (core_init pf opts fs)"
  by (simp add: core_inv_def core_init_def runner_New_def state_names)

lemma log_Write_take:
  "snd (log_Write p (take maxCoreLogTailBytes s)) = take maxCoreLogTailBytes (s @ p)"
  by (auto simp: log_Write_def Let_def)

lemma log_writes: "fold (\<lambda>p buf. snd (log_Write p buf)) ps (take maxCoreLogTailBytes s) = take maxCoreLogTailBytes (s @ concat ps)"
  by (induction ps arbitrary: s) (simp_all add: log_Write_take del: take_append)

abbreviation core_run :: "(64 word \<Rightarrow> int \<Rightarrow> 64 word) \<Rightarrow> core_world \<Rightarrow> core_event list \<Rightarrow> core_world" where
  "core_run ps w es \<equiv> fold (core_apply ps) es w"

lemma world_inv: "core_inv (core_run ps (core_init pf opts fs) es)"
  by (rule core.run_inv) (rule core_init_inv)

lemma stopping:
  assumes "core_inv w" "rn_cmd (cw_runner w) = Some p"
  shows "cw_alive (core_run ps w [StopCall, Exits p err logs, Waited p]) = [] \<and>
    rn_cmd (cw_runner (core_run ps w [StopCall, Exits p err logs, Waited p])) = None \<and>
    rn_state (cw_runner (core_run ps w [StopCall, Exits p err logs, Waited p])) = StateStopped"
proof -
  have c: "rn_cancel (cw_runner w) = Some p" "cw_alive w @ map fst (cw_exited w) = [p]"
    using assms by (auto simp: core_inv_def)
  then consider "cw_alive w = [p]" "cw_exited w = []" | e l where "cw_alive w = []" "cw_exited w = [(p, e, l)]"
    by (cases "cw_alive w") auto
  then show ?thesis
    by cases (auto simp: c assms(2) after_exit_def idle_def split: option.split)
qed

text \<open>
  The retry without rule sets is meant for rule-set files that cannot be laid out, but the errors
  of that step are not recognised.
\<close>

lemma rule_set_failure_not_recognised:
  "\<not> retries (Some (Wrap ''write rule set %s: %w'' [''geoip-cn''] (External ''permission denied''))) \<and>
   \<not> retries (Some (Wrap ''create rule set dir: %w'' [] (External ''mkdir /w/rule-sets: permission denied'')))"
  by code_simp

section \<open>Properties\<close>

text \<open>C11: The runner never loses a core process: whatever callers, processes and time-outs do, and in
  whatever order, at most one process runs, its cancel function is the one \<open>Stop\<close> calls, and
  the state is "running" only while the runner holds a process.\<close>

theorem single_core_process:
  "length (cw_alive (core_run ps (core_init pf opts fs) es)) \<le> 1 \<and>
   set (cw_alive (core_run ps (core_init pf opts fs) es))
     \<subseteq> set_option (rn_cancel (cw_runner (core_run ps (core_init pf opts fs) es))) \<and>
   (rn_cmd (cw_runner (core_run ps (core_init pf opts fs) es)) = None \<longrightarrow>
    rn_state (cw_runner (core_run ps (core_init pf opts fs) es)) \<noteq> StateRunning)"
  using world_inv [of ps es pf opts fs]
  by (cases "cw_alive (core_run ps (core_init pf opts fs) es)")
    (auto simp: core_inv_def Cons_eq_append_conv split: option.splits)

definition sample_start_env :: start_env where
  "sample_start_env =
     \<lparr>se_core = sample_core_env\<lparr>ce_platform := \<lparr>pf_GOOS = ''linux'', pf_TempDir = ''/t''\<rparr>\<rparr>, se_find = ''sb'', se_mkdir = None, se_free = Inr ''a:1'', se_write = None,
      se_check = None, se_spawn = None, se_now = 0\<rparr>"

definition global_options :: core_options where
  "global_options = sample_core_options\<lparr>co_Mode := ''global'', co_RuleModeRules := Some [], co_SOCKSAddr := ''s'', co_HTTPAddr := ''h''\<rparr>"

definition no_speed :: "64 word \<Rightarrow> int \<Rightarrow> 64 word" where "no_speed d t = 0"

definition sample_core_world :: "core_event list \<Rightarrow> core_world" where
  "sample_core_world es = core_run no_speed (core_init (ce_platform sample_core_env) global_options Map.empty) es"

theorem single_core_process_witness:
  "set (cw_alive (sample_core_world [Begin sample_start_env sample_core_node True, Begin sample_start_env sample_core_node True]))
     \<subseteq> set_option (rn_cancel (cw_runner (sample_core_world
        [Begin sample_start_env sample_core_node True, Begin sample_start_env sample_core_node True])))"
  unfolding sample_core_world_def using single_core_process by blast

text \<open>Stopping works at every moment: after \<open>Stop\<close>, once the process ends and its end was
  seen, no process is left and the state is "stopped", whatever the process returned.\<close>

lemma core_stop_stops:
  assumes "rn_cmd (cw_runner (core_run ps (core_init pf opts fs) es)) = Some p"
  shows "cw_alive (core_run ps (core_init pf opts fs) (es @ [StopCall, Exits p err logs, Waited p])) = [] \<and>
    rn_cmd (cw_runner (core_run ps (core_init pf opts fs) (es @ [StopCall, Exits p err logs, Waited p]))) = None \<and>
    rn_state (cw_runner (core_run ps (core_init pf opts fs) (es @ [StopCall, Exits p err logs, Waited p]))) = StateStopped"
  using stopping [OF world_inv assms] by (simp only: fold_append o_apply)

text \<open>A start that failed late speaks for a process that is not its own: when another start
  succeeded between the end of its process and its last critical section, the runner reports an
  error and the wrong node while that other process runs and is held by the runner.\<close>

lemma late_failure_mislabels:
  assumes "w = core_run ps (core_init pf opts fs) es"
    and "map_of (cw_failing w) p = Some (node, err)" "cw_alive w = [q]" "q \<noteq> p"
  shows "rn_state (cw_runner (core_apply ps (GaveUp p) w)) = StateError \<and>
    rn_nodeName (cw_runner (core_apply ps (GaveUp p) w)) = node \<and>
    rn_cmd (cw_runner (core_apply ps (GaveUp p) w)) = Some q \<and> cw_alive (core_apply ps (GaveUp p) w) = [q]"
proof -
  have "core_inv w" unfolding assms(1) by (rule world_inv)
  then have "rn_cmd (cw_runner w) = Some q" "cw_exited w = []"
    using assms(3) by (auto simp: core_inv_def append_eq_Cons_conv split: option.splits)
  then show ?thesis using assms(2-4) by (simp add: not_ready_def idle_def)
qed

definition late_failure :: "core_event list" where
  "late_failure =
     [Begin sample_start_env sample_core_node True, NotReady 0 (Err ''t''), Exits 0 None [], Waited 0,
      Begin sample_start_env (sample_core_node\<lparr>pn_Name := ''m''\<rparr>) True]"

text \<open>The log keeps the head of the core's output: after any writes the buffer is the first 8192
  bytes of all output, and every write reports all its bytes as written, so the core never sees a
  broken pipe.\<close>

lemma log_keeps_head:
  "fold (\<lambda>p buf. snd (log_Write p buf)) ps [] = take 8192 (concat ps) \<and> fst (log_Write p buf) = length p"
  using log_writes [of ps "[]"] by (simp add: log_Write_def Let_def maxCoreLogTailBytes_def)

end
