(* ===== verification/CoreTest.thy ===== *)
theory CoreTest
  imports CoreRunner
begin

text \<open>
  Testing proxy nodes (\<open>client/internal/proxycore/core.go\<close>): TCP handshakes, delay and speed
  through a core process of its own, and the batch test with its workers.  Answers of the network,
  the operating system and the clock are parameters; what concurrent workers deliver is a list in
  the order of delivery.
\<close>

definition DefaultTestURL :: string where "DefaultTestURL = ''http://www.gstatic.com/generate_204''"

definition testURLs :: "string list" where
  "testURLs =
     [''https://www.gstatic.com/generate_204'', ''https://connectivitycheck.gstatic.com/generate_204'',
      ''https://cp.cloudflare.com/generate_204'', ''http://cp.cloudflare.com/generate_204'',
      ''http://www.gstatic.com/generate_204'', ''http://connectivitycheck.gstatic.com/generate_204'',
      ''http://connectivitycheck.platform.hicloud.com/generate_204'', ''http://www.msftconnecttest.com/connecttest.txt'']"

definition fastTestURLs :: "string list" where
  "fastTestURLs =
     [''http://cp.cloudflare.com/generate_204'', ''http://www.gstatic.com/generate_204'',
      ''http://www.msftconnecttest.com/connecttest.txt'']"

definition speedTestURLs :: "string list" where
  "speedTestURLs =
     [''https://speed.cloudflare.com/__down?bytes=524288'', ''https://cachefly.cachefly.net/1mb.test'',
      ''https://proof.ovh.net/files/1Mb.dat'']"

text \<open>\<open>te_Speed\<close> holds the bytes and nanoseconds that \<open>SpeedMbps\<close> is the quotient of.\<close>

record TestResult =
  te_NodeName :: string
  te_OK :: bool
  te_LatencyMS :: int
  te_Speed :: "(nat \<times> int) option"
  te_Error :: string
  te_TestedAt :: string

definition new_result :: "string \<Rightarrow> ProxyNode \<Rightarrow> TestResult" where
  "new_result at node =
     \<lparr>te_NodeName = pn_Name node, te_OK = False, te_LatencyMS = 0, te_Speed = None, te_Error = [], te_TestedAt = at\<rparr>"

section \<open>TCP handshakes\<close>

definition tcpHandshakeProtocol :: "string \<Rightarrow> bool" where
  "tcpHandshakeProtocol p \<longleftrightarrow>
     p = ProtocolShadowsocks \<or> p = ProtocolVMess \<or> p = ProtocolVLESS \<or> p = ProtocolTrojan \<or> p = ProtocolAnyTLS"

definition defaultTCPTestAttempts :: nat where "defaultTCPTestAttempts = 2"

text \<open>\<open>d\<close> is the error of the dialer or the nanoseconds it took.\<close>

definition dialTCPLatency :: "int result \<Rightarrow> int result" where
  "dialTCPLatency d = (case d of Inl e \<Rightarrow> Inl e | Inr ns \<Rightarrow> Inr (max (ns div 10 ^ 6) 1))"

text \<open>The loop over the attempts: the context's error before each, and its dial.\<close>

fun tcp_attempts :: "(go_error option \<times> int result) list \<Rightarrow> int \<Rightarrow> go_error option \<Rightarrow> int \<times> go_error option" where
  "tcp_attempts [] best lastErr = (best, lastErr)"
| "tcp_attempts ((ctx, d) # as) best lastErr =
     (case ctx of
        Some e \<Rightarrow> (best, Some e)
      | None \<Rightarrow>
          (case dialTCPLatency d of
             Inl e \<Rightarrow> tcp_attempts as best (Some e)
           | Inr latency \<Rightarrow> tcp_attempts as (if best = 0 \<or> latency < best then latency else best) lastErr))"

definition testTCPHandshake :: "(nat \<Rightarrow> go_error option \<times> int result) \<Rightarrow> ProxyNode \<Rightarrow> int result" where
  "testTCPHandshake attempt node =
     (let addr = JoinHostPort (pn_Server node) (itoa (pn_Port node));
          (best, lastErr) = tcp_attempts (map attempt [0..<defaultTCPTestAttempts]) 0 None
      in if 0 < best then Inr best
         else Inl (Wrap ''tcp connect %s failed: %w'' [addr]
                (case lastErr of None \<Rightarrow> Err ''no tcp handshake attempt succeeded'' | Some e \<Rightarrow> e)))"

section \<open>Requests through the core\<close>

text \<open>A response: status, and the body as far as the code reads it.\<close>

type_synonym http_answer = "(int \<times> string) result"

record clashDelayResponse =
  cd_Delay :: int
  cd_Error :: string

definition testCoreDelayURL :: "(string \<Rightarrow> clashDelayResponse result) \<Rightarrow> http_answer \<Rightarrow> int result" where
  "testCoreDelayURL decode resp =
     (case resp of
        Inl e \<Rightarrow> Inl e
      | Inr (st, body) \<Rightarrow>
          if 500 \<le> st then Inl (Errf ''HTTP %d %s'' [itoa st, trim_space (take 4096 body)])
          else (case decode (take 4096 body) of
                  Inl e \<Rightarrow> Inl (Wrap ''parse delay response: %w'' [] e)
                | Inr payload \<Rightarrow>
                    if cd_Error payload \<noteq> [] then Inl (Err (cd_Error payload))
                    else if cd_Delay payload \<le> 0 then Inl (Errf ''invalid delay %d'' [itoa (cd_Delay payload)])
                    else Inr (cd_Delay payload)))"

text \<open>
  \<open>raceCoreDelayURLs\<close>: what the loop receives, in order: the end of the context, or the result
  of the request for one of the URLs.
\<close>

type_synonym delay_decoder = "string \<Rightarrow> clashDelayResponse result"

datatype race_event = CtxEnds go_error | Answers string http_answer

fun race_loop :: "delay_decoder \<Rightarrow> race_event list \<Rightarrow> string list \<Rightarrow> int result" where
  "race_loop decode [] attempts = Inl (Errf ''proxy delay test failed: %s'' [join attempts ''; ''])"
| "race_loop decode (CtxEnds e # evs) attempts = Inl e"
| "race_loop decode (Answers url resp # evs) attempts =
     (case testCoreDelayURL decode resp of
        Inr delay \<Rightarrow> Inr delay
      | Inl e \<Rightarrow> race_loop decode evs (attempts @ [url @ '': '' @ err_text e]))"

text \<open>The results of the requests for all URLs, unless one of them or the context ends the race.\<close>

definition raceCoreDelayURLs :: "delay_decoder \<Rightarrow> string list \<Rightarrow> race_event list \<Rightarrow> int result" where
  "raceCoreDelayURLs decode urls evs = race_loop decode (take (length urls) evs) []"

text \<open>\<open>ctx\<close> is the context's error after the first race.\<close>

definition testCoreDelayForTag ::
  "delay_decoder \<Rightarrow> string list \<Rightarrow> race_event list \<Rightarrow> go_error option \<Rightarrow> race_event list \<Rightarrow> int result" where
  "testCoreDelayForTag decode urls evs1 ctx evs2 =
     (if urls = [] then Inl (Err ''no delay test URL available'')
      else if length urls = 1 then raceCoreDelayURLs decode urls evs1
      else (case raceCoreDelayURLs decode (take 1 urls) evs1 of
              Inr delay \<Rightarrow> Inr delay
            | Inl primaryErr \<Rightarrow>
                (case ctx of
                   Some e \<Rightarrow> Inl e
                 | None \<Rightarrow>
                     (case raceCoreDelayURLs decode (drop 1 urls) evs2 of
                        Inr delay \<Rightarrow> Inr delay
                      | Inl err \<Rightarrow> Inl (Errf ''%v; %v'' [err_text primaryErr, err_text err])))))"

definition testCoreDelay :: "delay_decoder \<Rightarrow> race_event list \<Rightarrow> go_error option \<Rightarrow> race_event list \<Rightarrow> int result" where
  "testCoreDelay decode evs1 ctx evs2 = testCoreDelayForTag decode testURLs evs1 ctx evs2"

text \<open>A request through the proxy: status and nanoseconds.\<close>

fun http_loop :: "(string \<Rightarrow> (int \<times> int) result) \<Rightarrow> string list \<Rightarrow> string list \<Rightarrow> int result" where
  "http_loop get [] attempts =
     (if attempts = [] then Inl (Err ''no test URL available'')
      else Inl (Errf ''proxy test failed: %s'' [join attempts ''; '']))"
| "http_loop get (url # urls) attempts =
     (case get url of
        Inl e \<Rightarrow> http_loop get urls (attempts @ [url @ '': '' @ err_text e])
      | Inr (st, ns) \<Rightarrow>
          if 500 \<le> st then http_loop get urls (attempts @ [url @ '': HTTP '' @ itoa st])
          else Inr (max (ns div 10 ^ 6) 1))"

definition testHTTPThroughProxy :: "(string \<Rightarrow> (int \<times> int) result) \<Rightarrow> int result" where
  "testHTTPThroughProxy get = http_loop get testURLs []"

text \<open>A download: the bytes copied, of at most \<open>maxBytes\<close>, the error of the copy, the status, the
  nanoseconds.\<close>

record download =
  dl_bytes :: nat
  dl_copyErr :: "go_error option"
  dl_status :: int
  dl_elapsed :: int

fun speed_loop :: "(string \<Rightarrow> download result) \<Rightarrow> string list \<Rightarrow> string list \<Rightarrow> (nat \<times> int) result" where
  "speed_loop get [] attempts =
     (if attempts = [] then Inl (Err ''no speed test URL available'')
      else Inl (Errf ''proxy speed test failed: %s'' [join attempts ''; '']))"
| "speed_loop get (url # urls) attempts =
     (case get url of
        Inl e \<Rightarrow> speed_loop get urls (attempts @ [url @ '': '' @ err_text e])
      | Inr d \<Rightarrow>
          (let n = min (dl_bytes d) (512 * 1024) in
           case dl_copyErr d of
             Some e \<Rightarrow> speed_loop get urls (attempts @ [url @ '': '' @ err_text e])
           | None \<Rightarrow>
               if 500 \<le> dl_status d then speed_loop get urls (attempts @ [url @ '': HTTP '' @ itoa (dl_status d)])
               else if n < 32 * 1024
               then speed_loop get urls (attempts @ [url @ '': downloaded only '' @ nat_str n @ '' bytes''])
               else if dl_elapsed d \<le> 0 then Inl (Err ''speed test duration is zero'')
               else Inr (n, dl_elapsed d)))"

definition testDownloadSpeedThroughProxy :: "(string \<Rightarrow> download result) \<Rightarrow> (nat \<times> int) result" where
  "testDownloadSpeedThroughProxy get = speed_loop get speedTestURLs []"

section \<open>Waiting for a listener\<close>

text \<open>
  One turn: whether the dial succeeded, and which of the four channels the select took then.
  \<open>None\<close>: still waiting when the listed turns are over.
\<close>

datatype wait_event = CtxDone go_error | ProcessDone | DeadlinePassed | Tick

fun wait_loop :: "string \<Rightarrow> string \<Rightarrow> (bool \<times> wait_event) list \<Rightarrow> go_error option option" where
  "wait_loop label addr [] = None"
| "wait_loop label addr ((dialled, ev) # turns) =
     (if dialled then Some None
      else (case ev of
              CtxDone e \<Rightarrow> Some (Some e)
            | ProcessDone \<Rightarrow> Some (Some (Errf ''%s exited before %s became ready'' [label, addr]))
            | DeadlinePassed \<Rightarrow> Some (Some (Errf ''timed out waiting for %s %s'' [label, addr]))
            | Tick \<Rightarrow> wait_loop label addr turns))"

definition freeLoopbackAddr :: "string result \<Rightarrow> string result" where
  "freeLoopbackAddr listen =
     (case listen of Inl e \<Rightarrow> Inl (Wrap ''allocate local test port: %w'' [] e) | Inr a \<Rightarrow> Inr a)"

section \<open>A core process for one test\<close>

text \<open>What the surroundings answer to one test; \<open>tv_wait\<close> is the outcome of waiting for the
  listener, \<open>tv_output\<close> what the process printed by then.\<close>

record test_env =
  tv_core :: core_env
  tv_find :: string
  tv_mkdir :: "go_error option"
  tv_listen :: "nat \<Rightarrow> string result"
  tv_tmpdir :: "string result"
  tv_write :: "go_error option"
  tv_check :: "(string \<times> go_error) option"
  tv_spawn :: "go_error option"
  tv_wait :: "go_error option"
  tv_output :: string

text \<open>What a test leaves behind, in order: directories and processes.\<close>

datatype test_act = MadeDir string | Spawned | StoppedCore | RemovedDir string

record addresses =
  ad_http :: string
  ad_socks :: string
  ad_api :: string

definition test_core :: "test_env \<Rightarrow> core_options \<Rightarrow> core_options result" where
  "test_core env opts0 =
     (let o1 = normalizeOptions (ce_platform (tv_core env)) opts0;
          opts = (if co_CorePath o1 = [] then o1\<lparr>co_CorePath := tv_find env\<rparr> else o1)
      in if co_CorePath opts = [] then Inl (Err ''sing-box executable not found'')
         else (case tv_mkdir env of
                 Some e \<Rightarrow> Inl (Errf ''create proxy work dir: %v'' [err_text e])
               | None \<Rightarrow> Inr opts))"

definition test_addresses :: "test_env \<Rightarrow> addresses result" where
  "test_addresses env =
     bind_result (freeLoopbackAddr (tv_listen env 0)) (\<lambda>http.
     bind_result (freeLoopbackAddr (tv_listen env 1)) (\<lambda>socks.
     bind_result (freeLoopbackAddr (tv_listen env 2)) (\<lambda>api.
       Inr \<lparr>ad_http = http, ad_socks = socks, ad_api = api\<rparr>)))"

definition core_died :: "test_env \<Rightarrow> go_error \<Rightarrow> string" where
  "core_died env e =
     (let output = trim_space (tv_output env) in
      if output \<noteq> [] then err_text e @ '': '' @ output else err_text e)"

text \<open>The options of a test; mode and rules are those of the caller in a speed test only.\<close>

definition test_options ::
  "core_options \<Rightarrow> string \<Rightarrow> addresses \<Rightarrow> string \<Rightarrow> ProxyRule list option \<Rightarrow> core_options" where
  "test_options opts dir a mode rules =
     \<lparr>co_CorePath = co_CorePath opts, co_WorkDir = dir, co_SOCKSAddr = ad_socks a, co_HTTPAddr = ad_http a,
      co_ClashAPIAddr = ad_api a, co_Mode = mode, co_RuleModeRules = rules, co_DNSServers = [],
      co_RuleSetDir = co_RuleSetDir opts, co_withoutRuleSets = False\<rparr>"

text \<open>
  The part that both single tests share, from finding the core to the deferred clean-up;
  \<open>body\<close> is what they do while the core runs.  \<open>dir_msg\<close> and \<open>write_msg\<close> are the
  two messages that differ.
\<close>

definition core_session ::
  "test_env \<Rightarrow> string \<Rightarrow> string \<Rightarrow> string \<Rightarrow> ProxyRule list option \<Rightarrow> (addresses \<Rightarrow> TestResult) \<Rightarrow> TestResult \<Rightarrow>
   ProxyNode \<Rightarrow> core_options \<Rightarrow> rule_files \<Rightarrow> TestResult \<times> test_act list \<times> rule_files" where
  "core_session env dir_msg write_msg mode rules body result node opts0 fs =
     (let failed = (\<lambda>msg acts fs. (result\<lparr>te_Error := msg\<rparr>, acts, fs)) in
      case test_core env opts0 of
        Inl e \<Rightarrow> failed (err_text e) [] fs
      | Inr opts \<Rightarrow>
          (case test_addresses env of
             Inl e \<Rightarrow> failed (err_text e) [] fs
           | Inr a \<Rightarrow>
               (case tv_tmpdir env of
                  Inl e \<Rightarrow> failed (dir_msg @ err_text e) [] fs
                | Inr dir \<Rightarrow>
                    (let dir_acts = [MadeDir dir, RemovedDir dir];
                         all_acts = [MadeDir dir, Spawned, StoppedCore, RemovedDir dir] in
                     case BuildConfig (tv_core env) node (test_options opts dir a mode rules) fs of
                       (Inl e, fs') \<Rightarrow> failed (err_text e) dir_acts fs'
                     | (Inr cfg, fs') \<Rightarrow>
                         (case tv_write env of
                            Some e \<Rightarrow> failed (write_msg @ err_text e) dir_acts fs'
                          | None \<Rightarrow>
                              (case checkCoreConfig (tv_check env) of
                                 Some e \<Rightarrow> failed (err_text e) dir_acts fs'
                               | None \<Rightarrow>
                                   (case tv_spawn env of
                                      Some e \<Rightarrow> failed (''start sing-box: '' @ err_text e) dir_acts fs'
                                    | None \<Rightarrow>
                                        (case tv_wait env of
                                           Some e \<Rightarrow> failed (core_died env e) all_acts fs'
                                         | None \<Rightarrow> (body a, all_acts, fs')))))))))"

text \<open>The network's answers to one test.\<close>

record probe =
  pb_attempt :: "nat \<Rightarrow> go_error option \<times> int result"
  pb_decode :: delay_decoder
  pb_race1 :: "race_event list"
  pb_ctx :: "go_error option"
  pb_race2 :: "race_event list"
  pb_inbound :: "go_error option"
  pb_http :: "string \<Rightarrow> (int \<times> int) result"
  pb_download :: "string \<Rightarrow> download result"

text \<open>\<open>pb_inbound\<close>: the HTTP inbound never became ready.\<close>

definition testHTTPInboundDelay :: "probe \<Rightarrow> int result" where
  "testHTTPInboundDelay pb = (case pb_inbound pb of Some e \<Rightarrow> Inl e | None \<Rightarrow> testHTTPThroughProxy (pb_http pb))"

definition core_delay :: "probe \<Rightarrow> TestResult \<Rightarrow> TestResult" where
  "core_delay pb result =
     (case testCoreDelay (pb_decode pb) (pb_race1 pb) (pb_ctx pb) (pb_race2 pb) of
        Inr latency \<Rightarrow> result\<lparr>te_OK := True, te_LatencyMS := latency\<rparr>
      | Inl err \<Rightarrow>
          (case testHTTPInboundDelay pb of
             Inr latency \<Rightarrow> result\<lparr>te_OK := True, te_LatencyMS := latency\<rparr>
           | Inl fallbackErr \<Rightarrow>
               result\<lparr>te_Error := err_text err @ ''; fallback proxy request failed: '' @ err_text fallbackErr\<rparr>))"

definition testNodeWithCore ::
  "test_env \<Rightarrow> probe \<Rightarrow> string \<Rightarrow> ProxyNode \<Rightarrow> core_options \<Rightarrow> rule_files \<Rightarrow> TestResult \<times> test_act list \<times> rule_files" where
  "testNodeWithCore env pb at node opts fs =
     core_session env ''create test work dir: '' ''write test config: '' [] None
       (\<lambda>a. core_delay pb (new_result at node)) (new_result at node) node opts fs"

definition TestNode ::
  "test_env \<Rightarrow> probe \<Rightarrow> string \<Rightarrow> ProxyNode \<Rightarrow> core_options \<Rightarrow> rule_files \<Rightarrow> TestResult \<times> test_act list \<times> rule_files" where
  "TestNode env pb at node opts fs =
     (let result = new_result at node in
      if pn_Server node = [] \<or> pn_Port node \<le> 0
      then (result\<lparr>te_Error := ''proxy node has invalid server or port''\<rparr>, [], fs)
      else if \<not> tcpHandshakeProtocol (pn_Protocol node) then testNodeWithCore env pb at node opts fs
      else (case testTCPHandshake (pb_attempt pb) node of
              Inl e \<Rightarrow> (result\<lparr>te_Error := err_text e\<rparr>, [], fs)
            | Inr latency \<Rightarrow> (result\<lparr>te_OK := True, te_LatencyMS := latency\<rparr>, [], fs)))"

text \<open>The latency that a speed test measures beside, if it can.\<close>

definition side_latency :: "probe \<Rightarrow> ProxyNode \<Rightarrow> int" where
  "side_latency pb node =
     (if tcpHandshakeProtocol (pn_Protocol node)
      then (case testTCPHandshake (pb_attempt pb) node of Inl _ \<Rightarrow> 0 | Inr l \<Rightarrow> l)
      else (case testCoreDelay (pb_decode pb) (pb_race1 pb) (pb_ctx pb) (pb_race2 pb) of
              Inr l \<Rightarrow> l
            | Inl _ \<Rightarrow> (case testHTTPInboundDelay pb of Inr l \<Rightarrow> l | Inl _ \<Rightarrow> 0)))"

definition SpeedTestNode ::
  "test_env \<Rightarrow> probe \<Rightarrow> string \<Rightarrow> ProxyNode \<Rightarrow> core_options \<Rightarrow> rule_files \<Rightarrow> TestResult \<times> test_act list \<times> rule_files" where
  "SpeedTestNode env pb at node opts fs =
     (let result = new_result at node;
          o1 = normalizeOptions (ce_platform (tv_core env)) opts in
      if pn_Server node = [] \<or> pn_Port node \<le> 0
      then (result\<lparr>te_Error := ''proxy node has invalid server or port''\<rparr>, [], fs)
      else core_session env ''create speed test work dir: '' ''write speed test config: '' (co_Mode o1) (co_RuleModeRules o1)
             (\<lambda>a. let r = result\<lparr>te_LatencyMS := side_latency pb node\<rparr> in
                  case testDownloadSpeedThroughProxy (pb_download pb) of
                    Inl e \<Rightarrow> r\<lparr>te_Error := err_text e\<rparr>
                  | Inr sp \<Rightarrow> r\<lparr>te_OK := True, te_Speed := Some sp\<rparr>)
             result node opts fs)"

section \<open>Lemmas\<close>

lemma dialTCPLatency_pos: "dialTCPLatency d = Inr l \<Longrightarrow> 0 < l"
  by (auto simp: dialTCPLatency_def split: sum.splits)

lemma tcp_attempts_best:
  "tcp_attempts as best err = (b, e) \<Longrightarrow> 0 \<le> best \<Longrightarrow>
   (b = best \<or> (\<exists>a\<in>set as. dialTCPLatency (snd a) = Inr b)) \<and> (0 < best \<longrightarrow> 0 < b \<and> b \<le> best) \<and> 0 \<le> b"
proof (induction as best err rule: tcp_attempts.induct)
  case (2 ctx d as best lastErr)
  then show ?case
    using dialTCPLatency_pos [of d]
    by (cases ctx; cases "dialTCPLatency d") (fastforce split: if_splits)+
qed simp

text \<open>A latency below the best so far would have been taken.\<close>

lemma tcp_attempts_least:
  "tcp_attempts as best err = (b, e) \<Longrightarrow> 0 \<le> best \<Longrightarrow> a \<in> set (takeWhile (\<lambda>a. fst a = None) as) \<Longrightarrow>
   dialTCPLatency (snd a) = Inr l \<Longrightarrow> 0 < b \<and> b \<le> l"
proof (induction as best err rule: tcp_attempts.induct)
  case (2 ctx d as best lastErr)
  show ?case
  proof (cases "dialTCPLatency d")
    case (Inl x)
    then show ?thesis using 2 by (auto split: option.splits if_splits)
  next
    case (Inr m)
    let ?best = "if best = 0 \<or> m < best then m else best"
    have "0 < m" using dialTCPLatency_pos [OF Inr] .
    then have p: "0 < ?best" "?best \<le> m" using 2(4) by auto
    have n: "ctx = None" using 2(5) by (cases ctx) auto
    then have t: "tcp_attempts as ?best lastErr = (b, e)" using 2(3) Inr by simp
    show ?thesis
    proof (cases "a = (ctx, d)")
      case True
      then show ?thesis using tcp_attempts_best [OF t] p Inr 2(6) by auto
    next
      case False
      then show ?thesis using 2(2) [OF n Inr t] 2(5,6) p n by auto
    qed
  qed
qed simp

lemma testCoreDelayURL_pos: "testCoreDelayURL decode resp = Inr d \<Longrightarrow> 0 < d"
  by (auto simp: testCoreDelayURL_def split: sum.splits if_splits)

lemma race_pos: "race_loop decode evs atts = Inr d \<Longrightarrow> 0 < d"
  by (induction decode evs atts rule: race_loop.induct) (auto dest: testCoreDelayURL_pos split: sum.splits)

lemma format_text_nonempty: "f \<noteq> [] \<Longrightarrow> hd f \<noteq> CHR 0x25 \<Longrightarrow> format_text f args \<noteq> []"
  by (cases f; cases "tl f") auto

text \<open>Contexts always have an error text, so a failed test says why.\<close>

definition ctx_speaks :: "race_event list \<Rightarrow> bool" where
  "ctx_speaks evs = list_all (\<lambda>ev. case ev of CtxEnds e \<Rightarrow> err_text e \<noteq> [] | _ \<Rightarrow> True) evs"

lemma race_says_why:
  "ctx_speaks evs \<Longrightarrow> race_loop decode evs atts = Inl e \<Longrightarrow> err_text e \<noteq> []"
  by (induction decode evs atts rule: race_loop.induct)
    (auto simp: ctx_speaks_def format_text_nonempty split: sum.splits)

lemma format_vv: "format_text ''%v; %v'' [a, b] \<noteq> []"
  by simp

lemma delay_outcome:
  assumes "testCoreDelayForTag decode urls evs1 ctx evs2 = r" "ctx_speaks evs1" "ctx_speaks evs2"
    "case ctx of None \<Rightarrow> True | Some e \<Rightarrow> err_text e \<noteq> []"
  shows "case r of Inl e \<Rightarrow> err_text e \<noteq> [] | Inr d \<Rightarrow> 0 < d"
proof -
  have s: "ctx_speaks (take n evs1)" "ctx_speaks (take n evs2)" for n
    using assms(2,3) by (auto simp: ctx_speaks_def list_all_iff dest: in_set_takeD)
  show ?thesis
    using assms(1,4) race_says_why [OF s(1)] race_says_why [OF s(2)]
    by (auto simp: testCoreDelayForTag_def raceCoreDelayURLs_def simp del: race_loop.simps dest: race_pos
        split: if_splits sum.splits option.splits)
qed

lemma testTCPHandshake_outcome: "case testTCPHandshake attempt node of Inl e \<Rightarrow> err_text e \<noteq> [] | Inr l \<Rightarrow> 0 < l"
  by (auto simp: testTCPHandshake_def Let_def format_text_nonempty split: prod.split)

section \<open>Properties\<close>

text \<open>A node's TCP latency is the least of its attempts: when the test succeeds, the latency is one
  that was measured, is at least a millisecond, and none measured before the context ended is
  smaller; it fails only when no such attempt succeeded.\<close>

lemma tcp_latency_is_least:
  assumes "live = takeWhile (\<lambda>a. fst a = None) (map attempt [0..<defaultTCPTestAttempts])"
  shows "case testTCPHandshake attempt node of
      Inr l \<Rightarrow> l \<ge> 1 \<and> Inr l \<in> (dialTCPLatency \<circ> snd) ` set (map attempt [0..<defaultTCPTestAttempts]) \<and>
        list_all (\<lambda>a. case dialTCPLatency (snd a) of Inl _ \<Rightarrow> True | Inr m \<Rightarrow> l \<le> m) live
    | Inl _ \<Rightarrow> list_all (\<lambda>a. \<not> is_ok (dialTCPLatency (snd a))) live"
proof -
  let ?as = "map attempt [0..<defaultTCPTestAttempts]"
  obtain b e where be: "tcp_attempts ?as 0 None = (b, e)" by fastforce
  have least: "0 < b \<and> b \<le> l" if "a \<in> set live" "dialTCPLatency (snd a) = Inr l" for a l
    using tcp_attempts_least [OF be] that assms by simp
  have best: "b = 0 \<or> (\<exists>a\<in>set ?as. dialTCPLatency (snd a) = Inr b)" "0 \<le> b"
    using tcp_attempts_best [OF be] by auto
  show ?thesis
  proof (cases "0 < b")
    case True
    then have "Inr b \<in> (dialTCPLatency \<circ> snd) ` set ?as" using best(1) by (force simp del: set_map)
    moreover have "list_all (\<lambda>a. case dialTCPLatency (snd a) of Inl _ \<Rightarrow> True | Inr m \<Rightarrow> b \<le> m) live"
      using least by (auto simp: list_all_iff split: sum.splits)
    ultimately show ?thesis using True by (simp add: testTCPHandshake_def be)
  next
    case False
    then have "list_all (\<lambda>a. \<not> is_ok (dialTCPLatency (snd a))) live"
      using least by (auto simp: list_all_iff is_ok_iff)
    then show ?thesis using False by (simp add: testTCPHandshake_def be)
  qed
qed

end
