(* ===== verification/CoreBatch.thy ===== *)
theory CoreBatch
  imports CoreTest "HOL-Library.Multiset"
begin

text \<open>
  The batch test of \<open>client/internal/proxycore/core.go\<close>: TCP nodes by a pool of workers,
  the others through one core process that holds all of them, with the results written back by
  index and emitted as they come.
\<close>

section \<open>Batch tests\<close>

text \<open>
  The results so far and the results emitted.  \<open>onResult\<close> is nil or collects: the list of
  emissions is what a callback would get.
\<close>

type_synonym batch = "TestResult list \<times> TestResult list"

definition deliver :: "nat \<Rightarrow> TestResult \<Rightarrow> batch \<Rightarrow> batch" where
  "deliver i r b = (case b of (results, out) \<Rightarrow> (results[i := r], out @ [r]))"

definition set_error :: "nat \<Rightarrow> string \<Rightarrow> batch \<Rightarrow> batch" where
  "set_error i msg b = deliver i ((fst b ! i)\<lparr>te_Error := msg\<rparr>) b"

fun finish_loop :: "string \<Rightarrow> TestResult list \<Rightarrow> TestResult list \<times> TestResult list" where
  "finish_loop msg [] = ([], [])"
| "finish_loop msg (r # rs) =
     (case finish_loop msg rs of (rs', out) \<Rightarrow>
        if te_OK r \<or> te_Error r \<noteq> [] then (r # rs', out)
        else (r\<lparr>te_Error := msg\<rparr> # rs', r\<lparr>te_Error := msg\<rparr> # out))"

definition finishPendingTestResults :: "go_error option \<Rightarrow> batch \<Rightarrow> batch" where
  "finishPendingTestResults err b =
     (case err of
        None \<Rightarrow> b
      | Some e \<Rightarrow> (case finish_loop (err_text e) (fst b) of (rs, out) \<Rightarrow> (rs, snd b @ out)))"

text \<open>The TCP workers deliver the results in the order of \<open>sched\<close>.\<close>

definition tcp_result :: "(nat \<Rightarrow> nat \<Rightarrow> go_error option \<times> int result) \<Rightarrow> string \<Rightarrow> ProxyNode list \<Rightarrow> nat \<Rightarrow> TestResult" where
  "tcp_result attempts at nodes i =
     (case testTCPHandshake (attempts i) (nodes ! i) of
        Inl e \<Rightarrow> (new_result at (nodes ! i))\<lparr>te_Error := err_text e\<rparr>
      | Inr latency \<Rightarrow> (new_result at (nodes ! i))\<lparr>te_OK := True, te_LatencyMS := latency\<rparr>)"

definition testTCPNodes ::
  "(nat \<Rightarrow> nat \<Rightarrow> go_error option \<times> int result) \<Rightarrow> string \<Rightarrow> ProxyNode list \<Rightarrow> nat list \<Rightarrow> batch \<Rightarrow> batch" where
  "testTCPNodes attempts at nodes sched b =
     fold (\<lambda>i. deliver i (tcp_result attempts at nodes i)) sched b"

text \<open>The outbounds of a batch; a node without one gets its verdict at once.\<close>

definition batch_tag :: "nat \<Rightarrow> string" where "batch_tag i = ''test-'' @ nat_str i"

fun batch_outbounds :: "nat \<Rightarrow> ProxyNode list \<Rightarrow> batch \<Rightarrow> batchTestOutbound list \<times> batch" where
  "batch_outbounds i [] b = ([], b)"
| "batch_outbounds i (node # nodes) b =
     (if pn_Server node = [] \<or> pn_Port node \<le> 0
      then batch_outbounds (Suc i) nodes (set_error i ''proxy node has invalid server or port'' b)
      else (case buildOutbound node of
              Inl e \<Rightarrow> batch_outbounds (Suc i) nodes (set_error i (err_text e) b)
            | Inr ob \<Rightarrow>
                (case batch_outbounds (Suc i) nodes b of
                   (obs, b') \<Rightarrow>
                     (\<lparr>bt_index = i, bt_tag = batch_tag i, bt_node = node,
                       bt_outbound = put_field ''tag'' (JString (batch_tag i)) ob\<rparr> # obs, b'))))"

text \<open>The answers to a batch: those of the surroundings, and what the workers measured, in the order
  in which the results arrived.\<close>

record batch_env =
  be_env :: test_env
  be_attempts :: "nat \<Rightarrow> nat \<Rightarrow> go_error option \<times> int result"
  be_decode :: delay_decoder
  be_delays :: "nat \<Rightarrow> race_event list \<times> go_error option \<times> race_event list"
  be_ctx :: "go_error option"

definition delay_result :: "batch_env \<Rightarrow> string \<Rightarrow> batchTestOutbound \<Rightarrow> TestResult" where
  "delay_result be at ob =
     (case be_delays be (bt_index ob) of (evs1, ctx, evs2) \<Rightarrow>
        (case testCoreDelayForTag (be_decode be) fastTestURLs evs1 ctx evs2 of
           Inl e \<Rightarrow> (new_result at (bt_node ob))\<lparr>te_Error := err_text e\<rparr>
         | Inr latency \<Rightarrow> (new_result at (bt_node ob))\<lparr>te_OK := True, te_LatencyMS := latency\<rparr>))"

text \<open>\<open>arrived\<close> orders the outbounds of the batch by the arrival of their results.\<close>

definition testNodesWithCore ::
  "batch_env \<Rightarrow> string \<Rightarrow> (batchTestOutbound list \<Rightarrow> batchTestOutbound list) \<Rightarrow> ProxyNode list \<Rightarrow> core_options \<Rightarrow> batch \<times> test_act list" where
  "testNodesWithCore be at arrived nodes opts0 =
     (let env = be_env be; b0 = (map (new_result at) nodes, []) in
      if nodes = [] then (b0, [])
      else (case test_core env opts0 of
        Inl e \<Rightarrow> (finishPendingTestResults (Some e) b0, [])
      | Inr opts \<Rightarrow>
          (case batch_outbounds 0 nodes b0 of (obs, b) \<Rightarrow>
             if obs = [] then (b, [])
             else (case test_addresses env of
               Inl e \<Rightarrow> (finishPendingTestResults (Some e) b, [])
             | Inr a \<Rightarrow>
                 (case tv_tmpdir env of
                    Inl e \<Rightarrow> (finishPendingTestResults (Some (Errf ''create test work dir: %v'' [err_text e])) b, [])
                  | Inr dir \<Rightarrow>
                      (let dir_acts = [MadeDir dir, RemovedDir dir];
                           all_acts = [MadeDir dir, Spawned, StoppedCore, RemovedDir dir] in
                       case buildBatchTestConfig (ce_platform (tv_core env)) obs
                              ((test_options opts dir a [] None)\<lparr>co_RuleSetDir := []\<rparr>) of
                         Inl e \<Rightarrow> (finishPendingTestResults (Some e) b, dir_acts)
                       | Inr cfg \<Rightarrow>
                           (case tv_write env of
                              Some e \<Rightarrow> (finishPendingTestResults (Some (Errf ''write test config: %v'' [err_text e])) b, dir_acts)
                            | None \<Rightarrow>
                                (case tv_spawn env of
                                   Some e \<Rightarrow> (finishPendingTestResults (Some (Errf ''start sing-box: %v'' [err_text e])) b, dir_acts)
                                 | None \<Rightarrow>
                                     (case tv_wait env of
                                        Some e \<Rightarrow> (finishPendingTestResults (Some (Err (core_died env e))) b, all_acts)
                                      | None \<Rightarrow>
                                          (finishPendingTestResults (be_ctx be)
                                             (fold (\<lambda>ob. deliver (bt_index ob) (delay_result be at ob)) (arrived obs) b),
                                           all_acts))))))))))"

text \<open>\<open>TestNodes\<close>: the indexes by kind, then the two groups.\<close>

definition invalid_node :: "ProxyNode \<Rightarrow> bool" where
  "invalid_node node \<longleftrightarrow> pn_Server node = [] \<or> pn_Port node \<le> 0"

definition tcp_indexes :: "ProxyNode list \<Rightarrow> nat list" where
  "tcp_indexes nodes =
     filter (\<lambda>i. \<not> invalid_node (nodes ! i) \<and> tcpHandshakeProtocol (pn_Protocol (nodes ! i))) [0..<length nodes]"

definition core_indexes :: "ProxyNode list \<Rightarrow> nat list" where
  "core_indexes nodes =
     filter (\<lambda>i. \<not> invalid_node (nodes ! i) \<and> \<not> tcpHandshakeProtocol (pn_Protocol (nodes ! i))) [0..<length nodes]"

definition reject_invalid :: "ProxyNode list \<Rightarrow> batch \<Rightarrow> batch" where
  "reject_invalid nodes b =
     fold (\<lambda>i b. if invalid_node (nodes ! i) then set_error i ''proxy node has invalid server or port'' b else b)
       [0..<length nodes] b"

definition TestNodes ::
  "batch_env \<Rightarrow> string \<Rightarrow> (nat list \<Rightarrow> nat list) \<Rightarrow> (batchTestOutbound list \<Rightarrow> batchTestOutbound list) \<Rightarrow>
   ProxyNode list \<Rightarrow> core_options \<Rightarrow> batch" where
  "TestNodes be at sched arrived nodes opts =
     (let b1 = reject_invalid nodes (map (new_result at) nodes, []);
          tcp = tcp_indexes nodes; core = core_indexes nodes;
          b2 = (if tcp \<noteq> [] then testTCPNodes (be_attempts be) at nodes (sched tcp) b1 else b1)
      in if core = [] then b2
         else (case fst (testNodesWithCore be at arrived (map ((!) nodes) core) opts) of
                 (rs, out) \<Rightarrow> (fold (\<lambda>(i, r) xs. xs[i := r]) (zip core rs) (fst b2), snd b2 @ out)))"

section \<open>Tests of the runner\<close>

text \<open>
  The slots bound the tests of one runner.  \<open>used\<close> counts those taken; with a free slot and an
  ended context the select may take either, which \<open>slot_first\<close> decides.  \<open>None\<close>: it waits.
\<close>

definition defaultNodeTestConcurrency :: nat where "defaultNodeTestConcurrency = 8"

definition acquireTestSlot :: "nat \<Rightarrow> go_error option \<Rightarrow> bool \<Rightarrow> nat result option" where
  "acquireTestSlot used ctx slot_first =
     (let slot = (if used < defaultNodeTestConcurrency then Some (Inr (Suc used)) else None) in
      case ctx of
        None \<Rightarrow> slot
      | Some e \<Rightarrow> if slot \<noteq> None \<and> slot_first then slot else Some (Inl e))"

text \<open>\<open>slot\<close> is what acquiring brought; the returned count is that after the deferred release.\<close>

definition runner_Test ::
  "nat result \<Rightarrow> test_env \<Rightarrow> probe \<Rightarrow> string \<Rightarrow> ProxyNode \<Rightarrow> Runner \<Rightarrow> rule_files \<Rightarrow>
   (TestResult \<times> test_act list \<times> rule_files) \<times> nat option" where
  "runner_Test slot env pb at node r fs =
     (case slot of
        Inl e \<Rightarrow> (((new_result at node)\<lparr>te_Error := err_text e\<rparr>, [], fs), None)
      | Inr used \<Rightarrow>
          (TestNode env pb at node (normalizeOptions (ce_platform (tv_core env)) (rn_opts r)) fs, Some (used - 1)))"

definition runner_TestNodes ::
  "nat result \<Rightarrow> batch_env \<Rightarrow> string \<Rightarrow> (nat list \<Rightarrow> nat list) \<Rightarrow> (batchTestOutbound list \<Rightarrow> batchTestOutbound list) \<Rightarrow>
   ProxyNode list \<Rightarrow> Runner \<Rightarrow> batch \<times> nat option" where
  "runner_TestNodes slot be at sched arrived nodes r =
     (case slot of
        Inl e \<Rightarrow> (let rs = map (\<lambda>node. (new_result at node)\<lparr>te_Error := err_text e\<rparr>) nodes in ((rs, rs), None))
      | Inr used \<Rightarrow>
          (TestNodes be at sched arrived nodes (normalizeOptions (ce_platform (tv_core (be_env be))) (rn_opts r)), Some (used - 1)))"

lemma slots_bounded: "acquireTestSlot used ctx first = Some (Inr n) \<Longrightarrow> n \<le> defaultNodeTestConcurrency"
  by (auto simp: acquireTestSlot_def Let_def split: option.splits if_splits)

section \<open>Verdicts\<close>

definition pending :: "TestResult \<Rightarrow> bool" where
  "pending r \<longleftrightarrow> \<not> te_OK r \<and> te_Error r = []"

text \<open>A verdict: a success with a positive latency, or a failure with its reason.\<close>

definition verdict :: "TestResult \<Rightarrow> bool" where
  "verdict r \<longleftrightarrow> te_OK r \<and> te_Error r = [] \<and> 0 < te_LatencyMS r \<or> \<not> te_OK r \<and> te_Error r \<noteq> []"

text \<open>
  Each node has its result, which is a verdict or still pending, and exactly the verdicts were
  emitted.
\<close>

definition settled :: "ProxyNode list \<Rightarrow> batch \<Rightarrow> bool" where
  "settled nodes b \<longleftrightarrow>
     map te_NodeName (fst b) = map pn_Name nodes \<and> list_all (\<lambda>r. pending r \<or> verdict r) (fst b) \<and>
     mset (snd b) = mset (filter verdict (fst b))"

lemma pending_not_verdict: "pending r \<Longrightarrow> \<not> verdict r"
  by (auto simp: pending_def verdict_def)

lemma settled_length: "settled nodes b \<Longrightarrow> length (fst b) = length nodes"
  unfolding settled_def by (metis length_map)

lemma settled_name:
  assumes "settled nodes b" "i < length nodes"
  shows "te_NodeName (fst b ! i) = pn_Name (nodes ! i)"
proof -
  have "map te_NodeName (fst b) ! i = map pn_Name nodes ! i" using assms(1) by (simp add: settled_def)
  then show ?thesis using assms(2) settled_length [OF assms(1)] by simp
qed

lemma settled_names: "settled nodes b \<Longrightarrow> map te_NodeName (fst b) = map pn_Name nodes"
  by (simp add: settled_def)

lemma settled_init: "settled nodes (map (new_result at) nodes, [])"
  by (auto simp: settled_def list_all_iff pending_def verdict_def new_result_def filter_empty_conv)

lemma filter_update:
  assumes "i < length xs" "\<not> P (xs ! i)" "P r"
  shows "mset (filter P (xs[i := r])) = add_mset r (mset (filter P xs))"
proof -
  have "xs = take i xs @ xs ! i # drop (Suc i) xs" using assms(1) by (rule id_take_nth_drop)
  then have "filter P xs = filter P (take i xs) @ filter P (drop (Suc i) xs)"
    using assms(2) by (metis filter.simps(2) filter_append)
  then show ?thesis using assms(1,3) by (simp add: upd_conv_take_nth_drop)
qed

lemma deliver_settled:
  assumes "settled nodes b" "i < length nodes" "pending (fst b ! i)" "verdict r" "te_NodeName r = pn_Name (nodes ! i)"
  shows "settled nodes (deliver i r b)"
proof -
  obtain xs out where b: "b = (xs, out)" by fastforce
  have len: "i < length xs" using settled_length [OF assms(1)] assms(2) by (simp add: b)
  have "map te_NodeName (xs[i := r]) = map pn_Name nodes"
    using assms(1,2,5) by (simp add: settled_def b map_update list_update_same_conv)
  moreover have "list_all (\<lambda>r. pending r \<or> verdict r) (xs[i := r])"
    using assms(1,4) by (auto simp: settled_def b list_all_iff dest: set_update_subset_insert [THEN subsetD])
  moreover have "mset (out @ [r]) = mset (filter verdict (xs[i := r]))"
    using assms(1,4) filter_update [of i xs verdict r] len pending_not_verdict assms(3)
    by (simp add: settled_def b)
  ultimately show ?thesis by (simp add: settled_def deliver_def b)
qed

text \<open>A fold of deliveries, in whatever order, at distinct pending places.\<close>

lemma fold_deliver:
  "settled nodes b \<Longrightarrow> distinct (map fst irs) \<Longrightarrow>
   list_all (\<lambda>(i, r). i < length nodes \<and> pending (fst b ! i) \<and> verdict r \<and> te_NodeName r = pn_Name (nodes ! i)) irs \<Longrightarrow>
   settled nodes (fold (\<lambda>(i, r). deliver i r) irs b) \<and>
   (\<forall>j<length nodes. pending (fst (fold (\<lambda>(i, r). deliver i r) irs b) ! j) \<longleftrightarrow> pending (fst b ! j) \<and> j \<notin> fst ` set irs)"
proof (induction irs arbitrary: b)
  case (Cons ir irs)
  obtain i r where ir: "ir = (i, r)" by fastforce
  have c: "i < length nodes" "pending (fst b ! i)" "verdict r" "te_NodeName r = pn_Name (nodes ! i)"
    using Cons.prems(3) ir by auto
  let ?b = "deliver i r b"
  have s: "settled nodes ?b" by (rule deliver_settled [OF Cons.prems(1) c])
  have nth: "fst ?b ! j = (if j = i then r else fst b ! j)" for j
    using settled_length [OF Cons.prems(1)] c(1) by (cases b) (simp add: deliver_def)
  have "list_all (\<lambda>(j, q). j < length nodes \<and> pending (fst ?b ! j) \<and> verdict q \<and> te_NodeName q = pn_Name (nodes ! j)) irs"
    using Cons.prems(2,3) by (force simp: list_all_iff nth ir)
  then have IH: "settled nodes (fold (\<lambda>(i, r). deliver i r) irs ?b) \<and>
     (\<forall>j<length nodes. pending (fst (fold (\<lambda>(i, r). deliver i r) irs ?b) ! j) \<longleftrightarrow> pending (fst ?b ! j) \<and> j \<notin> fst ` set irs)"
    using Cons.prems(2) ir by (intro Cons.IH s) auto
  have "\<not> pending r" using c(3) pending_not_verdict by blast
  then show ?case using IH nth by (auto simp: ir)
qed simp

lemma fold_deliver_parts:
  "fst (fold (\<lambda>(i, r). deliver i r) irs b) = fold (\<lambda>(i, r) xs. xs[i := r]) irs (fst b)"
  "snd (fold (\<lambda>(i, r). deliver i r) irs b) = snd b @ map snd irs"
  by (induction irs arbitrary: b) (auto simp: deliver_def split: prod.splits)

lemma finish_loop_settled:
  assumes "msg \<noteq> []" "list_all (\<lambda>r. pending r \<or> verdict r) rs" "finish_loop msg rs = (rs', out)"
  shows "map te_NodeName rs' = map te_NodeName rs \<and> list_all verdict rs' \<and>
    mset rs' = mset (filter verdict rs) + mset out"
  using assms(2,3)
proof (induction rs arbitrary: rs' out)
  case (Cons r rs)
  obtain rs1 out1 where f: "finish_loop msg rs = (rs1, out1)" by fastforce
  have "pending r \<longleftrightarrow> \<not> (te_OK r \<or> te_Error r \<noteq> [])" by (auto simp: pending_def)
  moreover have "pending r \<Longrightarrow> verdict (r\<lparr>te_Error := msg\<rparr>)"
    using assms(1) by (simp add: pending_def verdict_def)
  ultimately show ?case using Cons.IH [OF _ f] Cons.prems f pending_not_verdict [of r]
    by (auto split: if_splits)
qed simp

lemma finish_settled:
  assumes "settled nodes b" "case err of None \<Rightarrow> list_all verdict (fst b) | Some e \<Rightarrow> err_text e \<noteq> []"
  shows "settled nodes (finishPendingTestResults err b) \<and> list_all verdict (fst (finishPendingTestResults err b))"
proof (cases err)
  case None
  then show ?thesis using assms by (simp add: finishPendingTestResults_def)
next
  case (Some e)
  obtain rs out where f: "finish_loop (err_text e) (fst b) = (rs, out)" by fastforce
  have "map te_NodeName rs = map te_NodeName (fst b) \<and> list_all verdict rs \<and>
    mset rs = mset (filter verdict (fst b)) + mset out"
    using assms Some by (intro finish_loop_settled [OF _ _ f]) (auto simp: settled_def)
  moreover from this have "filter verdict rs = rs" by (simp add: filter_id_conv list_all_iff)
  ultimately show ?thesis
    using assms(1) Some f by (auto simp: finishPendingTestResults_def settled_def list_all_iff)
qed

section \<open>The two groups\<close>

lemma new_result_simps [simp]:
  "te_NodeName (new_result at n) = pn_Name n" "te_OK (new_result at n) = False" "te_Error (new_result at n) = []"
  by (simp_all add: new_result_def)

lemma tcp_result_verdict: "verdict (tcp_result attempts at nodes i) \<and> te_NodeName (tcp_result attempts at nodes i) = pn_Name (nodes ! i)"
  using testTCPHandshake_outcome [of "attempts i" "nodes ! i"]
  by (cases "testTCPHandshake (attempts i) (nodes ! i)") (simp_all add: tcp_result_def verdict_def)

lemma fold_map_pair: "fold (\<lambda>x. deliver (g x) (f x)) xs b = fold (\<lambda>(i, r). deliver i r) (map (\<lambda>x. (g x, f x)) xs) b"
  by (simp add: fold_map o_def)

lemma testTCPNodes_settled:
  assumes "settled nodes b" "distinct sched" "list_all (\<lambda>i. i < length nodes \<and> pending (fst b ! i)) sched"
  shows "settled nodes (testTCPNodes attempts at nodes sched b) \<and>
    (\<forall>j<length nodes. pending (fst (testTCPNodes attempts at nodes sched b) ! j) \<longleftrightarrow> pending (fst b ! j) \<and> j \<notin> set sched)"
proof -
  let ?irs = "map (\<lambda>i. (i, tcp_result attempts at nodes i)) sched"
  have run: "testTCPNodes attempts at nodes sched b = fold (\<lambda>(i, r). deliver i r) ?irs b"
    unfolding testTCPNodes_def by (rule fold_map_pair)
  have keys: "map fst ?irs = sched" "fst ` set ?irs = set sched" by (simp_all add: comp_def image_image)
  have p: "list_all (\<lambda>(i, r). i < length nodes \<and> pending (fst b ! i) \<and> verdict r \<and> te_NodeName r = pn_Name (nodes ! i)) ?irs"
    using assms(3) tcp_result_verdict by (auto simp: list_all_iff)
  have "distinct (map fst ?irs)" unfolding keys by (rule assms(2))
  from fold_deliver [OF assms(1) this p] show ?thesis unfolding run keys .
qed

text \<open>Errors that are set while the batch is made up.\<close>

lemma set_error_settled:
  assumes "settled nodes b" "i < length nodes" "pending (fst b ! i)" "msg \<noteq> []"
  shows "settled nodes (set_error i msg b) \<and>
    (\<forall>j<length nodes. pending (fst (set_error i msg b) ! j) \<longleftrightarrow> pending (fst b ! j) \<and> j \<noteq> i)"
proof -
  let ?r = "(fst b ! i)\<lparr>te_Error := msg\<rparr>"
  have "te_NodeName (fst b ! i) = pn_Name (nodes ! i)"
    by (rule settled_name [OF assms(1,2)])
  then have "i < length nodes \<and> pending (fst b ! i) \<and> verdict ?r \<and> te_NodeName ?r = pn_Name (nodes ! i)"
    using assms(2-4) by (simp add: pending_def verdict_def)
  then have p: "list_all (\<lambda>(i, r). i < length nodes \<and> pending (fst b ! i) \<and> verdict r \<and> te_NodeName r = pn_Name (nodes ! i)) [(i, ?r)]"
    by simp
  have "distinct (map fst [(i, ?r)])" by simp
  moreover have "fold (\<lambda>(i, r). deliver i r) [(i, ?r)] b = set_error i msg b" "fst ` set [(i, ?r)] = {i}"
    by (simp_all add: set_error_def)
  ultimately show ?thesis using fold_deliver [OF assms(1) _ p] by (metis singleton_iff)
qed

lemma buildOutbound_error: "buildOutbound node = Inl e \<Longrightarrow> err_text e \<noteq> []"
  by (auto simp: buildOutbound_def format_text_nonempty split: if_splits)

lemma batch_outbounds_settled:
  "batch_outbounds k rest b = (obs, b') \<Longrightarrow> settled nodes b \<Longrightarrow> nodes = done @ rest \<Longrightarrow> k = length done \<Longrightarrow>
   (\<forall>j<length nodes. pending (fst b ! j) \<longleftrightarrow> k \<le> j \<or> j \<in> I) \<Longrightarrow> (\<forall>i\<in>I. i < k) \<Longrightarrow>
   settled nodes b' \<and> distinct (map bt_index obs) \<and> list_all (\<lambda>ob. k \<le> bt_index ob \<and> bt_index ob < length nodes \<and> bt_node ob = nodes ! bt_index ob) obs \<and>
   (\<forall>j<length nodes. pending (fst b' ! j) \<longleftrightarrow> j \<in> I \<union> bt_index ` set obs)"
proof (induction rest arbitrary: k b obs "done" I)
  case Nil
  then show ?case by auto
next
  case (Cons node rest)
  have k: "k < length nodes" "pending (fst b ! k)" "nodes ! k = node" using Cons.prems by auto
  have step: "nodes = (done @ [node]) @ rest" "Suc k = length (done @ [node])" using Cons.prems by auto
  have err: ?case if "batch_outbounds (Suc k) rest (set_error k msg b) = (obs, b')" "msg \<noteq> []" for msg
  proof -
    note s = set_error_settled [OF Cons.prems(2) k(1,2) that(2)]
    have "\<forall>j<length nodes. pending (fst (set_error k msg b) ! j) \<longleftrightarrow> Suc k \<le> j \<or> j \<in> I"
      using s Cons.prems(5,6) by auto
    moreover have "\<forall>i\<in>I. i < Suc k" using Cons.prems(6) by auto
    ultimately have "settled nodes b' \<and> distinct (map bt_index obs) \<and>
        list_all (\<lambda>ob. Suc k \<le> bt_index ob \<and> bt_index ob < length nodes \<and> bt_node ob = nodes ! bt_index ob) obs \<and>
        (\<forall>j<length nodes. pending (fst b' ! j) \<longleftrightarrow> j \<in> I \<union> bt_index ` set obs)"
      by (rule Cons.IH [OF that(1) conjunct1 [OF s] step])
    then show ?thesis by (simp add: list_all_iff Suc_le_eq less_imp_le)
  qed
  show ?case
  proof (cases "pn_Server node = [] \<or> pn_Port node \<le> 0")
    case True
    then show ?thesis using Cons.prems(1) by (intro err) auto
  next
    case False
    show ?thesis
    proof (cases "buildOutbound node")
      case (Inl e)
      then show ?thesis using Cons.prems(1) False buildOutbound_error by (intro err) auto
    next
      case (Inr ob)
      obtain obs1 where o: "batch_outbounds (Suc k) rest b = (obs1, b')"
        "obs = \<lparr>bt_index = k, bt_tag = batch_tag k, bt_node = node,
                bt_outbound = put_field ''tag'' (JString (batch_tag k)) ob\<rparr> # obs1"
        using Cons.prems(1) False Inr by (auto split: prod.splits)
      have "\<forall>j<length nodes. pending (fst b ! j) \<longleftrightarrow> Suc k \<le> j \<or> j \<in> insert k I"
        using Cons.prems(5) by (auto simp: le_eq_less_or_eq)
      moreover have "\<forall>i\<in>insert k I. i < Suc k" using Cons.prems(6) by auto
      ultimately have "settled nodes b' \<and> distinct (map bt_index obs1) \<and>
          list_all (\<lambda>ob. Suc k \<le> bt_index ob \<and> bt_index ob < length nodes \<and> bt_node ob = nodes ! bt_index ob) obs1 \<and>
          (\<forall>j<length nodes. pending (fst b' ! j) \<longleftrightarrow> j \<in> insert k I \<union> bt_index ` set obs1)"
        by (rule Cons.IH [OF o(1) Cons.prems(2) step])
      then show ?thesis using k(1,3) by (auto simp: o(2) list_all_iff Suc_le_eq less_imp_le)
    qed
  qed
qed

lemma none_pending:
  assumes "settled nodes b" "\<forall>j<length nodes. \<not> pending (fst b ! j)"
  shows "list_all verdict (fst b)"
  using assms settled_length [OF assms(1)] by (auto simp: settled_def list_all_length)

lemma settled_done:
  "settled nodes b \<Longrightarrow> list_all verdict (fst b) \<Longrightarrow> mset (snd b) = mset (fst b)"
  by (metis filter_id_conv list_all_iff settled_def)

text \<open>The errors that come from outside have a text.\<close>

definition env_speaks :: "nat \<Rightarrow> batch_env \<Rightarrow> bool" where
  "env_speaks n be \<longleftrightarrow>
     (case tv_wait (be_env be) of None \<Rightarrow> True | Some e \<Rightarrow> err_text e \<noteq> []) \<and>
     (case be_ctx be of None \<Rightarrow> True | Some e \<Rightarrow> err_text e \<noteq> []) \<and>
     list_all (\<lambda>i. case be_delays be i of (evs1, ctx, evs2) \<Rightarrow>
        ctx_speaks evs1 \<and> ctx_speaks evs2 \<and> (case ctx of None \<Rightarrow> True | Some e \<Rightarrow> err_text e \<noteq> [])) [0..<n]"

lemma env_speaks_fewer: "env_speaks n be \<Longrightarrow> m \<le> n \<Longrightarrow> env_speaks m be"
  unfolding env_speaks_def by (simp add: list_all_iff)

lemma core_indexes_length: "length (map ((!) nodes) (core_indexes nodes)) \<le> length nodes"
  using length_filter_le [of _ "[0..<length nodes]"] by (simp add: core_indexes_def)

lemma delay_result_verdict:
  assumes "env_speaks n be" "bt_index ob < n"
  shows "verdict (delay_result be at ob) \<and> te_NodeName (delay_result be at ob) = pn_Name (bt_node ob)"
proof -
  obtain evs1 ctx evs2 where d: "be_delays be (bt_index ob) = (evs1, ctx, evs2)" by (metis prod_cases3)
  have "ctx_speaks evs1" "ctx_speaks evs2" "case ctx of None \<Rightarrow> True | Some e \<Rightarrow> err_text e \<noteq> []"
    using assms d by (auto simp: env_speaks_def list_all_iff split: prod.splits)
  from delay_outcome [OF refl this, of "be_decode be" fastTestURLs] show ?thesis
    by (cases "testCoreDelayForTag (be_decode be) fastTestURLs evs1 ctx evs2")
      (simp_all add: delay_result_def d verdict_def)
qed

lemma test_core_error: "test_core env opts = Inl e \<Longrightarrow> err_text e \<noteq> []"
  by (auto simp: test_core_def Let_def format_text_nonempty split: if_splits option.splits)

lemma test_addresses_error: "test_addresses env = Inl e \<Longrightarrow> err_text e \<noteq> []"
  by (auto simp: test_addresses_def freeLoopbackAddr_def bind_result_def format_text_nonempty split: sum.splits)

lemma buildBatchTestConfig_error: "buildBatchTestConfig pf obs opts = Inl e \<Longrightarrow> err_text e \<noteq> []"
  by (auto simp: buildBatchTestConfig_def Let_def split: if_splits prod.splits)

lemma core_died_text: "err_text e \<noteq> [] \<Longrightarrow> core_died env e \<noteq> []"
  by (simp add: core_died_def Let_def)

lemma arrivals_settled:
  assumes "settled nodes b" "distinct (map bt_index obs)" "mset obs' = mset obs"
    and "list_all (\<lambda>ob. bt_index ob < length nodes \<and> bt_node ob = nodes ! bt_index ob) obs"
    and "\<forall>j<length nodes. pending (fst b ! j) \<longleftrightarrow> j \<in> bt_index ` set obs" "env_speaks (length nodes) be"
  shows "settled nodes (fold (\<lambda>ob. deliver (bt_index ob) (delay_result be at ob)) obs' b) \<and>
    list_all verdict (fst (fold (\<lambda>ob. deliver (bt_index ob) (delay_result be at ob)) obs' b))"
proof -
  let ?irs = "map (\<lambda>ob. (bt_index ob, delay_result be at ob)) obs'"
  have sets: "set obs' = set obs" using assms(3) mset_eq_setD by blast
  have keys: "map fst ?irs = map bt_index obs'" "fst ` set ?irs = bt_index ` set obs"
    by (simp_all add: comp_def image_image sets)
  have "mset (map bt_index obs') = mset (map bt_index obs)" using assms(3) by simp
  then have "distinct (map fst ?irs)" unfolding keys using assms(2) mset_eq_imp_distinct_iff by blast
  moreover have "list_all (\<lambda>(i, r). i < length nodes \<and> pending (fst b ! i) \<and> verdict r \<and> te_NodeName r = pn_Name (nodes ! i)) ?irs"
    using assms(4,5) delay_result_verdict [OF assms(6)] by (auto simp: list_all_iff sets)
  ultimately have f: "settled nodes (fold (\<lambda>(i, r). deliver i r) ?irs b) \<and>
      (\<forall>j<length nodes. pending (fst (fold (\<lambda>(i, r). deliver i r) ?irs b) ! j) \<longleftrightarrow> pending (fst b ! j) \<and> j \<notin> fst ` set ?irs)"
    by (rule fold_deliver [OF assms(1)])
  then have "list_all verdict (fst (fold (\<lambda>(i, r). deliver i r) ?irs b))"
    using assms(5) by (intro none_pending) (auto simp only: keys)
  with f show ?thesis unfolding fold_map_pair [where g = bt_index] by blast
qed

lemma testNodesWithCore_settled:
  assumes "env_speaks (length nodes) be" "\<And>obs. mset (arrived obs) = mset obs"
    and "testNodesWithCore be at arrived nodes opts0 = (b, acts)"
  shows "settled nodes b \<and> list_all verdict (fst b)"
proof -
  let ?b0 = "(map (new_result at) nodes, [])"
  obtain obs b1 where o: "batch_outbounds 0 nodes ?b0 = (obs, b1)" by (metis prod.collapse)
  have start: "\<forall>j<length nodes. pending (fst ?b0 ! j) \<longleftrightarrow> 0 \<le> j \<or> j \<in> {}" by (simp add: pending_def)
  have s: "settled nodes b1 \<and> distinct (map bt_index obs) \<and>
      list_all (\<lambda>ob. 0 \<le> bt_index ob \<and> bt_index ob < length nodes \<and> bt_node ob = nodes ! bt_index ob) obs \<and>
      (\<forall>j<length nodes. pending (fst b1 ! j) \<longleftrightarrow> j \<in> {} \<union> bt_index ` set obs)"
    by (rule batch_outbounds_settled [OF o settled_init _ _ start]) auto
  have fail: "settled nodes (finishPendingTestResults (Some e) b') \<and> list_all verdict (fst (finishPendingTestResults (Some e) b'))"
    if "settled nodes b'" "err_text e \<noteq> []" for e b'
    using finish_settled [OF that(1), of "Some e"] that(2) by simp
  have f0: "err_text e \<noteq> [] \<Longrightarrow> settled nodes (finishPendingTestResults (Some e) ?b0) \<and>
      list_all verdict (fst (finishPendingTestResults (Some e) ?b0))" for e
    by (rule fail [OF settled_init])
  have f1: "err_text e \<noteq> [] \<Longrightarrow> settled nodes (finishPendingTestResults (Some e) b1) \<and>
      list_all verdict (fst (finishPendingTestResults (Some e) b1))" for e
    by (rule fail [OF conjunct1 [OF s]])
  have all: "settled nodes b1 \<and> list_all verdict (fst b1)" if "obs = []"
    using s that by (auto intro: none_pending)
  let ?run = "fold (\<lambda>ob. deliver (bt_index ob) (delay_result be at ob)) (arrived obs) b1"
  have run: "settled nodes ?run \<and> list_all verdict (fst ?run)"
    using s by (intro arrivals_settled [OF _ _ assms(2) _ _ assms(1)]) (auto simp: list_all_iff)
  then have fin: "settled nodes (finishPendingTestResults (be_ctx be) ?run) \<and>
      list_all verdict (fst (finishPendingTestResults (be_ctx be) ?run))"
    using assms(1) by (intro finish_settled) (auto simp: env_speaks_def split: option.splits)
  have wait: "tv_wait (be_env be) = Some e \<Longrightarrow> err_text e \<noteq> []" for e
    using assms(1) by (simp add: env_speaks_def)
  show ?thesis
  proof (cases "nodes = []")
    case True
    then show ?thesis using assms(3) settled_init [of nodes at] by (auto simp: testNodesWithCore_def)
  next
    case False
    then show ?thesis
      using assms(3) o f0 f1 all fin wait test_core_error test_addresses_error buildBatchTestConfig_error core_died_text
      by (auto simp: testNodesWithCore_def Let_def format_text_nonempty
          split: sum.splits option.splits if_splits prod.splits)
  qed
qed

lemma reject_invalid_settled:
  assumes "settled nodes b" "list_all pending (fst b)"
  shows "settled nodes (reject_invalid nodes b) \<and>
    (\<forall>j<length nodes. pending (fst (reject_invalid nodes b) ! j) \<longleftrightarrow> \<not> invalid_node (nodes ! j))"
proof -
  let ?f = "\<lambda>i b. if invalid_node (nodes ! i) then set_error i ''proxy node has invalid server or port'' b else b"
  have "k \<le> length nodes \<Longrightarrow> settled nodes (fold ?f [0..<k] b) \<and>
      (\<forall>j<length nodes. pending (fst (fold ?f [0..<k] b) ! j) \<longleftrightarrow> k \<le> j \<or> \<not> invalid_node (nodes ! j))" for k
  proof (induction k)
    case 0
    then show ?case using assms settled_length [OF assms(1)] by (simp add: list_all_length)
  next
    case (Suc k)
    let ?b = "fold ?f [0..<k] b"
    have IH: "settled nodes ?b" "\<forall>j<length nodes. pending (fst ?b ! j) \<longleftrightarrow> k \<le> j \<or> \<not> invalid_node (nodes ! j)"
      using Suc by auto
    have k: "k < length nodes" "pending (fst ?b ! k)" using IH(2) Suc.prems by auto
    show ?case
    proof (cases "invalid_node (nodes ! k)")
      case True
      then show ?thesis using set_error_settled [OF IH(1) k, of "''proxy node has invalid server or port''"] IH(2)
        by (auto simp: le_eq_less_or_eq Suc_le_eq)
    next
      case False
      then show ?thesis using IH by (auto simp: le_eq_less_or_eq Suc_le_eq)
    qed
  qed
  from this [of "length nodes"] show ?thesis by (auto simp: reject_invalid_def)
qed

text \<open>The results of the core group are put back at their places.\<close>

lemma merge_settled:
  assumes "settled nodes b" "\<forall>j<length nodes. pending (fst b ! j) \<longleftrightarrow> j \<in> set core"
    and "distinct core" "list_all (\<lambda>i. i < length nodes) core"
    and "settled (map ((!) nodes) core) (rs, out)" "list_all verdict rs"
  shows "map te_NodeName (fold (\<lambda>(i, r) xs. xs[i := r]) (zip core rs) (fst b)) = map pn_Name nodes \<and>
    list_all verdict (fold (\<lambda>(i, r) xs. xs[i := r]) (zip core rs) (fst b)) \<and>
    mset (snd b @ out) = mset (fold (\<lambda>(i, r) xs. xs[i := r]) (zip core rs) (fst b))"
proof -
  let ?irs = "zip core rs"
  let ?b = "fold (\<lambda>(i, r). deliver i r) ?irs b"
  have len: "length rs = length core" using settled_length [OF assms(5)] by simp
  have keys: "map fst ?irs = core" "map snd ?irs = rs" "fst ` set ?irs = set core"
    using len by (simp_all flip: set_map)
  have names: "te_NodeName (rs ! k) = pn_Name (nodes ! (core ! k))" if "k < length core" for k
    using settled_name [OF assms(5)] that by simp
  have "distinct (map fst ?irs)" unfolding keys by (rule assms(3))
  moreover have "list_all (\<lambda>(i, r). i < length nodes \<and> pending (fst b ! i) \<and> verdict r \<and> te_NodeName r = pn_Name (nodes ! i)) ?irs"
    using assms(2,4,6) names len by (auto simp: list_all_length)
  ultimately have f: "settled nodes ?b \<and>
      (\<forall>j<length nodes. pending (fst ?b ! j) \<longleftrightarrow> pending (fst b ! j) \<and> j \<notin> fst ` set ?irs)"
    by (rule fold_deliver [OF assms(1)])
  then have v: "list_all verdict (fst ?b)" using assms(2) by (intro none_pending) (auto simp only: keys)
  have m: "mset (snd ?b) = mset (fst ?b)" using f v settled_done by blast
  have "mset out = mset rs" using settled_done [OF assms(5)] assms(6) by simp
  then show ?thesis using f v m by (simp add: fold_deliver_parts keys settled_def)
qed

section \<open>The whole batch\<close>

text \<open>Every node gets exactly one verdict: whatever fails, and in whatever order the workers deliver.\<close>

lemma TestNodes_verdicts:
  assumes "TestNodes be at sched arrived nodes opts = (results, out)"
    and "\<And>xs. mset (sched xs) = mset xs" "\<And>obs. mset (arrived obs) = mset obs"
    and "env_speaks (length nodes) be"
  shows "map te_NodeName results = map pn_Name nodes \<and> list_all verdict results \<and> mset out = mset results"
proof -
  let ?tcp = "tcp_indexes nodes" and ?core = "core_indexes nodes"
  let ?b1 = "reject_invalid nodes (map (new_result at) nodes, [])"
  let ?b2 = "testTCPNodes (be_attempts be) at nodes (sched ?tcp) ?b1"
  have b1: "settled nodes ?b1"
      "\<forall>j<length nodes. pending (fst ?b1 ! j) \<longleftrightarrow> \<not> invalid_node (nodes ! j)"
    using reject_invalid_settled [OF settled_init] by (auto simp: list_all_iff pending_def)
  have "distinct ?tcp" by (simp add: tcp_indexes_def)
  then have tcp: "set (sched ?tcp) = set ?tcp" "distinct (sched ?tcp)"
    using mset_eq_setD [OF assms(2)] mset_eq_imp_distinct_iff [OF assms(2)] by blast+
  have "list_all (\<lambda>i. i < length nodes \<and> pending (fst ?b1 ! i)) (sched ?tcp)"
    using b1(2) tcp(1) by (auto simp: list_all_iff tcp_indexes_def)
  then have "settled nodes ?b2 \<and>
      (\<forall>j<length nodes. pending (fst ?b2 ! j) \<longleftrightarrow> pending (fst ?b1 ! j) \<and> j \<notin> set (sched ?tcp))"
    by (rule testTCPNodes_settled [OF b1(1) tcp(2)])
  then have b2: "settled nodes ?b2" "\<forall>j<length nodes. pending (fst ?b2 ! j) \<longleftrightarrow> j \<in> set ?core"
    using b1(2) unfolding tcp(1) by (auto simp: core_indexes_def tcp_indexes_def)
  have no_tcp: "?tcp = [] \<Longrightarrow> ?b2 = ?b1" using tcp(1) by (simp add: testTCPNodes_def)
  have run: "TestNodes be at sched arrived nodes opts =
      (if ?core = [] then ?b2
       else (case fst (testNodesWithCore be at arrived (map ((!) nodes) ?core) opts) of
               (rs, out) \<Rightarrow> (fold (\<lambda>(i, r) xs. xs[i := r]) (zip ?core rs) (fst ?b2), snd ?b2 @ out)))"
    using no_tcp by (simp add: TestNodes_def Let_def)
  show ?thesis
  proof (cases "?core = []")
    case True
    then have v: "list_all verdict (fst ?b2)" using b2 by (intro none_pending) auto
    have "?b2 = (results, out)" using run assms(1) unfolding True by simp
    then show ?thesis using v settled_done [OF b2(1) v] settled_names [OF b2(1)] by simp
  next
    case False
    obtain rs o' acts where c: "testNodesWithCore be at arrived (map ((!) nodes) ?core) opts = ((rs, o'), acts)"
      by (metis prod.collapse)
    have "env_speaks (length (map ((!) nodes) ?core)) be"
      using assms(4) core_indexes_length by (rule env_speaks_fewer)
    from testNodesWithCore_settled [OF this assms(3) c]
    have s: "settled (map ((!) nodes) ?core) (rs, o')" "list_all verdict rs" by simp_all
    have "distinct ?core" "list_all (\<lambda>i. i < length nodes) ?core" by (simp_all add: core_indexes_def list_all_iff)
    from merge_settled [OF b2 this s] show ?thesis using run False c assms(1) by simp
  qed
qed

definition sample_batch :: batch_env where
  "sample_batch =
     \<lparr>be_env = \<lparr>tv_core = sample_core_env, tv_find = [], tv_mkdir = None, tv_listen = (\<lambda>_. Inr ''a''),
        tv_tmpdir = Inr ''/d'', tv_write = None, tv_check = None, tv_spawn = None, tv_wait = None, tv_output = []\<rparr>,
      be_attempts = (\<lambda>i k. (None, Inr 7000000)), be_decode = (\<lambda>_. Inl (Err ''x'')),
      be_delays = (\<lambda>i. ([], None, [])), be_ctx = None\<rparr>"

lemma sample_batch_speaks: "env_speaks n sample_batch"
  by (simp add: env_speaks_def sample_batch_def ctx_speaks_def list_all_iff)

lemma settledI:
  "map te_NodeName rs = map pn_Name nodes \<Longrightarrow> list_all verdict rs \<Longrightarrow> mset out = mset rs \<Longrightarrow> settled nodes (rs, out)"
  by (simp add: settled_def list_all_iff filter_id_conv [THEN iffD2])

lemma runner_TestNodes_settled:
  assumes "runner_TestNodes slot be at sched arrived nodes r = ((results, out), used)"
    and "\<And>xs. mset (sched xs) = mset xs" "\<And>obs. mset (arrived obs) = mset obs"
    and "env_speaks (length nodes) be" "case slot of Inl e \<Rightarrow> err_text e \<noteq> [] | Inr _ \<Rightarrow> True"
  shows "settled nodes (results, out) \<and> list_all verdict results"
proof (cases slot)
  case (Inl e)
  then show ?thesis using assms(1,5)
    by (auto simp: runner_TestNodes_def Let_def verdict_def list_all_iff comp_def intro!: settledI)
next
  case (Inr n)
  then have "TestNodes be at sched arrived nodes (normalizeOptions (ce_platform (tv_core (be_env be))) (rn_opts r)) = (results, out)"
    using assms(1) by (simp add: runner_TestNodes_def)
  from TestNodes_verdicts [OF this assms(2-4)] show ?thesis by (blast intro: settledI)
qed

end
