(* ===== verification/DesktopApp.thy ===== *)
theory DesktopApp
  imports Store SysProxy CoreBatch
begin

text \<open>
  The proxy side of the desktop application (\<open>client/app.go\<close>): the operations that its window
  calls, over the stored settings, the system proxy and the core runner.  One operation runs at a
  time; what the core does in between is an operation of its own.  The event log of the window,
  the tray and the window itself are left out, and after start-up all components exist.
\<close>

section \<open>State and surroundings\<close>

record App =
  ap_files :: files
  ap_reg :: registry_values
  ap_core :: core_world

text \<open>The answers to one call of \<open>start\<close>; \<open>sa_ready\<close>: the listeners did not come up, and how the
  process ended.\<close>

record start_answers =
  sa_env :: start_env
  sa_ready :: "(go_error \<times> go_error option \<times> string) option"

text \<open>
  The answers during one operation: to its reads, its \<open>k\<close>-th save and \<open>k\<close>-th change of the
  registry, to the query of the status and the starts of the core, and how a stopped core ends.
\<close>

record app_env =
  ae_read :: io
  ae_save :: "nat \<Rightarrow> io"
  ae_ids :: "nat \<Rightarrow> nat \<Rightarrow> string"
  ae_reg :: "nat \<Rightarrow> registry_answers"
  ae_speed :: "64 word \<Rightarrow> int \<Rightarrow> 64 word"
  ae_platform :: platform
  ae_found :: string
  ae_traffic :: "connectionTraffic result"
  ae_now :: int
  ae_start :: start_answers
  ae_retry :: start_answers
  ae_exit :: "go_error option \<times> string"

definition load_settings :: "Store \<Rightarrow> app_env \<Rightarrow> App \<Rightarrow> ClientSettings result" where
  "load_settings s env a = LoadSettings s (ae_read env) (ae_ids env 0) (ap_files a)"

definition save_settings :: "Store \<Rightarrow> app_env \<Rightarrow> nat \<Rightarrow> ClientSettings \<Rightarrow> App \<Rightarrow> go_error option \<times> App" where
  "save_settings s env k c a =
     (case SaveSettings s (ae_save env k) (ae_ids env (Suc k)) c (ap_files a) of (e, fs) \<Rightarrow> (e, a\<lparr>ap_files := fs\<rparr>))"

definition system_proxy :: "app_env \<Rightarrow> nat \<Rightarrow> bool \<Rightarrow> string \<Rightarrow> string \<Rightarrow> App \<Rightarrow> go_error option \<times> App" where
  "system_proxy env k on h so a =
     (case SetSystemProxy (ae_reg env k) on h so (ap_reg a) of (e, r) \<Rightarrow> (e, a\<lparr>ap_reg := r\<rparr>))"

definition active_nodes :: "Store \<Rightarrow> app_env \<Rightarrow> App \<Rightarrow> ProxyNode list result" where
  "active_nodes s env a = LoadActiveProxyNodes s (ae_read env) (ap_files a)"

definition app_core :: "app_env \<Rightarrow> core_event list \<Rightarrow> App \<Rightarrow> App" where
  "app_core env es a = a\<lparr>ap_core := core_run (ae_speed env) (ap_core a) es\<rparr>"

definition app_Status :: "app_env \<Rightarrow> App \<Rightarrow> CoreRunner.Status \<times> App" where
  "app_Status env a =
     (let r = cw_runner (ap_core a) in
      case runner_Status (ae_speed env) (ae_platform env) (ae_found env) (ae_traffic env) (ae_now env) r r of
        (st, r') \<Rightarrow> (st, a\<lparr>ap_core := (ap_core a)\<lparr>cw_runner := r'\<rparr>\<rparr>))"

section \<open>Starting and stopping the core\<close>

definition app_Stop :: "app_env \<Rightarrow> App \<Rightarrow> App" where
  "app_Stop env a =
     (case rn_cancel (cw_runner (ap_core a)) of
        None \<Rightarrow> a
      | Some p \<Rightarrow> app_core env [StopCall, Exits p (fst (ae_exit env)) (snd (ae_exit env)), Waited p] a)"

definition app_start_once :: "app_env \<Rightarrow> start_answers \<Rightarrow> ProxyNode \<Rightarrow> bool \<Rightarrow> App \<Rightarrow> go_error option \<times> App" where
  "app_start_once env sa node useRuleSets a =
     (let w = ap_core a; p = cw_next w; a1 = app_core env [Begin (sa_env sa) node useRuleSets] a in
      case fst (begin_start (sa_env sa) node useRuleSets p (cw_runner w) (cw_files w)) of
        Some e \<Rightarrow> (Some e, a1)
      | None \<Rightarrow>
          (case sa_ready sa of
             None \<Rightarrow> (None, app_core env [Ready p] a1)
           | Some (e, ended, logs) \<Rightarrow> (Some e, app_core env [NotReady p e, Exits p ended logs, Waited p, GaveUp p] a1)))"

definition app_Start :: "app_env \<Rightarrow> ProxyNode \<Rightarrow> App \<Rightarrow> go_error option \<times> App" where
  "app_Start env node a =
     (case app_start_once env (ae_start env) node True a of
        (first, a1) \<Rightarrow>
          if retries first
          then (case app_start_once env (ae_retry env) node False a1 of (err2, a2) \<Rightarrow> (Start_outcome first err2, a2))
          else (first, a1))"

section \<open>The system proxy\<close>

text \<open>The message asks to connect a node first.\<close>

definition connect_first :: go_error where
  "connect_first = Err
     [CHR 0xE8, CHR 0xAF, CHR 0xB7, CHR 0xE5, CHR 0x85, CHR 0x88, CHR 0xE8, CHR 0xBF, CHR 0x9E, CHR 0xE6, CHR 0x8E,
      CHR 0xA5, CHR 0xE8, CHR 0x8A, CHR 0x82, CHR 0xE7, CHR 0x82, CHR 0xB9, CHR 0xEF, CHR 0xBC, CHR 0x8C, CHR 0xE5,
      CHR 0x86, CHR 0x8D, CHR 0xE5, CHR 0x90, CHR 0xAF, CHR 0xE7, CHR 0x94, CHR 0xA8, CHR 0xE7, CHR 0xB3, CHR 0xBB,
      CHR 0xE7, CHR 0xBB, CHR 0x9F, CHR 0xE4, CHR 0xBB, CHR 0xA3, CHR 0xE7, CHR 0x90, CHR 0x86]"

definition enableSystemProxy ::
  "Store \<Rightarrow> app_env \<Rightarrow> nat \<Rightarrow> ClientSettings \<Rightarrow> App \<Rightarrow> go_error option \<times> App" where
  "enableSystemProxy s env k settings a =
     (case app_Status env a of
        (st, a1) \<Rightarrow>
          if ps_State st \<noteq> StateRunning then (Some connect_first, a1)
          else (case system_proxy env k True (ps_HTTPAddr st) (ps_SOCKSAddr st) a1 of
                  (Some e, a2) \<Rightarrow> (Some e, a2)
                | (None, a2) \<Rightarrow>
                    if set_SystemProxy settings then (None, a2)
                    else (case save_settings s env k (settings\<lparr>set_SystemProxy := True\<rparr>) a2 of
                            (Some e, a3) \<Rightarrow> (Some e, snd (system_proxy env (Suc k) False [] [] a3))
                          | (None, a3) \<Rightarrow> (None, a3))))"

definition reconcileSystemProxySetting ::
  "Store \<Rightarrow> app_env \<Rightarrow> ClientSettings \<Rightarrow> CoreRunner.Status \<Rightarrow> App \<Rightarrow> ClientSettings \<times> App" where
  "reconcileSystemProxySetting s env settings st a =
     (if \<not> set_SystemProxy settings \<or> ps_State st = StateRunning then (settings, a)
      else (case system_proxy env 0 False [] [] a of
              (Some e, a1) \<Rightarrow> (settings, a1)
            | (None, a1) \<Rightarrow>
                (let settings' = settings\<lparr>set_SystemProxy := False\<rparr>
                 in (settings', snd (save_settings s env 0 settings' a1)))))"

definition GetClientSettings :: "Store \<Rightarrow> app_env \<Rightarrow> App \<Rightarrow> ClientSettings result \<times> App" where
  "GetClientSettings s env a =
     (case load_settings s env a of
        Inl e \<Rightarrow> (Inl e, a)
      | Inr settings \<Rightarrow>
          (case app_Status env a of
             (st, a1) \<Rightarrow> (case reconcileSystemProxySetting s env settings st a1 of (c, a2) \<Rightarrow> (Inr c, a2))))"

definition ProxyStatus :: "Store \<Rightarrow> app_env \<Rightarrow> App \<Rightarrow> CoreRunner.Status \<times> App" where
  "ProxyStatus s env a =
     (case app_Status env a of
        (st, a1) \<Rightarrow>
          (case load_settings s env a1 of
             Inl e \<Rightarrow> (st, a1)
           | Inr settings \<Rightarrow> (st, snd (reconcileSystemProxySetting s env settings st a1))))"

definition SetSystemProxyEnabled :: "Store \<Rightarrow> app_env \<Rightarrow> bool \<Rightarrow> App \<Rightarrow> go_error option \<times> App" where
  "SetSystemProxyEnabled s env enabled a =
     (case load_settings s env a of
        Inl e \<Rightarrow> (Some e, a)
      | Inr settings \<Rightarrow>
          (case app_Status env a of
             (st, a1) \<Rightarrow>
               if enabled \<and> ps_State st \<noteq> StateRunning then (Some connect_first, a1)
               else (case system_proxy env 0 enabled (ps_HTTPAddr st) (ps_SOCKSAddr st) a1 of
                       (Some e, a2) \<Rightarrow> (Some e, a2)
                     | (None, a2) \<Rightarrow> save_settings s env 0 (settings\<lparr>set_SystemProxy := enabled\<rparr>) a2)))"

definition SetAutoStartEnabled :: "Store \<Rightarrow> app_env \<Rightarrow> bool \<Rightarrow> App \<Rightarrow> go_error option \<times> App" where
  "SetAutoStartEnabled s env enabled a =
     (case load_settings s env a of
        Inl e \<Rightarrow> (Some e, a)
      | Inr settings \<Rightarrow>
          (case SetAutoStart (ae_reg env 0) enabled (ap_reg a) of
             (Some e, r) \<Rightarrow> (Some e, a\<lparr>ap_reg := r\<rparr>)
           | (None, r) \<Rightarrow> save_settings s env 0 (settings\<lparr>set_AutoStart := enabled\<rparr>) (a\<lparr>ap_reg := r\<rparr>)))"

section \<open>Nodes\<close>

text \<open>Stopping: the system proxy first, so that no traffic goes to a core that is gone.\<close>

definition StopProxy :: "Store \<Rightarrow> app_env \<Rightarrow> App \<Rightarrow> go_error option \<times> App" where
  "StopProxy s env a =
     (let stop = (\<lambda>a. (None, app_Stop env a)) in
      case load_settings s env a of
        Inl _ \<Rightarrow> stop a
      | Inr settings \<Rightarrow>
          if \<not> set_SystemProxy settings then stop a
          else (case system_proxy env 0 False [] [] a of
                  (Some e, a1) \<Rightarrow> (Some e, a1)
                | (None, a1) \<Rightarrow>
                    (case save_settings s env 0 (settings\<lparr>set_SystemProxy := False\<rparr>) a1 of
                       (Some e, a2) \<Rightarrow> (Some e, a2)
                     | (None, a2) \<Rightarrow> stop a2)))"

definition app_modes :: "app_env \<Rightarrow> ClientSettings \<Rightarrow> App \<Rightarrow> App" where
  "app_modes env settings = app_core env [SetModeCall (set_ProxyMode settings), SetRulesCall (set_RuleModeRules settings)]"

text \<open>\<open>StartProxyNode\<close>; saves and registry calls are numbered in the order of the code.\<close>

definition connect_node :: "Store \<Rightarrow> app_env \<Rightarrow> ClientSettings \<Rightarrow> ProxyNode \<Rightarrow> App \<Rightarrow> go_error option \<times> App" where
  "connect_node s env settings node a =
     (case app_Start env node a of
        (Some e, a1) \<Rightarrow> (Some e, a1)
      | (None, a1) \<Rightarrow>
          (let settings' = settings\<lparr>set_SelectedProxyNodeID := pn_ID node,
                 set_SelectedProxySubscriptionID := pn_SubscriptionID node\<rparr> in
           case save_settings s env 0 settings' a1 of
             (Some e, a2) \<Rightarrow> (Some e, a2)
           | (None, a2) \<Rightarrow>
               (case enableSystemProxy s env 1 settings' a2 of
                  (Some e, a3) \<Rightarrow> (Some e, app_Stop env a3)
                | (None, a3) \<Rightarrow> (None, a3))))"

definition StartProxyNode :: "Store \<Rightarrow> app_env \<Rightarrow> string \<Rightarrow> App \<Rightarrow> go_error option \<times> App" where
  "StartProxyNode s env nodeName a =
     (case active_nodes s env a of
        Inl e \<Rightarrow> (Some e, a)
      | Inr nodes \<Rightarrow>
          (case load_settings s env a of
             Inl e \<Rightarrow> (Some e, a)
           | Inr settings \<Rightarrow>
               (let a1 = app_modes env settings a in
                case find (\<lambda>n. pn_Name n = nodeName) nodes of
                  None \<Rightarrow> (Some (Errf ''proxy node %q not found'' [nodeName]), a1)
                | Some node \<Rightarrow>
                    (case app_Status env a1 of
                       (st, a2) \<Rightarrow>
                         if ps_State st = StateRunning then
                           if ps_NodeName st = pn_Name node then enableSystemProxy s env 1 settings a2
                           else connect_node s env settings node (app_Stop env a2)
                         else connect_node s env settings node a2))))"

definition restartProxyNode :: "Store \<Rightarrow> app_env \<Rightarrow> string \<Rightarrow> ClientSettings \<Rightarrow> App \<Rightarrow> go_error option \<times> App" where
  "restartProxyNode s env nodeName settings a =
     (case active_nodes s env a of
        Inl e \<Rightarrow> (Some e, a)
      | Inr nodes \<Rightarrow>
          (case find (\<lambda>n. pn_Name n = nodeName) nodes of
             None \<Rightarrow> (Some (Errf ''proxy node %q not found'' [nodeName]), a)
           | Some node \<Rightarrow>
               (case app_Start env node (app_modes env settings (app_Stop env a)) of
                  (Some e, a1) \<Rightarrow> (Some e, a1)
                | (None, a1) \<Rightarrow> if set_SystemProxy settings then enableSystemProxy s env 1 settings a1 else (None, a1))))"

definition SetProxyMode :: "Store \<Rightarrow> app_env \<Rightarrow> string \<Rightarrow> App \<Rightarrow> go_error option \<times> App" where
  "SetProxyMode s env mode a =
     (case load_settings s env a of
        Inl e \<Rightarrow> (Some e, a)
      | Inr settings0 \<Rightarrow>
          (let settings = settings0\<lparr>set_ProxyMode := NormalizeMode mode\<rparr> in
           case save_settings s env 0 settings a of
             (Some e, a1) \<Rightarrow> (Some e, a1)
           | (None, a1) \<Rightarrow>
               (case app_Status env (app_modes env settings a1) of
                  (st, a2) \<Rightarrow>
                    if ps_State st = StateRunning \<and> ps_NodeName st \<noteq> []
                    then restartProxyNode s env (ps_NodeName st) settings a2 else (None, a2))))"

definition SetProxyRules :: "Store \<Rightarrow> app_env \<Rightarrow> ProxyRule list option \<Rightarrow> App \<Rightarrow> go_error option \<times> App" where
  "SetProxyRules s env rules0 a =
     (let rules = NormalizeProxyRules rules0 in
      case ValidateProxyRules rules of
        Some e \<Rightarrow> (Some e, a)
      | None \<Rightarrow>
          (case load_settings s env a of
             Inl e \<Rightarrow> (Some e, a)
           | Inr settings0 \<Rightarrow>
               (let settings = settings0\<lparr>set_RuleModeRules := rules\<rparr> in
                case save_settings s env 0 settings a of
                  (Some e, a1) \<Rightarrow> (Some e, a1)
                | (None, a1) \<Rightarrow>
                    (case app_Status env (app_core env [SetRulesCall rules] a1) of
                       (st, a2) \<Rightarrow>
                         if ps_State st = StateRunning \<and> ps_NodeName st \<noteq> [] \<and>
                            NormalizeMode (set_ProxyMode settings) = ProxyModeRule
                         then restartProxyNode s env (ps_NodeName st) settings a2 else (None, a2)))))"

definition SetSelectedProxyNode :: "Store \<Rightarrow> app_env \<Rightarrow> string \<Rightarrow> App \<Rightarrow> go_error option \<times> App" where
  "SetSelectedProxyNode s env nodeID0 a =
     (let nodeID = trim_space nodeID0 in
      case load_settings s env a of
        Inl e \<Rightarrow> (Some e, a)
      | Inr settings \<Rightarrow>
          if nodeID = []
          then save_settings s env 0 (settings\<lparr>set_SelectedProxyNodeID := [], set_SelectedProxySubscriptionID := []\<rparr>) a
          else (case active_nodes s env a of
                  Inl e \<Rightarrow> (Some e, a)
                | Inr nodes \<Rightarrow>
                    (case find (\<lambda>n. pn_ID n = nodeID) nodes of
                       None \<Rightarrow> (Some (Errf ''proxy node %q not found'' [nodeID]), a)
                     | Some node \<Rightarrow>
                         save_settings s env 0 (settings\<lparr>set_SelectedProxyNodeID := pn_ID node,
                           set_SelectedProxySubscriptionID := pn_SubscriptionID node\<rparr>) a)))"

section \<open>Subscriptions and the running node\<close>

definition stopProxyIfNodeSourceInactive :: "Store \<Rightarrow> app_env \<Rightarrow> App \<Rightarrow> go_error option \<times> App" where
  "stopProxyIfNodeSourceInactive s env a =
     (case app_Status env a of
        (st, a1) \<Rightarrow>
          if ps_State st \<noteq> StateRunning \<or> ps_NodeName st = [] then (None, a1)
          else (case active_nodes s env a1 of
                  Inl e \<Rightarrow> (Some e, a1)
                | Inr nodes \<Rightarrow>
                    if list_ex (\<lambda>n. pn_Name n = ps_NodeName st) nodes then (None, a1) else StopProxy s env a1))"

text \<open>\<open>save_subs\<close> answers the write of the subscriptions.\<close>

definition app_ToggleSubscription :: "Store \<Rightarrow> app_env \<Rightarrow> io \<Rightarrow> string \<Rightarrow> bool \<Rightarrow> App \<Rightarrow> go_error option \<times> App" where
  "app_ToggleSubscription s env save_subs i enabled a =
     (case SetSubscriptionEnabled s save_subs i enabled (ap_files a) of
        (Inl e, fs) \<Rightarrow> (Some e, a\<lparr>ap_files := fs\<rparr>)
      | (Inr src, fs) \<Rightarrow> stopProxyIfNodeSourceInactive s env (a\<lparr>ap_files := fs\<rparr>))"

definition app_DeleteSubscription :: "Store \<Rightarrow> io \<Rightarrow> string \<Rightarrow> App \<Rightarrow> go_error option \<times> App" where
  "app_DeleteSubscription s save_subs i a =
     (case DeleteSubscription s save_subs i (ap_files a) of (e, fs) \<Rightarrow> (e, a\<lparr>ap_files := fs\<rparr>))"

section \<open>Leaving\<close>

definition closeProxyForExit :: "Store \<Rightarrow> app_env \<Rightarrow> App \<Rightarrow> App" where
  "closeProxyForExit s env a =
     (case load_settings s env a of
        Inl _ \<Rightarrow>
          (case app_Status env a of
             (st, a1) \<Rightarrow>
               app_Stop env (if ps_State st = StateRunning then snd (system_proxy env 0 False [] [] a1) else a1))
      | Inr settings \<Rightarrow>
          app_Stop env
            (if set_SystemProxy settings then
               (case system_proxy env 0 False [] [] a of
                  (Some e, a1) \<Rightarrow> a1
                | (None, a1) \<Rightarrow> snd (save_settings s env 0 (settings\<lparr>set_SystemProxy := False\<rparr>) a1))
             else a))"

section \<open>What the parts leave alone\<close>

lemma app_core_rest [simp]: "ap_files (app_core env es a) = ap_files a" "ap_reg (app_core env es a) = ap_reg a"
  by (simp_all add: app_core_def)

lemma app_modes_rest [simp]: "ap_files (app_modes env c a) = ap_files a" "ap_reg (app_modes env c a) = ap_reg a"
  by (simp_all add: app_modes_def)

lemma app_Stop_rest [simp]: "ap_files (app_Stop env a) = ap_files a" "ap_reg (app_Stop env a) = ap_reg a"
  by (simp_all add: app_Stop_def split: option.split)

lemma app_start_once_rest [simp]:
  "ap_files (snd (app_start_once env sa node use a)) = ap_files a" "ap_reg (snd (app_start_once env sa node use a)) = ap_reg a"
  by (simp_all add: app_start_once_def Let_def split: option.split prod.split)

lemma app_Start_rest:
  assumes "app_Start env node a = (e, a')"
  shows "ap_files a' = ap_files a" "ap_reg a' = ap_reg a"
proof -
  obtain e1 a1 where one: "app_start_once env (ae_start env) node True a = (e1, a1)" by fastforce
  obtain e2 a2 where two: "app_start_once env (ae_retry env) node False a1 = (e2, a2)" by fastforce
  have "a' = a1 \<or> a' = a2" using assms one two by (simp add: app_Start_def split: if_splits)
  then show "ap_files a' = ap_files a" "ap_reg a' = ap_reg a"
    using app_start_once_rest [of env "ae_start env" node True a] app_start_once_rest [of env "ae_retry env" node False a1]
    unfolding one two by auto
qed

text \<open>The query of the status: what the operations read of it, and what it changes.\<close>

lemma applyTraffic_status:
  "ps_State (fst (applyTraffic ps t now st r)) = ps_State st"
  "ps_NodeName (fst (applyTraffic ps t now st r)) = ps_NodeName st"
  "ps_HTTPAddr (fst (applyTraffic ps t now st r)) = ps_HTTPAddr st"
  "ps_SOCKSAddr (fst (applyTraffic ps t now st r)) = ps_SOCKSAddr st"
  "rn_nodeName (snd (applyTraffic ps t now st r)) = rn_nodeName r"
  "rn_opts (snd (applyTraffic ps t now st r)) = rn_opts r"
  by (auto simp: applyTraffic_def Let_def split: option.split)

definition listen_addrs :: "app_env \<Rightarrow> App \<Rightarrow> string \<times> string" where
  "listen_addrs env a =
     (let o1 = normalizeOptions (ae_platform env) (rn_opts (cw_runner (ap_core a))) in (co_HTTPAddr o1, co_SOCKSAddr o1))"

text \<open>The parts of a state that only starting, stopping and setting modes changes.\<close>

definition same_core :: "App \<Rightarrow> App \<Rightarrow> bool" where
  "same_core a a' \<longleftrightarrow>
     rn_state (cw_runner (ap_core a')) = rn_state (cw_runner (ap_core a)) \<and>
     rn_nodeName (cw_runner (ap_core a')) = rn_nodeName (cw_runner (ap_core a)) \<and>
     rn_opts (cw_runner (ap_core a')) = rn_opts (cw_runner (ap_core a)) \<and>
     cw_alive (ap_core a') = cw_alive (ap_core a) \<and> (core_inv (ap_core a) \<longrightarrow> core_inv (ap_core a'))"

lemma same_core_refl [simp]: "same_core a a"
  by (simp add: same_core_def)

lemma same_core_trans [trans]: "same_core a b \<Longrightarrow> same_core b c \<Longrightarrow> same_core a c"
  by (simp add: same_core_def)

lemma status_of_fields:
  "status_of pf found r = (st, api) \<Longrightarrow>
   ps_State st = rn_state r \<and> ps_NodeName st = rn_nodeName r \<and>
   ps_HTTPAddr st = co_HTTPAddr (normalizeOptions pf (rn_opts r)) \<and> ps_SOCKSAddr st = co_SOCKSAddr (normalizeOptions pf (rn_opts r))"
  by (auto simp: status_of_def Let_def split: if_splits)

lemma runner_Status_cases:
  "runner_Status ps pf found ans now r r2 = (st, r') \<Longrightarrow> status_of pf found r = (st0, api) \<Longrightarrow>
   st = st0 \<and> r' = r2 \<or> (\<exists>t. applyTraffic ps t now st0 r2 = (st, r'))"
  unfolding runner_Status_def by (cases ans) (simp_all split: if_splits, blast)

lemma app_Status_fields:
  assumes "app_Status env a = (st, a')"
  shows "ps_State st = rn_state (cw_runner (ap_core a))" "ps_NodeName st = rn_nodeName (cw_runner (ap_core a))"
    "(ps_HTTPAddr st, ps_SOCKSAddr st) = listen_addrs env a"
    "ap_files a' = ap_files a" "ap_reg a' = ap_reg a" "same_core a a'"
proof -
  let ?r = "cw_runner (ap_core a)"
  obtain st0 api where s0: "status_of (ae_platform env) (ae_found env) ?r = (st0, api)" by fastforce
  obtain r' where r: "runner_Status (ae_speed env) (ae_platform env) (ae_found env) (ae_traffic env) (ae_now env) ?r ?r = (st, r')"
      "a' = a\<lparr>ap_core := (ap_core a)\<lparr>cw_runner := r'\<rparr>\<rparr>"
    using assms by (auto simp: app_Status_def Let_def split: prod.splits)
  consider "st = st0" "r' = ?r" | t where "applyTraffic (ae_speed env) t (ae_now env) st0 ?r = (st, r')"
    using runner_Status_cases [OF r(1) s0] by blast
  then have f: "ps_State st = ps_State st0 \<and> ps_NodeName st = ps_NodeName st0 \<and> ps_HTTPAddr st = ps_HTTPAddr st0 \<and>
      ps_SOCKSAddr st = ps_SOCKSAddr st0 \<and> rn_state r' = rn_state ?r \<and> rn_nodeName r' = rn_nodeName ?r \<and>
      rn_opts r' = rn_opts ?r \<and> rn_cmd r' = rn_cmd ?r \<and> rn_cancel r' = rn_cancel ?r"
    by cases (simp, metis fst_conv snd_conv applyTraffic_status applyTraffic_keeps)
  then show "ps_State st = rn_state ?r" "ps_NodeName st = rn_nodeName ?r"
    "(ps_HTTPAddr st, ps_SOCKSAddr st) = listen_addrs env a" "ap_files a' = ap_files a" "ap_reg a' = ap_reg a" "same_core a a'"
    using status_of_fields [OF s0] by (simp_all add: listen_addrs_def Let_def r(2) same_core_def core_inv_def)
qed

section \<open>The switch and its flag\<close>

definition settings_flag :: "Store \<Rightarrow> files \<Rightarrow> bool" where
  "settings_flag s fs \<longleftrightarrow> (case fs (st_settingsPath s) of Some (Settings c) \<Rightarrow> set_SystemProxy c | _ \<Rightarrow> False)"

lemma normalizeSettings_flag [simp]: "set_SystemProxy (normalizeSettings ids c) = set_SystemProxy c"
  by (simp add: normalizeSettings_def)

lemma load_flag: "load_settings s env a = Inr c \<Longrightarrow> set_SystemProxy c = settings_flag s (ap_files a)"
  by (auto simp: load_settings_def LoadSettings_def load_file_def settings_flag_def empty_settings_def
      split: sum.splits option.splits content.splits)

lemma save_effect:
  assumes "save_settings (store_New dir) env k c a = (e, a')"
  shows "settings_flag (store_New dir) (ap_files a') =
      (if e = None then set_SystemProxy c else settings_flag (store_New dir) (ap_files a))"
    "ap_reg a' = ap_reg a" "ap_core a' = ap_core a"
    "subs_of (store_New dir) (ap_files a') = subs_of (store_New dir) (ap_files a)"
proof -
  let ?s = "store_New dir"
  obtain fs where fs: "SaveSettings ?s (ae_save env k) (ae_ids env (Suc k)) c (ap_files a) = (e, fs)" "a' = a\<lparr>ap_files := fs\<rparr>"
    using assms by (auto simp: save_settings_def split: prod.splits)
  have "fs (st_settingsPath ?s) =
      (if e = None then Some (Settings (normalizeSettings (ae_ids env (Suc k)) c)) else ap_files a (st_settingsPath ?s))"
    using write_outcome [OF _ fs(1) [unfolded SaveSettings_def]] by simp
  then show "settings_flag ?s (ap_files a') = (if e = None then set_SystemProxy c else settings_flag ?s (ap_files a))"
    by (simp add: settings_flag_def fs(2))
  show "subs_of ?s (ap_files a') = subs_of ?s (ap_files a)" using SaveSettings_keeps [OF fs(1)] by (simp add: fs(2))
qed (use assms in \<open>auto simp: save_settings_def split: prod.splits\<close>)

lemma system_proxy_rest:
  "system_proxy env k on h so a = (e, a') \<Longrightarrow> ap_files a' = ap_files a \<and> ap_core a' = ap_core a"
  by (auto simp: system_proxy_def split: prod.splits)

lemma system_proxy_off:
  "system_proxy env k False h so a = (e, a') \<Longrightarrow> rg_ProxyEnable (ap_reg a') = (e \<noteq> None \<and> rg_ProxyEnable (ap_reg a))"
  by (auto simp: system_proxy_def split: prod.splits dest: SetSystemProxy_off)

lemma system_proxy_on:
  "system_proxy env k True h so a = (e, a') \<Longrightarrow>
   rg_ProxyEnable (ap_reg a') = (e = None \<or> rg_ProxyEnable (ap_reg a)) \<and> (e = None \<longrightarrow> rg_ProxyServer (ap_reg a') = buildProxyServer h so)"
  by (auto simp: system_proxy_def split: prod.splits dest: SetSystemProxy_on)

text \<open>
  The switch is on only while the stored settings say so: then the application, or its next run,
  knows that there is something to switch off.
\<close>

definition flagged :: "Store \<Rightarrow> App \<Rightarrow> bool" where
  "flagged s a \<longleftrightarrow> (rg_ProxyEnable (ap_reg a) \<longrightarrow> settings_flag s (ap_files a))"

text \<open>Settings can be saved throughout the operation.\<close>

definition saving_works :: "Store \<Rightarrow> app_env \<Rightarrow> bool" where
  "saving_works s env \<longleftrightarrow> (\<forall>k. \<exists>tmp rd. ae_save env k (st_settingsPath s) = (all_well tmp)\<lparr>a_read := rd\<rparr>)"

lemma saving_never_fails: "saving_works s env \<Longrightarrow> save_settings s env k c a = (e, a') \<Longrightarrow> e = None"
proof -
  assume w: "saving_works s env" and s: "save_settings s env k c a = (e, a')"
  obtain tmp rd where "ae_save env k (st_settingsPath s) = (all_well tmp)\<lparr>a_read := rd\<rparr>" using w unfolding saving_works_def by blast
  then show "e = None" using s
    by (simp add: save_settings_def SaveSettings_def writeFileAtomic_def write_steps_def all_well_def Let_def)
qed

lemma flagged_cong: "ap_reg a' = ap_reg a \<Longrightarrow> ap_files a' = ap_files a \<Longrightarrow> flagged s a' = flagged s a"
  by (simp add: flagged_def)

lemma flagged_off: "\<not> rg_ProxyEnable (ap_reg a) \<Longrightarrow> flagged s a"
  by (simp add: flagged_def)

lemma flagged_set: "settings_flag s (ap_files a) \<Longrightarrow> flagged s a"
  by (simp add: flagged_def)

text \<open>A success of \<open>enableSystemProxy\<close>, and its effect on the flag in every case.\<close>

lemma enableSystemProxy_ok:
  assumes "enableSystemProxy (store_New dir) env k c a = (None, a')" "set_SystemProxy c = settings_flag (store_New dir) (ap_files a)"
  shows "rn_state (cw_runner (ap_core a)) = StateRunning" "rg_ProxyEnable (ap_reg a')"
    "rg_ProxyServer (ap_reg a') = (case listen_addrs env a of (h, so) \<Rightarrow> buildProxyServer h so)"
    "settings_flag (store_New dir) (ap_files a')" "same_core a a'"
proof -
  obtain st a1 where st: "app_Status env a = (st, a1)" by fastforce
  note f = app_Status_fields [OF st]
  have run: "ps_State st = StateRunning" using assms(1) by (auto simp: enableSystemProxy_def st split: if_splits)
  then obtain a2 where a2: "system_proxy env k True (ps_HTTPAddr st) (ps_SOCKSAddr st) a1 = (None, a2)"
    using assms(1) by (auto simp: enableSystemProxy_def st split: prod.splits option.splits)
  have "a' = a2 \<and> set_SystemProxy c \<or> save_settings (store_New dir) env k (c\<lparr>set_SystemProxy := True\<rparr>) a2 = (None, a')"
    using assms(1) run by (auto simp: enableSystemProxy_def st a2 split: prod.splits option.splits if_splits)
  then have "settings_flag (store_New dir) (ap_files a') \<and> ap_reg a' = ap_reg a2 \<and> ap_core a' = ap_core a2"
  proof
    assume "a' = a2 \<and> set_SystemProxy c"
    then show ?thesis using system_proxy_rest [OF a2] f(4) assms(2) by simp
  next
    assume "save_settings (store_New dir) env k (c\<lparr>set_SystemProxy := True\<rparr>) a2 = (None, a')"
    from save_effect [OF this] show ?thesis by simp
  qed
  moreover have "(ps_HTTPAddr st, ps_SOCKSAddr st) = listen_addrs env a" by (rule f(3))
  ultimately show "rn_state (cw_runner (ap_core a)) = StateRunning" "rg_ProxyEnable (ap_reg a')"
    "rg_ProxyServer (ap_reg a') = (case listen_addrs env a of (h, so) \<Rightarrow> buildProxyServer h so)"
    "settings_flag (store_New dir) (ap_files a')" "same_core a a'"
    using run f(1,6) system_proxy_on [OF a2] system_proxy_rest [OF a2] by (auto simp: same_core_def split: prod.splits)
qed

lemma enableSystemProxy_same_core: "enableSystemProxy (store_New dir) env k c a = (e, a') \<Longrightarrow> same_core a a'"
proof -
  assume r: "enableSystemProxy (store_New dir) env k c a = (e, a')"
  obtain st a1 where st: "app_Status env a = (st, a1)" by fastforce
  have "ap_core a' = ap_core a1"
    using r by (auto simp: enableSystemProxy_def st split: if_splits prod.splits option.splits dest!: system_proxy_rest dest: save_effect(3))
      (metis prod.collapse system_proxy_rest save_effect(3))+
  then show "same_core a a'" using app_Status_fields(6) [OF st] by (simp add: same_core_def)
qed

lemma enableSystemProxy_flagged:
  assumes "enableSystemProxy (store_New dir) env k c a = (e, a')" "set_SystemProxy c = settings_flag (store_New dir) (ap_files a)"
    and "saving_works (store_New dir) env" "flagged (store_New dir) a"
  shows "flagged (store_New dir) a'"
proof (cases e)
  case None
  then show ?thesis using enableSystemProxy_ok(4) [of dir env k c a a'] assms(1,2) by (simp add: flagged_set)
next
  case (Some x)
  obtain st a1 where st: "app_Status env a = (st, a1)" by fastforce
  obtain e2 a2 where a2: "system_proxy env k True (ps_HTTPAddr st) (ps_SOCKSAddr st) a1 = (e2, a2)" by fastforce
  obtain e3 a3 where a3: "save_settings (store_New dir) env k (c\<lparr>set_SystemProxy := True\<rparr>) a2 = (e3, a3)" by fastforce
  have "e3 = None" using saving_never_fails [OF assms(3) a3] .
  then have "a' = a1 \<or> a' = a2 \<and> e2 \<noteq> None"
    using assms(1) Some by (auto simp: enableSystemProxy_def st a2 a3 split: if_splits option.splits)
  then show ?thesis
    using app_Status_fields(4,5) [OF st] system_proxy_on [OF a2] system_proxy_rest [OF a2] assms(4) by (auto simp: flagged_def)
qed

lemma reconcile_flagged:
  assumes "reconcileSystemProxySetting (store_New dir) env c st a = (c', a')" "flagged (store_New dir) a"
  shows "flagged (store_New dir) a'"
proof -
  obtain e a1 where a1: "system_proxy env 0 False [] [] a = (e, a1)" by fastforce
  obtain e2 a2 where a2: "save_settings (store_New dir) env 0 (c\<lparr>set_SystemProxy := False\<rparr>) a1 = (e2, a2)" by fastforce
  have "a' = a \<or> e \<noteq> None \<and> a' = a1 \<or> e = None \<and> a' = a2"
    using assms(1) by (auto simp: reconcileSystemProxySetting_def a1 a2 Let_def split: if_splits option.splits)
  then show ?thesis
    using assms(2) system_proxy_off [OF a1] system_proxy_rest [OF a1] save_effect(2) [OF a2] by (auto simp: flagged_def)
qed

lemma StopProxy_cases:
  assumes "StopProxy (store_New dir) env a = (e, a')"
  obtains (unread) x where "load_settings (store_New dir) env a = Inl x" "e = None" "a' = app_Stop env a"
    | (clear) c where "load_settings (store_New dir) env a = Inr c" "\<not> set_SystemProxy c" "e = None" "a' = app_Stop env a"
    | (stuck) a1 x where "system_proxy env 0 False [] [] a = (Some x, a1)" "e = Some x" "a' = a1"
    | (unsaved) a1 c x where "system_proxy env 0 False [] [] a = (None, a1)"
        "save_settings (store_New dir) env 0 (c\<lparr>set_SystemProxy := False\<rparr>) a1 = (Some x, a')" "e = Some x"
    | (off) a1 a2 c where "system_proxy env 0 False [] [] a = (None, a1)"
        "save_settings (store_New dir) env 0 (c\<lparr>set_SystemProxy := False\<rparr>) a1 = (None, a2)" "e = None" "a' = app_Stop env a2"
  using assms by (auto simp: StopProxy_def Let_def split: sum.splits if_splits prod.splits option.splits)

lemma StopProxy_flagged:
  assumes "StopProxy (store_New dir) env a = (e, a')" "flagged (store_New dir) a"
  shows "flagged (store_New dir) a'"
  using assms(1)
proof (cases rule: StopProxy_cases)
  case (stuck a1 x)
  then show ?thesis using assms(2) system_proxy_off [OF stuck(1)] system_proxy_rest [OF stuck(1)] by (simp add: flagged_def)
next
  case (unsaved a1 c x)
  then show ?thesis using system_proxy_off [OF unsaved(1)] save_effect(2) [OF unsaved(2)] by (simp add: flagged_def)
next
  case (off a1 a2 c)
  then show ?thesis using system_proxy_off [OF off(1)] save_effect(2) [OF off(2)] by (simp add: flagged_def)
qed (use assms(2) in \<open>simp_all add: flagged_def\<close>)

section \<open>The operations keep the flag and the core in order\<close>

definition app_inv :: "Store \<Rightarrow> App \<Rightarrow> bool" where
  "app_inv s a \<longleftrightarrow> flagged s a \<and> core_inv (ap_core a)"

lemma inv_app_core: "app_inv s a \<Longrightarrow> app_inv s (app_core env es a)"
  by (simp add: app_inv_def flagged_def app_core_def core.run_inv)

lemma inv_app_modes: "app_inv s a \<Longrightarrow> app_inv s (app_modes env c a)"
  unfolding app_modes_def by (rule inv_app_core)

lemma inv_app_Stop: "app_inv s a \<Longrightarrow> app_inv s (app_Stop env a)"
  by (simp add: app_Stop_def inv_app_core split: option.split)

lemma inv_start_once: "app_inv s a \<Longrightarrow> app_inv s (snd (app_start_once env sa node use a))"
  by (simp add: app_start_once_def Let_def inv_app_core split: option.split prod.split)

lemma inv_app_Start: "app_Start env node a = (e, a') \<Longrightarrow> app_inv s a \<Longrightarrow> app_inv s a'"
  using inv_start_once [of s a env "ae_start env" node True]
    inv_start_once [of s "snd (app_start_once env (ae_start env) node True a)" env "ae_retry env" node False]
  by (auto simp: app_Start_def split: prod.splits if_splits)

lemma inv_app_Status: "app_Status env a = (st, a') \<Longrightarrow> app_inv s a \<Longrightarrow> app_inv s a'"
  using app_Status_fields(4-6) [of env a st a'] by (simp add: app_inv_def flagged_def same_core_def)

lemma inv_save:
  assumes "save_settings (store_New dir) env k c a = (e, a')" "app_inv (store_New dir) a"
    and "set_SystemProxy c = settings_flag (store_New dir) (ap_files a) \<or> \<not> rg_ProxyEnable (ap_reg a) \<or> set_SystemProxy c"
  shows "app_inv (store_New dir) a'"
  using save_effect [OF assms(1)] assms(2,3) by (auto simp: app_inv_def flagged_def)

lemma inv_enable:
  "enableSystemProxy (store_New dir) env k c a = (e, a') \<Longrightarrow> app_inv (store_New dir) a \<Longrightarrow> saving_works (store_New dir) env \<Longrightarrow>
   set_SystemProxy c = settings_flag (store_New dir) (ap_files a) \<Longrightarrow> app_inv (store_New dir) a'"
  using enableSystemProxy_flagged enableSystemProxy_same_core by (fastforce simp: app_inv_def same_core_def)

lemma reconcile_core: "reconcileSystemProxySetting (store_New dir) env c st a = (c', a') \<Longrightarrow> ap_core a' = ap_core a"
  by (auto simp: reconcileSystemProxySetting_def Let_def split: if_splits prod.splits option.splits
      dest: system_proxy_rest save_effect(3)) (metis prod.collapse system_proxy_rest save_effect(3))

lemma inv_reconcile:
  "reconcileSystemProxySetting (store_New dir) env c st a = (c', a') \<Longrightarrow> app_inv (store_New dir) a \<Longrightarrow> app_inv (store_New dir) a'"
  using reconcile_flagged reconcile_core by (fastforce simp: app_inv_def)

lemma StopProxy_core:
  assumes "StopProxy (store_New dir) env a = (e, a')"
  shows "ap_core a' = ap_core a \<and> e \<noteq> None \<or> ap_core a' = ap_core (app_Stop env a) \<and> e = None"
  using assms
proof (cases rule: StopProxy_cases)
  case (off a1 a2 c)
  have "ap_core a2 = ap_core a" using system_proxy_rest [OF off(1)] save_effect(3) [OF off(2)] by simp
  then show ?thesis using off(3,4) by (simp add: app_Stop_def app_core_def split: option.split)
next
  case (unsaved a1 c x)
  then show ?thesis using system_proxy_rest [OF unsaved(1)] save_effect(3) [OF unsaved(2)] by simp
qed (use system_proxy_rest in auto)

lemma inv_StopProxy: "StopProxy (store_New dir) env a = (e, a') \<Longrightarrow> app_inv (store_New dir) a \<Longrightarrow> app_inv (store_New dir) a'"
  using StopProxy_flagged [of dir env a e a'] StopProxy_core [of dir env a e a'] inv_app_Stop [of "store_New dir" a env]
  by (auto simp: app_inv_def)

lemma inv_connect:
  assumes "connect_node (store_New dir) env c node a = (e, a')" "app_inv (store_New dir) a" "saving_works (store_New dir) env"
    and "set_SystemProxy c = settings_flag (store_New dir) (ap_files a)"
  shows "app_inv (store_New dir) a'"
proof -
  obtain e1 a1 where a1: "app_Start env node a = (e1, a1)" by fastforce
  let ?c = "c\<lparr>set_SelectedProxyNodeID := pn_ID node, set_SelectedProxySubscriptionID := pn_SubscriptionID node\<rparr>"
  obtain e2 a2 where a2: "save_settings (store_New dir) env 0 ?c a1 = (e2, a2)" by fastforce
  obtain e3 a3 where a3: "enableSystemProxy (store_New dir) env 1 ?c a2 = (e3, a3)" by fastforce
  note i1 = inv_app_Start [OF a1 assms(2)]
  have fl: "set_SystemProxy ?c = settings_flag (store_New dir) (ap_files a1)" using assms(4) app_Start_rest [OF a1] by simp
  have i2: "app_inv (store_New dir) a2" using inv_save [OF a2 i1] fl by blast
  have "set_SystemProxy ?c = settings_flag (store_New dir) (ap_files a2)"
    using save_effect(1) [OF a2] saving_never_fails [OF assms(3) a2] by simp
  then have i3: "app_inv (store_New dir) a3" by (rule inv_enable [OF a3 i2 assms(3)])
  have "a' = a1 \<or> a' = a2 \<or> a' = a3 \<or> a' = app_Stop env a3"
    using assms(1) a1 a2 a3 by (auto simp: connect_node_def Let_def split: option.splits)
  then show ?thesis using i1 i2 i3 inv_app_Stop by blast
qed

lemma inv_StartProxyNode:
  assumes "StartProxyNode (store_New dir) env name a = (e, a')" "app_inv (store_New dir) a" "saving_works (store_New dir) env"
  shows "app_inv (store_New dir) a'"
proof (cases "active_nodes (store_New dir) env a")
  case (Inr nodes)
  show ?thesis
  proof (cases "load_settings (store_New dir) env a")
    case (Inr c)
    let ?a1 = "app_modes env c a"
    obtain st a2 where st: "app_Status env ?a1 = (st, a2)" by fastforce
    have i2: "app_inv (store_New dir) a2" using st inv_app_modes [OF assms(2)] by (rule inv_app_Status)
    have fl: "set_SystemProxy c = settings_flag (store_New dir) (ap_files a2)"
      using load_flag [OF Inr] app_Status_fields(4) [OF st] by simp
    have "a' = ?a1 \<or> enableSystemProxy (store_New dir) env 1 c a2 = (e, a') \<or>
        (\<exists>node. connect_node (store_New dir) env c node (app_Stop env a2) = (e, a')) \<or>
        (\<exists>node. connect_node (store_New dir) env c node a2 = (e, a'))"
      using assms(1) \<open>active_nodes _ _ _ = _\<close> Inr st
      by (auto simp: StartProxyNode_def Let_def split: option.splits if_splits)
    then show ?thesis
      using inv_app_modes [OF assms(2)] inv_enable [OF _ i2 assms(3) fl] inv_connect [OF _ i2 assms(3) fl]
        inv_connect [OF _ inv_app_Stop [OF i2] assms(3)] fl by auto
  qed (use assms Inr in \<open>simp add: StartProxyNode_def\<close>)
qed (use assms in \<open>simp add: StartProxyNode_def\<close>)

lemma inv_restart:
  assumes "restartProxyNode (store_New dir) env name c a = (e, a')" "app_inv (store_New dir) a" "saving_works (store_New dir) env"
    and "set_SystemProxy c = settings_flag (store_New dir) (ap_files a)"
  shows "app_inv (store_New dir) a'"
proof (cases "\<exists>nodes node. active_nodes (store_New dir) env a = Inr nodes \<and> find (\<lambda>n. pn_Name n = name) nodes = Some node")
  case True
  then obtain nodes node where n: "active_nodes (store_New dir) env a = Inr nodes" "find (\<lambda>n. pn_Name n = name) nodes = Some node" by blast
  obtain e1 a1 where a1: "app_Start env node (app_modes env c (app_Stop env a)) = (e1, a1)" by fastforce
  have i1: "app_inv (store_New dir) a1" using a1 inv_app_modes [OF inv_app_Stop [OF assms(2)]] by (rule inv_app_Start)
  have "set_SystemProxy c = settings_flag (store_New dir) (ap_files a1)" using assms(4) app_Start_rest [OF a1] by simp
  moreover have "a' = a1 \<or> enableSystemProxy (store_New dir) env 1 c a1 = (e, a')"
    using assms(1) n a1 by (auto simp: restartProxyNode_def split: option.splits if_splits)
  ultimately show ?thesis using i1 inv_enable [OF _ i1 assms(3)] by blast
qed (use assms(1,2) in \<open>auto simp: restartProxyNode_def split: sum.splits option.splits\<close>)

lemma inv_SetProxyMode:
  assumes "SetProxyMode (store_New dir) env mode a = (e, a')" "app_inv (store_New dir) a" "saving_works (store_New dir) env"
  shows "app_inv (store_New dir) a'"
proof (cases "load_settings (store_New dir) env a")
  case (Inr c0)
  let ?c = "c0\<lparr>set_ProxyMode := NormalizeMode mode\<rparr>"
  obtain e1 a1 where a1: "save_settings (store_New dir) env 0 ?c a = (e1, a1)" by fastforce
  have ok: "e1 = None" using assms(3) a1 by (rule saving_never_fails)
  obtain st a2 where st: "app_Status env (app_modes env ?c a1) = (st, a2)" by fastforce
  have "app_inv (store_New dir) a1" using inv_save [OF a1 assms(2)] load_flag [OF Inr] by simp
  then have i2: "app_inv (store_New dir) a2" using inv_app_Status [OF st] inv_app_modes by blast
  have "set_SystemProxy ?c = settings_flag (store_New dir) (ap_files a2)"
    using save_effect(1) [OF a1] app_Status_fields(4) [OF st] ok by simp
  moreover have "a' = a2 \<or> restartProxyNode (store_New dir) env (ps_NodeName st) ?c a2 = (e, a')"
    using assms(1) Inr a1 st ok by (auto simp: SetProxyMode_def Let_def split: if_splits)
  ultimately show ?thesis using i2 inv_restart [OF _ i2 assms(3)] by blast
qed (use assms in \<open>simp add: SetProxyMode_def\<close>)

lemma inv_SetProxyRules:
  assumes "SetProxyRules (store_New dir) env rules0 a = (e, a')" "app_inv (store_New dir) a" "saving_works (store_New dir) env"
  shows "app_inv (store_New dir) a'"
proof (cases "\<exists>c0. ValidateProxyRules (NormalizeProxyRules rules0) = None \<and> load_settings (store_New dir) env a = Inr c0")
  case True
  then obtain c0 where v: "ValidateProxyRules (NormalizeProxyRules rules0) = None" and c0: "load_settings (store_New dir) env a = Inr c0"
    by blast
  let ?c = "c0\<lparr>set_RuleModeRules := NormalizeProxyRules rules0\<rparr>"
  obtain e1 a1 where a1: "save_settings (store_New dir) env 0 ?c a = (e1, a1)" by fastforce
  have ok: "e1 = None" using assms(3) a1 by (rule saving_never_fails)
  obtain st a2 where st: "app_Status env (app_core env [SetRulesCall (NormalizeProxyRules rules0)] a1) = (st, a2)" by fastforce
  have "app_inv (store_New dir) a1" using inv_save [OF a1 assms(2)] load_flag [OF c0] by simp
  then have i2: "app_inv (store_New dir) a2" using inv_app_Status [OF st] inv_app_core by blast
  have "set_SystemProxy ?c = settings_flag (store_New dir) (ap_files a2)"
    using save_effect(1) [OF a1] app_Status_fields(4) [OF st] ok by simp
  moreover have "a' = a2 \<or> restartProxyNode (store_New dir) env (ps_NodeName st) ?c a2 = (e, a')"
    using assms(1) v c0 a1 st ok by (auto simp: SetProxyRules_def Let_def split: if_splits)
  ultimately show ?thesis using i2 inv_restart [OF _ i2 assms(3)] by blast
qed (use assms(1,2) in \<open>auto simp: SetProxyRules_def Let_def split: option.splits sum.splits\<close>)

lemma inv_SetSystemProxyEnabled:
  assumes "SetSystemProxyEnabled (store_New dir) env on a = (e, a')" "app_inv (store_New dir) a" "saving_works (store_New dir) env"
  shows "app_inv (store_New dir) a'"
proof (cases "load_settings (store_New dir) env a")
  case (Inr c)
  obtain st a1 where st: "app_Status env a = (st, a1)" by fastforce
  obtain e2 a2 where a2: "system_proxy env 0 on (ps_HTTPAddr st) (ps_SOCKSAddr st) a1 = (e2, a2)" by fastforce
  obtain e3 a3 where a3: "save_settings (store_New dir) env 0 (c\<lparr>set_SystemProxy := on\<rparr>) a2 = (e3, a3)" by fastforce
  have i1: "app_inv (store_New dir) a1" using st assms(2) by (rule inv_app_Status)
  have sw: "rg_ProxyEnable (ap_reg a2) = (if e2 = None then on else rg_ProxyEnable (ap_reg a1))"
    using a2 system_proxy_on [of env 0 "ps_HTTPAddr st" "ps_SOCKSAddr st" a1 e2 a2]
      system_proxy_off [of env 0 "ps_HTTPAddr st" "ps_SOCKSAddr st" a1 e2 a2] by (cases on) auto
  have "app_inv (store_New dir) a2" if "e2 \<noteq> None"
    using i1 sw that system_proxy_rest [OF a2] by (simp add: app_inv_def flagged_def)
  moreover have "app_inv (store_New dir) a3" if "e2 = None"
    using i1 sw that system_proxy_rest [OF a2] save_effect [OF a3] saving_never_fails [OF assms(3) a3]
    by (simp add: app_inv_def flagged_def)
  moreover have "a' = a1 \<or> a' = a2 \<and> e2 \<noteq> None \<or> a' = a3 \<and> e2 = None"
    using assms(1) Inr st a2 a3 by (auto simp: SetSystemProxyEnabled_def split: if_splits option.splits)
  ultimately show ?thesis using i1 by blast
qed (use assms in \<open>simp add: SetSystemProxyEnabled_def\<close>)

lemma SetAutoStart_switch: "SetAutoStart w on r = (e, r') \<Longrightarrow> rg_ProxyEnable r' = rg_ProxyEnable r"
  by (auto simp: SetAutoStart_def split: option.splits sum.splits prod.splits if_splits)

lemma inv_SetAutoStartEnabled:
  assumes "SetAutoStartEnabled (store_New dir) env on a = (e, a')" "app_inv (store_New dir) a"
  shows "app_inv (store_New dir) a'"
proof (cases "load_settings (store_New dir) env a")
  case (Inr c)
  obtain e1 r where r: "SetAutoStart (ae_reg env 0) on (ap_reg a) = (e1, r)" by fastforce
  obtain e2 a2 where a2: "save_settings (store_New dir) env 0 (c\<lparr>set_AutoStart := on\<rparr>) (a\<lparr>ap_reg := r\<rparr>) = (e2, a2)" by fastforce
  have i: "app_inv (store_New dir) (a\<lparr>ap_reg := r\<rparr>)"
    using assms(2) SetAutoStart_switch [OF r] by (simp add: app_inv_def flagged_def)
  have "app_inv (store_New dir) a2" using inv_save [OF a2 i] load_flag [OF Inr] by simp
  moreover have "a' = a\<lparr>ap_reg := r\<rparr> \<or> a' = a2"
    using assms(1) Inr r a2 by (auto simp: SetAutoStartEnabled_def split: option.splits)
  ultimately show ?thesis using i by blast
qed (use assms in \<open>simp add: SetAutoStartEnabled_def\<close>)

lemma inv_SetSelectedProxyNode:
  assumes "SetSelectedProxyNode (store_New dir) env i a = (e, a')" "app_inv (store_New dir) a"
  shows "app_inv (store_New dir) a'"
proof (cases "load_settings (store_New dir) env a")
  case (Inr c)
  have "a' = a \<or> (\<exists>x y. save_settings (store_New dir) env 0
      (c\<lparr>set_SelectedProxyNodeID := x, set_SelectedProxySubscriptionID := y\<rparr>) a = (e, a'))"
    using assms(1) Inr by (auto simp: SetSelectedProxyNode_def Let_def split: if_splits sum.splits option.splits)
  then show ?thesis using inv_save [OF _ assms(2)] load_flag [OF Inr] assms(2) by auto
qed (use assms in \<open>simp add: SetSelectedProxyNode_def Let_def\<close>)

text \<open>Writes of other files leave the settings.\<close>

lemma other_write_flag:
  assumes "writeFileAtomic (store_New dir) io path data fs = (e, fs')"
    and "path = st_subsPath (store_New dir) \<or> path = st_proxyNodesPath (store_New dir)"
  shows "settings_flag (store_New dir) fs' = settings_flag (store_New dir) fs"
proof -
  have "fs' (st_settingsPath (store_New dir)) = fs (st_settingsPath (store_New dir))"
    using assms(2) by (intro write_outcome_other [OF assms(1)]) auto
  then show ?thesis by (simp add: settings_flag_def)
qed

lemma SetSubscriptionEnabled_flag:
  "SetSubscriptionEnabled (store_New dir) io i on fs = (r, fs') \<Longrightarrow> settings_flag (store_New dir) fs' = settings_flag (store_New dir) fs"
  by (auto simp: SetSubscriptionEnabled_def SaveSubscriptions_def split: sum.splits option.splits prod.splits dest: other_write_flag)

lemma DeleteSubscription_flag:
  "DeleteSubscription (store_New dir) io i fs = (e, fs') \<Longrightarrow> settings_flag (store_New dir) fs' = settings_flag (store_New dir) fs"
  unfolding DeleteSubscription_def DeleteProxyNodesBySubscriptionID_def SaveSubscriptions_def SaveProxyNodes_def Let_def
  by (auto split: sum.splits option.splits prod.splits if_splits dest!: other_write_flag)

lemma inv_stop_inactive:
  assumes "stopProxyIfNodeSourceInactive (store_New dir) env a = (e, a')" "app_inv (store_New dir) a"
  shows "app_inv (store_New dir) a'"
proof -
  obtain st a1 where st: "app_Status env a = (st, a1)" by fastforce
  note i1 = inv_app_Status [OF st assms(2)]
  have "a' = a1 \<or> StopProxy (store_New dir) env a1 = (e, a')"
    using assms(1) st by (auto simp: stopProxyIfNodeSourceInactive_def split: if_splits sum.splits)
  then show ?thesis using i1 inv_StopProxy [OF _ i1] by blast
qed

lemma inv_toggle:
  assumes "app_ToggleSubscription (store_New dir) env io i on a = (e, a')" "app_inv (store_New dir) a"
  shows "app_inv (store_New dir) a'"
proof -
  obtain r fs where r: "SetSubscriptionEnabled (store_New dir) io i on (ap_files a) = (r, fs)" by fastforce
  have "app_inv (store_New dir) (a\<lparr>ap_files := fs\<rparr>)"
    using assms(2) SetSubscriptionEnabled_flag [OF r] by (simp add: app_inv_def flagged_def)
  then show ?thesis
    using assms(1) r inv_stop_inactive by (auto simp: app_ToggleSubscription_def split: sum.splits)
qed

lemma inv_delete:
  "app_DeleteSubscription (store_New dir) io i a = (e, a') \<Longrightarrow> app_inv (store_New dir) a \<Longrightarrow> app_inv (store_New dir) a'"
  by (auto simp: app_DeleteSubscription_def app_inv_def flagged_def split: prod.splits dest: DeleteSubscription_flag)

text \<open>What leaving does to the switch: the settings were read, or they were not.\<close>

lemma leave_cases:
  obtains (unread) a1 where "closeProxyForExit (store_New dir) env a = app_Stop env a1"
      "rg_ProxyEnable (ap_reg a1) \<longrightarrow> rg_ProxyEnable (ap_reg a)" "ap_files a1 = ap_files a" "same_core a a1"
      "\<exists>x. load_settings (store_New dir) env a = Inl x"
    | (off) c where "load_settings (store_New dir) env a = Inr c" "\<not> set_SystemProxy c" "closeProxyForExit (store_New dir) env a = app_Stop env a"
    | (on) c e a1 where "load_settings (store_New dir) env a = Inr c" "set_SystemProxy c" "system_proxy env 0 False [] [] a = (e, a1)"
      "closeProxyForExit (store_New dir) env a = app_Stop env
         (if e = None then snd (save_settings (store_New dir) env 0 (c\<lparr>set_SystemProxy := False\<rparr>) a1) else a1)"
proof (cases "load_settings (store_New dir) env a")
  case (Inl x)
  obtain st a1 where st: "app_Status env a = (st, a1)" by fastforce
  obtain e a2 where a2: "system_proxy env 0 False [] [] a1 = (e, a2)" by fastforce
  note f = app_Status_fields(4-6) [OF st]
  show thesis
  proof (rule unread [of "if ps_State st = StateRunning then a2 else a1"])
    show "closeProxyForExit (store_New dir) env a = app_Stop env (if ps_State st = StateRunning then a2 else a1)"
      by (simp add: closeProxyForExit_def Inl st a2)
  qed (use f Inl system_proxy_off [OF a2] system_proxy_rest [OF a2] in \<open>auto simp: same_core_def\<close>)
next
  case (Inr c)
  obtain e a1 where a1: "system_proxy env 0 False [] [] a = (e, a1)" by fastforce
  show thesis
    using off [OF Inr] on [OF Inr _ a1]
    by (cases "set_SystemProxy c") (auto simp: closeProxyForExit_def Inr a1 split: option.splits)
qed

lemma inv_leave:
  assumes "app_inv (store_New dir) a"
  shows "app_inv (store_New dir) (closeProxyForExit (store_New dir) env a)"
  using leave_cases [of dir env a]
proof cases
  case (unread a1)
  then have "app_inv (store_New dir) a1" using assms by (auto simp: app_inv_def flagged_def same_core_def)
  then show ?thesis unfolding unread(1) by (rule inv_app_Stop)
next
  case (off c)
  show ?thesis unfolding off(3) using assms by (rule inv_app_Stop)
next
  case (on c e a1)
  obtain e2 a2 where a2: "save_settings (store_New dir) env 0 (c\<lparr>set_SystemProxy := False\<rparr>) a1 = (e2, a2)" by fastforce
  have i1: "app_inv (store_New dir) a1"
    using assms system_proxy_off [OF on(3)] system_proxy_rest [OF on(3)] by (auto simp: app_inv_def flagged_def)
  have "app_inv (store_New dir) a2" if "e = None"
    using inv_save [OF a2 i1] system_proxy_off [OF on(3)] that by simp
  then show ?thesis unfolding on(4) a2 using i1 by (auto intro: inv_app_Stop)
qed

section \<open>Courses of operations\<close>

datatype app_op =
    AskStatus | AskSettings
  | SwitchSystemProxy bool | SwitchAutoStart bool
  | ConnectNode string | SelectNode string | Disconnect
  | ChangeMode string | ChangeRules "ProxyRule list option"
  | ToggleSource io string bool | DeleteSource io string
  | CoreEvents "core_event list" | Leave

fun app_step :: "Store \<Rightarrow> app_env \<Rightarrow> app_op \<Rightarrow> App \<Rightarrow> App" where
  "app_step s env AskStatus a = snd (ProxyStatus s env a)"
| "app_step s env AskSettings a = snd (GetClientSettings s env a)"
| "app_step s env (SwitchSystemProxy on) a = snd (SetSystemProxyEnabled s env on a)"
| "app_step s env (SwitchAutoStart on) a = snd (SetAutoStartEnabled s env on a)"
| "app_step s env (ConnectNode name) a = snd (StartProxyNode s env name a)"
| "app_step s env (SelectNode i) a = snd (SetSelectedProxyNode s env i a)"
| "app_step s env Disconnect a = snd (StopProxy s env a)"
| "app_step s env (ChangeMode mode) a = snd (SetProxyMode s env mode a)"
| "app_step s env (ChangeRules rules) a = snd (SetProxyRules s env rules a)"
| "app_step s env (ToggleSource io i on) a = snd (app_ToggleSubscription s env io i on a)"
| "app_step s env (DeleteSource io i) a = snd (app_DeleteSubscription s io i a)"
| "app_step s env (CoreEvents es) a = app_core env es a"
| "app_step s env Leave a = closeProxyForExit s env a"

text \<open>Operations in whose time the settings can be saved; everything else may fail.\<close>

inductive app_does :: "Store \<Rightarrow> App \<Rightarrow> app_env \<times> app_op \<Rightarrow> App \<Rightarrow> bool" for s :: Store where
  app_doesI: "saving_works s env \<Longrightarrow> app_does s a (env, op) (app_step s env op a)"

inductive_cases app_doesE: "app_does s a e a'"

definition app_init :: "Store \<Rightarrow> App \<Rightarrow> bool" where
  "app_init s a \<longleftrightarrow> flagged s a \<and> (\<exists>pf opts fs. ap_core a = core_init pf opts fs)"

lemma inv_GetClientSettings:
  "GetClientSettings (store_New dir) env a = (r, a') \<Longrightarrow> app_inv (store_New dir) a \<Longrightarrow> app_inv (store_New dir) a'"
  by (auto simp: GetClientSettings_def split: sum.splits prod.splits dest: inv_app_Status inv_reconcile)

lemma inv_ProxyStatus:
  "ProxyStatus (store_New dir) env a = (st, a') \<Longrightarrow> app_inv (store_New dir) a \<Longrightarrow> app_inv (store_New dir) a'"
  by (auto simp: ProxyStatus_def split: sum.splits prod.splits dest: inv_app_Status)
    (metis inv_app_Status inv_reconcile prod.collapse)

lemma inv_app_step:
  assumes "app_inv (store_New dir) a" "saving_works (store_New dir) env"
  shows "app_inv (store_New dir) (app_step (store_New dir) env op a)"
proof (cases op)
  case AskStatus then show ?thesis using assms inv_ProxyStatus by (metis app_step.simps(1) prod.collapse)
next
  case AskSettings then show ?thesis using assms inv_GetClientSettings by (metis app_step.simps(2) prod.collapse)
next
  case (SwitchSystemProxy on) then show ?thesis using assms inv_SetSystemProxyEnabled by (metis app_step.simps(3) prod.collapse)
next
  case (SwitchAutoStart on) then show ?thesis using assms inv_SetAutoStartEnabled by (metis app_step.simps(4) prod.collapse)
next
  case (ConnectNode name) then show ?thesis using assms inv_StartProxyNode by (metis app_step.simps(5) prod.collapse)
next
  case (SelectNode i) then show ?thesis using assms inv_SetSelectedProxyNode by (metis app_step.simps(6) prod.collapse)
next
  case Disconnect then show ?thesis using assms inv_StopProxy by (metis app_step.simps(7) prod.collapse)
next
  case (ChangeMode mode) then show ?thesis using assms inv_SetProxyMode by (metis app_step.simps(8) prod.collapse)
next
  case (ChangeRules rules) then show ?thesis using assms inv_SetProxyRules by (metis app_step.simps(9) prod.collapse)
next
  case (ToggleSource io i on) then show ?thesis using assms inv_toggle by (metis app_step.simps(10) prod.collapse)
next
  case (DeleteSource io i) then show ?thesis using assms inv_delete by (metis app_step.simps(11) prod.collapse)
qed (use assms in \<open>simp_all add: inv_app_core inv_leave\<close>)

interpretation app: machine "app_init (store_New dir)" "app_does (store_New dir)" "app_inv (store_New dir)" for dir
proof
  fix a assume "app_init (store_New dir) a"
  then show "app_inv (store_New dir) a" by (auto simp: app_init_def app_inv_def core_init_inv)
next
  fix a e a' assume "app_inv (store_New dir) a" "app_does (store_New dir) a e a'"
  then show "app_inv (store_New dir) a'" by (auto elim!: app_doesE intro: inv_app_step)
qed

lemma app_Stop_dead:
  assumes "core_inv (ap_core a)"
  shows "cw_alive (ap_core (app_Stop env a)) = [] \<and> rn_state (cw_runner (ap_core (app_Stop env a))) \<noteq> StateRunning"
proof (cases "rn_cancel (cw_runner (ap_core a))")
  case None
  then have "rn_cmd (cw_runner (ap_core a)) = None" using assms by (simp add: core_inv_def)
  then show ?thesis using assms None by (auto simp: core_inv_def app_Stop_def)
next
  case (Some p)
  then have "rn_cmd (cw_runner (ap_core a)) = Some p" using assms by (simp add: core_inv_def)
  from stopping [OF assms this] show ?thesis by (simp add: app_Stop_def Some app_core_def state_names)
qed

lemma system_proxy_works:
  "rw_open (ae_reg env k) = None \<Longrightarrow> rw_enable (ae_reg env k) = None \<Longrightarrow> system_proxy env k False h so a = (e, a') \<Longrightarrow> e = None"
  by (auto simp: system_proxy_def SetSystemProxy_def split: prod.splits)

lemma readable_or_unflagged:
  "a_read (ae_read env (st_settingsPath s)) = None \<Longrightarrow> load_settings s env a = Inl x \<Longrightarrow> \<not> settings_flag s (ap_files a)"
  by (auto simp: load_settings_def LoadSettings_def load_file_def settings_flag_def split: sum.splits option.splits content.splits)

lemma leave_effect:
  assumes "app_inv (store_New dir) a"
    and "a_read (ae_read env (st_settingsPath (store_New dir))) = None"
    and "rw_open (ae_reg env 0) = None" "rw_enable (ae_reg env 0) = None"
  shows "\<not> rg_ProxyEnable (ap_reg (closeProxyForExit (store_New dir) env a)) \<and>
    cw_alive (ap_core (closeProxyForExit (store_New dir) env a)) = []"
proof -
  have fl: "flagged (store_New dir) a" and c: "core_inv (ap_core a)" using assms(1) by (simp_all add: app_inv_def)
  show ?thesis
    using leave_cases [of dir env a]
  proof cases
    case (unread a1)
    then have "\<not> settings_flag (store_New dir) (ap_files a)" using readable_or_unflagged [OF assms(2)] by blast
    then have "\<not> rg_ProxyEnable (ap_reg a1)" using fl unread(2) by (simp add: flagged_def)
    moreover have "core_inv (ap_core a1)" using unread(4) c by (simp add: same_core_def)
    ultimately show ?thesis using app_Stop_dead unread(1) by simp
  next
    case (off k)
    then show ?thesis using fl load_flag [OF off(1)] app_Stop_dead [OF c] by (simp add: flagged_def)
  next
    case (on k e a1)
    obtain e2 a2 where a2: "save_settings (store_New dir) env 0 (k\<lparr>set_SystemProxy := False\<rparr>) a1 = (e2, a2)" by fastforce
    have "e = None" using assms(3,4) on(3) by (rule system_proxy_works)
    moreover from this have "\<not> rg_ProxyEnable (ap_reg a2)" using system_proxy_off [OF on(3)] save_effect(2) [OF a2] by simp
    moreover have "core_inv (ap_core a2)" using save_effect(3) [OF a2] system_proxy_rest [OF on(3)] c by simp
    ultimately show ?thesis unfolding on(4) a2 using app_Stop_dead by simp
  qed
qed

text \<open>A world in which everything works.\<close>

definition working_registry :: registry_answers where
  "working_registry = \<lparr>rw_open = None, rw_server = None, rw_override = None, rw_enable = None, rw_create = None,
     rw_delete = None, rw_exe = Inr ''x'', rw_abs = Inr ''x'', rw_run = None\<rparr>"

definition sample_app_env :: app_env where
  "sample_app_env =
     \<lparr>ae_read = (\<lambda>_. all_well ''t''), ae_save = (\<lambda>_ _. all_well ''t''), ae_ids = (\<lambda>_ _. ''i''),
      ae_reg = (\<lambda>_. working_registry), ae_speed = no_speed, ae_platform = ce_platform sample_core_env, ae_found = [],
      ae_traffic = Inl (Err ''x''), ae_now = 0, ae_start = \<lparr>sa_env = sample_start_env, sa_ready = None\<rparr>,
      ae_retry = \<lparr>sa_env = sample_start_env, sa_ready = None\<rparr>, ae_exit = (None, [])\<rparr>"

definition sample_app :: App where
  "sample_app =
     \<lparr>ap_files = Map.empty,
      ap_reg = \<lparr>rg_ProxyEnable = False, rg_ProxyServer = [], rg_ProxyOverride = [], rg_Run = None\<rparr>,
      ap_core = core_init (ce_platform sample_core_env) global_options Map.empty\<rparr>"

definition running_app :: App where
  "running_app = app_core sample_app_env [Begin sample_start_env sample_core_node True] sample_app"

lemma sample_saving: "saving_works s sample_app_env"
  unfolding saving_works_def sample_app_env_def all_well_def by auto

lemma sample_app_init: "app_init s sample_app"
  by (auto simp: app_init_def flagged_def sample_app_def)

lemma running_app_state:
  "rn_state (cw_runner (ap_core running_app)) = StateRunning" "core_inv (ap_core running_app)"
  "rn_nodeName (cw_runner (ap_core running_app)) = ''n''"
proof -
  have "rn_state (cw_runner (ap_core running_app)) = StateRunning \<and> rn_nodeName (cw_runner (ap_core running_app)) = ''n''"
    by code_simp
  then show "rn_state (cw_runner (ap_core running_app)) = StateRunning" "rn_nodeName (cw_runner (ap_core running_app)) = ''n''"
    by simp_all
  show "core_inv (ap_core running_app)"
    by (simp only: running_app_def app_core_def sample_app_def App.simps)
      (rule core.run_inv, rule core_init_inv)
qed

text \<open>The condition on saving is needed: when the user switches the system proxy on and the settings
  cannot be saved, the operation reports the error but leaves the system proxy on, and leaving
  the application, or stopping the proxy, later stops the core and leaves the system proxy on:
  it points at an address where nothing listens.\<close>

lemma unsaved_switch_stays_on:
  assumes "SetSystemProxyEnabled (store_New dir) env True a = (Some e, a1)" "rg_ProxyEnable (ap_reg a1)"
    and "\<not> settings_flag (store_New dir) (ap_files a)" "core_inv (ap_core a)"
    and "load_settings (store_New dir) env' a1 = Inr c"
  shows "rg_ProxyEnable (ap_reg (closeProxyForExit (store_New dir) env' a1)) \<and>
    cw_alive (ap_core (closeProxyForExit (store_New dir) env' a1)) = [] \<and>
    fst (StopProxy (store_New dir) env' a1) = None \<and>
    rg_ProxyEnable (ap_reg (snd (StopProxy (store_New dir) env' a1))) \<and>
    cw_alive (ap_core (snd (StopProxy (store_New dir) env' a1))) = []"
proof -
  have "\<not> settings_flag (store_New dir) (ap_files a1) \<and> core_inv (ap_core a1)"
  proof (cases "load_settings (store_New dir) env a")
    case (Inl x)
    then show ?thesis using assms by (simp add: SetSystemProxyEnabled_def)
  next
    case (Inr k)
    obtain st b where st: "app_Status env a = (st, b)" by fastforce
    obtain e2 b2 where b2: "system_proxy env 0 True (ps_HTTPAddr st) (ps_SOCKSAddr st) b = (e2, b2)" by fastforce
    obtain e3 b3 where b3: "save_settings (store_New dir) env 0 (k\<lparr>set_SystemProxy := True\<rparr>) b2 = (e3, b3)" by fastforce
    have "a1 = b \<or> a1 = b2 \<or> a1 = b3 \<and> e3 \<noteq> None"
      using assms(1) Inr st b2 b3 by (auto simp: SetSystemProxyEnabled_def split: if_splits option.splits)
    then show ?thesis
      using app_Status_fields(4,6) [OF st] system_proxy_rest [OF b2] save_effect(1,3) [OF b3] assms(3,4)
      by (auto simp: same_core_def)
  qed
  moreover from this have "\<not> set_SystemProxy c" using load_flag [OF assms(5)] by simp
  ultimately have "closeProxyForExit (store_New dir) env' a1 = app_Stop env' a1"
    "StopProxy (store_New dir) env' a1 = (None, app_Stop env' a1)" "core_inv (ap_core a1)"
    using assms(5) by (simp_all add: closeProxyForExit_def StopProxy_def)
  then show ?thesis using assms(2) app_Stop_dead by simp
qed

definition full_disk_env :: app_env where
  "full_disk_env = sample_app_env\<lparr>ae_save := (\<lambda>_ _. (all_well ''t'')\<lparr>a_write := Some (External ''no space'', [])\<rparr>)\<rparr>"

lemma listening: "fst (listen_addrs env a) \<noteq> []"
  by (simp add: listen_addrs_def normalizeOptions_def Let_def)

lemma no_settings_load:
  "a_read (ae_read env (st_settingsPath s)) = None \<Longrightarrow> ap_files a (st_settingsPath s) = None \<Longrightarrow>
   \<exists>c. load_settings s env a = Inr c"
  by (simp add: load_settings_def LoadSettings_def load_file_def)

lemma failed_save_keeps:
  assumes "save_settings (store_New dir) env k c a = (Some e, a')"
  shows "ap_files a' (st_settingsPath (store_New dir)) = ap_files a (st_settingsPath (store_New dir))"
proof -
  obtain fs where fs: "SaveSettings (store_New dir) (ae_save env k) (ae_ids env (Suc k)) c (ap_files a) = (Some e, fs)" "a' = a\<lparr>ap_files := fs\<rparr>"
    using assms by (auto simp: save_settings_def split: prod.splits)
  then show ?thesis using write_outcome [OF _ fs(1) [unfolded SaveSettings_def]] by simp
qed

lemma full_disk_switch:
  "\<exists>e a1. SetSystemProxyEnabled (store_New ''d'') full_disk_env True running_app = (Some e, a1) \<and>
     rg_ProxyEnable (ap_reg a1) \<and> ap_files a1 (st_settingsPath (store_New ''d'')) = None"
proof -
  let ?s = "store_New ''d''"
  have none: "ap_files running_app (st_settingsPath ?s) = None" by (simp add: running_app_def sample_app_def)
  obtain c where c: "load_settings ?s full_disk_env running_app = Inr c"
    using no_settings_load [of full_disk_env ?s running_app] none by (auto simp: full_disk_env_def sample_app_env_def all_well_def)
  obtain st b where st: "app_Status full_disk_env running_app = (st, b)" by fastforce
  note f = app_Status_fields [OF st]
  have "ps_HTTPAddr st \<noteq> []" using listening [of full_disk_env running_app] f(3) by (metis fst_conv)
  then obtain b2 where b2: "system_proxy full_disk_env 0 True (ps_HTTPAddr st) (ps_SOCKSAddr st) b = (None, b2)"
    by (simp add: system_proxy_def SetSystemProxy_def full_disk_env_def sample_app_env_def working_registry_def)
  obtain e a1 where s: "save_settings ?s full_disk_env 0 (c\<lparr>set_SystemProxy := True\<rparr>) b2 = (Some e, a1)"
    by (simp add: save_settings_def SaveSettings_def writeFileAtomic_def write_steps_def Let_def full_disk_env_def
        sample_app_env_def all_well_def split: prod.splits)
  have "ap_files a1 (st_settingsPath ?s) = ap_files b2 (st_settingsPath ?s)" using s by (rule failed_save_keeps)
  then have "ap_files a1 (st_settingsPath ?s) = None" using none f(4) system_proxy_rest [OF b2] by simp
  moreover have "rg_ProxyEnable (ap_reg a1)" using system_proxy_on [OF b2] save_effect(2) [OF s] by simp
  moreover have "SetSystemProxyEnabled ?s full_disk_env True running_app = (Some e, a1)"
    using f(1) running_app_state(1) by (simp add: SetSystemProxyEnabled_def c st b2 s)
  ultimately show ?thesis by blast
qed

section \<open>Connecting\<close>

lemma app_start_once_ok:
  assumes "app_start_once env sa node use a = (None, a')"
  shows "rn_state (cw_runner (ap_core a')) = StateRunning \<and> rn_nodeName (cw_runner (ap_core a')) = pn_Name node"
proof -
  let ?w = "ap_core a"
  obtain err r fs where b: "begin_start (sa_env sa) node use (cw_next ?w) (cw_runner ?w) (cw_files ?w) = (err, r, fs)"
    by (metis prod.collapse)
  have "err = None" using assms b by (cases err) (simp_all add: app_start_once_def Let_def)
  moreover from this have "sa_ready sa = None"
    using assms b by (auto simp: app_start_once_def Let_def split: option.splits)
  ultimately have "cw_runner (ap_core a') = r" using assms b by (auto simp: app_start_once_def Let_def app_core_def)
  with b show ?thesis by (cases rule: begin_start_cases) (use \<open>err = None\<close> in \<open>simp_all add: started_def\<close>)
qed

lemma app_Start_ok:
  assumes "app_Start env node a = (None, a')"
  shows "rn_state (cw_runner (ap_core a')) = StateRunning \<and> rn_nodeName (cw_runner (ap_core a')) = pn_Name node"
proof -
  obtain e1 a1 where one: "app_start_once env (ae_start env) node True a = (e1, a1)" by fastforce
  obtain e2 a2 where two: "app_start_once env (ae_retry env) node False a1 = (e2, a2)" by fastforce
  have "a' = a1 \<and> e1 = None \<or> a' = a2 \<and> e2 = None"
    using assms one two by (cases e1; cases e2) (auto simp: app_Start_def Start_outcome_def retries_def split: if_splits)
  then show ?thesis using app_start_once_ok one two by blast
qed

lemma connect_node_ok:
  assumes "connect_node (store_New dir) env c node a = (None, a')"
  obtains a2 c' where "enableSystemProxy (store_New dir) env 1 c' a2 = (None, a')"
    "set_SystemProxy c' = settings_flag (store_New dir) (ap_files a2)"
    "rn_nodeName (cw_runner (ap_core a2)) = pn_Name node"
proof -
  let ?c = "c\<lparr>set_SelectedProxyNodeID := pn_ID node, set_SelectedProxySubscriptionID := pn_SubscriptionID node\<rparr>"
  obtain e1 a1 where a1: "app_Start env node a = (e1, a1)" by fastforce
  obtain e2 a2 where a2: "save_settings (store_New dir) env 0 ?c a1 = (e2, a2)" by fastforce
  obtain e3 a3 where a3: "enableSystemProxy (store_New dir) env 1 ?c a2 = (e3, a3)" by fastforce
  have "e1 = None" "e2 = None" "e3 = None" "a' = a3"
    using assms a1 a2 a3 by (simp_all add: connect_node_def Let_def split: option.splits)
  then show thesis using that [of ?c a2] a1 a3 save_effect(1,3) [OF a2] app_Start_ok [of env node a a1] by simp
qed

text \<open>C18: Connecting a node does what it says: when it succeeds, the node is one of the nodes on offer,
  the core runs with it, the system proxy is on with the address the core listens at, and the
  stored settings know that it is on.\<close>

theorem connecting_connects:
  assumes "StartProxyNode (store_New dir) env name a = (None, a')"
  shows "(\<exists>nodes. active_nodes (store_New dir) env a = Inr nodes \<and> name \<in> pn_Name ` set nodes) \<and>
    rn_state (cw_runner (ap_core a')) = StateRunning \<and> rn_nodeName (cw_runner (ap_core a')) = name \<and>
    rg_ProxyEnable (ap_reg a') \<and> rg_ProxyServer (ap_reg a') = (case listen_addrs env a' of (h, so) \<Rightarrow> buildProxyServer h so) \<and>
    settings_flag (store_New dir) (ap_files a')"
proof -
  obtain nodes c where n: "active_nodes (store_New dir) env a = Inr nodes" and c: "load_settings (store_New dir) env a = Inr c"
    using assms by (auto simp: StartProxyNode_def split: sum.splits)
  obtain node where node: "find (\<lambda>n. pn_Name n = name) nodes = Some node"
    using assms n c by (auto simp: StartProxyNode_def Let_def split: option.splits)
  then have name: "pn_Name node = name" "node \<in> set nodes" by (auto simp: find_Some_iff)
  let ?a1 = "app_modes env c a"
  obtain st a2 where st: "app_Status env ?a1 = (st, a2)" by fastforce
  note f = app_Status_fields [OF st]
  have "enableSystemProxy (store_New dir) env 1 c a2 = (None, a') \<and> ps_NodeName st = name \<or>
      (\<exists>b. connect_node (store_New dir) env c node b = (None, a'))"
    using assms n c node st name by (auto simp: StartProxyNode_def Let_def split: if_splits)
  then obtain b c' where b: "enableSystemProxy (store_New dir) env 1 c' b = (None, a')"
      "set_SystemProxy c' = settings_flag (store_New dir) (ap_files b)" "rn_nodeName (cw_runner (ap_core b)) = name"
  proof
    assume "enableSystemProxy (store_New dir) env 1 c a2 = (None, a') \<and> ps_NodeName st = name"
    then show thesis using that [of c a2] f load_flag [OF c] by (auto simp: same_core_def)
  next
    assume "\<exists>b. connect_node (store_New dir) env c node b = (None, a')"
    then show thesis using connect_node_ok name that by metis
  qed
  note ok = enableSystemProxy_ok [OF b(1,2)]
  have "listen_addrs env a' = listen_addrs env b" using ok(5) by (simp add: listen_addrs_def same_core_def)
  then show ?thesis using n name ok b(3) by (auto simp: same_core_def)
qed

text \<open>The running application with one subscription, whose node is the running one.\<close>

definition sample_source :: SubscriptionSource where
  "sample_source =
     \<lparr>src_ID = ''s'', src_Name = ''S'', src_URL = ''u'', src_Format = [], src_Kind = SubscriptionKindProxy, src_Enabled = True,
      src_AutoRefresh = False, src_IntervalMin = 0, src_LastRefresh = [], src_LastError = [], src_TunnelCount = 0,
      src_NodeCount = 1, src_UsageUpload = 0, src_UsageDownload = 0, src_UsageTotal = 0, src_UsageExpire = 0\<rparr>"

definition stocked_app :: App where
  "stocked_app = running_app\<lparr>ap_files := [st_subsPath (store_New ''d'') \<mapsto> Subs [sample_source],
     st_proxyNodesPath (store_New ''d'') \<mapsto> Nodes [sample_core_node\<lparr>pn_SubscriptionID := ''s''\<rparr>]]\<rparr>"

lemma stocked_nodes:
  "active_nodes (store_New ''d'') sample_app_env stocked_app = Inr [sample_core_node\<lparr>pn_SubscriptionID := ''s''\<rparr>]"
  by code_simp

lemma stocked_core: "ap_core stocked_app = ap_core running_app"
  by (simp add: stocked_app_def)

lemma modes_keep [simp]:
  "rn_state (cw_runner (ap_core (app_modes env c a))) = rn_state (cw_runner (ap_core a))"
  "rn_nodeName (cw_runner (ap_core (app_modes env c a))) = rn_nodeName (cw_runner (ap_core a))"
  by (simp_all add: app_modes_def app_core_def SetMode_def SetRuleModeRules_def)

lemma enabling_works:
  assumes "rn_state (cw_runner (ap_core a)) = StateRunning" "ae_reg env = (\<lambda>_. working_registry)" "saving_works (store_New dir) env"
  shows "fst (enableSystemProxy (store_New dir) env k c a) = None"
proof -
  obtain st a1 where st: "app_Status env a = (st, a1)" by fastforce
  note f = app_Status_fields [OF st]
  have "ps_HTTPAddr st \<noteq> []" using listening [of env a] f(3) by (metis fst_conv)
  then obtain a2 where a2: "system_proxy env k True (ps_HTTPAddr st) (ps_SOCKSAddr st) a1 = (None, a2)"
    by (simp add: system_proxy_def SetSystemProxy_def assms(2) working_registry_def)
  obtain e3 a3 where a3: "save_settings (store_New dir) env k (c\<lparr>set_SystemProxy := True\<rparr>) a2 = (e3, a3)" by fastforce
  then have "e3 = None" by (rule saving_never_fails [OF assms(3)])
  then show ?thesis using st f(1) assms(1) a2 a3 by (simp add: enableSystemProxy_def)
qed

lemma sample_reg: "ae_reg sample_app_env = (\<lambda>_. working_registry)"
  by (simp add: sample_app_env_def)

theorem connecting_connects_witness:
  "\<exists>a'. StartProxyNode (store_New ''d'') sample_app_env ''n'' stocked_app = (None, a') \<and> rg_ProxyEnable (ap_reg a') \<and>
     rn_nodeName (cw_runner (ap_core a')) = ''n''"
proof -
  let ?s = "store_New ''d''"
  obtain c where c: "load_settings ?s sample_app_env stocked_app = Inr c"
    using no_settings_load [of sample_app_env ?s stocked_app]
    by (auto simp: sample_app_env_def all_well_def stocked_app_def running_app_def sample_app_def)
  let ?a1 = "app_modes sample_app_env c stocked_app"
  obtain st a2 where st: "app_Status sample_app_env ?a1 = (st, a2)" by fastforce
  note f = app_Status_fields [OF st]
  have r: "rn_state (cw_runner (ap_core a2)) = StateRunning" "ps_State st = StateRunning" "ps_NodeName st = ''n''"
    using f(1,2,6) by (simp_all add: same_core_def stocked_core running_app_state)
  have "pn_Name (sample_core_node\<lparr>pn_SubscriptionID := ''s''\<rparr>) = ''n''" by (simp add: sample_core_node_def)
  then have "StartProxyNode ?s sample_app_env ''n'' stocked_app = enableSystemProxy ?s sample_app_env 1 c a2"
    using st r(2,3) by (simp add: StartProxyNode_def stocked_nodes c Let_def)
  then obtain a' where a': "StartProxyNode ?s sample_app_env ''n'' stocked_app = (None, a')"
    using enabling_works [OF r(1) sample_reg sample_saving] by (metis prod.collapse)
  show ?thesis using a' connecting_connects [OF a'] by blast
qed

section \<open>The running node and its subscription\<close>

lemma active_nodes_cong: "ap_files a' = ap_files a \<Longrightarrow> active_nodes s env a' = active_nodes s env a"
  by (simp add: active_nodes_def)

lemma StopProxy_stopped:
  "StopProxy (store_New dir) env a = (None, a') \<Longrightarrow> core_inv (ap_core a) \<Longrightarrow> rn_state (cw_runner (ap_core a')) \<noteq> StateRunning"
  using StopProxy_core [of dir env a None a'] app_Stop_dead [of a env] by auto

text \<open>After switching a subscription on or off succeeded, the core runs no node whose subscription is
  not active: either it is stopped, or its node is still on offer.\<close>

lemma toggled_node_has_source:
  assumes "app_ToggleSubscription (store_New dir) env io i on a = (None, a')" "core_inv (ap_core a)"
    and "rn_state (cw_runner (ap_core a')) = StateRunning" "rn_nodeName (cw_runner (ap_core a')) \<noteq> []"
  shows "\<exists>nodes. active_nodes (store_New dir) env a' = Inr nodes \<and> rn_nodeName (cw_runner (ap_core a')) \<in> pn_Name ` set nodes"
proof -
  obtain src fs where r: "SetSubscriptionEnabled (store_New dir) io i on (ap_files a) = (Inr src, fs)"
    using assms(1) by (auto simp: app_ToggleSubscription_def split: prod.splits sum.splits)
  let ?a0 = "a\<lparr>ap_files := fs\<rparr>"
  have stop: "stopProxyIfNodeSourceInactive (store_New dir) env ?a0 = (None, a')"
    using assms(1) r by (simp add: app_ToggleSubscription_def)
  obtain st a1 where st: "app_Status env ?a0 = (st, a1)" by fastforce
  note f = app_Status_fields [OF st]
  have c1: "core_inv (ap_core a1)" using f(6) assms(2) by (simp add: same_core_def)
  have stopped: ?thesis if "StopProxy (store_New dir) env a1 = (None, a')"
    using StopProxy_stopped [OF that c1] assms(3) by blast
  show ?thesis
  proof (cases "ps_State st \<noteq> StateRunning \<or> ps_NodeName st = []")
    case True
    then have "a' = a1" using stop st by (simp add: stopProxyIfNodeSourceInactive_def)
    then show ?thesis using True f(1,2,6) assms(3,4) by (simp add: same_core_def)
  next
    case False
    then obtain nodes where n: "active_nodes (store_New dir) env a1 = Inr nodes"
      using stop st by (auto simp: stopProxyIfNodeSourceInactive_def split: sum.splits)
    show ?thesis
    proof (cases "list_ex (\<lambda>n. pn_Name n = ps_NodeName st) nodes")
      case True
      then have "a' = a1" using stop st n False by (simp add: stopProxyIfNodeSourceInactive_def)
      moreover have "rn_nodeName (cw_runner (ap_core a1)) = ps_NodeName st" using f(2,6) by (simp add: same_core_def)
      ultimately show ?thesis using n True by (auto simp: list_ex_iff intro: rev_image_eqI)
    next
      case no: False
      then show ?thesis using stopped stop st n False by (simp add: stopProxyIfNodeSourceInactive_def)
    qed
  qed
qed

text \<open>Deleting a subscription has no such care: it leaves the core as it is.\<close>

lemma delete_leaves_core: "ap_core (snd (app_DeleteSubscription s io i a)) = ap_core a"
  by (simp add: app_DeleteSubscription_def split: prod.split)

end
