(* ===== verification/Forwarding.thy ===== *)
theory Forwarding
  imports Config Runtime
begin

text \<open>
  The SSH port-forwarding modes, \<open>client/internal/tunnel\<close>: the per-tunnel counters and the
  counting connection (\<open>counting.go\<close>), the choice of an implementation by mode and the
  two-way copy (\<open>tunnel.go\<close>), and the accept loops of local, remote and dynamic
  forwarding.  Sockets are the sequence of their results.
\<close>

section \<open>Counters (counting.go)\<close>

record Stats =
  s_BytesIn :: u64
  s_BytesOut :: u64
  s_ConnActive :: int
  s_ConnTotal :: u64

definition NewStats :: Stats where
  "NewStats = \<lparr>s_BytesIn = 0, s_BytesOut = 0, s_ConnActive = 0, s_ConnTotal = 0\<rparr>"

text \<open>A nil \<open>*Stats\<close> is \<open>None\<close>; the snapshot record has the same four fields.\<close>

definition Stats_Snapshot :: "Stats option \<Rightarrow> Stats" where
  "Stats_Snapshot s = (case s of None \<Rightarrow> NewStats | Some st \<Rightarrow> st)"

record countingConn =
  cc_in :: bool
  cc_closed :: bool

definition wrapConn :: "Stats \<Rightarrow> bool \<Rightarrow> countingConn \<times> Stats" where
  "wrapConn s inn =
     (\<lparr>cc_in = inn, cc_closed = False\<rparr>,
      s\<lparr>s_ConnActive := s_ConnActive s + 1, s_ConnTotal := s_ConnTotal s + 1\<rparr>)"

text \<open>
  What happens on a wrapped connection: a read or write that moved \<open>n\<close> bytes, or a close,
  of which only the first is counted (\<open>sync.Once\<close>).
\<close>

datatype conn_op = CRead nat | CWrite nat | CClose

fun conn_step :: "conn_op \<Rightarrow> countingConn \<times> Stats \<Rightarrow> countingConn \<times> Stats" where
  "conn_step (CRead n) (c, s) =
     (c, if 0 < n then (if cc_in c then s\<lparr>s_BytesIn := s_BytesIn s + of_nat n\<rparr>
                        else s\<lparr>s_BytesOut := s_BytesOut s + of_nat n\<rparr>) else s)"
| "conn_step (CWrite n) (c, s) =
     (c, if 0 < n then (if cc_in c then s\<lparr>s_BytesOut := s_BytesOut s + of_nat n\<rparr>
                        else s\<lparr>s_BytesIn := s_BytesIn s + of_nat n\<rparr>) else s)"
| "conn_step CClose (c, s) =
     (if cc_closed c then (c, s) else (c\<lparr>cc_closed := True\<rparr>, s\<lparr>s_ConnActive := s_ConnActive s - 1\<rparr>))"

section \<open>Modes (tunnel.go)\<close>

datatype tunnel_impl = LocalImpl TunnelCfg | RemoteImpl TunnelCfg | DynamicImpl TunnelCfg | VPNImpl TunnelCfg

definition Build :: "TunnelCfg \<Rightarrow> tunnel_impl result" where
  "Build t =
     (if t_Mode t = ModeLocal then Inr (LocalImpl t)
      else if t_Mode t = ModeRemote then Inr (RemoteImpl t)
      else if t_Mode t = ModeDynamic then Inr (DynamicImpl t)
      else if t_Mode t = ModeVPN then Inr (VPNImpl t)
      else Inl (Errf ''unknown tunnel mode %q'' [t_Mode t]))"

text \<open>
  \<open>copyAndCloseWrite\<close> of one direction: the chunks \<open>io.Copy\<close> moves until the source ends
  (as the sizes of its reads, each written whole), or until the write that fails.  It gives
  the operations on the source and on the destination.
\<close>

fun io_copy :: "nat list \<Rightarrow> nat option \<Rightarrow> conn_op list \<times> conn_op list" where
  "io_copy [] fail = ([], [])"
| "io_copy (n # ns) fail =
     (if n = 0 then (case io_copy ns fail of (rs, ws) \<Rightarrow> (CRead 0 # rs, ws))
      else (case fail of
              Some 0 \<Rightarrow> ([CRead n], [CWrite 0])
            | _ \<Rightarrow> (case io_copy ns (map_option (\<lambda>k. k - 1) fail) of
                     (rs, ws) \<Rightarrow> (CRead n # rs, CWrite n # ws))))"

text \<open>
  \<open>bidiCopy\<close> on two ends that accept what is written to them: both directions run at once
  and then both ends are closed.  The operations
  on \<open>a\<close> and on \<open>b\<close>; reads and writes of one end commute in the counters, so they are
  listed direction by direction.
\<close>

definition bidiCopy :: "nat list \<Rightarrow> nat list \<Rightarrow> conn_op list \<times> conn_op list" where
  "bidiCopy ab ba =
     (case io_copy ab None of (ra, wb) \<Rightarrow>
        case io_copy ba None of (rb, wa) \<Rightarrow> (ra @ wa @ [CClose], wb @ rb @ [CClose]))"

section \<open>Accept loops (local.go, remote.go, dynamic.go)\<close>

text \<open>
  One result of \<open>ln.Accept\<close>: a connection, or an error with whether it is the benign
  "listener closed" one and whether the context has ended by then.
\<close>

datatype accept_result = Conn nat | AcceptFails go_error bool bool

definition isClosedErr :: "bool \<Rightarrow> bool \<Rightarrow> bool" where
  "isClosedErr errClosed eof \<longleftrightarrow> errClosed \<or> eof"

text \<open>
  The connections handed to \<open>handle\<close> and the loop's result; \<open>None\<close> as result is the loop
  still waiting for the next \<open>Accept\<close>.
\<close>

fun accept_conns :: "string \<Rightarrow> accept_result list \<Rightarrow> nat list \<times> go_error option option" where
  "accept_conns what [] = ([], None)"
| "accept_conns what (Conn c # as) = (case accept_conns what as of (cs, e) \<Rightarrow> (c # cs, e))"
| "accept_conns what (AcceptFails err closed ctx_done # as) =
     ([], Some (if ctx_done \<or> closed then None else Some (Wrap (what @ '': %w'') [] err)))"

definition Local_Serve :: "TunnelCfg \<Rightarrow> go_error option \<Rightarrow> accept_result list \<Rightarrow> nat list \<times> go_error option option" where
  "Local_Serve cfg listen as =
     (case listen of
        Some e \<Rightarrow> ([], Some (Some (Wrap ''local listen %s: %w'' [t_Listen cfg] e)))
      | None \<Rightarrow> accept_conns ''accept'' as)"

definition Remote_Serve :: "TunnelCfg \<Rightarrow> go_error option \<Rightarrow> accept_result list \<Rightarrow> nat list \<times> go_error option option" where
  "Remote_Serve cfg listen as =
     (case listen of
        Some e \<Rightarrow> ([], Some (Some (Wrap ''remote listen %s: %w'' [t_Listen cfg] e)))
      | None \<Rightarrow> accept_conns ''remote accept'' as)"

text \<open>The dynamic mode leaves the loop to the SOCKS library: its result is an argument.\<close>

definition Dynamic_Serve ::
  "TunnelCfg \<Rightarrow> go_error option \<Rightarrow> (go_error \<times> bool \<times> bool) option \<Rightarrow> go_error option" where
  "Dynamic_Serve cfg listen served =
     (case listen of
        Some e \<Rightarrow> Some (Wrap ''dynamic listen %s: %w'' [t_Listen cfg] e)
      | None \<Rightarrow>
          (case served of
             None \<Rightarrow> None
           | Some (err, closed, ctx_done) \<Rightarrow>
               if ctx_done \<or> closed then None else Some (Wrap ''socks5 serve: %w'' [] err)))"

definition socks_dial :: "string \<Rightarrow> string \<Rightarrow> (string \<Rightarrow> 'c result) \<Rightarrow> 'c result" where
  "socks_dial network addr dial =
     (if network \<noteq> ''tcp'' \<and> network \<noteq> ''tcp4'' \<and> network \<noteq> ''tcp6''
      then Inl (Errf ''socks5 dial: unsupported network %q'' [network]) else dial addr)"

text \<open>
  \<open>handle\<close> of the two modes: the counters after one connection that moved \<open>ab\<close> towards the
  target and \<open>ba\<close> back, or whose dial failed.  Local forwarding wraps the accepted
  connection, remote forwarding the dialled one.
\<close>

definition Local_handle :: "bool \<Rightarrow> nat list \<Rightarrow> nat list \<Rightarrow> Stats \<Rightarrow> Stats" where
  "Local_handle dialled ab ba s =
     (if \<not> dialled then s else snd (fold conn_step (fst (bidiCopy ab ba)) (wrapConn s True)))"

definition Remote_handle :: "bool \<Rightarrow> nat list \<Rightarrow> nat list \<Rightarrow> Stats \<Rightarrow> Stats" where
  "Remote_handle dialled ab ba s =
     (if \<not> dialled then s else snd (fold conn_step (snd (bidiCopy ab ba)) (wrapConn s False)))"

section \<open>Lemmas\<close>

lemma Build_ok: "ValidateTunnel t = None \<Longrightarrow> is_ok (Build t)"
  by (auto simp: ValidateTunnel_ready tunnel_ready_def Build_def Let_def)

fun reads :: "conn_op list \<Rightarrow> nat" where
  "reads [] = 0"
| "reads (CRead n # os) = n + reads os"
| "reads (_ # os) = reads os"

fun wrote :: "conn_op list \<Rightarrow> nat" where
  "wrote [] = 0"
| "wrote (CWrite n # os) = n + wrote os"
| "wrote (_ # os) = wrote os"

lemma moved_append [simp]: "reads (as @ bs) = reads as + reads bs" "wrote (as @ bs) = wrote as + wrote bs"
  by (induction as rule: reads.induct) auto

lemma run_conn:
  "fold conn_step os (c, s) =
     (c\<lparr>cc_closed := (cc_closed c \<or> CClose \<in> set os)\<rparr>,
      s\<lparr>s_BytesIn := s_BytesIn s + of_nat (if cc_in c then reads os else wrote os),
        s_BytesOut := s_BytesOut s + of_nat (if cc_in c then wrote os else reads os),
        s_ConnActive := s_ConnActive s - (if CClose \<in> set os \<and> \<not> cc_closed c then 1 else 0)\<rparr>)"
proof (induction os arbitrary: c s)
  case (Cons x os)
  show ?case by (cases x) (auto simp: Cons algebra_simps)
qed simp

lemma io_copy_none:
  "reads (fst (io_copy ns None)) = sum_list ns" "wrote (snd (io_copy ns None)) = sum_list ns"
  "wrote (fst (io_copy ns None)) = 0" "reads (snd (io_copy ns None)) = 0"
  by (induction ns) (auto simp: split_beta)

section \<open>Properties\<close>

text \<open>Counting is exact and balanced: over any use of a wrapped connection, however often
  it is closed, the active count goes up by one and comes down by one exactly if it was
  closed at all, and the byte counters grow by what was read and written.\<close>

lemma counting_balanced:
  "let (c, s') = fold conn_step os (wrapConn s inn) in
     s_ConnActive s' = s_ConnActive s + (if CClose \<in> set os then 0 else 1) \<and>
     s_ConnTotal s' = s_ConnTotal s + 1 \<and>
     s_BytesIn s' = s_BytesIn s + of_nat (if inn then reads os else wrote os) \<and>
     s_BytesOut s' = s_BytesOut s + of_nat (if inn then wrote os else reads os)"
  by (simp add: wrapConn_def run_conn)

text \<open>Local and remote forwarding count alike although one wraps the accepted and the other
  the dialled connection: \<open>bytes_in\<close> is what flowed towards the target and \<open>bytes_out\<close> what
  came back, and no connection stays counted as active.\<close>

lemma forwarding_counts_agree:
  "Local_handle d ab ba s = Remote_handle d ab ba s \<and>
   Local_handle True ab ba s = s\<lparr>s_BytesIn := s_BytesIn s + of_nat (sum_list ab),
     s_BytesOut := s_BytesOut s + of_nat (sum_list ba), s_ConnTotal := s_ConnTotal s + 1\<rparr>"
  by (simp add: Local_handle_def Remote_handle_def bidiCopy_def split_beta wrapConn_def run_conn io_copy_none)

end
