(* ===== verification/SSHClient.thy ===== *)
theory SSHClient
  imports Forwarding
begin

text \<open>
  The SSH side of a tunnel, \<open>client/internal/sshclient\<close>: authentication methods
  (\<open>auth.go\<close>, \<open>hostkey.go\<close>), the keep-alive loop (\<open>keepalive.go\<close>) and the
  \<open>Supervisor\<close> that dials, serves and reconnects (\<open>client.go\<close>).  Durations are Go's
  64-bit nanosecond counts, as integers with the wrap-around written out where the code
  multiplies.  \<open>x/crypto/ssh\<close> and the network are parameters.
\<close>

section \<open>Authentication methods\<close>

datatype 'signer auth_method = PublicKeys 'signer | PasswordAuth string

definition loadSigner ::
  "(string \<Rightarrow> string result) \<Rightarrow> (string \<Rightarrow> string option \<Rightarrow> 'signer result) \<Rightarrow> string \<Rightarrow> string \<Rightarrow> 'signer result" where
  "loadSigner readFile parse path passphrase =
     (case readFile path of
        Inl e \<Rightarrow> Inl (Wrap ''read key file: %w'' [] e)
      | Inr raw \<Rightarrow> parse raw (if passphrase = [] then None else Some passphrase))"

definition BuildAuthMethods ::
  "(string \<Rightarrow> string result) \<Rightarrow> (string \<Rightarrow> string option \<Rightarrow> 'signer result) \<Rightarrow> SSHCfg \<Rightarrow> 'signer auth_method list result" where
  "BuildAuthMethods readFile parse c =
     bind_result
       (if ssh_IdentityFile c = [] then Inr []
        else (case loadSigner readFile parse (ssh_IdentityFile c) (ssh_Passphrase c) of
                Inl e \<Rightarrow> Inl (Wrap ''load identity %q: %w'' [ssh_IdentityFile c] e)
              | Inr s \<Rightarrow> Inr [PublicKeys s]))
       (\<lambda>keys. let methods = keys @ (if ssh_Password c = [] then [] else [PasswordAuth (ssh_Password c)])
               in if methods = [] then Inl (Err ''no auth method: identity_file or password required'')
                  else Inr methods)"

definition newHostKeyCallback :: "(string \<Rightarrow> 'cb result) \<Rightarrow> string \<Rightarrow> 'cb result" where
  "newHostKeyCallback load path =
     (case load path of
        Inl e \<Rightarrow> Inl (Wrap ''load known_hosts %q: %w'' [path] e)
      | Inr cb \<Rightarrow> Inr cb)"

section \<open>Keep-alive\<close>

text \<open>
  What the ticks of the loop bring: the error of the request, or the end of the context.
  After the listed ticks the loop is still waiting.
\<close>

datatype tick = Ping "go_error option" | CtxDone go_error

fun keepalive_loop :: "int \<Rightarrow> int \<Rightarrow> tick list \<Rightarrow> go_error option" where
  "keepalive_loop maxFails fails [] = None"
| "keepalive_loop maxFails fails (CtxDone e # ts) = Some e"
| "keepalive_loop maxFails fails (Ping None # ts) = keepalive_loop maxFails 0 ts"
| "keepalive_loop maxFails fails (Ping (Some e) # ts) =
     (if fails + 1 \<ge> maxFails
      then Some (Wrap ''keepalive lost after %d attempts: %w'' [itoa (fails + 1)] e)
      else keepalive_loop maxFails (fails + 1) ts)"

definition runKeepAlive :: "int \<Rightarrow> int \<Rightarrow> tick list \<Rightarrow> go_error option" where
  "runKeepAlive interval maxFails ts =
     (if interval \<le> 0
      then (case filter (\<lambda>t. case t of CtxDone _ \<Rightarrow> True | _ \<Rightarrow> False) ts of
              CtxDone e # _ \<Rightarrow> Some e | _ \<Rightarrow> None)
      else keepalive_loop maxFails 0 ts)"

section \<open>The supervisor\<close>

datatype sup_state = StateConnecting | StateRunning | StateReconnecting | StateStopped

fun state_text :: "sup_state \<Rightarrow> string" where
  "state_text StateConnecting = ''connecting''"
| "state_text StateRunning = ''running''"
| "state_text StateReconnecting = ''reconnecting''"
| "state_text StateStopped = ''stopped''"

definition wrap64 :: "int \<Rightarrow> int" where
  "wrap64 x = (x + 2 ^ 63) mod 2 ^ 64 - 2 ^ 63"

text \<open>The delay after a completed wait in \<open>sleepBackoff\<close>.\<close>

definition next_delay :: "int \<Rightarrow> int \<Rightarrow> int" where
  "next_delay reconnectMax d = (let d' = wrap64 (d * 2) in if d' > reconnectMax then reconnectMax else d')"

record dial_env =
  de_known_hosts :: "unit result"
  de_tcp :: "go_error option"
  de_handshake :: "go_error option"

text \<open>\<open>dial\<close>: the authentication methods come first, the host key check second.\<close>

definition sup_dial ::
  "'signer auth_method list result \<Rightarrow> bool \<Rightarrow> dial_env \<Rightarrow> go_error option" where
  "sup_dial methods insecureHostKey env =
     (case methods of
        Inl e \<Rightarrow> Some e
      | Inr _ \<Rightarrow>
          (case (if insecureHostKey then Inr () else de_known_hosts env) of
             Inl e \<Rightarrow> Some (Wrap ''host key callback: %w'' [] e)
           | Inr _ \<Rightarrow>
               (case de_tcp env of
                  Some e \<Rightarrow> Some (Wrap ''tcp dial: %w'' [] e)
                | None \<Rightarrow> map_option (Wrap ''ssh handshake: %w'' []) (de_handshake env))))"

text \<open>
  One turn of the loop: whether the context is live at its head, the dial's error, how long
  a connection lasted, whether the context is live after it, and whether the back-off timer
  fires before the context ends.
\<close>

record turn =
  tn_live :: bool
  tn_dial :: "go_error option"
  tn_uptime :: int
  tn_live_after :: bool
  tn_timer :: bool

datatype sup_act = Emit sup_state "go_error option" | Wait int | Serve

fun sup_loop :: "ConnDefaults \<Rightarrow> (int \<Rightarrow> int) \<Rightarrow> int \<Rightarrow> turn list \<Rightarrow> sup_act list" where
  "sup_loop def jit backoff [] = []"
| "sup_loop def jit backoff (t # ts) =
     (if \<not> tn_live t then []
      else Emit StateConnecting None #
        (case tn_dial t of
           Some e \<Rightarrow>
             [Emit StateReconnecting (Some e), Wait (jit backoff)]
             @ (if tn_timer t then sup_loop def jit (next_delay (ReconnectMax def) backoff) ts else [])
         | None \<Rightarrow>
             [Emit StateRunning None, Serve]
             @ (let b = (if tn_uptime t > 60 * 1000000000 then ReconnectInitial def else backoff) in
                if \<not> tn_live_after t then []
                else [Emit StateReconnecting None, Wait (jit b)]
                     @ (if tn_timer t then sup_loop def jit (next_delay (ReconnectMax def) b) ts else []))))"

definition Supervisor_Run :: "ConnDefaults \<Rightarrow> (int \<Rightarrow> int) \<Rightarrow> turn list \<Rightarrow> sup_act list" where
  "Supervisor_Run def jit ts = sup_loop def jit (ReconnectInitial def) ts @ [Emit StateStopped None]"

text \<open>
  \<open>serve\<close>: the keep-alive loop and the tunnel run side by side, and whichever ends first
  cancels the other through the shared context; \<open>serve\<close> returns when both have ended.
  Given which ends first, what each was told.
\<close>

datatype serve_end = KeepAliveFirst | TunnelFirst

definition serve_cancels :: "serve_end \<Rightarrow> bool \<times> bool" where
  "serve_cancels e = (case e of KeepAliveFirst \<Rightarrow> (False, True) | TunnelFirst \<Rightarrow> (True, False))"

section \<open>Lemmas\<close>

lemma wrap64_id: "- (2 ^ 63) \<le> x \<Longrightarrow> x < 2 ^ 63 \<Longrightarrow> wrap64 x = x"
  by (simp add: wrap64_def)

definition app_defaults :: ConnDefaults where
  "app_defaults = \<lparr>KeepAliveInterval = 30000000000, KeepAliveMaxFails = 3, DialTimeout = 10000000000,
     ReconnectInitial = 1000000000, ReconnectMax = 60000000000\<rparr>"

lemma next_delay_exact:
  "0 \<le> d \<Longrightarrow> d \<le> cap \<Longrightarrow> cap < 2 ^ 62 \<Longrightarrow> next_delay cap d = min cap (2 * d)"
proof -
  assume d: "0 \<le> d" "d \<le> cap" "cap < 2 ^ 62"
  have "wrap64 (d * 2) = d * 2" by (rule wrap64_id) (use d in auto)
  then show ?thesis by (simp add: next_delay_def Let_def min_def)
qed

interpretation app_retry: doubling_backoff "next_delay 60000000000" 60000000000
  by unfold_locales (auto intro!: next_delay_exact)

lemma doubling: "0 \<le> cap \<Longrightarrow> cap < 2 ^ 62 \<Longrightarrow> doubling_backoff (next_delay cap) cap"
  by unfold_locales (auto intro!: next_delay_exact)

fun waits :: "sup_act list \<Rightarrow> int list" where
  "waits [] = []"
| "waits (Wait d # as) = d # waits as"
| "waits (_ # as) = waits as"

fun states :: "sup_act list \<Rightarrow> sup_state list" where
  "states [] = []"
| "states (Emit s _ # as) = s # states as"
| "states (_ # as) = states as"

lemma sup_append [simp]: "waits (as @ bs) = waits as @ waits bs" "states (as @ bs) = states as @ states bs"
  by (induction as rule: waits.induct) auto

text \<open>The state changes a supervisor may report after each state, and before anything.\<close>

fun may_follow :: "sup_state \<Rightarrow> sup_state \<Rightarrow> bool" where
  "may_follow StateConnecting s = (s \<in> {StateRunning, StateReconnecting})"
| "may_follow StateRunning s = (s \<in> {StateReconnecting, StateStopped})"
| "may_follow StateReconnecting s = (s \<in> {StateConnecting, StateStopped})"
| "may_follow StateStopped s = (s \<in> {StateConnecting, StateStopped})"

fun legal :: "sup_state \<Rightarrow> sup_state list \<Rightarrow> bool" where
  "legal s [] = True"
| "legal s (t # ts) = (may_follow s t \<and> legal t ts)"

lemma sup_loop_legal:
  "s \<in> {StateReconnecting, StateStopped} \<Longrightarrow>
   legal s (states (sup_loop def jit b ts) @ [StateStopped])"
  by (induction def jit b ts arbitrary: s rule: sup_loop.induct) (auto simp: Let_def split: option.splits)

lemma sup_loop_waits:
  assumes "doubling_backoff (next_delay (ReconnectMax def)) (ReconnectMax def)"
    and "0 \<le> ReconnectInitial def" "ReconnectInitial def \<le> ReconnectMax def"
    and "ReconnectInitial def \<le> b" "b \<le> ReconnectMax def"
  shows "list_all (\<lambda>w. \<exists>d. w = jit d \<and> ReconnectInitial def \<le> d \<and> d \<le> ReconnectMax def) (waits (sup_loop def jit b ts))"
  using assms(4,5)
proof (induction ts arbitrary: b)
  case (Cons t ts)
  have nd: "ReconnectInitial def \<le> next_delay (ReconnectMax def) d \<and> next_delay (ReconnectMax def) d \<le> ReconnectMax def"
    if "ReconnectInitial def \<le> d" "d \<le> ReconnectMax def" for d
    using doubling_backoff.nxt_range [OF assms(1), of d] that assms(2) by auto
  have I: "list_all (\<lambda>w. \<exists>d. w = jit d \<and> ReconnectInitial def \<le> d \<and> d \<le> ReconnectMax def)
      (waits (sup_loop def jit (next_delay (ReconnectMax def) d) ts))"
    if "ReconnectInitial def \<le> d" "d \<le> ReconnectMax def" for d
    using Cons.IH nd [OF that] by simp
  show ?case
    using Cons.prems I [OF Cons.prems] I [OF order_refl assms(3)] assms(3)
    by (auto simp: Let_def split: option.splits)
qed simp

lemma keepalive_window:
  assumes "0 < maxFails" "0 \<le> fails" "fails < maxFails"
  shows "keepalive_loop maxFails fails (map (\<lambda>e. Ping (Some e)) es @ ts) =
    (if maxFails \<le> fails + int (length es)
     then Some (Wrap ''keepalive lost after %d attempts: %w'' [itoa maxFails] (es ! nat (maxFails - fails - 1)))
     else keepalive_loop maxFails (fails + int (length es)) ts)"
  using assms
proof (induction es arbitrary: fails)
  case (Cons e es)
  show ?case
  proof (cases "fails + 1 \<ge> maxFails")
    case True
    then have "fails + 1 = maxFails" using Cons.prems by simp
    then show ?thesis by auto
  next
    case False
    then have "nat (maxFails - fails - 1) = Suc (nat (maxFails - (fails + 1) - 1))" by simp
    then show ?thesis using Cons.IH [of "fails + 1"] Cons.prems False by (simp add: algebra_simps)
  qed
qed simp

section \<open>Properties\<close>

text \<open>Whatever happens to the connection, the states a supervisor reports follow the
  life cycle connecting, running or reconnecting, and so on, and the last one is stopped,
  reported exactly once.\<close>

lemma supervisor_states_legal:
  "legal StateStopped (states (Supervisor_Run def jit ts)) \<and>
   last (states (Supervisor_Run def jit ts)) = StateStopped \<and>
   count_list (states (Supervisor_Run def jit ts)) StateStopped = 1"
proof -
  have "StateStopped \<notin> set (states (sup_loop def jit b ts))" for b
    by (induction def jit b ts rule: sup_loop.induct) (auto simp: Let_def split: option.splits)
  then have "count_list (states (sup_loop def jit b ts)) StateStopped = 0" for b
    by (simp add: count_list_0_iff)
  then show ?thesis
    using sup_loop_legal [of StateStopped def jit "ReconnectInitial def" ts] by (simp add: Supervisor_Run_def)
qed

text \<open>Reconnection waits stay between the configured initial and maximal delay, before
  jitter, and after \<open>n\<close> failing dials in a row the delay is the initial one doubled \<open>n\<close>
  times or the maximum, when the maximum is below 146 years (so that doubling does not wrap).\<close>

lemma supervisor_backoff:
  assumes "0 \<le> ReconnectInitial def" "ReconnectInitial def \<le> ReconnectMax def" "ReconnectMax def < 2 ^ 62"
  shows "list_all (\<lambda>w. \<exists>d. w = jit d \<and> ReconnectInitial def \<le> d \<and> d \<le> ReconnectMax def)
      (waits (Supervisor_Run def jit ts)) \<and>
    waits (Supervisor_Run def jit (replicate n \<lparr>tn_live = True, tn_dial = Some e, tn_uptime = 0,
        tn_live_after = True, tn_timer = True\<rparr>))
      = map (\<lambda>k. jit (min (ReconnectMax def) (2 ^ k * ReconnectInitial def))) [0..<n]"
proof -
  have d: "doubling_backoff (next_delay (ReconnectMax def)) (ReconnectMax def)"
    using assms by (intro doubling) auto
  let ?t = "\<lparr>tn_live = True, tn_dial = Some e, tn_uptime = 0, tn_live_after = True, tn_timer = True\<rparr>"
  have "waits (sup_loop def jit b (replicate n ?t)) = map (\<lambda>k. jit ((next_delay (ReconnectMax def) ^^ k) b)) [0..<n]" for b
  proof (induction n arbitrary: b)
    case (Suc n)
    have "map (\<lambda>k. jit ((next_delay (ReconnectMax def) ^^ k) (next_delay (ReconnectMax def) b))) [0..<n]
        = map (\<lambda>k. jit ((next_delay (ReconnectMax def) ^^ k) b)) [Suc 0..<Suc n]"
      by (simp add: map_Suc_upt [symmetric] comp_def del: upt_Suc) (simp add: funpow_swap1)
    then show ?case by (simp add: Suc upt_conv_Cons del: upt_Suc)
  qed simp
  moreover have "(next_delay (ReconnectMax def) ^^ k) (ReconnectInitial def)
      = min (ReconnectMax def) (2 ^ k * ReconnectInitial def)" for k
    using doubling_backoff.closed_form [OF d assms(1,2)] .
  ultimately show ?thesis
    using sup_loop_waits [OF d assms(1,2) order_refl assms(2), of jit ts] by (simp add: Supervisor_Run_def)
qed

text \<open>The keep-alive loop gives up exactly when \<open>maxFails\<close> requests in a row failed:
  after any number of failures short of that a success starts the count afresh, and the error
  it reports is that of the last of them.\<close>

lemma keepalive_gives_up:
  assumes "0 < maxFails" "length es < nat maxFails"
  shows "keepalive_loop maxFails 0 (map (\<lambda>e. Ping (Some e)) es @ Ping None # ts) = keepalive_loop maxFails 0 ts \<and>
    (length es + length es' = nat maxFails \<longrightarrow>
       keepalive_loop maxFails 0 (map (\<lambda>e. Ping (Some e)) (es @ es') @ ts)
         = Some (Wrap ''keepalive lost after %d attempts: %w'' [itoa maxFails] (last (es @ es'))))"
proof -
  have "(es @ es') ! nat (maxFails - 1) = last (es @ es')" if "length es + length es' = nat maxFails"
  proof -
    have "es @ es' \<noteq> []" using that assms(1) by auto
    moreover have "length (es @ es') - 1 = nat (maxFails - 1)" using that by simp
    ultimately show ?thesis by (metis last_conv_nth)
  qed
  then show ?thesis
    using keepalive_window [of maxFails 0 es "Ping None # ts"] keepalive_window [of maxFails 0 "es @ es'" ts] assms
    by (simp del: map_append) linarith
qed

end
