(* ===== verification/Transport.thy ===== *)
theory Transport
  imports Strconv
begin

text \<open>
  The QUIC transport (\<open>pkg/transport/quic.go\<close>): the TLS configurations of both ends, the
  server's certificate and the check of a pinned one.  \<open>crypto/x509\<close>, \<open>crypto/tls\<close>,
  SHA-256, randomness, files and \<open>quic-go\<close> are parameters.
\<close>

section \<open>Constants and options\<close>

definition alpn :: string where "alpn = ''h3''"

definition defaultSNI :: string where "defaultSNI = ''gateway.icloud.com''"

record TLSOpts =
  to_CertFile :: string
  to_KeyFile :: string
  to_SNI :: string
  to_PinSHA256 :: string

text \<open>A \<open>tls.Certificate\<close>: the chain of DER texts, and the key.\<close>

record 'key tls_certificate =
  tc_Certificate :: "string list"
  tc_PrivateKey :: 'key

text \<open>The fields of \<open>tls.Config\<close> that the code sets; \<open>cf_Verify\<close> is \<open>VerifyPeerCertificate\<close>.\<close>

record 'key tls_config =
  cf_Certificates :: "'key tls_certificate list"
  cf_NextProtos :: "string list"
  cf_MinVersion :: nat
  cf_ServerName :: string
  cf_InsecureSkipVerify :: bool
  cf_Verify :: "(string list \<Rightarrow> go_error option) option"

definition VersionTLS13 :: nat where "VersionTLS13 = 0x0304"

text \<open>\<open>hex.EncodeToString\<close>.\<close>

definition hex_encode :: "string \<Rightarrow> string" where
  "hex_encode s = concat (map (\<lambda>c. [hex_digit (of_char c div 16), hex_digit (of_char c mod 16)]) s)"

section \<open>Certificates\<close>

text \<open>\<open>parse\<close> gives the raw subject public key info of a certificate, \<open>sha\<close> the digest.\<close>

definition CertFingerprint :: "(string \<Rightarrow> string result) \<Rightarrow> (string \<Rightarrow> string) \<Rightarrow> string \<Rightarrow> string result" where
  "CertFingerprint parse sha certDER =
     (case parse certDER of Inl e \<Rightarrow> Inl e | Inr spki \<Rightarrow> Inr (hex_encode (sha spki)))"

record cert_template =
  ct_SerialNumber :: int
  ct_CommonName :: string
  ct_Organization :: "string list"
  ct_DNSNames :: "string list"
  ct_NotBefore :: int
  ct_NotAfter :: int
  ct_KeyUsage :: "string list"
  ct_ExtKeyUsage :: "string list"
  ct_BasicConstraintsValid :: bool

text \<open>\<open>now\<close> in nanoseconds; the code reads the clock once per field.\<close>

definition template_of :: "(nat \<Rightarrow> int) \<Rightarrow> cert_template" where
  "template_of now =
     \<lparr>ct_SerialNumber = now 0, ct_CommonName = ''gateway.icloud.com'', ct_Organization = [''Apple Inc.''],
      ct_DNSNames = [''gateway.icloud.com'', ''*.icloud.com''],
      ct_NotBefore = now 1 - 24 * 3600 * 10 ^ 9, ct_NotAfter = now 2 + 90 * 24 * 3600 * 10 ^ 9,
      ct_KeyUsage = [''DigitalSignature'', ''KeyEncipherment''], ct_ExtKeyUsage = [''ServerAuth''],
      ct_BasicConstraintsValid = True\<rparr>"

text \<open>A call that returns or panics.\<close>

datatype 'a outcome = Returns 'a | Panics string

definition generateCert ::
  "'key result \<Rightarrow> (cert_template \<Rightarrow> 'key \<Rightarrow> string result) \<Rightarrow> (nat \<Rightarrow> int) \<Rightarrow> 'key tls_certificate outcome" where
  "generateCert newKey create now =
     (case newKey of
        Inl e \<Rightarrow> Panics (''generate ecdsa key: '' @ err_text e)
      | Inr key \<Rightarrow>
          (case create (template_of now) key of
             Inl e \<Rightarrow> Panics (''create cert: '' @ err_text e)
           | Inr der \<Rightarrow> Returns \<lparr>tc_Certificate = [der], tc_PrivateKey = key\<rparr>))"

text \<open>\<open>load\<close> is \<open>tls.LoadX509KeyPair\<close>, \<open>gen\<close> the result of \<open>generateCert\<close>.\<close>

definition loadOrGenerateCert ::
  "(string \<Rightarrow> string \<Rightarrow> 'key tls_certificate result) \<Rightarrow> 'key tls_certificate outcome \<Rightarrow> string \<Rightarrow> string \<Rightarrow>
   'key tls_certificate result outcome" where
  "loadOrGenerateCert load gen certFile keyFile =
     (if certFile \<noteq> [] \<and> keyFile \<noteq> []
      then Returns (case load certFile keyFile of
                      Inl e \<Rightarrow> Inl (Wrap ''load tls keypair: %w'' [] e)
                    | Inr cert \<Rightarrow> Inr cert)
      else (case gen of Returns cert \<Rightarrow> Returns (Inr cert) | Panics m \<Rightarrow> Panics m))"

section \<open>The two configurations\<close>

definition ServerTLS ::
  "(string \<Rightarrow> string \<Rightarrow> 'key tls_certificate result) \<Rightarrow> 'key tls_certificate outcome \<Rightarrow> TLSOpts \<Rightarrow>
   'key tls_config result outcome" where
  "ServerTLS load gen opts =
     (case loadOrGenerateCert load gen (to_CertFile opts) (to_KeyFile opts) of
        Panics m \<Rightarrow> Panics m
      | Returns (Inl e) \<Rightarrow> Returns (Inl e)
      | Returns (Inr cert) \<Rightarrow>
          Returns (Inr \<lparr>cf_Certificates = [cert], cf_NextProtos = [alpn], cf_MinVersion = VersionTLS13,
            cf_ServerName = [], cf_InsecureSkipVerify = False, cf_Verify = None\<rparr>))"

definition verify_pin :: "(string \<Rightarrow> string result) \<Rightarrow> (string \<Rightarrow> string) \<Rightarrow> string \<Rightarrow> string list \<Rightarrow> go_error option" where
  "verify_pin parse sha pin rawCerts =
     (case rawCerts of
        [] \<Rightarrow> Some (Err ''no server certificate'')
      | leaf # _ \<Rightarrow>
          (case parse leaf of
             Inl e \<Rightarrow> Some (Wrap ''parse cert: %w'' [] e)
           | Inr spki \<Rightarrow>
               (let got = hex_encode (sha spki) in
                if got \<noteq> pin then Some (Errf ''certificate pin mismatch: got %s, want %s'' [got, pin]) else None)))"

definition ClientTLS :: "(string \<Rightarrow> string result) \<Rightarrow> (string \<Rightarrow> string) \<Rightarrow> TLSOpts \<Rightarrow> 'key tls_config" where
  "ClientTLS parse sha opts =
     \<lparr>cf_Certificates = [], cf_NextProtos = [alpn], cf_MinVersion = VersionTLS13,
      cf_ServerName = (if to_SNI opts = [] then defaultSNI else to_SNI opts), cf_InsecureSkipVerify = True,
      cf_Verify = (if to_PinSHA256 opts \<noteq> [] then Some (verify_pin parse sha (to_PinSHA256 opts)) else None)\<rparr>"

section \<open>Dialling and listening\<close>

text \<open>\<open>rnd\<close> is the random number below 21.\<close>

definition randomKeepAlive :: "nat \<Rightarrow> int" where
  "randomKeepAlive rnd = (20 + int (rnd mod 21)) * 10 ^ 9"

definition DialQUIC ::
  "(string \<Rightarrow> string result) \<Rightarrow> (string \<Rightarrow> string) \<Rightarrow> (string \<Rightarrow> 'key tls_config \<Rightarrow> int \<Rightarrow> 'conn result) \<Rightarrow> nat \<Rightarrow>
   string \<Rightarrow> TLSOpts \<Rightarrow> 'conn result" where
  "DialQUIC parse sha dial rnd addr opts =
     (case dial addr (ClientTLS parse sha opts) (randomKeepAlive rnd) of
        Inl e \<Rightarrow> Inl (Wrap ''quic dial: %w'' [] e)
      | Inr conn \<Rightarrow> Inr conn)"

definition ListenQUIC ::
  "(string \<Rightarrow> string \<Rightarrow> 'key tls_certificate result) \<Rightarrow> 'key tls_certificate outcome \<Rightarrow>
   (string \<Rightarrow> 'key tls_config \<Rightarrow> int \<Rightarrow> 'ln result) \<Rightarrow> nat \<Rightarrow> string \<Rightarrow> TLSOpts \<Rightarrow> 'ln result outcome" where
  "ListenQUIC load gen listen rnd addr opts =
     (case ServerTLS load gen opts of
        Panics m \<Rightarrow> Panics m
      | Returns (Inl e) \<Rightarrow> Returns (Inl (Wrap ''server tls: %w'' [] e))
      | Returns (Inr tlsCfg) \<Rightarrow>
          Returns (case listen addr tlsCfg (randomKeepAlive rnd) of
                     Inl e \<Rightarrow> Inl (Wrap ''quic listen: %w'' [] e)
                   | Inr ln \<Rightarrow> Inr ln))"

text \<open>
  What \<open>crypto/tls\<close> documents of a TLS 1.3 handshake between two such configurations: both
  ends allow the version and share a protocol, the server presents its first chain, the usual
  verification is skipped, and the client's own check must accept that chain.
\<close>

definition handshake :: "'key tls_config \<Rightarrow> 'key tls_config \<Rightarrow> go_error option" where
  "handshake server client =
     (case cf_Certificates server of
        [] \<Rightarrow> Some (External ''no certificates configured'')
      | cert # _ \<Rightarrow>
          if filter (\<lambda>p. p \<in> list.set (cf_NextProtos server)) (cf_NextProtos client) = []
          then Some (External ''no application protocol'')
          else if \<not> cf_InsecureSkipVerify client then Some (External ''certificate not trusted'')
          else (case cf_Verify client of None \<Rightarrow> None | Some f \<Rightarrow> f (tc_Certificate cert)))"

section \<open>Fingerprints\<close>

definition lower_hex :: "char \<Rightarrow> bool" where
  "lower_hex c \<longleftrightarrow> c \<in> list.set ''0123456789abcdef''"

lemma lower_hex_digit: "n < 16 \<Longrightarrow> lower_hex (hex_digit n)"
proof -
  have "list_all (\<lambda>n. lower_hex (hex_digit n)) [0..<16]" by code_simp
  then show "n < 16 \<Longrightarrow> lower_hex (hex_digit n)" by (simp add: list_all_iff)
qed

lemma hex_digit_inj: "m < 16 \<Longrightarrow> n < 16 \<Longrightarrow> hex_digit m = hex_digit n \<longleftrightarrow> m = n"
proof -
  have "list_all (\<lambda>m. list_all (\<lambda>n. hex_digit m = hex_digit n \<longleftrightarrow> m = n) [0..<16]) [0..<16]" by code_simp
  then show "m < 16 \<Longrightarrow> n < 16 \<Longrightarrow> hex_digit m = hex_digit n \<longleftrightarrow> m = n" by (simp add: list_all_iff)
qed

lemma hex_encode_simps [simp]:
  "hex_encode [] = []"
  "hex_encode (c # s) = hex_digit (of_char c div 16) # hex_digit (of_char c mod 16) # hex_encode s"
  by (simp_all add: hex_encode_def)

lemma of_char_div: "(of_char c :: nat) div 16 < 16"
proof -
  have "(of_char c :: nat) < 16 * 16" by simp
  then show ?thesis by (rule less_mult_imp_div_less)
qed

lemma hex_encode_lower: "list_all lower_hex (hex_encode s)"
  by (induction s) (simp_all add: lower_hex_digit of_char_div)

lemma hex_encode_length: "length (hex_encode s) = 2 * length s"
  by (induction s) simp_all

lemma hex_encode_inj: "hex_encode s = hex_encode t \<longleftrightarrow> s = t"
proof (induction s arbitrary: t)
  case Nil
  then show ?case by (cases t) simp_all
next
  case (Cons c s)
  have "(of_char c :: nat) = of_char d" if "of_char c div 16 = (of_char d :: nat) div 16"
    "of_char c mod 16 = (of_char d :: nat) mod 16" for d
    using that by (metis mult_div_mod_eq)
  then show ?case by (cases t) (auto simp: Cons hex_digit_inj of_char_div)
qed

section \<open>Connecting\<close>

lemma ListenQUIC_config:
  assumes "ListenQUIC load gen (\<lambda>a cfg ka. Inr cfg) rnd addr opts = Returns (Inr server)"
  obtains cert where "loadOrGenerateCert load gen (to_CertFile opts) (to_KeyFile opts) = Returns (Inr cert)"
    "cf_Certificates server = [cert]" "cf_NextProtos server = [alpn]"
  using assms by (auto simp: ListenQUIC_def ServerTLS_def split: outcome.splits sum.splits)

lemma verify_pin_ok:
  "verify_pin parse sha pin chain = None \<longleftrightarrow>
   (\<exists>leaf rest. chain = leaf # rest \<and> CertFingerprint parse sha leaf = Inr pin)"
  by (auto simp: verify_pin_def CertFingerprint_def Let_def split: list.splits sum.splits)

lemma handshake_ok:
  assumes "cf_Certificates server = [cert]" "cf_NextProtos server = [alpn]"
  shows "handshake server (ClientTLS parse sha opts) = None \<longleftrightarrow>
    to_PinSHA256 opts = [] \<or>
    (\<exists>leaf rest. tc_Certificate cert = leaf # rest \<and> CertFingerprint parse sha leaf = Inr (to_PinSHA256 opts))"
  using assms by (auto simp: handshake_def ClientTLS_def verify_pin_ok)

lemma fingerprint_form:
  "CertFingerprint parse sha leaf = Inr pin \<Longrightarrow> (\<And>s. length (sha s) = 32) \<Longrightarrow> length pin = 64 \<and> list_all lower_hex pin"
  by (auto simp: CertFingerprint_def hex_encode_lower hex_encode_length split: sum.splits)

lemma same_fingerprint:
  "CertFingerprint parse sha a = Inr pin \<Longrightarrow> CertFingerprint parse sha b = Inr pin \<Longrightarrow>
   \<exists>k l. parse a = Inr k \<and> parse b = Inr l \<and> sha k = sha l"
  by (auto simp: CertFingerprint_def hex_encode_inj split: sum.splits)

text \<open>C27: A client connects to a listening server exactly when it pins nothing, and then to every
  server, or pins the fingerprint of the server's own leaf certificate.  So a pin must be 64
  lower-case hex digits: one with upper-case digits or colons, as other tools print them,
  refuses every server.\<close>

theorem pinned_connection:
  assumes "ListenQUIC load gen (\<lambda>a cfg ka. Inr cfg) srnd saddr sopts = Returns (Inr server)"
    and "loadOrGenerateCert load gen (to_CertFile sopts) (to_KeyFile sopts) = Returns (Inr cert)"
    and "dial = (\<lambda>a cfg ka. case handshake server cfg of None \<Rightarrow> Inr conn | Some e \<Rightarrow> Inl e)"
    and "\<And>s. length (sha s) = 32"
  shows "is_ok (DialQUIC parse sha dial rnd addr opts) \<longleftrightarrow>
      to_PinSHA256 opts = [] \<or>
      (\<exists>leaf rest. tc_Certificate cert = leaf # rest \<and> CertFingerprint parse sha leaf = Inr (to_PinSHA256 opts) \<and>
         length (to_PinSHA256 opts) = 64 \<and> list_all lower_hex (to_PinSHA256 opts))"
proof -
  obtain c where c: "loadOrGenerateCert load gen (to_CertFile sopts) (to_KeyFile sopts) = Returns (Inr c)"
    "cf_Certificates server = [c]" "cf_NextProtos server = [alpn]"
    using assms(1) by (rule ListenQUIC_config)
  then have "c = cert" using assms(2) by simp
  then have "is_ok (DialQUIC parse sha dial rnd addr opts) \<longleftrightarrow> handshake server (ClientTLS parse sha opts) = None"
    by (simp add: DialQUIC_def assms(3) split: option.splits)
  also have "\<dots> \<longleftrightarrow> to_PinSHA256 opts = [] \<or>
    (\<exists>leaf rest. tc_Certificate cert = leaf # rest \<and> CertFingerprint parse sha leaf = Inr (to_PinSHA256 opts))"
    using handshake_ok [OF c(2,3)] \<open>c = cert\<close> by simp
  finally show ?thesis using fingerprint_form [where sha = sha, OF _ assms(4)] by blast
qed

theorem pinned_connection_witness:
  "is_ok (DialQUIC Inr (\<lambda>_. replicate 32 (CHR ''z''))
     (\<lambda>a cfg ka. case handshake
        \<lparr>cf_Certificates = [\<lparr>tc_Certificate = [''der''], tc_PrivateKey = ()\<rparr>], cf_NextProtos = [alpn],
         cf_MinVersion = VersionTLS13, cf_ServerName = [], cf_InsecureSkipVerify = False, cf_Verify = None\<rparr> cfg
      of None \<Rightarrow> Inr () | Some e \<Rightarrow> Inl e) 3 ''vpn:4433''
     \<lparr>to_CertFile = [], to_KeyFile = [], to_SNI = [],
      to_PinSHA256 = hex_encode (replicate 32 (CHR ''z''))\<rparr>)"
  by (subst pinned_connection
      [where load = "\<lambda>_ _. Inl (Err [])" and gen = "Returns \<lparr>tc_Certificate = [''der''], tc_PrivateKey = ()\<rparr>"
        and srnd = 0 and saddr = "'':4433''" and sopts = "\<lparr>to_CertFile = [], to_KeyFile = [], to_SNI = [], to_PinSHA256 = []\<rparr>"
        and cert = "\<lparr>tc_Certificate = [''der''], tc_PrivateKey = ()\<rparr>", OF _ _ refl])
    (simp_all add: ListenQUIC_def ServerTLS_def loadOrGenerateCert_def CertFingerprint_def hex_encode_lower hex_encode_length del: hex_encode_simps replicate.simps)

text \<open>A server without certificate files makes a certificate for itself at each start: what a
  client pinned before a restart fits afterwards only if the new key has the same digest.\<close>

lemma restart_changes_pin:
  assumes "to_CertFile sopts = [] \<or> to_KeyFile sopts = []"
    and "ListenQUIC load (generateCert (Inr key) create now) (\<lambda>a cfg ka. Inr cfg) rnd addr sopts = Returns (Inr s1)"
    and "ListenQUIC load (generateCert (Inr key') create now') (\<lambda>a cfg ka. Inr cfg) rnd' addr sopts = Returns (Inr s2)"
    and "\<And>t k der. create t k = Inr der \<Longrightarrow> parse der = Inr (spki k)"
    and "to_PinSHA256 opts \<noteq> []"
    and "handshake s1 (ClientTLS parse sha opts) = None"
  shows "handshake s2 (ClientTLS parse sha opts) = None \<longleftrightarrow> sha (spki key) = sha (spki key')"
proof -
  have served: "handshake s (ClientTLS parse sha opts) = None \<longleftrightarrow> hex_encode (sha (spki k)) = to_PinSHA256 opts"
    if "ListenQUIC load (generateCert (Inr k) create n) (\<lambda>a cfg ka. Inr cfg) r addr sopts = Returns (Inr s)" for k n r s
    using that
  proof (rule ListenQUIC_config)
    fix c
    assume c: "loadOrGenerateCert load (generateCert (Inr k) create n) (to_CertFile sopts) (to_KeyFile sopts) = Returns (Inr c)"
      "cf_Certificates s = [c]" "cf_NextProtos s = [alpn]"
    then obtain der where "tc_Certificate c = [der]" "create (template_of n) k = Inr der"
      using assms(1) by (auto simp: loadOrGenerateCert_def generateCert_def split: sum.splits)
    then show ?thesis
      using handshake_ok [OF c(2,3)] assms(4,5) by (simp add: CertFingerprint_def)
  qed
  show ?thesis using served [OF assms(2)] served [OF assms(3)] assms(6) by (metis hex_encode_inj)
qed

end
