(* ===== verification/SSHSession.thy ===== *)
theory SSHSession
  imports SSHClient Url Interfaces Transport Server "HOL-Library.Sublist"
begin

text \<open>
  Interactive SSH sessions of the desktop client (\<open>client/internal/sshsession/manager.go\<close>):
  the table of sessions, terminal input, the output and wait goroutines of each session, and the
  opening of a session.  \<open>x/crypto/ssh\<close> and the callbacks' receivers are parameters; the
  sentinel errors of package \<open>io\<close> are the values below.
\<close>

record SessionConfig =
  sc_Addr :: string
  sc_User :: string
  sc_IdentityFile :: string
  sc_Passphrase :: string
  sc_Password :: string
  sc_Rows :: int
  sc_Cols :: int

record OutputEvent =
  oe_SessionID :: string
  oe_Data :: string
  oe_DataBase64 :: string

record ClosedEvent =
  ce_SessionID :: string
  ce_Message :: string

record ErrorEvent =
  ee_SessionID :: string
  ee_Message :: string

definition io_EOF :: go_error where "io_EOF = External ''EOF''"

definition io_ErrClosedPipe :: go_error where "io_ErrClosedPipe = External ''io: read/write on closed pipe''"

definition io_ErrShortWrite :: go_error where "io_ErrShortWrite = External ''short write''"

text \<open>\<open>errors.Is\<close>.\<close>

fun errors_is :: "go_error \<Rightarrow> go_error \<Rightarrow> bool" where
  "errors_is (Wrap f args e) target \<longleftrightarrow> Wrap f args e = target \<or> errors_is e target"
| "errors_is e target \<longleftrightarrow> e = target"

section \<open>Writing\<close>

text \<open>
  \<open>writeAll\<close> on a writer given as a function on its state: the bytes taken and the error.
  A writer that claims more than it was given makes the slicing panic.
\<close>

datatype write_end = Written | Failed go_error | OutOfRange

function writeAll :: "('w \<Rightarrow> string \<Rightarrow> 'w \<times> int \<times> go_error option) \<Rightarrow> 'w \<Rightarrow> string \<Rightarrow> 'w \<times> write_end" where
  "writeAll write w data =
     (if data = [] then (w, Written)
      else (case write w data of (w', n, err) \<Rightarrow>
              (case err of
                 Some e \<Rightarrow> (w', Failed e)
               | None \<Rightarrow>
                   if n \<le> 0 then (w', Failed io_ErrShortWrite)
                   else if int (length data) < n then (w', OutOfRange)
                   else writeAll write w' (drop (nat n) data))))"
  by pat_completeness auto
termination
  by (relation "measure (\<lambda>(write, w, data). length data)") auto

declare writeAll.simps [simp del]

fun write_chunks :: "('w \<Rightarrow> string \<Rightarrow> 'w \<times> int \<times> go_error option) \<Rightarrow> 'w \<Rightarrow> string list \<Rightarrow> 'w \<times> write_end" where
  "write_chunks write w [] = (w, Written)"
| "write_chunks write w (chunk # chunks) =
     (case writeAll write w chunk of
        (w', Written) \<Rightarrow> write_chunks write w' chunks
      | (w', stop) \<Rightarrow> (w', stop))"

section \<open>Opening a session\<close>

definition defaultTerminalModes :: "(string \<times> nat) list" where
  "defaultTerminalModes =
     [(''VINTR'', 3), (''VQUIT'', 28), (''VERASE'', 127), (''VKILL'', 21), (''VEOF'', 4), (''VSTART'', 17), (''VSTOP'', 19),
      (''VSUSP'', 26), (''VREPRINT'', 18), (''VWERASE'', 23), (''VLNEXT'', 22), (''VDISCARD'', 15), (''ICRNL'', 1),
      (''IXON'', 0), (''IXANY'', 0), (''IXOFF'', 0), (''IMAXBEL'', 1), (''IUTF8'', 1), (''ISIG'', 1), (''ICANON'', 1),
      (''ECHO'', 1), (''ECHOE'', 1), (''ECHOK'', 1), (''ECHOCTL'', 1), (''ECHOKE'', 1), (''IEXTEN'', 1), (''OPOST'', 1),
      (''ONLCR'', 1), (''CS8'', 1), (''PARENB'', 0), (''PARODD'', 0), (''TTY_OP_ISPEED'', 38400), (''TTY_OP_OSPEED'', 38400)]"

text \<open>
  The answers while opening.  The dialling goroutine and the end of the context race:
  \<open>CtxFirst\<close> also says what the goroutine brings when nobody waits for it any more.
\<close>

datatype dial_race = Dialled "unit result" | CtxFirst go_error "unit result"

record open_env =
  oo_dial :: dial_race
  oo_session :: "go_error option"
  oo_stdin :: "go_error option"
  oo_stdout :: "go_error option"
  oo_stderr :: "go_error option"
  oo_pty :: "go_error option"
  oo_shell :: "go_error option"

text \<open>What happens to the connection and the session on it.\<close>

datatype open_act = Connected | NewSession | RequestPty int int | SessionClosed | Disconnected | StdinClosed

definition pty_size :: "SessionConfig \<Rightarrow> int \<times> int" where
  "pty_size c = (if sc_Rows c \<le> 0 then 24 else sc_Rows c, if sc_Cols c \<le> 0 then 80 else sc_Cols c)"

text \<open>A step on the open session: its error closes both.\<close>

definition on_session :: "string \<Rightarrow> go_error option \<Rightarrow> open_act list \<Rightarrow> unit result \<times> open_act list \<Rightarrow> unit result \<times> open_act list" where
  "on_session msg err acts rest =
     (case err of
        Some e \<Rightarrow> (Inl (Wrap msg [] e), acts @ [SessionClosed, Disconnected])
      | None \<Rightarrow> rest)"

definition ssh_config :: "SessionConfig \<Rightarrow> SSHCfg" where
  "ssh_config c =
     \<lparr>ssh_Addr = sc_Addr c, ssh_User = sc_User c, ssh_IdentityFile = sc_IdentityFile c,
      ssh_Passphrase = sc_Passphrase c, ssh_Password = sc_Password c\<rparr>"

definition OpenSSH ::
  "(string \<Rightarrow> string result) \<Rightarrow> (string \<Rightarrow> string option \<Rightarrow> 'signer result) \<Rightarrow> open_env \<Rightarrow> SessionConfig \<Rightarrow>
   unit result \<times> open_act list" where
  "OpenSSH readFile parse env c =
     (case BuildAuthMethods readFile parse (ssh_config c) of
        Inl e \<Rightarrow> (Inl e, [])
      | Inr methods \<Rightarrow>
          (case oo_dial env of
             CtxFirst e late \<Rightarrow> (Inl e, if is_ok late then [Connected] else [])
           | Dialled (Inl e) \<Rightarrow> (Inl (Wrap ''ssh dial: %w'' [] e), [])
           | Dialled (Inr _) \<Rightarrow>
               (case oo_session env of
                  Some e \<Rightarrow> (Inl (Wrap ''new ssh session: %w'' [] e), [Connected, Disconnected])
                | None \<Rightarrow>
                    (let acts = [Connected, NewSession];
                         asked = acts @ [RequestPty (fst (pty_size c)) (snd (pty_size c))] in
                     on_session ''stdin pipe: %w'' (oo_stdin env) acts
                       (on_session ''stdout pipe: %w'' (oo_stdout env) acts
                         (on_session ''stderr pipe: %w'' (oo_stderr env) acts
                           (on_session ''request pty: %w'' (oo_pty env) asked
                             (on_session ''start shell: %w'' (oo_shell env) asked
                               (Inr (), asked)))))))))"

text \<open>\<open>sshPTY\<close>: \<open>Wait\<close> drops the connection when the session ended, \<open>Close\<close> ends all three.\<close>

definition pty_Wait :: "go_error option \<Rightarrow> go_error option \<times> open_act list" where
  "pty_Wait ended = (ended, [Disconnected])"

definition pty_Close :: "go_error option \<Rightarrow> go_error option \<times> open_act list" where
  "pty_Close closeErr = (closeErr, [StdinClosed, SessionClosed, Disconnected])"

text \<open>
  \<open>mergeReaders\<close>: the blocks that the readers present pass through one pipe, in an order
  given by \<open>sched\<close> (read errors only end a reader's part); then the pipe reports the end.
\<close>

definition mergeReaders :: "bool list \<Rightarrow> string list option \<Rightarrow> string list option \<Rightarrow> string list \<times> go_error" where
  "mergeReaders sched stdout stderr =
     (merge sched (case stdout of None \<Rightarrow> [] | Some bs \<Rightarrow> bs) (case stderr of None \<Rightarrow> [] | Some bs \<Rightarrow> bs), io_EOF)"

definition session_randomID :: "string result \<Rightarrow> int \<Rightarrow> string" where
  "session_randomID rnd now = (case rnd of Inl _ \<Rightarrow> itoa now | Inr b \<Rightarrow> hex_encode b)"

section \<open>Output\<close>

text \<open>One turn of \<open>copyOutput\<close>: what the callbacks get, and whether the loop goes on.\<close>

datatype session_event = OnOutput OutputEvent | OnClosed ClosedEvent | OnError ErrorEvent

record callbacks =
  cb_output :: bool
  cb_closed :: bool
  cb_error :: bool

definition copy_turn :: "callbacks \<Rightarrow> string \<Rightarrow> string \<times> go_error option \<Rightarrow> session_event list \<times> bool" where
  "copy_turn cb i turn =
     (case turn of (data, err) \<Rightarrow>
        let out = (if data \<noteq> [] \<and> cb_output cb
                   then [OnOutput \<lparr>oe_SessionID = i, oe_Data = data, oe_DataBase64 = b64_encode data\<rparr>] else [])
        in case err of
             None \<Rightarrow> (out, True)
           | Some e \<Rightarrow>
               (out @ (if \<not> errors_is e io_EOF \<and> \<not> errors_is e io_ErrClosedPipe \<and> cb_error cb
                       then [OnError \<lparr>ee_SessionID = i, ee_Message = err_text e\<rparr>] else []), False))"

fun copyOutput :: "callbacks \<Rightarrow> string \<Rightarrow> (string \<times> go_error option) list \<Rightarrow> session_event list" where
  "copyOutput cb i [] = []"
| "copyOutput cb i (turn # turns) =
     (case copy_turn cb i turn of (out, go_on) \<Rightarrow> if go_on then out @ copyOutput cb i turns else out)"

definition wait_events :: "callbacks \<Rightarrow> string \<Rightarrow> go_error option \<Rightarrow> session_event list" where
  "wait_events cb i err =
     (let message = (case err of None \<Rightarrow> [] | Some e \<Rightarrow> if errors_is e io_EOF then [] else err_text e);
          failed = (case err of None \<Rightarrow> False | Some e \<Rightarrow> \<not> errors_is e io_EOF)
      in (if failed \<and> cb_error cb then [OnError \<lparr>ee_SessionID = i, ee_Message = message\<rparr>] else []) @
         (if cb_closed cb then [OnClosed \<lparr>ce_SessionID = i, ce_Message = message\<rparr>] else []))"

section \<open>The manager\<close>

text \<open>
  The table, and beside it the goroutines of the sessions: those copying output, those waiting
  for the end of a terminal, and those between the deletion from the table and their callbacks.
  A terminal is a number; \<open>sx_log\<close> is what the callbacks got, in order.
\<close>

record Sessions =
  sx_sessions :: "string \<rightharpoonup> nat"
  sx_copying :: "string list"
  sx_waiting :: "(string \<times> nat) list"
  sx_ending :: "(string \<times> go_error option) list"
  sx_log :: "session_event list"

definition NewManager :: Sessions where
  "NewManager = \<lparr>sx_sessions = Map.empty, sx_copying = [], sx_waiting = [], sx_ending = [], sx_log = []\<rparr>"

definition check_session :: "SessionConfig \<Rightarrow> go_error option" where
  "check_session c =
     (if sc_Addr c = [] then Some (Err ''ssh addr is required'')
      else if sc_User c = [] then Some (Err ''ssh user is required'')
      else None)"

text \<open>\<open>opened\<close>: the terminal, and whether there is a reader of its output.\<close>

definition session_Create ::
  "(nat \<times> bool) result \<Rightarrow> string \<Rightarrow> SessionConfig \<Rightarrow> Sessions \<Rightarrow> string result \<times> Sessions" where
  "session_Create opened i c m =
     (case check_session c of
        Some e \<Rightarrow> (Inl e, m)
      | None \<Rightarrow>
          (case opened of
             Inl e \<Rightarrow> (Inl e, m)
           | Inr (pty, reader) \<Rightarrow>
               (Inr i, m\<lparr>sx_sessions := (sx_sessions m)(i \<mapsto> pty),
                         sx_copying := (if reader then i # sx_copying m else sx_copying m),
                         sx_waiting := (i, pty) # sx_waiting m\<rparr>)))"

definition session_get :: "string \<Rightarrow> Sessions \<Rightarrow> nat result" where
  "session_get i m =
     (case sx_sessions m i of None \<Rightarrow> Inl (Errf ''ssh session %q not found'' [i]) | Some p \<Rightarrow> Inr p)"

definition session_Active :: "string \<Rightarrow> Sessions \<Rightarrow> bool" where
  "session_Active i m \<longleftrightarrow> sx_sessions m i \<noteq> None"

text \<open>The calls on the terminal of a session; \<open>write\<close> acts on the terminals' state.\<close>

definition WriteBytes ::
  "(nat \<Rightarrow> 'w \<Rightarrow> string \<Rightarrow> 'w \<times> int \<times> go_error option) \<Rightarrow> Sessions \<Rightarrow> 'w \<Rightarrow> string \<Rightarrow> string \<Rightarrow> 'w \<times> write_end" where
  "WriteBytes write m w i data =
     (case session_get i m of Inl e \<Rightarrow> (w, Failed e) | Inr p \<Rightarrow> writeAll (write p) w data)"

definition WriteChunks ::
  "(nat \<Rightarrow> 'w \<Rightarrow> string \<Rightarrow> 'w \<times> int \<times> go_error option) \<Rightarrow> Sessions \<Rightarrow> 'w \<Rightarrow> string \<Rightarrow> string list \<Rightarrow> 'w \<times> write_end" where
  "WriteChunks write m w i chunks =
     (case session_get i m of Inl e \<Rightarrow> (w, Failed e) | Inr p \<Rightarrow> write_chunks (write p) w chunks)"

definition session_Resize :: "(nat \<Rightarrow> int \<Rightarrow> int \<Rightarrow> go_error option) \<Rightarrow> Sessions \<Rightarrow> string \<Rightarrow> int \<Rightarrow> int \<Rightarrow> go_error option" where
  "session_Resize change m i rows cols =
     (case session_get i m of
        Inl e \<Rightarrow> Some e
      | Inr p \<Rightarrow> if rows \<le> 0 \<or> cols \<le> 0 then Some (Err ''terminal rows and cols must be positive'') else change p rows cols)"

definition session_Close :: "(nat \<Rightarrow> go_error option) \<Rightarrow> Sessions \<Rightarrow> string \<Rightarrow> go_error option \<times> nat list" where
  "session_Close close m i =
     (case session_get i m of Inl e \<Rightarrow> (Some e, []) | Inr p \<Rightarrow> (close p, [p]))"

text \<open>The terminals closed; \<open>order\<close> is Go's choice of an order of the table.\<close>

definition CloseAll :: "string list \<Rightarrow> Sessions \<Rightarrow> nat list" where
  "CloseAll order m = List.map_filter (sx_sessions m) order"

text \<open>The steps of the two goroutines of a session.\<close>

definition output_turn :: "callbacks \<Rightarrow> string \<Rightarrow> string \<times> go_error option \<Rightarrow> Sessions \<Rightarrow> Sessions" where
  "output_turn cb i turn m =
     (case copy_turn cb i turn of (out, go_on) \<Rightarrow>
        m\<lparr>sx_log := sx_log m @ out, sx_copying := (if go_on then sx_copying m else remove1 i (sx_copying m))\<rparr>)"

definition wait_returns :: "string \<Rightarrow> nat \<Rightarrow> go_error option \<Rightarrow> Sessions \<Rightarrow> Sessions" where
  "wait_returns i pty err m =
     m\<lparr>sx_sessions := (sx_sessions m)(i := None), sx_waiting := remove1 (i, pty) (sx_waiting m),
       sx_ending := (i, err) # sx_ending m\<rparr>"

definition wait_reports :: "callbacks \<Rightarrow> string \<Rightarrow> go_error option \<Rightarrow> Sessions \<Rightarrow> Sessions" where
  "wait_reports cb i err m =
     m\<lparr>sx_ending := remove1 (i, err) (sx_ending m), sx_log := sx_log m @ wait_events cb i err\<rparr>"

section \<open>Writing ends\<close>

text \<open>One turn of the loop that goes on.\<close>

lemma writeAll_step:
  "data \<noteq> [] \<Longrightarrow> write w data = (w1, n, None) \<Longrightarrow> 0 < n \<Longrightarrow> n \<le> int (length data) \<Longrightarrow>
   writeAll write w data = writeAll write w1 (drop (nat n) data)"
  by (subst writeAll.simps) simp

lemma writeAll_stop:
  "writeAll write w [] = (w, Written)"
  "data \<noteq> [] \<Longrightarrow> write w data = (w1, n, Some e) \<Longrightarrow> writeAll write w data = (w1, Failed e)"
  "data \<noteq> [] \<Longrightarrow> write w data = (w1, n, None) \<Longrightarrow> n \<le> 0 \<Longrightarrow> writeAll write w data = (w1, Failed io_ErrShortWrite)"
  by (simp_all add: writeAll.simps)

text \<open>
  What \<open>io.Writer\<close> promises, for the bytes \<open>sent\<close> and the number of \<open>calls\<close>: it takes a
  prefix of what it is given and says how long it is.
\<close>

definition takes :: "string \<Rightarrow> nat \<Rightarrow> string \<Rightarrow> nat \<Rightarrow> int \<Rightarrow> string \<Rightarrow> bool" where
  "takes old c new c' n d \<longleftrightarrow> 0 \<le> n \<and> n \<le> int (length d) \<and> new = old @ take (nat n) d \<and> c' = Suc c"

definition wrote :: "string \<Rightarrow> nat \<Rightarrow> string \<Rightarrow> nat \<Rightarrow> string \<Rightarrow> write_end \<Rightarrow> bool" where
  "wrote old c new c' d r \<longleftrightarrow>
     prefix new (old @ d) \<and> prefix old new \<and> (r = Written \<longrightarrow> new = old @ d) \<and> r \<noteq> OutOfRange \<and> c' \<le> c + length d"

lemma wrote_none: "takes old c new c' n d \<Longrightarrow> d \<noteq> [] \<Longrightarrow> wrote old c new c' d (Failed e)"
  by (auto simp: takes_def wrote_def take_is_prefix Suc_le_eq)

lemma wrote_more:
  assumes "takes old c mid c1 n d" "0 < n" "wrote mid c1 new c' (drop (nat n) d) r"
  shows "wrote old c new c' d r"
proof -
  have "mid @ drop (nat n) d = old @ d" using assms(1) by (simp add: takes_def)
  moreover have "prefix old mid" using assms(1) by (simp add: takes_def)
  moreover have "Suc (length (drop (nat n) d)) \<le> length d" using assms(1,2) by (simp add: takes_def) linarith
  moreover have "prefix old new" using assms(3) calculation(2) unfolding wrote_def by (blast intro: prefix_order.trans)
  ultimately show ?thesis using assms(1,3) by (auto simp: wrote_def takes_def)
qed

lemma writeAll_wrote:
  assumes law: "\<And>w d w' n err. write w d = (w', n, err) \<Longrightarrow> takes (sent w) (calls w) (sent w') (calls w') n d"
  shows "writeAll write w data = (w', r) \<Longrightarrow> wrote (sent w) (calls w) (sent w') (calls w') data r"
proof (induction data arbitrary: w rule: length_induct)
  case (1 data)
  obtain w1 n err where wr: "write w data = (w1, n, err)" by (metis prod_cases3)
  note t = law [OF wr]
  show ?case
  proof (cases "data = []")
    case True
    then show ?thesis using 1(2) by (auto simp: writeAll_stop wrote_def)
  next
    case False
    show ?thesis
    proof (cases "err = None \<and> 0 < n")
      case True
      then have "writeAll write w1 (drop (nat n) data) = (w', r)"
        using 1(2) False wr t by (simp add: writeAll_step takes_def)
      moreover have "length (drop (nat n) data) < length data" using False True by simp
      ultimately show ?thesis using 1(1) wrote_more [OF t] True by blast
    next
      case stop: False
      have "\<exists>e. writeAll write w data = (w1, Failed e)"
      proof (cases err)
        case None
        then show ?thesis using stop wr by (intro exI) (rule writeAll_stop(3) [OF False], auto)
      next
        case (Some e)
        then show ?thesis using wr by (intro exI) (rule writeAll_stop(2) [OF False], simp)
      qed
      then obtain e where "writeAll write w data = (w1, Failed e)" by blast
      then show ?thesis using 1(2) wrote_none [OF t False] by simp
    qed
  qed
qed

lemma writeAll_succeeds:
  assumes "\<And>w d w' n err. write w d = (w', n, err) \<Longrightarrow> takes (sent w) (calls w) (sent w') (calls w') n d"
    and "\<And>w d w' n err. d \<noteq> [] \<Longrightarrow> write w d = (w', n, err) \<Longrightarrow> err = None \<and> 0 < n"
  shows "snd (writeAll write w data) = Written"
proof (induction data arbitrary: w rule: length_induct)
  case (1 data)
  obtain w1 n err where wr: "write w data = (w1, n, err)" by (metis prod_cases3)
  show ?case
  proof (cases "data = []")
    case False
    then have "err = None" "0 < n" "n \<le> int (length data)" using assms(2) [OF False wr] assms(1) [OF wr] by (auto simp: takes_def)
    moreover from this have "length (drop (nat n) data) < length data" using False by simp
    ultimately show ?thesis using 1 False wr writeAll_step [of data "write" w w1 n] by metis
  qed (simp add: writeAll_stop)
qed

lemma write_chunks_wrote:
  assumes law: "\<And>w d w' n err. write w d = (w', n, err) \<Longrightarrow> takes (sent w) (calls w) (sent w') (calls w') n d"
  shows "write_chunks write w chunks = (w', r) \<Longrightarrow> wrote (sent w) (calls w) (sent w') (calls w') (concat chunks) r"
proof (induction chunks arbitrary: w)
  case Nil
  then show ?case by (simp add: wrote_def)
next
  case (Cons d chunks)
  obtain w1 r1 where w1: "writeAll write w d = (w1, r1)" by fastforce
  have first: "wrote (sent w) (calls w) (sent w1) (calls w1) d r1" using law w1 by (rule writeAll_wrote)
  show ?case
  proof (cases "r1 = Written")
    case True
    then have "wrote (sent w1) (calls w1) (sent w') (calls w') (concat chunks) r" using Cons w1 by simp
    then show ?thesis using first True by (auto simp: wrote_def intro: prefix_order.trans)
  next
    case False
    then have "w' = w1" "r = r1" using Cons(2) w1 by (auto split: write_end.splits)
    moreover have "prefix (sent w1) (sent w @ concat (d # chunks))"
      using first unfolding wrote_def by (auto intro: prefix_prefix [of _ "sent w @ d", simplified])
    ultimately show ?thesis using first False by (auto simp: wrote_def)
  qed
qed

text \<open>C10: Terminal input is written completely or with an error, in at most one call per byte: with a
  writer that keeps to its contract the loop ends, never slices out of range, and what was sent
  is what was sent before and a beginning of the input, all of it if no error is returned.  A
  writer that always takes something makes it succeed.\<close>

theorem writing_ends:
  assumes "writeAll write w data = (w', r)"
    and "\<And>w d w' n err. write w d = (w', n, err) \<Longrightarrow> takes (sent w) (calls w) (sent w') (calls w') n d"
  shows "(\<exists>k\<le>length data. sent w' = sent w @ take k data \<and> (r = Written \<longrightarrow> k = length data)) \<and>
    r \<noteq> OutOfRange \<and> calls w' \<le> calls w + length data \<and>
    ((\<forall>w d w' n err. d \<noteq> [] \<longrightarrow> write w d = (w', n, err) \<longrightarrow> err = None \<and> 0 < n) \<longrightarrow> r = Written)"
proof -
  have wr: "wrote (sent w) (calls w) (sent w') (calls w') data r" using assms(2,1) by (rule writeAll_wrote)
  then obtain x y where "sent w' = sent w @ x" "sent w' @ y = sent w @ data" by (auto simp: wrote_def prefix_def)
  then have "sent w' = sent w @ take (length x) data \<and> length x \<le> length data" by (metis append.assoc append_eq_conv_conj same_append_eq length_append le_add1)
  moreover have "r = Written \<longrightarrow> length x = length data" using wr \<open>sent w' = sent w @ x\<close> by (auto simp: wrote_def)
  ultimately have "\<exists>k\<le>length data. sent w' = sent w @ take k data \<and> (r = Written \<longrightarrow> k = length data)" by blast
  moreover have "r = Written" if "\<forall>w d w' n err. d \<noteq> [] \<longrightarrow> write w d = (w', n, err) \<longrightarrow> err = None \<and> 0 < n"
  proof -
    have "snd (writeAll write w data) = Written"
      by (rule writeAll_succeeds [where sent = sent and calls = calls]) (use assms(2) that in blast)+
    then show ?thesis using assms(1) by simp
  qed
  ultimately show ?thesis using wr by (simp add: wrote_def)
qed

text \<open>A terminal that takes at most three bytes a time.\<close>

definition slow_write :: "string \<times> nat \<Rightarrow> string \<Rightarrow> (string \<times> nat) \<times> int \<times> go_error option" where
  "slow_write w d = ((fst w @ take 3 d, Suc (snd w)), int (length (take 3 d)), None)"

lemma slow_write_takes: "slow_write w d = (w', n, err) \<Longrightarrow> takes (fst w) (snd w) (fst w') (snd w') n d"
  by (auto simp: slow_write_def takes_def min_def)

theorem writing_ends_witness:
  "fst (fst (writeAll slow_write ([], 0) ''ls -l /'')) = ''ls -l /'' \<and> snd (fst (writeAll slow_write ([], 0) ''ls -l /'')) \<le> 7"
proof -
  obtain w' r where run: "writeAll slow_write ([], 0) ''ls -l /'' = (w', r)" by fastforce
  have "r = Written" using writing_ends [where sent = fst and calls = snd, OF run slow_write_takes] by (auto simp: slow_write_def)
  then have "fst w' = ''ls -l /'' \<and> snd w' \<le> 7"
    using writing_ends [where sent = fst and calls = snd, OF run slow_write_takes] by (simp add: eval_nat_numeral)
  then show ?thesis using run by simp
qed

section \<open>Opening leaves nothing behind\<close>

text \<open>What is still open after a list of acts.\<close>

definition leaks :: "open_act list \<Rightarrow> bool" where
  "leaks acts \<longleftrightarrow> Connected \<in> list.set acts \<and> Disconnected \<notin> list.set acts \<or>
     NewSession \<in> list.set acts \<and> SessionClosed \<notin> list.set acts"

lemma on_session_cases:
  "on_session msg err acts rest = (Inl e, as) \<Longrightarrow> as = acts @ [SessionClosed, Disconnected] \<or> rest = (Inl e, as)"
  by (auto simp: on_session_def split: option.splits)

lemma on_session_ok: "on_session msg err acts rest = (Inr x, as) \<Longrightarrow> rest = (Inr x, as)"
  by (auto simp: on_session_def split: option.splits)

lemma opened_acts:
  assumes "oo_dial env = Dialled (Inr u)" "OpenSSH readFile parse env c = (Inl e, acts)"
  shows "\<not> leaks acts"
proof -
  have "\<exists>pre. acts = pre @ [SessionClosed, Disconnected] \<or> acts = [Connected, Disconnected] \<or> acts = []"
    using assms
    by (fastforce simp: OpenSSH_def Let_def split: sum.splits option.splits dest!: on_session_cases)
  then show ?thesis by (auto simp: leaks_def)
qed

text \<open>C28: Opening a session that fails closes what it opened, except in one case: when the caller's
  context ends while the dial is under way, and the dial then succeeds, the connection stays open
  and nothing holds it any more.  A session that opens asks for a terminal of positive size and
  stays open.\<close>

theorem failed_open_releases:
  assumes "OpenSSH readFile parse env c = (res, acts)"
  shows "(\<not> is_ok res \<longrightarrow> leaks acts \<longrightarrow> (\<exists>e. oo_dial env = CtxFirst e (Inr ()) \<and> res = Inl e \<and> acts = [Connected])) \<and>
    (is_ok res \<longrightarrow> (\<exists>rows cols. 0 < rows \<and> 0 < cols \<and> acts = [Connected, NewSession, RequestPty rows cols]))"
proof (intro conjI impI)
  assume r: "\<not> is_ok res" and l: "leaks acts"
  then obtain e where e: "res = Inl e" by (cases res) auto
  show "\<exists>e. oo_dial env = CtxFirst e (Inr ()) \<and> res = Inl e \<and> acts = [Connected]"
  proof (cases "oo_dial env")
    case (Dialled d)
    show ?thesis
    proof (cases d)
      case (Inl x)
      then show ?thesis using assms Dialled l by (auto simp: OpenSSH_def leaks_def split: sum.splits)
    next
      case (Inr u)
      then show ?thesis using opened_acts [of env u readFile parse c e acts] assms e Dialled l by simp
    qed
  next
    case (CtxFirst x late)
    then show ?thesis using assms e l by (cases late) (auto simp: OpenSSH_def leaks_def split: sum.splits)
  qed
next
  assume "is_ok res"
  then have "res = Inr ()" by (cases res) auto
  then have "acts = [Connected, NewSession, RequestPty (fst (pty_size c)) (snd (pty_size c))]"
    using assms by (auto simp: OpenSSH_def Let_def split: sum.splits option.splits dial_race.splits dest!: on_session_ok)
  moreover have "0 < fst (pty_size c)" "0 < snd (pty_size c)" by (simp_all add: pty_size_def)
  ultimately show "\<exists>rows cols. 0 < rows \<and> 0 < cols \<and> acts = [Connected, NewSession, RequestPty rows cols]" by blast
qed

definition sample_session :: SessionConfig where
  "sample_session = \<lparr>sc_Addr = ''h:22'', sc_User = ''u'', sc_IdentityFile = [], sc_Passphrase = [], sc_Password = ''p'',
     sc_Rows = 0, sc_Cols = 132\<rparr>"

theorem failed_open_releases_witness:
  "leaks [Connected] \<and>
   (\<exists>env. fst (OpenSSH (\<lambda>_. Inl (Err [])) (\<lambda>_ _. Inr ()) env sample_session) = Inr () \<and>
      (\<exists>rows cols. 0 < rows \<and> snd (OpenSSH (\<lambda>_. Inl (Err [])) (\<lambda>_ _. Inr ()) env sample_session) =
         [Connected, NewSession, RequestPty rows cols]))"
proof -
  let ?env = "\<lparr>oo_dial = Dialled (Inr ()), oo_session = None, oo_stdin = None, oo_stdout = None, oo_stderr = None,
    oo_pty = None, oo_shell = None\<rparr>"
  let ?run = "OpenSSH (\<lambda>_. Inl (Err [])) (\<lambda>_ _. Inr ()) ?env sample_session"
  have "fst ?run = Inr ()"
    by (simp add: OpenSSH_def BuildAuthMethods_def ssh_config_def sample_session_def on_session_def)
  moreover from this have "is_ok (fst ?run)" by simp
  then have "\<exists>rows cols. 0 < rows \<and> 0 < cols \<and> snd ?run = [Connected, NewSession, RequestPty rows cols]"
    using failed_open_releases [OF prod.collapse [of ?run, symmetric]] by blast
  moreover have "leaks [Connected]" by (simp add: leaks_def)
  ultimately show ?thesis by blast
qed

section \<open>Output\<close>

fun outputs :: "session_event list \<Rightarrow> OutputEvent list" where
  "outputs [] = []"
| "outputs (OnOutput e # es) = e # outputs es"
| "outputs (OnClosed e # es) = outputs es"
| "outputs (OnError e # es) = outputs es"

lemma outputs_append [simp]: "outputs (es @ fs) = outputs es @ outputs fs"
  by (induction es rule: outputs.induct) simp_all

definition output_of :: "string \<Rightarrow> string \<Rightarrow> OutputEvent" where
  "output_of i data = \<lparr>oe_SessionID = i, oe_Data = data, oe_DataBase64 = b64_encode data\<rparr>"

lemma output_of_simps [simp]:
  "oe_Data (output_of i d) = d" "oe_SessionID (output_of i d) = i" "oe_DataBase64 (output_of i d) = b64_encode d"
  "oe_Data \<circ> output_of i = id"
  by (simp_all add: output_of_def fun_eq_iff)

lemma copyOutput_outputs:
  "cb_output cb \<Longrightarrow> list_all (\<lambda>t. snd t = None) turns \<Longrightarrow>
   outputs (copyOutput cb i (turns @ [(d, Some e)])) = map (output_of i) (filter (\<lambda>d. d \<noteq> []) (map fst turns @ [d]))"
  by (induction turns) (auto simp: copy_turn_def output_of_def Let_def)

lemma merge_shuffles: "merge bs xs ys \<in> shuffles xs ys"
  by (induction bs xs ys rule: merge.induct) (auto simp: Cons_in_shuffles_iff)

text \<open>C29: Everything the remote side prints reaches the window: the blocks of both of its streams,
  each stream's in order, one event per block under the session's identifier, and the base64
  text of the event decodes to the block.  What a read returns along with its error counts too.\<close>

theorem terminal_output_faithful:
  assumes "cb_output cb" and "[] \<notin> list.set out" "[] \<notin> list.set err"
    and "mergeReaders sched (Some out) (Some err) = (blocks, eof)"
    and "events = outputs (copyOutput cb i (map (\<lambda>b. (b, None)) blocks @ [(rest, Some e)]))"
  shows "\<exists>bs \<in> shuffles out err.
      map oe_Data events = bs @ (if rest = [] then [] else [rest]) \<and>
      map (b64_decode True False \<circ> oe_DataBase64) events = map Some (map oe_Data events) \<and>
      (\<forall>ev\<in>list.set events. oe_SessionID ev = i)"
proof
  have b: "blocks = merge sched out err" using assms(4) by (simp add: mergeReaders_def)
  show "blocks \<in> shuffles out err" by (simp add: b merge_shuffles)
  then have "[] \<notin> list.set blocks" using assms(2,3) set_shuffles by blast
  then have "filter (\<lambda>d. d \<noteq> []) blocks = blocks" by (simp add: filter_id_conv) metis
  then have "events = map (output_of i) (blocks @ (if rest = [] then [] else [rest]))"
    using assms(1,5) copyOutput_outputs [of cb "map (\<lambda>b. (b, None)) blocks" i rest e] by (simp add: comp_def list_all_iff)
  then show "map oe_Data events = blocks @ (if rest = [] then [] else [rest]) \<and>
      map (b64_decode True False \<circ> oe_DataBase64) events = map Some (map oe_Data events) \<and>
      (\<forall>ev\<in>list.set events. oe_SessionID ev = i)"
    by (auto simp: b64_decode_encode)
qed

definition sample_callbacks :: callbacks where
  "sample_callbacks = \<lparr>cb_output = True, cb_closed = True, cb_error = True\<rparr>"

definition sample_output :: "OutputEvent list" where
  "sample_output = outputs (copyOutput sample_callbacks ''s'' (map (\<lambda>b. (b, None)) (merge [True, False] [''a'', ''b''] [''x'']) @ [([], Some io_EOF)]))"

theorem terminal_output_faithful_witness:
  "map oe_Data sample_output \<in> shuffles [''a'', ''b''] [''x''] \<and> list_all (\<lambda>ev. oe_SessionID ev = ''s'') sample_output"
proof -
  have "cb_output sample_callbacks" by (simp add: sample_callbacks_def)
  from terminal_output_faithful [OF this _ _ _ sample_output_def, of "[''a'', ''b'']" "[''x'']" "[True, False]" io_EOF]
  show ?thesis by (auto simp: mergeReaders_def list_all_iff)
qed

section \<open>The life of a session\<close>

datatype session_op =
    Created SessionConfig "(nat \<times> bool) result" string
  | OutputTurn string "string \<times> go_error option"
  | WaitReturned string nat "go_error option"
  | WaitReported string "go_error option"

fun closed_ids :: "session_event list \<Rightarrow> string list" where
  "closed_ids [] = []"
| "closed_ids (OnClosed e # es) = ce_SessionID e # closed_ids es"
| "closed_ids (OnOutput e # es) = closed_ids es"
| "closed_ids (OnError e # es) = closed_ids es"

lemma closed_ids_append [simp]: "closed_ids (es @ fs) = closed_ids es @ closed_ids fs"
  by (induction es rule: closed_ids.induct) simp_all

lemma closed_ids_turn [simp]: "closed_ids (fst (copy_turn cb i turn)) = []"
  by (cases turn) (simp add: copy_turn_def Let_def split: option.splits)

lemma closed_ids_wait [simp]: "closed_ids (wait_events cb i err) = (if cb_closed cb then [i] else [])"
  by (simp add: wait_events_def Let_def)

text \<open>
  The identifiers a state knows.  \<open>randomID\<close> draws 64 random bits; that it never repeats an
  identifier is the one assumption on it.
\<close>

definition known_ids :: "Sessions \<Rightarrow> string list" where
  "known_ids m = map fst (sx_waiting m) @ map fst (sx_ending m) @ sx_copying m @ closed_ids (sx_log m)"

inductive session_step :: "callbacks \<Rightarrow> Sessions \<Rightarrow> session_op \<Rightarrow> Sessions \<Rightarrow> bool" for cb :: callbacks where
  step_create: "i \<notin> list.set (known_ids m) \<Longrightarrow> session_step cb m (Created c opened i) (snd (session_Create opened i c m))"
| step_output: "i \<in> list.set (sx_copying m) \<Longrightarrow> session_step cb m (OutputTurn i turn) (output_turn cb i turn m)"
| step_returns: "(i, p) \<in> list.set (sx_waiting m) \<Longrightarrow> session_step cb m (WaitReturned i p err) (wait_returns i p err m)"
| step_reports: "(i, err) \<in> list.set (sx_ending m) \<Longrightarrow> session_step cb m (WaitReported i err) (wait_reports cb i err m)"

inductive_cases session_stepE: "session_step cb m e m'"

definition session_inv :: "Sessions \<Rightarrow> bool" where
  "session_inv m \<longleftrightarrow> sx_sessions m = map_of (sx_waiting m) \<and>
     distinct (map fst (sx_waiting m) @ map fst (sx_ending m) @ closed_ids (sx_log m)) \<and> distinct (sx_copying m)"

lemma inv_NewManager: "session_inv NewManager"
  by (simp add: session_inv_def NewManager_def)

lemma inv_create:
  "session_inv m \<Longrightarrow> i \<notin> list.set (known_ids m) \<Longrightarrow> session_inv (snd (session_Create opened i c m))"
  by (auto simp: session_inv_def session_Create_def known_ids_def split: option.splits sum.splits)

lemma inv_output: "session_inv m \<Longrightarrow> session_inv (output_turn cb i turn m)"
  by (cases "copy_turn cb i turn") (use closed_ids_turn [of cb i turn] in \<open>auto simp: session_inv_def output_turn_def\<close>)

lemma moved:
  assumes "distinct (xs @ ys @ zs)" "i \<in> list.set xs"
  shows "distinct (remove1 i xs @ (i # ys) @ zs)"
proof -
  have "list.set (remove1 i xs) = list.set xs - {i}" using assms(1) by (simp add: set_remove1_eq)
  then show ?thesis using assms by auto
qed

lemma inv_returns: "session_inv m \<Longrightarrow> (i, p) \<in> list.set (sx_waiting m) \<Longrightarrow> session_inv (wait_returns i p err m)"
  using moved [of "map fst (sx_waiting m)" "map fst (sx_ending m)" "closed_ids (sx_log m)" i] in_fsts [of i p "sx_waiting m"]
  by (simp add: session_inv_def wait_returns_def map_of_remove1 map_fst_remove1)

lemma inv_reports:
  assumes "session_inv m" "(i, err) \<in> list.set (sx_ending m)"
  shows "session_inv (wait_reports cb i err m)"
proof -
  let ?w = "map fst (sx_waiting m)" and ?e = "map fst (sx_ending m)" and ?c = "closed_ids (sx_log m)"
  have d: "distinct (?w @ ?e @ ?c)" using assms(1) by (simp add: session_inv_def)
  have "i \<in> list.set ?e" using assms(2) by (rule in_fsts)
  moreover from this have "list.set (remove1 i ?e) = list.set ?e - {i}" using d by (simp add: set_remove1_eq)
  ultimately have "distinct (?w @ remove1 i ?e @ ?c @ [i])" using d by auto
  then show ?thesis using assms d by (simp add: session_inv_def wait_reports_def map_fst_remove1)
qed

interpretation sessions: machine "\<lambda>m. m = NewManager" "session_step cb" session_inv for cb
  by unfold_locales
    (auto simp: inv_NewManager elim!: session_stepE intro: inv_create inv_output inv_returns inv_reports)

interpretation terminals: table sx_sessions
  "\<lambda>i p m. m\<lparr>sx_sessions := (sx_sessions m)(i \<mapsto> p)\<rparr>" "\<lambda>i m. m\<lparr>sx_sessions := (sx_sessions m)(i := None)\<rparr>"
  by unfold_locales simp_all

text \<open>C17: At any moment of any course, a session is active exactly while its terminal is waited for, by
  one goroutine that holds the terminal of the table; no session is reported closed twice, and
  none that was reported closed is active again.  From the end of its terminal the report takes
  two steps that no other step can prevent.\<close>

theorem session_lifecycle:
  assumes "reach (\<lambda>m. m = NewManager) (session_step cb) m"
  shows "(\<forall>i p. sx_sessions m i = Some p \<longleftrightarrow> (i, p) \<in> list.set (sx_waiting m)) \<and>
    distinct (map fst (sx_waiting m)) \<and> distinct (closed_ids (sx_log m)) \<and>
    (\<forall>i\<in>list.set (closed_ids (sx_log m)). \<not> session_Active i m) \<and>
    (\<forall>i err. session_Active i m \<longrightarrow> cb_closed cb \<longrightarrow>
       (\<exists>p m1 m2. session_step cb m (WaitReturned i p err) m1 \<and> session_step cb m1 (WaitReported i err) m2 \<and>
          i \<in> list.set (closed_ids (sx_log m2)) \<and> \<not> session_Active i m2))"
proof -
  have inv: "session_inv m" using assms by (rule sessions.reach_inv)
  then have d: "distinct (map fst (sx_waiting m) @ map fst (sx_ending m) @ closed_ids (sx_log m))"
    and t: "sx_sessions m = map_of (sx_waiting m)" by (simp_all add: session_inv_def)
  have waits: "sx_sessions m i = Some p \<longleftrightarrow> (i, p) \<in> list.set (sx_waiting m)" for i p
    using d by (simp add: t)
  have "\<not> session_Active i m" if "i \<in> list.set (closed_ids (sx_log m))" for i
  proof -
    have "i \<notin> fst ` list.set (sx_waiting m)" using d that by auto
    then show ?thesis by (simp add: session_Active_def t map_of_eq_None_iff)
  qed
  moreover have "\<exists>p m1 m2. session_step cb m (WaitReturned i p err) m1 \<and> session_step cb m1 (WaitReported i err) m2 \<and>
      i \<in> list.set (closed_ids (sx_log m2)) \<and> \<not> session_Active i m2" if a: "session_Active i m" and c: "cb_closed cb" for i err
  proof -
    obtain p where p: "(i, p) \<in> list.set (sx_waiting m)" using a waits by (auto simp: session_Active_def)
    let ?m1 = "wait_returns i p err m"
    have "session_step cb m (WaitReturned i p err) ?m1" using p by (rule step_returns)
    moreover have "session_step cb ?m1 (WaitReported i err) (wait_reports cb i err ?m1)"
      by (rule step_reports) (simp add: wait_returns_def)
    ultimately show ?thesis using c by (intro exI conjI) (auto simp: wait_reports_def wait_returns_def session_Active_def)
  qed
  ultimately show ?thesis using waits d by simp
qed

text \<open>A course in which the end of a session is reported before the rest of its output.\<close>

definition late_output :: Sessions where
  "late_output = output_turn sample_callbacks ''s'' (''bye'', Some io_EOF)
     (wait_reports sample_callbacks ''s'' None (wait_returns ''s'' 7 None
       (snd (session_Create (Inr (7, True)) ''s'' sample_session NewManager))))"

lemma late_output_reached: "reach (\<lambda>m. m = NewManager) (session_step sample_callbacks) late_output"
proof -
  let ?m0 = "NewManager"
  let ?m1 = "snd (session_Create (Inr (7, True)) ''s'' sample_session ?m0)"
  let ?m2 = "wait_returns ''s'' 7 None ?m1"
  let ?m3 = "wait_reports sample_callbacks ''s'' None ?m2"
  let ?reach = "reach (\<lambda>m. m = NewManager) (session_step sample_callbacks)"
  have "?reach ?m0" by (rule reach_init) simp
  then have "?reach ?m1" by (rule reach_step) (rule step_create, simp add: known_ids_def NewManager_def)
  then have "?reach ?m2"
    by (rule reach_step) (rule step_returns, simp add: session_Create_def check_session_def sample_session_def)
  then have "?reach ?m3" by (rule reach_step) (rule step_reports, simp add: wait_returns_def)
  then show ?thesis unfolding late_output_def
    by (rule reach_step)
      (rule step_output, simp add: wait_reports_def wait_returns_def session_Create_def check_session_def sample_session_def)
qed

theorem session_lifecycle_witness:
  "\<not> session_Active ''s'' late_output \<and> closed_ids (sx_log late_output) = [''s'']"
proof -
  have "closed_ids (sx_log late_output) = [''s'']"
    by (simp add: late_output_def output_turn_def copy_turn_def wait_reports_def wait_returns_def session_Create_def
        check_session_def sample_session_def sample_callbacks_def NewManager_def wait_events_def io_EOF_def)
  then show ?thesis using session_lifecycle [OF late_output_reached] by simp
qed

text \<open>A session can be reported closed before its last output is: the two goroutines are not ordered,
  so a window that drops a session on the report loses the output that comes after it.\<close>

lemma output_after_closing:
  "\<exists>m. reach (\<lambda>m. m = NewManager) (session_step sample_callbacks) m \<and> \<not> session_Active ''s'' m \<and>
     sx_log m = [OnClosed \<lparr>ce_SessionID = ''s'', ce_Message = []\<rparr>, OnOutput (output_of ''s'' ''bye'')]"
  by (intro exI conjI, rule late_output_reached)
    (simp_all add: late_output_def output_turn_def copy_turn_def wait_reports_def wait_returns_def session_Create_def
      session_Active_def check_session_def sample_session_def sample_callbacks_def NewManager_def wait_events_def io_EOF_def output_of_def)

end
