(* ===== verification/VPNClient.thy ===== *)
theory VPNClient
  imports Config Route
begin

text \<open>
  The desktop VPN client, \<open>tunnel/vpn.go\<close>: the connection loop \<open>Run\<close>, one session
  \<open>runOnce\<close>, the state it reports and \<open>SetRoute\<close>.  Each session gets the results of
  the calls it makes as an environment; a run is a list of them, and the list's end is the
  cancellation of the context at the head of the loop.
\<close>

section \<open>State\<close>

definition vpnStateConnecting :: string where "vpnStateConnecting = ''connecting''"
definition vpnStateRunning :: string where "vpnStateRunning = ''running''"
definition vpnStateReconnecting :: string where "vpnStateReconnecting = ''reconnecting''"
definition vpnStateStopped :: string where "vpnStateStopped = ''stopped''"

lemmas vpn_states = vpnStateConnecting_def vpnStateRunning_def vpnStateReconnecting_def vpnStateStopped_def

text \<open>
  The VPN's own fields and its tunnel's \<open>Stats\<close>; \<open>v_crashed\<close> when a panic of a copying
  goroutine has ended the process, after which nothing runs.
\<close>

record VPN =
  v_cfg :: TunnelCfg
  v_state :: string
  v_lastErr :: "string option"
  v_runCnt :: int
  v_startAt :: "int option"
  v_routeCleanupNeeded :: bool
  v_routeActive :: bool
  v_crashed :: bool
  st_BytesIn :: u64
  st_BytesOut :: u64
  st_ConnActive :: int
  st_ConnTotal :: u64

datatype vpn_act =
    State string "go_error option"
  | Dial string
  | Send string
  | Device string
  | DeviceClose
  | Shell "string list"
  | VPipe pipe_act
  | Sleep int

definition NewVPN :: "TunnelCfg \<Rightarrow> VPN" where
  "NewVPN cfg = \<lparr>v_cfg = cfg, v_state = vpnStateStopped, v_lastErr = None, v_runCnt = 0, v_startAt = None,
     v_routeCleanupNeeded = False, v_routeActive = False,
     v_crashed = False, st_BytesIn = 0, st_BytesOut = 0, st_ConnActive = 0, st_ConnTotal = 0\<rparr>"

record VPNSnapshot =
  vsn_State :: string
  vsn_LastError :: string
  vsn_UptimeSec :: int
  vsn_RunCount :: int

definition VPN_Snapshot :: "int \<Rightarrow> VPN \<Rightarrow> VPNSnapshot" where
  "VPN_Snapshot now v =
     \<lparr>vsn_State = v_state v, vsn_LastError = (case v_lastErr v of None \<Rightarrow> [] | Some e \<Rightarrow> e),
      vsn_UptimeSec = (case v_startAt v of None \<Rightarrow> 0 | Some t \<Rightarrow> seconds (now - t)),
      vsn_RunCount = v_runCnt v\<rparr>"

text \<open>
  \<open>setState\<close>; \<open>v_startAt = None\<close> stands for the zero \<open>time.Time\<close>, which is what
  \<open>stopped\<close> stores.
\<close>

definition setState :: "int \<Rightarrow> string \<Rightarrow> go_error option \<Rightarrow> VPN \<Rightarrow> VPN" where
  "setState now s err v =
     v\<lparr>v_state := s,
       v_lastErr := (case err of Some e \<Rightarrow> Some (err_text e)
                     | None \<Rightarrow> if s = vpnStateRunning then Some [] else v_lastErr v),
       v_startAt := (if s = vpnStateRunning then Some now
                     else if s = vpnStateStopped then None else v_startAt v),
       v_runCnt := (if s = vpnStateRunning then v_runCnt v + 1 else v_runCnt v)\<rparr>"

section \<open>One session\<close>

record vpn_env =
  ve_live :: bool
  ve_dial :: "go_error option"
  ve_ctl :: "go_error option"
  ve_send :: "go_error option"
  ve_resp :: string
  ve_resp_err :: "go_error option"
  ve_tun :: "string result"
  ve_data :: "go_error option"
  ve_up :: "u8 list list"
  ve_data_write :: "nat \<Rightarrow> bool"
  ve_down :: "u8 list"
  ve_tun_write :: "nat \<Rightarrow> bool"
  ve_sched :: "bool list"
  ve_cut :: nat
  ve_now :: int
  ve_timer :: bool

text \<open>
  \<open>ve_up\<close>: the packets read from the TUN device; \<open>ve_down\<close>: the bytes of the data
  stream; \<open>ve_timer\<close>: whether the back-off timer fires before the context is cancelled.
\<close>

definition auto_routes :: "string \<Rightarrow> shell \<Rightarrow> VPN \<Rightarrow> vpn_act list \<times> VPN" where
  "auto_routes goos run v =
     (let tun = t_Tun (v_cfg v) in
      if \<not> tun_AutoRoute tun \<or> tun_Subnet tun = [] then ([], v)
      else (case ParseGateway (tun_Subnet tun) of
              Inl _ \<Rightarrow> ([], v)
            | Inr gw \<Rightarrow>
                let serverIP = extractHost (t_Forward (v_cfg v));
                    excl = (if serverIP \<noteq> [] then fst (addServerExcludeRoute goos run serverIP) else []);
                    (cmds, err) = AddRoutes goos run (tun_Subnet tun) \<lparr>rte_Gateway = gw, rte_All = True, rte_ExtraCIDRs = []\<rparr>
                in (map Shell (excl @ cmds),
                    if err \<noteq> None then v else v\<lparr>v_routeCleanupNeeded := True, v_routeActive := True\<rparr>)))"

definition cleanup_routes :: "string \<Rightarrow> shell \<Rightarrow> VPN \<Rightarrow> vpn_act list \<times> VPN" where
  "cleanup_routes goos run v =
     (if \<not> v_routeCleanupNeeded v then ([], v)
      else let subnet = tun_Subnet (t_Tun (v_cfg v));
               gw = (case ParseGateway subnet of Inl _ \<Rightarrow> [] | Inr g \<Rightarrow> g);
               serverIP = extractHost (t_Forward (v_cfg v));
               cmds = DelRoutes goos run subnet \<lparr>rte_Gateway = gw, rte_All = True, rte_ExtraCIDRs = []\<rparr>
                      @ (if serverIP \<noteq> [] then delServerExcludeRoute goos serverIP else [])
           in (map Shell cmds, v\<lparr>v_routeCleanupNeeded := False, v_routeActive := False\<rparr>))"

text \<open>Byte counts of the two loops: the client counts what it reads from the device as out.\<close>

definition count_stats :: "dir \<times> pipe_act \<Rightarrow> VPN \<Rightarrow> VPN" where
  "count_stats da v =
     (case da of
        (Up, Count n) \<Rightarrow> v\<lparr>st_BytesIn := st_BytesIn v + of_nat n\<rparr>
      | (Down, Count n) \<Rightarrow> v\<lparr>st_BytesOut := st_BytesOut v + of_nat n\<rparr>
      | _ \<Rightarrow> v)"

text \<open>
  The part of \<open>runOnce\<close> after the response was accepted; \<open>pipes\<close> are the interleaved
  actions of the two loops.  The deferred \<open>iface.Close\<close> comes last.
\<close>

definition vpn_pipes :: "VPN \<Rightarrow> vpn_env \<Rightarrow> (dir \<times> pipe_act) list \<times> bool" where
  "vpn_pipes v env =
     (let padding = paddingEnabled (tun_Padding (t_Tun (v_cfg v)));
          (down, e) = vpn_pipeQUICtoTUN padding (ve_tun_write env) 0 (ve_down env);
          up = vpn_pipeTUNtoQUIC padding (ve_data_write env) 0 (ve_up env);
          crash = (e = SlicePanic)
      in (merge (ve_sched env) (map (Pair Up) down)
            (map (Pair Down) (if crash then take (ve_cut env) up else up)), crash))"

definition start_running :: "vpn_env \<Rightarrow> VPN \<Rightarrow> VPN" where
  "start_running env v =
     (setState (ve_now env) vpnStateRunning None v)
       \<lparr>st_ConnActive := st_ConnActive v + 1, st_ConnTotal := st_ConnTotal v + 1\<rparr>"

definition end_active :: "VPN \<Rightarrow> VPN" where
  "end_active v = v\<lparr>st_ConnActive := st_ConnActive v - 1\<rparr>"

definition carry :: "string \<Rightarrow> shell \<Rightarrow> vpn_env \<Rightarrow> VPN \<Rightarrow> vpn_act list \<times> VPN" where
  "carry goos run env v =
     (let (das, crash) = vpn_pipes v env;
          v' = fold count_stats das v;
          moved = map (\<lambda>da. VPipe (snd da)) das
      in if crash then (moved, v'\<lparr>v_crashed := True\<rparr>)
         else (case cleanup_routes goos run (end_active v') of
                 (dels, v'') \<Rightarrow> (moved @ dels @ [DeviceClose], v'')))"

definition forward_session ::
  "string \<Rightarrow> shell \<Rightarrow> vpn_env \<Rightarrow> VPN \<Rightarrow> vpn_act list \<times> go_error option \<times> VPN" where
  "forward_session goos run env v =
     (case ve_tun env of
        Inl e \<Rightarrow> ([], Some (Wrap ''create TUN device: %w'' [] e), v)
      | Inr dev \<Rightarrow>
          (let conf = fst (configureTUNDev goos run dev (tun_Subnet (t_Tun (v_cfg v))));
               (route_acts, v1) = auto_routes goos run v;
               v2 = start_running env v1;
               pre = Device dev # map Shell conf @ route_acts @ [State vpnStateRunning None]
           in case ve_data env of
                Some e \<Rightarrow> (pre @ [DeviceClose], Some (Wrap ''open data stream: %w'' [] e), end_active v2)
              | None \<Rightarrow> (case carry goos run env v2 of (acts, v3) \<Rightarrow> (pre @ acts, None, v3))))"

definition begin_session :: "vpn_env \<Rightarrow> VPN \<Rightarrow> VPN" where
  "begin_session env v0 =
     (let v = setState (ve_now env) vpnStateConnecting None v0 in v\<lparr>v_runCnt := v_runCnt v + 1\<rparr>)"

definition runOnce :: "string \<Rightarrow> shell \<Rightarrow> vpn_env \<Rightarrow> VPN \<Rightarrow> vpn_act list \<times> go_error option \<times> VPN" where
  "runOnce goos run env v0 =
     (let v = begin_session env v0;
          cfg = v_cfg v;
          serverAddr = (if t_Forward cfg = [] then ssh_Addr (t_SSH cfg) else t_Forward cfg);
          start = State vpnStateConnecting None;
          req = auth_request (ssh_User (t_SSH cfg)) (ssh_Password (t_SSH cfg))
      in if serverAddr = [] then
           ([start], Some (Err ''vpn: forward or ssh.addr must specify the remote server address''), v)
         else (case ve_dial env of
           Some e \<Rightarrow> ([start, Dial serverAddr], Some (Wrap ''quic dial: %w'' [] e), v)
         | None \<Rightarrow>
             (case ve_ctl env of
                Some e \<Rightarrow> ([start, Dial serverAddr], Some (Wrap ''open control stream: %w'' [] e), v)
              | None \<Rightarrow>
                  (case ve_send env of
                     Some e \<Rightarrow> ([start, Dial serverAddr, Send req], Some (Wrap ''auth send: %w'' [] e), v)
                   | None \<Rightarrow>
                       if ve_resp_err env \<noteq> None \<and> ve_resp env = [] then
                         ([start, Dial serverAddr, Send req],
                          map_option (Wrap ''auth response: %w'' []) (ve_resp_err env), v)
                       else if \<not> desktop_accepts (ve_resp env) then
                         ([start, Dial serverAddr, Send req],
                          Some (Errf ''auth rejected: %s'' [ve_resp env]), v)
                       else (case forward_session goos run env v of
                               (acts, err, v') \<Rightarrow> ([start, Dial serverAddr, Send req] @ acts, err, v'))))))"

section \<open>The connection loop\<close>

definition second :: int where "second = 1000000000"
definition maxBackoff :: int where "maxBackoff = 60 * second"

definition next_backoff :: "int \<Rightarrow> int" where
  "next_backoff d = (let d' = d * 2 in if d' > maxBackoff then maxBackoff else d')"

text \<open>
  \<open>jit\<close> is \<open>applyJitterVPN\<close>, whose factor is read off the clock; \<open>Sleep\<close> records the
  wait it gives.
\<close>

fun run_loop ::
  "string \<Rightarrow> shell \<Rightarrow> (int \<Rightarrow> int) \<Rightarrow> int \<Rightarrow> vpn_env list \<Rightarrow> VPN \<Rightarrow> vpn_act list \<times> VPN" where
  "run_loop goos run jit backoff [] v = ([], v)"
| "run_loop goos run jit backoff (env # envs) v =
     (if \<not> ve_live env then ([], v)
      else (case runOnce goos run env v of
        (acts, Some e, v1) \<Rightarrow>
          (let v2 = setState (ve_now env) vpnStateReconnecting (Some e) v1;
               now = acts @ [State vpnStateReconnecting (Some e), Sleep (jit backoff)]
           in if \<not> ve_timer env then (now, v2)
              else (case run_loop goos run jit (next_backoff backoff) envs v2 of
                      (later, v') \<Rightarrow> (now @ later, v')))
      | (acts, None, v1) \<Rightarrow>
          if v_crashed v1 then (acts, v1)
          else (case run_loop goos run jit second envs v1 of (later, v') \<Rightarrow> (acts @ later, v'))))"

definition Run :: "string \<Rightarrow> shell \<Rightarrow> (int \<Rightarrow> int) \<Rightarrow> vpn_env list \<Rightarrow> int \<Rightarrow> VPN \<Rightarrow> vpn_act list \<times> VPN" where
  "Run goos run jit envs now v =
     (case run_loop goos run jit second envs v of
        (acts, v1) \<Rightarrow>
          if v_crashed v1 then (acts, v1)
          else (case cleanup_routes goos run v1 of
             (dels, v2) \<Rightarrow> (acts @ dels @ [State vpnStateStopped None], setState now vpnStateStopped None v2)))"

section \<open>SetRoute\<close>

definition SetRoute :: "string \<Rightarrow> shell \<Rightarrow> bool \<Rightarrow> VPN \<Rightarrow> vpn_act list \<times> go_error option \<times> VPN" where
  "SetRoute goos run enable v =
     (if enable = v_routeActive v then ([], None, v)
      else let subnet = tun_Subnet (t_Tun (v_cfg v)) in
        if subnet = [] then ([], Some (Err ''no subnet configured''), v)
        else (case ParseGateway subnet of
          Inl e \<Rightarrow> ([], Some e, v)
        | Inr gw \<Rightarrow>
            let serverIP = extractHost (t_Forward (v_cfg v));
                rc = \<lparr>rte_Gateway = gw, rte_All = True, rte_ExtraCIDRs = []\<rparr>
            in if enable then
                 (let excl = (if serverIP \<noteq> [] then fst (addServerExcludeRoute goos run serverIP) else []);
                      (cmds, err) = AddRoutes goos run subnet rc
                  in case err of
                       Some e \<Rightarrow> (map Shell (excl @ cmds), Some (Wrap ''add routes: %w'' [] e), v)
                     | None \<Rightarrow> (map Shell (excl @ cmds), None, v\<lparr>v_routeActive := True, v_routeCleanupNeeded := True\<rparr>))
               else (map Shell (DelRoutes goos run subnet rc
                       @ (if serverIP \<noteq> [] then delServerExcludeRoute goos serverIP else [])),
                     None, v\<lparr>v_routeActive := False, v_routeCleanupNeeded := False\<rparr>)))"

section \<open>Lemmas\<close>

interpretation vpn_retry: doubling_backoff next_backoff maxBackoff
  by unfold_locales (auto simp: next_backoff_def maxBackoff_def second_def Let_def)

text \<open>The two route flags move together, so the clean-up is never forgotten nor repeated.\<close>

definition vpn_inv :: "VPN \<Rightarrow> bool" where
  "vpn_inv v \<longleftrightarrow> v_routeActive v = v_routeCleanupNeeded v"

datatype vpn_op = Session vpn_env | Route bool

definition vpn_apply :: "string \<Rightarrow> shell \<Rightarrow> vpn_op \<Rightarrow> VPN \<Rightarrow> VPN" where
  "vpn_apply goos run op v =
     (if v_crashed v then v
      else (case op of
        Session env \<Rightarrow> snd (snd (runOnce goos run env v))
      | Route b \<Rightarrow> snd (snd (SetRoute goos run b v))))"

lemma setState_keeps [simp]:
  "v_cfg (setState now s e v) = v_cfg v"
  "v_routeCleanupNeeded (setState now s e v) = v_routeCleanupNeeded v"
  "v_routeActive (setState now s e v) = v_routeActive v"
  "v_crashed (setState now s e v) = v_crashed v"
  "v_state (setState now s e v) = s"
  "st_ConnActive (setState now s e v) = st_ConnActive v"
  "v_runCnt (setState now s e v) = v_runCnt v + (if s = vpnStateRunning then 1 else 0)"
  by (simp_all add: setState_def)

lemma count_stats_keeps [simp]:
  "v_cfg (count_stats da v) = v_cfg v"
  "v_routeCleanupNeeded (count_stats da v) = v_routeCleanupNeeded v"
  "v_routeActive (count_stats da v) = v_routeActive v"
  "v_crashed (count_stats da v) = v_crashed v"
  "st_ConnActive (count_stats da v) = st_ConnActive v"
  "v_runCnt (count_stats da v) = v_runCnt v"
  by (auto simp: count_stats_def split: prod.splits dir.splits pipe_act.splits)

lemma count_all_stats_keeps [simp]:
  "v_cfg (fold count_stats das v) = v_cfg v"
  "v_routeCleanupNeeded (fold count_stats das v) = v_routeCleanupNeeded v"
  "v_routeActive (fold count_stats das v) = v_routeActive v"
  "v_crashed (fold count_stats das v) = v_crashed v"
  "st_ConnActive (fold count_stats das v) = st_ConnActive v"
  "v_runCnt (fold count_stats das v) = v_runCnt v"
  by (induction das arbitrary: v) simp_all

lemma auto_routes_keeps:
  assumes "auto_routes goos run v = (acts, v')"
  shows "v_cfg v' = v_cfg v" "v_crashed v' = v_crashed v" "st_ConnActive v' = st_ConnActive v"
    "v_runCnt v' = v_runCnt v" "vpn_inv v \<Longrightarrow> vpn_inv v'"
  using assms
  by (auto simp: auto_routes_def vpn_inv_def Let_def split: if_splits sum.splits prod.splits)

lemma cleanup_routes_keeps:
  assumes "cleanup_routes goos run v = (acts, v')"
  shows "v_cfg v' = v_cfg v" "v_crashed v' = v_crashed v" "st_ConnActive v' = st_ConnActive v"
    "v_runCnt v' = v_runCnt v" "vpn_inv v \<Longrightarrow> vpn_inv v'" "\<not> v_routeCleanupNeeded v'"
  using assms by (auto simp: cleanup_routes_def vpn_inv_def Let_def split: if_splits)

lemma start_running_keeps [simp]:
  "v_cfg (start_running env v) = v_cfg v" "v_crashed (start_running env v) = v_crashed v"
  "st_ConnActive (start_running env v) = st_ConnActive v + 1"
  "v_runCnt (start_running env v) = v_runCnt v + 1"
  "v_routeCleanupNeeded (start_running env v) = v_routeCleanupNeeded v"
  "v_routeActive (start_running env v) = v_routeActive v"
  by (simp_all add: start_running_def)

lemma end_active_keeps [simp]:
  "v_cfg (end_active v) = v_cfg v" "v_crashed (end_active v) = v_crashed v"
  "st_ConnActive (end_active v) = st_ConnActive v - 1" "v_runCnt (end_active v) = v_runCnt v"
  "v_routeCleanupNeeded (end_active v) = v_routeCleanupNeeded v"
  "v_routeActive (end_active v) = v_routeActive v"
  by (simp_all add: end_active_def)

lemma carry_keeps:
  assumes "carry goos run env v = (acts, v')" "\<not> v_crashed v"
  shows "v_cfg v' = v_cfg v" "v_runCnt v' = v_runCnt v" "vpn_inv v \<Longrightarrow> vpn_inv v'"
    "v_crashed v' \<or> st_ConnActive v' = st_ConnActive v - 1 \<and> \<not> v_routeCleanupNeeded v'"
  using assms cleanup_routes_keeps
  by (auto simp: carry_def Let_def vpn_inv_def split: prod.splits if_splits)

lemma forward_session_keeps:
  assumes "forward_session goos run env v = (acts, err, v')" "\<not> v_crashed v"
  shows "v_cfg v' = v_cfg v" "vpn_inv v \<Longrightarrow> vpn_inv v'"
    "v_crashed v' \<or> st_ConnActive v' = st_ConnActive v" "v_crashed v' \<longrightarrow> err = None"
    "v_runCnt v' = v_runCnt v + (if is_ok (ve_tun env) then 1 else 0)"
proof -
  obtain ra v1 where r: "auto_routes goos run v = (ra, v1)" by (cases "auto_routes goos run v")
  note a = auto_routes_keeps [OF r]
  obtain ca v3 where c: "carry goos run env (start_running env v1) = (ca, v3)"
    by (cases "carry goos run env (start_running env v1)")
  have nc: "\<not> v_crashed (start_running env v1)" using assms(2) a by simp
  note k = carry_keeps [OF c nc]
  have v': "v' \<in> {v, end_active (start_running env v1), v3}"
    using assms(1) by (auto simp: forward_session_def r c Let_def split: sum.splits option.splits)
  have i: "vpn_inv (start_running env v1) = vpn_inv v1" "vpn_inv (end_active (start_running env v1)) = vpn_inv v1"
    by (simp_all add: vpn_inv_def)
  show "v_cfg v' = v_cfg v" using v' a k by auto
  show "vpn_inv v \<Longrightarrow> vpn_inv v'" using v' a k i by auto
  show "v_crashed v' \<or> st_ConnActive v' = st_ConnActive v" using v' a k by auto
  show "v_crashed v' \<longrightarrow> err = None"
    using assms a by (auto simp: forward_session_def r c Let_def split: sum.splits option.splits)
  show "v_runCnt v' = v_runCnt v + (if is_ok (ve_tun env) then 1 else 0)"
    using assms(1) a k by (auto simp: forward_session_def r c Let_def split: sum.splits option.splits)
qed

lemma begin_session_keeps [simp]:
  "v_cfg (begin_session env v) = v_cfg v" "v_crashed (begin_session env v) = v_crashed v"
  "st_ConnActive (begin_session env v) = st_ConnActive v"
  "v_routeCleanupNeeded (begin_session env v) = v_routeCleanupNeeded v"
  "v_routeActive (begin_session env v) = v_routeActive v"
  "v_runCnt (begin_session env v) = v_runCnt v + 1"
  by (simp_all add: begin_session_def Let_def vpn_states)

text \<open>A session either fails before it forwards, or is the forwarding part behind a prefix.\<close>

lemma runOnce_cases:
  assumes "runOnce goos run env v = (acts, err, v')"
  obtains (early) e where "err = Some e" "v' = begin_session env v"
      "\<forall>a\<in>set acts. (\<forall>c. a \<noteq> Shell c) \<and> a \<noteq> State vpnStateRunning None"
    | (full) pre acts' where "forward_session goos run env (begin_session env v) = (acts', err, v')"
      "acts = pre @ acts'"
      "\<forall>a\<in>set pre. (\<forall>c. a \<noteq> Shell c) \<and> a \<noteq> State vpnStateRunning None"
  using assms
  by (auto simp: runOnce_def Let_def vpn_states split: if_splits option.splits prod.splits)

lemma runOnce_keeps:
  assumes "runOnce goos run env v = (acts, err, v')" "\<not> v_crashed v"
  shows "v_cfg v' = v_cfg v" "vpn_inv v \<Longrightarrow> vpn_inv v'"
    "v_crashed v' \<or> st_ConnActive v' = st_ConnActive v" "v_crashed v' \<longrightarrow> err = None"
proof -
  have b: "vpn_inv (begin_session env v) = vpn_inv v" by (simp add: vpn_inv_def)
  from assms(1) have "v_cfg v' = v_cfg v \<and> (vpn_inv v \<longrightarrow> vpn_inv v') \<and>
    (v_crashed v' \<or> st_ConnActive v' = st_ConnActive v) \<and> (v_crashed v' \<longrightarrow> err = None)"
  proof (cases rule: runOnce_cases)
    case early
    then show ?thesis using b assms(2) by simp
  next
    case full
    note f = forward_session_keeps [OF full(1)]
    show ?thesis using f b assms(2) by simp
  qed
  then show "v_cfg v' = v_cfg v" "vpn_inv v \<Longrightarrow> vpn_inv v'"
    "v_crashed v' \<or> st_ConnActive v' = st_ConnActive v" "v_crashed v' \<longrightarrow> err = None"
    by blast+
qed

lemma SetRoute_keeps:
  assumes "vpn_inv v"
  shows "vpn_inv (snd (snd (SetRoute goos run b v)))"
  using assms
  by (auto simp: SetRoute_def vpn_inv_def Let_def split: if_splits sum.splits option.splits prod.splits)

interpretation vpn_life: operations "vpn_apply goos run" "\<lambda>v. v_crashed v \<or> vpn_inv v" for goos run
proof
  fix v e
  assume "v_crashed v \<or> vpn_inv v"
  then show "v_crashed (vpn_apply goos run e v) \<or> vpn_inv (vpn_apply goos run e v)"
  proof (cases e)
    case (Session env)
    obtain a err v1 where "runOnce goos run env v = (a, err, v1)" by (cases "runOnce goos run env v")
    then show ?thesis
      using runOnce_keeps(2) [of goos run env v a err v1] Session \<open>v_crashed v \<or> vpn_inv v\<close>
      by (auto simp: vpn_apply_def)
  next
    case (Route b)
    then show ?thesis using SetRoute_keeps [of v goos run b] \<open>v_crashed v \<or> vpn_inv v\<close>
      by (auto simp: vpn_apply_def)
  qed
qed

lemma run_loop_keeps:
  assumes "run_loop goos run jit b envs v = (acts, v')" "\<not> v_crashed v"
  shows "v_cfg v' = v_cfg v \<and> (vpn_inv v \<longrightarrow> vpn_inv v') \<and> (v_crashed v' \<or> st_ConnActive v' = st_ConnActive v)"
  using assms
proof (induction envs arbitrary: b v acts v')
  case (Cons env envs)
  obtain a err v1 where r: "runOnce goos run env v = (a, err, v1)" by (cases "runOnce goos run env v")
  note k = runOnce_keeps [OF r Cons.prems(2)]
  have i: "vpn_inv (setState t s e v1) = vpn_inv v1" for t s e by (simp add: vpn_inv_def)
  show ?case
  proof (cases "ve_live env")
    case live: True
    show ?thesis
    proof (cases err)
      case None
      obtain la v3 where l: "run_loop goos run jit second envs v1 = (la, v3)"
        by (cases "run_loop goos run jit second envs v1")
      show ?thesis using Cons.IH [OF l] Cons.prems live r k l None by (auto split: if_splits)
    next
      case (Some e)
      then have nc: "\<not> v_crashed v1" using k by auto
      let ?v2 = "setState (ve_now env) vpnStateReconnecting (Some e) v1"
      obtain la v3 where l: "run_loop goos run jit (next_backoff b) envs ?v2 = (la, v3)"
        by (cases "run_loop goos run jit (next_backoff b) envs ?v2")
      show ?thesis using Cons.IH [OF l] Cons.prems live r Some l k i nc by (auto simp: Let_def split: if_splits)
    qed
  qed (use Cons in auto)
qed auto

section \<open>The default route\<close>

text \<open>
  What the commands of a run do to the machine's default route on Linux: whether it points
  into the tunnel after them.  \<open>ip route del\<close> of the tunnel's default route removes it.
\<close>

definition adds_default :: "string list \<Rightarrow> bool" where
  "adds_default c \<longleftrightarrow> length c = 8 \<and> take 5 c = [''ip'', ''route'', ''add'', ''default'', ''via'']"

definition del_default :: "string list" where
  "del_default = [''ip'', ''route'', ''del'', ''default'', ''dev'', ''tun0'']"

fun default_route :: "shell \<Rightarrow> vpn_act list \<Rightarrow> bool \<Rightarrow> bool" where
  "default_route run [] b = b"
| "default_route run (Shell c # as) b =
     default_route run as
       (if adds_default c then b \<or> snd (run c) = None else if c = del_default then False else b)"
| "default_route run (_ # as) b = default_route run as b"

lemma default_route_append:
  "default_route run (as @ bs) b = default_route run bs (default_route run as b)"
  by (induction run as b rule: default_route.induct) auto

lemma default_route_none: "\<forall>a\<in>set as. \<forall>c. a \<noteq> Shell c \<Longrightarrow> default_route run as b = b"
  by (induction run as b rule: default_route.induct) auto

lemma default_route_other:
  "\<forall>c\<in>set cs. \<not> adds_default c \<and> c \<noteq> del_default \<Longrightarrow> default_route run (map Shell cs) b = b"
  by (induction cs arbitrary: b) auto

definition subnet_route :: "VPN \<Rightarrow> string list" where
  "subnet_route v = [''ip'', ''route'', ''add'', tun_Subnet (t_Tun (v_cfg v)), ''dev'', ''tun0'']"

lemma auto_routes_default:
  assumes "auto_routes ''linux'' run v = (acts, v')" "snd (run (subnet_route v)) = None"
  shows "default_route run acts (v_routeCleanupNeeded v) = v_routeCleanupNeeded v'"
  using assms
  by (auto simp: auto_routes_def AddRoutes_def addRoutesLinux_def addServerExcludeRoute_def Let_def
      subnet_route_def execRoute_def adds_default_def del_default_def gateway_query_def
      default_route_append split: if_splits sum.splits option.splits prod.splits)

lemma cleanup_routes_default:
  assumes "cleanup_routes ''linux'' run v = (acts, v')"
  shows "default_route run acts (v_routeCleanupNeeded v) = v_routeCleanupNeeded v'"
  using assms
  by (auto simp: cleanup_routes_def DelRoutes_def delRoutesLinux_def delServerExcludeRoute_def Let_def
      adds_default_def del_default_def default_route_append split: if_splits)

lemma conf_default:
  "default_route run (map Shell (fst (configureTUNDev ''linux'' run dev subnet))) b = b"
  by (rule default_route_other)
     (auto simp: configureTUNDev_def configureTUN_def adds_default_def del_default_def Let_def
       split: option.splits prod.splits)

lemma pipes_default: "default_route run (map (\<lambda>da. VPipe (snd da)) das) b = b"
  by (rule default_route_none) auto

lemma carry_default:
  assumes "carry ''linux'' run env v = (acts, v')"
  shows "default_route run acts (v_routeCleanupNeeded v) = v_routeCleanupNeeded v'"
proof -
  obtain das crash where p: "vpn_pipes v env = (das, crash)" by (cases "vpn_pipes v env")
  let ?w = "end_active (fold count_stats das v)"
  obtain dels v'' where c: "cleanup_routes ''linux'' run ?w = (dels, v'')" by (cases "cleanup_routes ''linux'' run ?w")
  show ?thesis
    using assms cleanup_routes_default [OF c]
    by (auto simp: carry_def p c Let_def pipes_default default_route_append split: if_splits)
qed

lemma forward_default:
  assumes "forward_session ''linux'' run env v = (acts, err, v')" "snd (run (subnet_route v)) = None"
  shows "default_route run acts (v_routeCleanupNeeded v) = v_routeCleanupNeeded v'"
proof -
  obtain ra v1 where r: "auto_routes ''linux'' run v = (ra, v1)" by (cases "auto_routes ''linux'' run v")
  obtain ca v3 where c: "carry ''linux'' run env (start_running env v1) = (ca, v3)"
    by (cases "carry ''linux'' run env (start_running env v1)")
  have a: "default_route run ra (v_routeCleanupNeeded v) = v_routeCleanupNeeded v1"
    using auto_routes_default [OF r assms(2)] .
  show ?thesis
    using assms(1) a carry_default [OF c]
    by (auto simp: forward_session_def r c Let_def conf_default default_route_append
        split: sum.splits option.splits)
qed

lemma runOnce_default:
  assumes "runOnce ''linux'' run env v = (acts, err, v')" "snd (run (subnet_route v)) = None"
  shows "default_route run acts (v_routeCleanupNeeded v) = v_routeCleanupNeeded v'"
  using assms(1)
proof (cases rule: runOnce_cases)
  case early
  then show ?thesis by (simp add: default_route_none)
next
  case full
  have "subnet_route (begin_session env v) = subnet_route v" by (simp add: subnet_route_def)
  then show ?thesis
    using forward_default [OF full(1)] assms(2) full(2,3)
    by (simp add: default_route_append default_route_none)
qed

lemma run_loop_default:
  assumes "run_loop ''linux'' run jit b envs v = (acts, v')" "\<not> v_crashed v" "snd (run (subnet_route v)) = None"
  shows "default_route run acts (v_routeCleanupNeeded v) = v_routeCleanupNeeded v'"
  using assms
proof (induction envs arbitrary: b v acts v')
  case (Cons env envs)
  obtain a err v1 where r: "runOnce ''linux'' run env v = (a, err, v1)" by (cases "runOnce ''linux'' run env v")
  note k = runOnce_keeps [OF r Cons.prems(2)]
  have d: "default_route run a (v_routeCleanupNeeded v) = v_routeCleanupNeeded v1"
    by (rule runOnce_default [OF r Cons.prems(3)])
  have s: "snd (run (subnet_route v1)) = None" "snd (run (subnet_route (setState t st e v1))) = None" for t st e
    using Cons.prems(3) k(1) by (simp_all add: subnet_route_def)
  show ?case
  proof (cases "ve_live env")
    case live: True
    show ?thesis
    proof (cases err)
      case None
      obtain la v3 where l: "run_loop ''linux'' run jit second envs v1 = (la, v3)"
        by (cases "run_loop ''linux'' run jit second envs v1")
      show ?thesis using Cons.IH [OF l _ s(1)] Cons.prems(1) live r d l None
        by (auto simp: default_route_append split: if_splits)
    next
      case (Some e)
      then have nc: "\<not> v_crashed v1" using k by auto
      let ?v2 = "setState (ve_now env) vpnStateReconnecting (Some e) v1"
      obtain la v3 where l: "run_loop ''linux'' run jit (next_backoff b) envs ?v2 = (la, v3)"
        by (cases "run_loop ''linux'' run jit (next_backoff b) envs ?v2")
      show ?thesis using Cons.IH [OF l _ s(2)] Cons.prems(1) live r Some l d nc
        by (auto simp: Let_def default_route_append split: if_splits)
    qed
  qed (use Cons in auto)
qed auto

section \<open>Properties\<close>

text \<open>C14: A VPN run ends clean: when \<open>Run\<close> returns (unless the process has crashed) the
  client reports stopped without a start time, no route flag is left set, and every session
  it counted as active has been counted off again, whatever failed on the way.\<close>

theorem vpn_run_ends_clean:
  assumes "vpn_inv v" "\<not> v_crashed v" "Run goos run jit envs now v = (acts, v')" "\<not> v_crashed v'"
  shows "v_state v' = vpnStateStopped \<and> v_startAt v' = None \<and> \<not> v_routeActive v' \<and>
    \<not> v_routeCleanupNeeded v' \<and> st_ConnActive v' = st_ConnActive v \<and>
    last acts = State vpnStateStopped None"
proof -
  obtain a v1 where l: "run_loop goos run jit second envs v = (a, v1)" by (cases "run_loop goos run jit second envs v")
  obtain d v2 where c: "cleanup_routes goos run v1 = (d, v2)" by (cases "cleanup_routes goos run v1")
  have k: "vpn_inv v1" "v_crashed v1 \<or> st_ConnActive v1 = st_ConnActive v"
    using run_loop_keeps [OF l assms(2)] assms(1) by auto
  have "\<not> v_crashed v1" using assms(3,4) by (auto simp: Run_def l)
  then show ?thesis
    using assms(3) k cleanup_routes_keeps [OF c]
    by (auto simp: Run_def l c vpn_inv_def setState_def vpn_states)
qed

definition sample_tunnel :: TunnelCfg where
  "sample_tunnel = empty_tunnel\<lparr>t_Name := ''vpn'', t_Mode := ModeVPN, t_Forward := ''203.0.113.5:1562'',
     t_Tun := empty_tun\<lparr>tun_Subnet := ''10.0.8.2/24'', tun_AutoRoute := True\<rparr>\<rparr>"

definition sample_vpn_env :: "go_error option \<Rightarrow> vpn_env" where
  "sample_vpn_env dial = \<lparr>ve_live = True, ve_dial = dial, ve_ctl = None, ve_send = None, ve_resp = ok_response,
     ve_resp_err = None, ve_tun = Inr ''tun0'', ve_data = None, ve_up = [], ve_data_write = (\<lambda>_. True),
     ve_down = [], ve_tun_write = (\<lambda>_. True), ve_sched = [], ve_cut = 0, ve_now = 7, ve_timer = True\<rparr>"

lemma sample_new: "vpn_inv (NewVPN cfg)" "\<not> v_crashed (NewVPN cfg)" "\<not> v_routeCleanupNeeded (NewVPN cfg)"
  by (simp_all add: NewVPN_def vpn_inv_def)

lemma sample_refused:
  "runOnce goos run (sample_vpn_env (Some e)) v =
     ([State vpnStateConnecting None, Dial ''203.0.113.5:1562''], Some (Wrap ''quic dial: %w'' [] e),
      begin_session (sample_vpn_env (Some e)) v)"
  if "v_cfg v = sample_tunnel"
  using that by (simp add: runOnce_def sample_vpn_env_def sample_tunnel_def Let_def)

theorem vpn_run_ends_clean_witness:
  "v_state (snd (Run ''linux'' (\<lambda>_. ([], None)) (\<lambda>d. d) [sample_vpn_env (Some (Err ''refused''))] 9 (NewVPN sample_tunnel)))
     = ''stopped''"
proof -
  let ?v = "NewVPN sample_tunnel" and ?e = "Some (Err ''refused'')"
  let ?r = "Run ''linux'' (\<lambda>_. ([], None)) (\<lambda>d. d) [sample_vpn_env ?e] 9 ?v"
  obtain acts v' where r: "?r = (acts, v')" by (cases ?r)
  have "v_cfg ?v = sample_tunnel" by (simp add: NewVPN_def)
  from sample_refused [OF this] have "\<not> v_crashed v'"
    using r by (auto simp: Run_def Let_def sample_vpn_env_def cleanup_routes_def NewVPN_def split: if_splits)
  from vpn_run_ends_clean [OF sample_new(1,2) r this] show ?thesis by (simp add: r vpn_states)
qed


definition subnet_busy :: shell where
  "subnet_busy c =
     (if length c = 6 \<and> take 3 c = [''ip'', ''route'', ''add''] then (''File exists'', Some (External ''exit status 2''))
      else ([], None))"


text \<open>Without that proviso it does not: the route into the tunnel is added first, and when
  the subnet's route then fails the session goes on without noting that anything has to be
  cleaned up, so a run that has ended leaves all traffic routed into a device that is gone.\<close>

lemma vpn_run_leaks_default_route:
  "default_route subnet_busy
     (fst (Run ''linux'' subnet_busy (\<lambda>d. d) [sample_vpn_env None] 9 (NewVPN sample_tunnel))) False"
  by code_simp

fun sleeps :: "vpn_act list \<Rightarrow> int list" where
  "sleeps [] = []"
| "sleeps (Sleep d # as) = d # sleeps as"
| "sleeps (_ # as) = sleeps as"

lemma sleeps_append [simp]: "sleeps (as @ bs) = sleeps as @ sleeps bs"
  by (induction as rule: sleeps.induct) auto

lemma run_loop_dials_fail:
  assumes "\<forall>env\<in>set envs. ve_live env \<and> ve_timer env \<and> ve_dial env \<noteq> None"
  shows "sleeps (fst (run_loop goos run jit d envs v)) = map (\<lambda>k. jit ((next_backoff ^^ k) d)) [0..<length envs]"
  using assms
proof (induction envs arbitrary: d v)
  case (Cons env envs)
  obtain a err v1 where r: "runOnce goos run env v = (a, err, v1)" by (cases "runOnce goos run env v")
  have "\<exists>e. err = Some e" "sleeps a = []"
    using r Cons.prems by (auto simp: runOnce_def Let_def split: if_splits option.splits)
  then obtain e where e: "err = Some e" "sleeps a = []" by blast
  have m: "map (\<lambda>k. jit ((next_backoff ^^ k) (next_backoff d))) [0..<length envs]
      = map (\<lambda>k. jit ((next_backoff ^^ k) d)) [Suc 0..<Suc (length envs)]"
    by (simp add: map_Suc_upt [symmetric] funpow_Suc_right comp_def del: upt_Suc) (simp add: funpow_swap1)
  have IH: "sleeps (fst (run_loop goos run jit (next_backoff d) envs v2))
      = map (\<lambda>k. jit ((next_backoff ^^ k) (next_backoff d))) [0..<length envs]" for v2
    using Cons by simp
  show ?case
    using Cons.prems by (simp add: r e Let_def split_beta IH m upt_conv_Cons del: upt_Suc)
qed simp

text \<open>Retry waits double up to a minute: when \<open>n\<close> sessions in a row fail, the k-th wait is
  the jittered minimum of a minute and \<open>2 ^ k\<close> times the first one, and never decreases
  before jitter.  A session that ended without an error, even at once, is followed by the
  next without any wait, and puts the delay back to a second.\<close>

lemma vpn_retry_backoff:
  assumes "\<forall>env\<in>set envs. ve_live env \<and> ve_timer env \<and> ve_dial env \<noteq> None"
    and "ve_live env0" "runOnce goos run env0 v = (acts, None, v1)" "\<not> v_crashed v1"
  shows "sleeps (fst (run_loop goos run jit d (env0 # envs) v)) =
    sleeps acts @ map (\<lambda>k. jit (min maxBackoff (2 ^ k * second))) [0..<length envs]"
proof -
  have "(next_backoff ^^ k) second = min maxBackoff (2 ^ k * second)" for k
    by (rule vpn_retry.closed_form) (simp_all add: maxBackoff_def second_def)
  then show ?thesis
    using run_loop_dials_fail [OF assms(1), of goos run jit second v1] assms(2-4)
    by (simp add: split_beta)
qed

definition announced :: "vpn_act list \<Rightarrow> nat" where
  "announced acts = length (filter (\<lambda>a. a = State vpnStateRunning None) acts)"

lemma announced_simps [simp]:
  "announced [] = 0" "announced (as @ bs) = announced as + announced bs"
  "announced (a # as) = (if a = State vpnStateRunning None then 1 else 0) + announced as"
  by (simp_all add: announced_def)

lemma announced_none: "\<forall>a\<in>set as. a \<noteq> State vpnStateRunning None \<Longrightarrow> announced as = 0"
  by (simp add: announced_def filter_empty_conv)

lemma forward_announced:
  assumes "forward_session goos run env v = (acts, err, v')"
  shows "announced acts = (if is_ok (ve_tun env) then 1 else 0)"
proof -
  have m: "announced (map Shell cs) = 0" for cs by (rule announced_none) auto
  have p: "announced (map (\<lambda>da. VPipe (snd da)) das) = 0" for das :: "(dir \<times> pipe_act) list"
    by (rule announced_none) auto
  have r: "announced (fst (auto_routes goos run w)) = 0" for w
    by (rule announced_none) (auto simp: auto_routes_def Let_def split: sum.splits prod.splits if_splits)
  have d: "announced (fst (cleanup_routes goos run w)) = 0" for w
    by (rule announced_none) (auto simp: cleanup_routes_def Let_def split: if_splits)
  have c: "announced (fst (carry goos run env w)) = 0" for w
    using d by (simp add: carry_def Let_def split_beta p)
  show ?thesis
    using assms r [of v] c
    by (auto simp: forward_session_def Let_def split_beta m split: sum.splits option.splits prod.splits)
qed

text \<open>A session that gets as far as forwarding is counted twice in \<open>run_count\<close>, once
  when it starts and once when it is announced as running; one that fails before is counted
  once.\<close>

lemma running_session_counted_twice:
  assumes "runOnce goos run env v = (acts, err, v')" "\<not> v_crashed v"
  shows "v_runCnt v' = v_runCnt v + 1 + int (announced acts) \<and> announced acts \<le> 1"
  using assms(1)
proof (cases rule: runOnce_cases)
  case early
  then show ?thesis by (simp add: announced_none)
next
  case full
  have nc: "\<not> v_crashed (begin_session env v)" using assms(2) by simp
  show ?thesis
    using forward_session_keeps(5) [OF full(1) nc] forward_announced [OF full(1)] full(2,3)
    by (simp add: announced_none)
qed

end
