(* ===== verification/Manager.thy ===== *)
theory Manager
  imports SSHClient VPNClient
begin

text \<open>
  The life cycle of the configured tunnels, \<open>client/internal/manager/manager.go\<close>.  Tunnel
  objects are shared by reference between the table, the goroutines that run them and the
  callbacks, so they live in a heap, addressed by number; a run is the goroutine started for
  one object, with its cancel function and \<open>done\<close> channel.  Each definition is one critical
  section or a composition of them.  Saving the tunnels is a parameter, as are the orders in
  which maps are visited.
\<close>

section \<open>State\<close>

record managedTunnel =
  mt_cfg :: TunnelCfg
  mt_stats :: Stats
  mt_cancel :: "nat option"
  mt_done :: "nat option"
  mt_state :: "string option"
  mt_lastErr :: "string option"
  mt_runCount :: int
  mt_startAt :: "int option"
  mt_vpn :: "nat option"

text \<open>
  A run: its object, whether it is a VPN, whether it was cancelled, whether its goroutine is
  done, and the route flag of its VPN.
\<close>

record run =
  r_mt :: nat
  r_vpn :: bool
  r_cancelled :: bool
  r_done :: bool
  r_route :: bool

record Manager =
  m_heap :: "nat \<Rightarrow> managedTunnel"
  m_next :: nat
  m_tunnels :: "string \<Rightarrow> nat option"
  m_runs :: "nat \<Rightarrow> run option"
  m_nextRun :: nat
  m_started :: bool
  m_saved :: "TunnelCfg list"

definition ErrNotFound :: go_error where "ErrNotFound = Err ''tunnel not found''"
definition ErrExists :: go_error where "ErrExists = Err ''tunnel already exists''"

definition loadState :: "managedTunnel \<Rightarrow> string" where
  "loadState mt = (case mt_state mt of None \<Rightarrow> state_text StateStopped | Some s \<Rightarrow> s)"

definition loadErr :: "managedTunnel \<Rightarrow> string" where
  "loadErr mt = (case mt_lastErr mt of None \<Rightarrow> [] | Some e \<Rightarrow> e)"

definition new_managed :: "TunnelCfg \<Rightarrow> managedTunnel" where
  "new_managed tc = \<lparr>mt_cfg = tc, mt_stats = NewStats, mt_cancel = None, mt_done = None,
     mt_state = Some (state_text StateStopped), mt_lastErr = None, mt_runCount = 0, mt_startAt = None, mt_vpn = None\<rparr>"

definition put_tunnel :: "string \<Rightarrow> nat \<Rightarrow> Manager \<Rightarrow> Manager" where
  "put_tunnel name i m = m\<lparr>m_tunnels := (m_tunnels m)(name \<mapsto> i)\<rparr>"

definition del_tunnel :: "string \<Rightarrow> Manager \<Rightarrow> Manager" where
  "del_tunnel name m = m\<lparr>m_tunnels := (m_tunnels m)(name := None)\<rparr>"

definition upd_mt :: "nat \<Rightarrow> (managedTunnel \<Rightarrow> managedTunnel) \<Rightarrow> Manager \<Rightarrow> Manager" where
  "upd_mt i f m = m\<lparr>m_heap := (m_heap m)(i := f (m_heap m i))\<rparr>"

definition upd_run :: "nat \<Rightarrow> (run \<Rightarrow> run) \<Rightarrow> Manager \<Rightarrow> Manager" where
  "upd_run r f m = m\<lparr>m_runs := (m_runs m)(r := map_option f (m_runs m r))\<rparr>"

text \<open>A new stopped object under a name.\<close>

definition insert_tunnel :: "TunnelCfg \<Rightarrow> Manager \<Rightarrow> Manager" where
  "insert_tunnel tc m =
     put_tunnel (t_Name tc) (m_next m)
       (m\<lparr>m_heap := (m_heap m)(m_next m := new_managed tc), m_next := m_next m + 1\<rparr>)"

definition New :: "TunnelCfg list \<Rightarrow> Manager" where
  "New cfgs = fold insert_tunnel cfgs
     \<lparr>m_heap = (\<lambda>_. new_managed empty_tunnel), m_next = 0, m_tunnels = Map.empty, m_runs = Map.empty,
      m_nextRun = 0, m_started = False, m_saved = []\<rparr>"

definition Start :: "Manager \<Rightarrow> Manager" where
  "Start m = m\<lparr>m_started := True\<rparr>"

section \<open>Runs\<close>

text \<open>
  The state callback of both kinds of runs: \<open>OnStateChange\<close>; the zero start time is
  \<open>None\<close>.
\<close>

definition on_state_change :: "int \<Rightarrow> nat \<Rightarrow> string \<Rightarrow> go_error option \<Rightarrow> Manager \<Rightarrow> Manager" where
  "on_state_change now i state err =
     upd_mt i (\<lambda>mt. mt\<lparr>mt_state := Some state,
       mt_lastErr := (case err of Some e \<Rightarrow> Some (err_text e)
                      | None \<Rightarrow> if state = ''running'' then Some [] else mt_lastErr mt),
       mt_startAt := (if state = ''running'' then Some now else if state = ''stopped'' then None else mt_startAt mt),
       mt_runCount := (if state = ''running'' then mt_runCount mt + 1 else mt_runCount mt)\<rparr>)"

definition startTunnel :: "string \<Rightarrow> Manager \<Rightarrow> go_error option \<times> Manager" where
  "startTunnel name m =
     (if \<not> m_started m then (Some (Err ''manager not started yet''), m)
      else (case m_tunnels m name of
        None \<Rightarrow> (Some ErrNotFound, m)
      | Some i \<Rightarrow>
          let mt = m_heap m i in
          if mt_cancel mt \<noteq> None then (None, m)
          else (case Build (mt_cfg mt) of
            Inl e \<Rightarrow> (Some (Wrap ''build tunnel: %w'' [] e), m)
          | Inr _ \<Rightarrow>
              let r = m_nextRun m; vpn = (t_Mode (mt_cfg mt) = ModeVPN) in
              (None, upd_mt i (\<lambda>mt. mt\<lparr>mt_cancel := Some r, mt_done := Some r,
                         mt_vpn := (if vpn then Some r else mt_vpn mt)\<rparr>)
                 (m\<lparr>m_runs := (m_runs m)(r \<mapsto> \<lparr>r_mt = i, r_vpn = vpn, r_cancelled = False, r_done = False,
                      r_route = False\<rparr>), m_nextRun := r + 1\<rparr>)))))"

text \<open>
  The end of the goroutine: it clears \<open>mt.cancel\<close> if it is set, without asking whose it
  is, and then closes \<open>done\<close>.
\<close>

definition finish_run :: "nat \<Rightarrow> Manager \<Rightarrow> Manager" where
  "finish_run r m =
     (case m_runs m r of
        None \<Rightarrow> m
      | Some ru \<Rightarrow>
          if r_done ru then m
          else upd_run r (\<lambda>ru. ru\<lparr>r_done := True, r_route := False\<rparr>)
            (upd_mt (r_mt ru)
              (\<lambda>mt. mt\<lparr>mt_cancel := None, mt_vpn := (if r_vpn ru then None else mt_vpn mt)\<rparr>) m))"

text \<open>A cancelled run reports that it has stopped, and ends.\<close>

definition end_run :: "int \<Rightarrow> nat \<Rightarrow> Manager \<Rightarrow> Manager" where
  "end_run now r m =
     (case m_runs m r of
        None \<Rightarrow> m
      | Some ru \<Rightarrow> if r_done ru then m else finish_run r (on_state_change now (r_mt ru) ''stopped'' None m))"

section \<open>Stopping\<close>

text \<open>The critical section of \<open>stopManagedWithTimeout\<close> and the call of \<open>cancel\<close>.\<close>

definition take_cancel :: "nat \<Rightarrow> Manager \<Rightarrow> nat option \<times> nat option \<times> Manager" where
  "take_cancel i m =
     (let mt = m_heap m i; m' = upd_mt i (\<lambda>mt. mt\<lparr>mt_cancel := None\<rparr>) m in
      case mt_cancel mt of
        None \<Rightarrow> (None, mt_done mt, m')
      | Some r \<Rightarrow> (Some r, mt_done mt, upd_run r (\<lambda>ru. ru\<lparr>r_cancelled := True\<rparr>) m'))"

text \<open>
  \<open>wait\<close> is the time of the run's end, or \<open>None\<close> when a timer fires first (which only a
  positive timeout sets).
\<close>

definition stopManagedWithTimeout :: "int option \<Rightarrow> nat \<Rightarrow> Manager \<Rightarrow> bool \<times> Manager" where
  "stopManagedWithTimeout wait i m =
     (case take_cancel i m of
        (None, _, m') \<Rightarrow> (True, m')
      | (Some _, None, m') \<Rightarrow> (True, m')
      | (Some _, Some d, m') \<Rightarrow>
          (case wait of None \<Rightarrow> (False, m') | Some now \<Rightarrow> (True, end_run now d m')))"

definition stopManaged :: "int \<Rightarrow> nat \<Rightarrow> Manager \<Rightarrow> Manager" where
  "stopManaged now i m = snd (stopManagedWithTimeout (Some now) i m)"

text \<open>The objects are collected first; \<open>waits\<close> says how each wait goes.\<close>

fun stop_each :: "(nat \<times> int option) list \<Rightarrow> Manager \<Rightarrow> bool \<times> Manager" where
  "stop_each [] m = (True, m)"
| "stop_each ((i, wait) # is) m =
     (case stopManagedWithTimeout wait i m of
        (ok, m') \<Rightarrow> (case stop_each is m' of (oks, m'') \<Rightarrow> (ok \<and> oks, m'')))"

definition stopAllWithTimeout :: "(string \<times> int option) list \<Rightarrow> Manager \<Rightarrow> bool \<times> Manager" where
  "stopAllWithTimeout ks m =
     stop_each (List.map_filter (\<lambda>(n, w). map_option (\<lambda>i. (i, w)) (m_tunnels m n)) ks) m"

definition StopAll :: "int \<Rightarrow> string list \<Rightarrow> Manager \<Rightarrow> Manager" where
  "StopAll now ks m = snd (stopAllWithTimeout (map (\<lambda>n. (n, Some now)) ks) m)"

definition Stop :: "int \<Rightarrow> string \<Rightarrow> Manager \<Rightarrow> go_error option \<times> Manager" where
  "Stop now name m =
     (case m_tunnels m name of
        None \<Rightarrow> (Some ErrNotFound, m)
      | Some i \<Rightarrow> (None, stopManaged now i m))"

definition Restart :: "int \<Rightarrow> string \<Rightarrow> Manager \<Rightarrow> go_error option \<times> Manager" where
  "Restart now name m =
     (case Stop now name m of
        (Some e, m') \<Rightarrow> (Some e, m')
      | (None, m') \<Rightarrow> startTunnel name m')"

section \<open>Configuration changes\<close>

text \<open>
  \<open>persist\<close>: without a store (\<open>None\<close>) nothing happens; otherwise the configurations, in
  map order \<open>ks\<close>, go to \<open>SaveTunnels\<close>.
\<close>

type_synonym saver = "(TunnelCfg list \<Rightarrow> go_error option) option"

definition table_cfgs :: "string list \<Rightarrow> Manager \<Rightarrow> TunnelCfg list" where
  "table_cfgs ks m = map (\<lambda>i. mt_cfg (m_heap m i)) (List.map_filter (m_tunnels m) ks)"

definition persist :: "saver \<Rightarrow> string list \<Rightarrow> Manager \<Rightarrow> go_error option \<times> Manager" where
  "persist save ks m =
     (case save of
        None \<Rightarrow> (None, m)
      | Some f \<Rightarrow>
          (case f (table_cfgs ks m) of
             Some e \<Rightarrow> (Some e, m)
           | None \<Rightarrow> (None, m\<lparr>m_saved := table_cfgs ks m\<rparr>)))"

definition Add :: "saver \<Rightarrow> string list \<Rightarrow> TunnelCfg \<Rightarrow> Manager \<Rightarrow> go_error option \<times> Manager" where
  "Add save ks tc m =
     (case ValidateTunnel tc of
        Some e \<Rightarrow> (Some e, m)
      | None \<Rightarrow>
          if m_tunnels m (t_Name tc) \<noteq> None then (Some ErrExists, m)
          else (case persist save ks (insert_tunnel tc m) of
                  (Some e, m') \<Rightarrow> (Some (Wrap ''persist tunnels: %w'' [] e), del_tunnel (t_Name tc) m')
                | (None, m') \<Rightarrow> startTunnel (t_Name tc) m'))"

definition Update :: "int \<Rightarrow> saver \<Rightarrow> string list \<Rightarrow> string \<Rightarrow> TunnelCfg \<Rightarrow> Manager \<Rightarrow> go_error option \<times> Manager" where
  "Update now save ks name tc0 m =
     (let tc = tc0\<lparr>t_Name := name\<rparr> in
      case ValidateTunnel tc of
        Some e \<Rightarrow> (Some e, m)
      | None \<Rightarrow>
          (case m_tunnels m name of
             None \<Rightarrow> (Some ErrNotFound, m)
           | Some i \<Rightarrow>
               let old = mt_cfg (m_heap m i) in
               (case persist save ks (upd_mt i (\<lambda>mt. mt\<lparr>mt_cfg := tc\<rparr>) m) of
                  (Some e, m') \<Rightarrow> (Some (Wrap ''persist tunnels: %w'' [] e), upd_mt i (\<lambda>mt. mt\<lparr>mt_cfg := old\<rparr>) m')
                | (None, m') \<Rightarrow> Restart now name m')))"

definition Delete :: "int \<Rightarrow> saver \<Rightarrow> string list \<Rightarrow> string \<Rightarrow> Manager \<Rightarrow> go_error option \<times> Manager" where
  "Delete now save ks name m =
     (case m_tunnels m name of
        None \<Rightarrow> (Some ErrNotFound, m)
      | Some i \<Rightarrow> persist save ks (stopManaged now i (del_tunnel name m)))"

text \<open>One VPN's \<open>SetRoute\<close>; \<open>chg r b\<close> is its error, and a request that changes nothing returns at once.\<close>

definition vpn_set_route :: "(nat \<Rightarrow> bool \<Rightarrow> go_error option) \<Rightarrow> nat \<Rightarrow> bool \<Rightarrow> Manager \<Rightarrow> go_error option \<times> Manager" where
  "vpn_set_route chg r b m =
     (case m_runs m r of
        None \<Rightarrow> (None, m)
      | Some ru \<Rightarrow>
          if r_route ru = b then (None, m)
          else (case chg r b of
                  Some e \<Rightarrow> (Some e, m)
                | None \<Rightarrow> (None, upd_run r (\<lambda>ru. ru\<lparr>r_route := b\<rparr>) m)))"

definition route_active :: "nat \<Rightarrow> Manager \<Rightarrow> bool" where
  "route_active r m = (case m_runs m r of None \<Rightarrow> False | Some ru \<Rightarrow> r_route ru)"

fun routes_off :: "(nat \<Rightarrow> bool \<Rightarrow> go_error option) \<Rightarrow> string \<Rightarrow> string list \<Rightarrow> Manager \<Rightarrow> Manager" where
  "routes_off chg name [] m = m"
| "routes_off chg name (n # ns) m =
     routes_off chg name ns
       (case m_tunnels m n of
          None \<Rightarrow> m
        | Some i \<Rightarrow>
            (case mt_vpn (m_heap m i) of
               Some r \<Rightarrow> if n \<noteq> name \<and> route_active r m then snd (vpn_set_route chg r False m) else m
             | None \<Rightarrow> m))"

definition SetVPNRoute ::
  "(nat \<Rightarrow> bool \<Rightarrow> go_error option) \<Rightarrow> string list \<Rightarrow> string \<Rightarrow> bool \<Rightarrow> Manager \<Rightarrow> go_error option \<times> Manager" where
  "SetVPNRoute chg ks name enable m =
     (case m_tunnels m name of
        None \<Rightarrow> (Some ErrNotFound, m)
      | Some i \<Rightarrow>
          if t_Mode (mt_cfg (m_heap m i)) \<noteq> ModeVPN then (Some (Errf ''tunnel %q is not a VPN tunnel'' [name]), m)
          else (case mt_vpn (m_heap m i) of
                  None \<Rightarrow> (Some (Errf ''vpn tunnel %q is not running'' [name]), m)
                | Some r \<Rightarrow> vpn_set_route chg r enable (if enable then routes_off chg name ks m else m)))"

section \<open>Imports\<close>

definition prefixed :: "string \<Rightarrow> TunnelCfg \<Rightarrow> TunnelCfg" where
  "prefixed prefix tc = (if prefix \<noteq> [] then tc\<lparr>t_Name := prefix @ t_Name tc\<rparr> else tc)"

definition err_line :: "string \<Rightarrow> go_error \<Rightarrow> string" where
  "err_line name e = format_text ''%s: %v'' [name, err_text e]"

text \<open>
  \<open>BulkMerge\<close>: (imported, skipped, errors).  \<open>kss\<close> gives the map order at each save.
\<close>

fun BulkMerge ::
  "int \<Rightarrow> saver \<Rightarrow> (nat \<Rightarrow> string list) \<Rightarrow> string \<Rightarrow> nat \<times> nat \<times> string list \<Rightarrow> TunnelCfg list \<Rightarrow> Manager
   \<Rightarrow> (nat \<times> nat \<times> string list) \<times> Manager" where
  "BulkMerge now save kss prefix acc [] m = (acc, m)"
| "BulkMerge now save kss prefix (imp, skip, errs) (tc0 # tcs) m =
     (let tc = prefixed prefix tc0; ks = kss (length tcs);
          (err, m') = (if m_tunnels m (t_Name tc) \<noteq> None then Update now save ks (t_Name tc) tc m
                       else Add save ks tc m)
      in case err of
           Some e \<Rightarrow> BulkMerge now save kss prefix (imp, skip + 1, errs @ [err_line (t_Name tc) e]) tcs m'
         | None \<Rightarrow> BulkMerge now save kss prefix (imp + 1, skip, errs) tcs m')"

fun upsert_all ::
  "string \<Rightarrow> nat \<times> nat \<times> string list \<Rightarrow> TunnelCfg list \<Rightarrow> Manager \<Rightarrow> (nat \<times> nat \<times> string list) \<times> Manager" where
  "upsert_all prefix acc [] m = (acc, m)"
| "upsert_all prefix (imp, skip, errs) (tc0 # tcs) m =
     (let tc = prefixed prefix tc0 in
      case ValidateTunnel tc of
        Some e \<Rightarrow> upsert_all prefix (imp, skip + 1, errs @ [err_line (t_Name tc) e]) tcs m
      | None \<Rightarrow>
          (case m_tunnels m (t_Name tc) of
             Some i \<Rightarrow>
               if mt_cancel (m_heap m i) \<noteq> None
               then upsert_all prefix
                      (imp, skip + 1, errs @ [t_Name tc @ '': running tunnel was not updated'']) tcs m
               else upsert_all prefix (imp + 1, skip, errs) tcs (upd_mt i (\<lambda>mt. mt\<lparr>mt_cfg := tc\<rparr>) m)
           | None \<Rightarrow> upsert_all prefix (imp + 1, skip, errs) tcs (insert_tunnel tc m)))"

definition BulkUpsert ::
  "saver \<Rightarrow> string list \<Rightarrow> string \<Rightarrow> TunnelCfg list \<Rightarrow> Manager \<Rightarrow> (nat \<times> nat \<times> string list) \<times> Manager" where
  "BulkUpsert save ks prefix incoming m =
     (case upsert_all prefix (0, 0, []) incoming m of
        ((imp, skip, errs), m') \<Rightarrow>
          if imp = 0 then ((imp, skip, errs), m')
          else (case persist save ks m' of
                  (Some e, m'') \<Rightarrow> ((imp, skip, errs @ [format_text ''persist tunnels: %v'' [err_text e]]), m'')
                | (None, m'') \<Rightarrow> ((imp, skip, errs), m'')))"

section \<open>Status\<close>

record Status =
  ts_Config :: TunnelCfg
  ts_State :: string
  ts_LastError :: string
  ts_StartedAt :: "int option"
  ts_UptimeSec :: int
  ts_RunCount :: int
  ts_Stats :: Stats
  ts_RouteActive :: bool

definition statusOf :: "int \<Rightarrow> Manager \<Rightarrow> nat \<Rightarrow> Status" where
  "statusOf now m i =
     (let mt = m_heap m i in
      \<lparr>ts_Config = mt_cfg mt, ts_State = loadState mt, ts_LastError = loadErr mt,
       ts_StartedAt = mt_startAt mt,
       ts_UptimeSec = (case mt_startAt mt of None \<Rightarrow> 0 | Some t \<Rightarrow> seconds (now - t)),
       ts_RunCount = mt_runCount mt, ts_Stats = Stats_Snapshot (Some (mt_stats mt)),
       ts_RouteActive = (case mt_vpn mt of None \<Rightarrow> False | Some r \<Rightarrow> route_active r m)\<rparr>)"

definition Get :: "int \<Rightarrow> string \<Rightarrow> Manager \<Rightarrow> Status result" where
  "Get now name m = (case m_tunnels m name of None \<Rightarrow> Inl ErrNotFound | Some i \<Rightarrow> Inr (statusOf now m i))"

text \<open>The list is sorted by name, which is the map's key, so the map order does not show.\<close>

fun name_le :: "string \<Rightarrow> string \<Rightarrow> bool" where
  "name_le [] b = True"
| "name_le (x # xs) [] = False"
| "name_le (x # xs) (y # ys) =
     ((of_char x :: nat) < of_char y \<or> x = y \<and> name_le xs ys)"

fun insert_status :: "Status \<Rightarrow> Status list \<Rightarrow> Status list" where
  "insert_status s [] = [s]"
| "insert_status s (t # ts) =
     (if name_le (t_Name (ts_Config s)) (t_Name (ts_Config t)) then s # t # ts else t # insert_status s ts)"

definition List_statuses :: "int \<Rightarrow> string list \<Rightarrow> Manager \<Rightarrow> Status list" where
  "List_statuses now ks m =
     foldr insert_status (map (statusOf now m) (List.map_filter (m_tunnels m) ks)) []"

definition manager_Stats :: "Manager \<Rightarrow> string \<Rightarrow> Stats option" where
  "manager_Stats m = (\<lambda>n. map_option (\<lambda>i. Stats_Snapshot (Some (mt_stats (m_heap m i)))) (m_tunnels m n))"

section \<open>The invariant\<close>

interpretation names: table m_tunnels put_tunnel del_tunnel
  by unfold_locales (auto simp: put_tunnel_def del_tunnel_def)

definition live :: "Manager \<Rightarrow> nat \<Rightarrow> bool" where
  "live m r \<longleftrightarrow> (case m_runs m r of None \<Rightarrow> False | Some ru \<Rightarrow> \<not> r_done ru)"

definition run_object :: "Manager \<Rightarrow> nat \<Rightarrow> nat" where
  "run_object m r = (case m_runs m r of None \<Rightarrow> 0 | Some ru \<Rightarrow> r_mt ru)"

definition run_is_vpn :: "Manager \<Rightarrow> nat \<Rightarrow> bool" where
  "run_is_vpn m r = (case m_runs m r of None \<Rightarrow> False | Some ru \<Rightarrow> r_vpn ru)"

definition own_vpn :: "Manager \<Rightarrow> nat option \<Rightarrow> nat option" where
  "own_vpn m c = (case c of Some r \<Rightarrow> if run_is_vpn m r then Some r else None | None \<Rightarrow> None)"

lemma own_vpn_simps [simp]: "own_vpn m None = None" "own_vpn m (Some r) = (if run_is_vpn m r then Some r else None)"
  by (simp_all add: own_vpn_def)

lemma own_vpn_cong: "run_is_vpn m' = run_is_vpn m \<Longrightarrow> own_vpn m' = own_vpn m"
  by (auto simp: own_vpn_def fun_eq_iff split: option.splits)

text \<open>
  Between operations: every name leads to an object of that name; what an object has in
  \<open>cancel\<close> and \<open>done\<close> is its own live run, and its VPN is the run if that is a VPN; every
  live run is the one its object, which is in the table, can cancel.
\<close>

definition names_ok :: "Manager \<Rightarrow> bool" where
  "names_ok m \<longleftrightarrow> (\<forall>n i. m_tunnels m n = Some i \<longrightarrow> i < m_next m \<and> t_Name (mt_cfg (m_heap m i)) = n)"

definition runs_ok :: "Manager \<Rightarrow> bool" where
  "runs_ok m \<longleftrightarrow>
     (\<forall>r. m_nextRun m \<le> r \<longrightarrow> m_runs m r = None) \<and>
     (\<forall>i r. mt_cancel (m_heap m i) = Some r \<longrightarrow>
        mt_done (m_heap m i) = Some r \<and> live m r \<and> run_object m r = i \<and> i < m_next m) \<and>
     (\<forall>r. live m r \<longrightarrow> mt_cancel (m_heap m (run_object m r)) = Some r \<and>
        (\<exists>n. m_tunnels m n = Some (run_object m r))) \<and>
     (\<forall>i. mt_vpn (m_heap m i) = own_vpn m (mt_cancel (m_heap m i))) \<and>
     (\<forall>r. route_active r m \<longrightarrow> live m r \<and> run_is_vpn m r)"

definition mgr_inv :: "Manager \<Rightarrow> bool" where
  "mgr_inv m \<longleftrightarrow> names_ok m \<and> runs_ok m"

lemma upd_mt_get [simp]:
  "m_heap (upd_mt i f m) j = (if j = i then f (m_heap m i) else m_heap m j)"
  "m_tunnels (upd_mt i f m) = m_tunnels m" "m_runs (upd_mt i f m) = m_runs m"
  "m_next (upd_mt i f m) = m_next m" "m_nextRun (upd_mt i f m) = m_nextRun m"
  "m_started (upd_mt i f m) = m_started m" "m_saved (upd_mt i f m) = m_saved m"
  by (simp_all add: upd_mt_def)

lemma upd_run_get [simp]:
  "m_runs (upd_run r f m) q = (if q = r then map_option f (m_runs m r) else m_runs m q)"
  "m_heap (upd_run r f m) = m_heap m" "m_tunnels (upd_run r f m) = m_tunnels m"
  "m_next (upd_run r f m) = m_next m" "m_nextRun (upd_run r f m) = m_nextRun m"
  "m_started (upd_run r f m) = m_started m" "m_saved (upd_run r f m) = m_saved m"
  by (simp_all add: upd_run_def)

lemma table_get [simp]:
  "m_tunnels (put_tunnel n i m) = (m_tunnels m)(n \<mapsto> i)" "m_heap (put_tunnel n i m) = m_heap m"
  "m_runs (put_tunnel n i m) = m_runs m" "m_next (put_tunnel n i m) = m_next m"
  "m_nextRun (put_tunnel n i m) = m_nextRun m"
  "m_tunnels (del_tunnel n m) = (m_tunnels m)(n := None)" "m_heap (del_tunnel n m) = m_heap m"
  "m_runs (del_tunnel n m) = m_runs m" "m_next (del_tunnel n m) = m_next m"
  "m_nextRun (del_tunnel n m) = m_nextRun m"
  by (simp_all add: put_tunnel_def del_tunnel_def)

lemmas run_views = live_def run_object_def run_is_vpn_def route_active_def

lemma views_cong:
  "m_runs m' = m_runs m \<Longrightarrow> live m' = live m"
  "m_runs m' = m_runs m \<Longrightarrow> run_object m' = run_object m"
  "m_runs m' = m_runs m \<Longrightarrow> run_is_vpn m' = run_is_vpn m"
  "m_runs m' = m_runs m \<Longrightarrow> route_active r m' = route_active r m"
  by (auto simp: run_views fun_eq_iff)

lemma views_upd_mt [simp]:
  "live (upd_mt i f m) = live m" "run_object (upd_mt i f m) = run_object m"
  "run_is_vpn (upd_mt i f m) = run_is_vpn m" "route_active r (upd_mt i f m) = route_active r m"
  "own_vpn (upd_mt i f m) = own_vpn m"
  by (simp_all add: run_views fun_eq_iff own_vpn_def split: option.split)

lemma views_table [simp]:
  "live (put_tunnel n i m) = live m" "run_object (put_tunnel n i m) = run_object m"
  "run_is_vpn (put_tunnel n i m) = run_is_vpn m" "route_active r (put_tunnel n i m) = route_active r m"
  "live (del_tunnel n m) = live m" "run_object (del_tunnel n m) = run_object m"
  "run_is_vpn (del_tunnel n m) = run_is_vpn m" "route_active r (del_tunnel n m) = route_active r m"
  "own_vpn (put_tunnel n i m) = own_vpn m" "own_vpn (del_tunnel n m) = own_vpn m"
  by (simp_all add: run_views fun_eq_iff own_vpn_def split: option.split)

lemma views_fields [simp]:
  "live (m\<lparr>m_saved := x\<rparr>) = live m" "run_object (m\<lparr>m_saved := x\<rparr>) = run_object m"
  "run_is_vpn (m\<lparr>m_saved := x\<rparr>) = run_is_vpn m" "route_active r (m\<lparr>m_saved := x\<rparr>) = route_active r m"
  "live (m\<lparr>m_started := b\<rparr>) = live m" "run_object (m\<lparr>m_started := b\<rparr>) = run_object m"
  "run_is_vpn (m\<lparr>m_started := b\<rparr>) = run_is_vpn m" "route_active r (m\<lparr>m_started := b\<rparr>) = route_active r m"
  "own_vpn (m\<lparr>m_saved := x\<rparr>) = own_vpn m" "own_vpn (m\<lparr>m_started := b\<rparr>) = own_vpn m"
  by (simp_all add: run_views fun_eq_iff own_vpn_def split: option.split)

text \<open>The clauses of \<open>runs_ok\<close>, one by one.\<close>

lemma runs_okI:
  assumes "\<And>r. m_nextRun m \<le> r \<Longrightarrow> m_runs m r = None"
    and "\<And>i r. mt_cancel (m_heap m i) = Some r \<Longrightarrow>
        mt_done (m_heap m i) = Some r \<and> live m r \<and> run_object m r = i \<and> i < m_next m"
    and "\<And>r. live m r \<Longrightarrow> mt_cancel (m_heap m (run_object m r)) = Some r"
    and "\<And>r. live m r \<Longrightarrow> \<exists>n. m_tunnels m n = Some (run_object m r)"
    and "\<And>i. mt_vpn (m_heap m i) = own_vpn m (mt_cancel (m_heap m i))"
    and "\<And>r. route_active r m \<Longrightarrow> live m r \<and> run_is_vpn m r"
  shows "runs_ok m"
  using assms unfolding runs_ok_def by blast

lemma runs_okD:
  assumes "runs_ok m"
  shows "m_nextRun m \<le> r \<Longrightarrow> m_runs m r = None"
    and "mt_cancel (m_heap m i) = Some r \<Longrightarrow> mt_done (m_heap m i) = Some r"
    and "mt_cancel (m_heap m i) = Some r \<Longrightarrow> live m r"
    and "mt_cancel (m_heap m i) = Some r \<Longrightarrow> run_object m r = i"
    and "mt_cancel (m_heap m i) = Some r \<Longrightarrow> i < m_next m"
    and "live m r \<Longrightarrow> mt_cancel (m_heap m (run_object m r)) = Some r"
    and "live m r \<Longrightarrow> \<exists>n. m_tunnels m n = Some (run_object m r)"
    and "mt_vpn (m_heap m i) = own_vpn m (mt_cancel (m_heap m i))"
    and "route_active r m \<Longrightarrow> live m r" "route_active r m \<Longrightarrow> run_is_vpn m r"
  using assms unfolding runs_ok_def by blast+

text \<open>Changes of an object that leave its links alone.\<close>

lemma inv_upd_mt:
  assumes "mgr_inv m"
    and "\<And>mt. mt_cancel (f mt) = mt_cancel mt" "\<And>mt. mt_done (f mt) = mt_done mt" "\<And>mt. mt_vpn (f mt) = mt_vpn mt"
    and "t_Name (mt_cfg (f (m_heap m i))) = t_Name (mt_cfg (m_heap m i))"
  shows "mgr_inv (upd_mt i f m)"
proof -
  have "names_ok (upd_mt i f m)" using assms by (auto simp: mgr_inv_def names_ok_def)
  moreover have "runs_ok (upd_mt i f m)"
    using assms(1) unfolding mgr_inv_def
    by (intro runs_okI) (auto simp: assms(2-4) runs_okD split: if_splits)
  ultimately show ?thesis by (simp add: mgr_inv_def)
qed

lemma inv_on_state_change: "mgr_inv m \<Longrightarrow> mgr_inv (on_state_change now i st err m)"
  unfolding on_state_change_def by (rule inv_upd_mt) simp_all

lemma inv_fields [simp]: "mgr_inv (m\<lparr>m_saved := x\<rparr>) = mgr_inv m" "mgr_inv (m\<lparr>m_started := b\<rparr>) = mgr_inv m"
  by (simp_all add: mgr_inv_def names_ok_def runs_ok_def)

lemma inv_persist: "mgr_inv m \<Longrightarrow> mgr_inv (snd (persist save ks m))"
  by (simp add: persist_def split: option.splits)

lemma persist_get [simp]:
  "m_tunnels (snd (persist save ks m)) = m_tunnels m" "m_heap (snd (persist save ks m)) = m_heap m"
  "m_runs (snd (persist save ks m)) = m_runs m"
  by (simp_all add: persist_def split: option.splits)

lemma insert_get [simp]:
  "m_tunnels (insert_tunnel tc m) = (m_tunnels m)(t_Name tc \<mapsto> m_next m)"
  "m_heap (insert_tunnel tc m) = (m_heap m)(m_next m := new_managed tc)"
  "m_runs (insert_tunnel tc m) = m_runs m" "m_next (insert_tunnel tc m) = m_next m + 1"
  "m_nextRun (insert_tunnel tc m) = m_nextRun m"
  "live (insert_tunnel tc m) = live m" "run_object (insert_tunnel tc m) = run_object m"
  "run_is_vpn (insert_tunnel tc m) = run_is_vpn m" "route_active r (insert_tunnel tc m) = route_active r m"
  "own_vpn (insert_tunnel tc m) = own_vpn m"
  by (simp_all add: insert_tunnel_def run_views fun_eq_iff own_vpn_def split: option.split)

lemma new_managed_get [simp]:
  "mt_cancel (new_managed tc) = None" "mt_vpn (new_managed tc) = None" "mt_cfg (new_managed tc) = tc"
  by (simp_all add: new_managed_def)

text \<open>Putting a new object under a name that is free, or whose object is not running.\<close>

lemma inv_insert:
  assumes "mgr_inv m" "\<And>i. m_tunnels m (t_Name tc) = Some i \<Longrightarrow> mt_cancel (m_heap m i) = None"
  shows "mgr_inv (insert_tunnel tc m)"
proof -
  have ok: "names_ok m" "runs_ok m" using assms(1) by (simp_all add: mgr_inv_def)
  have fresh: "run_object m r \<noteq> m_next m" if "live m r" for r
    using runs_okD(5,6) [OF ok(2)] that by (metis less_irrefl)
  have "runs_ok (insert_tunnel tc m)"
  proof (rule runs_okI)
    fix r
    assume "live (insert_tunnel tc m) r"
    then have l: "live m r" by simp
    then obtain n where n: "m_tunnels m n = Some (run_object m r)" using runs_okD(7) [OF ok(2)] by blast
    then have "n \<noteq> t_Name tc" using assms(2) runs_okD(6) [OF ok(2) l] by auto
    then show "\<exists>n. m_tunnels (insert_tunnel tc m) n = Some (run_object (insert_tunnel tc m) r)"
      using n by (intro exI [of _ n]) simp
  qed (use runs_okD [OF ok(2)] fresh in \<open>auto split: if_splits intro: less_SucI\<close>)
  moreover have "names_ok (insert_tunnel tc m)"
    using ok(1) by (auto simp: names_ok_def less_Suc_eq)
  ultimately show ?thesis by (simp add: mgr_inv_def)
qed

text \<open>Starting: a new run, linked both ways with its object.\<close>

definition launch :: "nat \<Rightarrow> bool \<Rightarrow> Manager \<Rightarrow> Manager" where
  "launch i vpn m =
     upd_mt i (\<lambda>mt. mt\<lparr>mt_cancel := Some (m_nextRun m), mt_done := Some (m_nextRun m),
                 mt_vpn := (if vpn then Some (m_nextRun m) else mt_vpn mt)\<rparr>)
       (m\<lparr>m_runs := (m_runs m)(m_nextRun m \<mapsto> \<lparr>r_mt = i, r_vpn = vpn, r_cancelled = False, r_done = False,
            r_route = False\<rparr>), m_nextRun := m_nextRun m + 1\<rparr>)"

lemma startTunnel_launch:
  "startTunnel name m =
     (if \<not> m_started m then (Some (Err ''manager not started yet''), m)
      else case m_tunnels m name of
        None \<Rightarrow> (Some ErrNotFound, m)
      | Some i \<Rightarrow>
          if mt_cancel (m_heap m i) \<noteq> None then (None, m)
          else (case Build (mt_cfg (m_heap m i)) of
            Inl e \<Rightarrow> (Some (Wrap ''build tunnel: %w'' [] e), m)
          | Inr _ \<Rightarrow> (None, launch i (t_Mode (mt_cfg (m_heap m i)) = ModeVPN) m)))"
  by (simp add: startTunnel_def launch_def Let_def split: option.splits sum.splits)

lemma launch_get [simp]:
  "m_tunnels (launch i vpn m) = m_tunnels m" "m_next (launch i vpn m) = m_next m"
  "m_nextRun (launch i vpn m) = m_nextRun m + 1"
  "mt_cfg (m_heap (launch i vpn m) j) = mt_cfg (m_heap m j)"
  "mt_cancel (m_heap (launch i vpn m) j) = (if j = i then Some (m_nextRun m) else mt_cancel (m_heap m j))"
  "mt_done (m_heap (launch i vpn m) j) = (if j = i then Some (m_nextRun m) else mt_done (m_heap m j))"
  "mt_vpn (m_heap (launch i vpn m) j) = (if j = i \<and> vpn then Some (m_nextRun m) else mt_vpn (m_heap m j))"
  "live (launch i vpn m) r = (r = m_nextRun m \<or> live m r)"
  "run_object (launch i vpn m) r = (if r = m_nextRun m then i else run_object m r)"
  "run_is_vpn (launch i vpn m) r = (if r = m_nextRun m then vpn else run_is_vpn m r)"
  "route_active r (launch i vpn m) = (r \<noteq> m_nextRun m \<and> route_active r m)"
  "m_runs (launch i vpn m) r = (if r = m_nextRun m
     then Some \<lparr>r_mt = i, r_vpn = vpn, r_cancelled = False, r_done = False, r_route = False\<rparr> else m_runs m r)"
  by (simp_all add: launch_def run_views)

lemma inv_launch:
  assumes "mgr_inv m" "m_tunnels m n = Some i" "mt_cancel (m_heap m i) = None"
  shows "mgr_inv (launch i vpn m)"
proof -
  have ok: "names_ok m" "runs_ok m" using assms(1) by (simp_all add: mgr_inv_def)
  note d = runs_okD [OF ok(2)]
  have nl: "\<not> live m (m_nextRun m)" using d(1) by (simp add: live_def)
  have nr: "r \<noteq> m_nextRun m" if "live m r" for r using nl that by auto
  have io: "run_object m r \<noteq> i" if "live m r" for r using d(6) [OF that] assms(3) by auto
  have "runs_ok (launch i vpn m)"
  proof (rule runs_okI)
    fix j
    show "mt_vpn (m_heap (launch i vpn m) j) = own_vpn (launch i vpn m) (mt_cancel (m_heap (launch i vpn m) j))"
      using d(8) [of j] d(3) [of j] nr assms(3) by (cases "mt_cancel (m_heap m j)") auto
  next
    fix j r
    assume "mt_cancel (m_heap (launch i vpn m) j) = Some r"
    then show "mt_done (m_heap (launch i vpn m) j) = Some r \<and> live (launch i vpn m) r \<and>
        run_object (launch i vpn m) r = j \<and> j < m_next (launch i vpn m)"
      using d(2-5) nr ok(1) assms(2) by (auto simp: names_ok_def split: if_splits)
  next
    fix r
    assume "live (launch i vpn m) r"
    then show "mt_cancel (m_heap (launch i vpn m) (run_object (launch i vpn m) r)) = Some r"
      using d(6) io by auto
  next
    fix r
    assume "live (launch i vpn m) r"
    then show "\<exists>n. m_tunnels (launch i vpn m) n = Some (run_object (launch i vpn m) r)"
      using d(7) assms(2) by auto
  qed (use d nr in auto)
  moreover have "names_ok (launch i vpn m)" using ok(1) by (simp add: names_ok_def)
  ultimately show ?thesis by (simp add: mgr_inv_def)
qed

lemma inv_startTunnel: "mgr_inv m \<Longrightarrow> mgr_inv (snd (startTunnel name m))"
  by (auto simp: startTunnel_launch intro: inv_launch split: option.splits sum.splits)

text \<open>Stopping to the end: the run is over and the object has nothing left to cancel.\<close>

definition stopped_mt :: "bool \<Rightarrow> managedTunnel \<Rightarrow> managedTunnel" where
  "stopped_mt vpn mt = mt\<lparr>mt_cancel := None, mt_vpn := (if vpn then None else mt_vpn mt),
     mt_state := Some ''stopped'', mt_startAt := None\<rparr>"

lemma stopManaged_idle: "mt_cancel (m_heap m i) = None \<Longrightarrow> stopManaged now i m = m"
proof -
  assume c: "mt_cancel (m_heap m i) = None"
  then have "(m_heap m i)\<lparr>mt_cancel := None\<rparr> = m_heap m i" by simp
  then have "upd_mt i (\<lambda>mt. mt\<lparr>mt_cancel := None\<rparr>) m = m" by (simp add: upd_mt_def fun_upd_idem)
  then show ?thesis using c by (simp add: stopManaged_def stopManagedWithTimeout_def take_cancel_def Let_def)
qed

lemma stopManaged_running:
  assumes "runs_ok m" "mt_cancel (m_heap m i) = Some r"
  shows "m_heap (stopManaged now i m) j = (if j = i then stopped_mt (run_is_vpn m r) (m_heap m i) else m_heap m j)"
    and "m_runs (stopManaged now i m) q =
      (if q = r then map_option (\<lambda>ru. ru\<lparr>r_cancelled := True, r_done := True, r_route := False\<rparr>) (m_runs m r) else m_runs m q)"
    and "m_tunnels (stopManaged now i m) = m_tunnels m" "m_next (stopManaged now i m) = m_next m"
    and "m_nextRun (stopManaged now i m) = m_nextRun m"
proof -
  obtain ru where ru: "m_runs m r = Some ru" "\<not> r_done ru" "r_mt ru = i"
    using runs_okD(3,4) [OF assms] by (auto simp: run_views split: option.splits)
  have d: "mt_done (m_heap m i) = Some r" using runs_okD(2) [OF assms] .
  note defs = stopManaged_def stopManagedWithTimeout_def take_cancel_def end_run_def finish_run_def on_state_change_def
  show "m_heap (stopManaged now i m) j = (if j = i then stopped_mt (run_is_vpn m r) (m_heap m i) else m_heap m j)"
    using assms(2) ru d by (auto simp: defs Let_def run_is_vpn_def stopped_mt_def)
  show "m_runs (stopManaged now i m) q =
      (if q = r then map_option (\<lambda>ru. ru\<lparr>r_cancelled := True, r_done := True, r_route := False\<rparr>) (m_runs m r) else m_runs m q)"
    using assms(2) ru d by (auto simp: defs Let_def)
  show "m_tunnels (stopManaged now i m) = m_tunnels m" "m_next (stopManaged now i m) = m_next m"
    "m_nextRun (stopManaged now i m) = m_nextRun m"
    using assms(2) ru d by (auto simp: defs Let_def)
qed

lemma stopManaged_table: "m_tunnels (stopManaged now i m) = m_tunnels m" if "runs_ok m"
  using stopManaged_idle stopManaged_running(3) [OF that] by (cases "mt_cancel (m_heap m i)") auto

lemma stopManaged_cancel: "mt_cancel (m_heap (stopManaged now i m) i) = None" if "runs_ok m"
  using stopManaged_idle [of m i] stopManaged_running(1) [OF that, of i]
  by (cases "mt_cancel (m_heap m i)") (auto simp: stopped_mt_def)

lemma inv_stopManaged:
  assumes "mgr_inv m"
  shows "mgr_inv (stopManaged now i m)"
proof (cases "mt_cancel (m_heap m i)")
  case None
  then show ?thesis using assms by (simp add: stopManaged_idle)
next
  case (Some r)
  have ok: "names_ok m" "runs_ok m" using assms by (simp_all add: mgr_inv_def)
  note d = runs_okD [OF ok(2)] and g = stopManaged_running [OF ok(2) Some]
  let ?m = "stopManaged now i m"
  have lv: "live ?m q = (q \<noteq> r \<and> live m q)" "run_object ?m q = run_object m q"
    "run_is_vpn ?m q = run_is_vpn m q" "route_active q ?m = (q \<noteq> r \<and> route_active q m)" for q
    by (auto simp: run_views g split: option.splits)
  have other: "run_object m q \<noteq> i" if "live m q" "q \<noteq> r" for q
    using d(6) [OF that(1)] Some that(2) by auto
  have "runs_ok ?m"
  proof (rule runs_okI)
    fix j
    show "mt_vpn (m_heap ?m j) = own_vpn ?m (mt_cancel (m_heap ?m j))"
      using d(8) [of j] Some by (cases "mt_cancel (m_heap m j)") (auto simp: g lv stopped_mt_def)
  next
    fix j q
    assume "mt_cancel (m_heap ?m j) = Some q"
    then have "j \<noteq> i" "mt_cancel (m_heap m j) = Some q" by (auto simp: g stopped_mt_def split: if_splits)
    then show "mt_done (m_heap ?m j) = Some q \<and> live ?m q \<and> run_object ?m q = j \<and> j < m_next ?m"
      using d(2-5) [of j q] d(4) [OF Some] by (auto simp: g lv)
  qed (use d other in \<open>auto simp: g lv stopped_mt_def\<close>)
  moreover have "names_ok ?m" using ok(1) by (auto simp: names_ok_def g stopped_mt_def)
  ultimately show ?thesis by (simp add: mgr_inv_def)
qed

lemma inv_del_tunnel:
  assumes "mgr_inv m" "\<And>i. m_tunnels m n = Some i \<Longrightarrow> mt_cancel (m_heap m i) = None"
  shows "mgr_inv (del_tunnel n m)"
proof -
  have ok: "names_ok m" "runs_ok m" using assms(1) by (simp_all add: mgr_inv_def)
  note d = runs_okD [OF ok(2)]
  have "runs_ok (del_tunnel n m)"
  proof (rule runs_okI)
    fix r
    assume "live (del_tunnel n m) r"
    then have l: "live m r" by simp
    then obtain k where k: "m_tunnels m k = Some (run_object m r)" using d(7) by blast
    then have "k \<noteq> n" using assms(2) d(6) [OF l] by auto
    then show "\<exists>n'. m_tunnels (del_tunnel n m) n' = Some (run_object (del_tunnel n m) r)"
      using k by (intro exI [of _ k]) simp
  qed (use d in auto)
  moreover have "names_ok (del_tunnel n m)" using ok(1) by (auto simp: names_ok_def split: if_splits)
  ultimately show ?thesis by (simp add: mgr_inv_def)
qed

lemma stop_del_commute: "stopManaged now i (del_tunnel n m) = del_tunnel n (stopManaged now i m)"
proof -
  have u: "upd_mt j f (del_tunnel n q) = del_tunnel n (upd_mt j f q)"
    "upd_run r g (del_tunnel n q) = del_tunnel n (upd_run r g q)" for j f r g q
    by (simp_all add: upd_mt_def upd_run_def del_tunnel_def)
  have e: "end_run now r (del_tunnel n q) = del_tunnel n (end_run now r q)" for r q
    by (simp add: end_run_def finish_run_def on_state_change_def u split: option.splits)
  show ?thesis
    by (simp add: stopManaged_def stopManagedWithTimeout_def take_cancel_def Let_def u e split: option.splits)
qed

text \<open>Route changes touch the flags of live VPN runs only.\<close>

lemma set_route_get [simp]:
  "m_heap (snd (vpn_set_route chg r b m)) = m_heap m" "m_tunnels (snd (vpn_set_route chg r b m)) = m_tunnels m"
  "m_next (snd (vpn_set_route chg r b m)) = m_next m" "m_nextRun (snd (vpn_set_route chg r b m)) = m_nextRun m"
  "live (snd (vpn_set_route chg r b m)) = live m" "run_object (snd (vpn_set_route chg r b m)) = run_object m"
  "run_is_vpn (snd (vpn_set_route chg r b m)) = run_is_vpn m" "own_vpn (snd (vpn_set_route chg r b m)) = own_vpn m"
  "m_runs (snd (vpn_set_route chg r b m)) q = None \<longleftrightarrow> m_runs m q = None"
  by (auto simp: vpn_set_route_def run_views own_vpn_def fun_eq_iff split: option.splits)

lemma route_set: "route_active q (snd (vpn_set_route chg r b m)) \<longleftrightarrow>
    (if q = r \<and> live_run then b else route_active q m)"
  if "live_run \<longleftrightarrow> m_runs m r \<noteq> None \<and> (route_active r m = b \<or> chg r b = None)"
  using that by (auto simp: vpn_set_route_def route_active_def split: option.splits)

lemma inv_set_route:
  assumes "mgr_inv m" "mt_vpn (m_heap m i) = Some r"
  shows "mgr_inv (snd (vpn_set_route chg r b m))"
proof -
  have ok: "names_ok m" "runs_ok m" using assms(1) by (simp_all add: mgr_inv_def)
  note d = runs_okD [OF ok(2)]
  have r: "live m r" "run_is_vpn m r"
    using d(8) [of i] d(3) [of i] assms(2) by (cases "mt_cancel (m_heap m i)"; force split: if_splits)+
  let ?m = "snd (vpn_set_route chg r b m)"
  have "route_active q ?m \<Longrightarrow> live m q \<and> run_is_vpn m q" for q
    using route_set [OF refl, of q chg r b m] d(9,10) [of q] r by (auto split: if_splits)
  then have "runs_ok ?m" using d by (intro runs_okI) auto
  moreover have "names_ok ?m" using ok(1) by (simp add: names_ok_def)
  ultimately show ?thesis by (simp add: mgr_inv_def)
qed

lemma routes_off_get [simp]:
  "m_heap (routes_off chg name ns m) = m_heap m" "m_tunnels (routes_off chg name ns m) = m_tunnels m"
  "m_runs (routes_off chg name ns m) q = None \<longleftrightarrow> m_runs m q = None"
  by (induction ns arbitrary: m) (auto split: option.splits)

lemma inv_routes_off: "mgr_inv m \<Longrightarrow> mgr_inv (routes_off chg name ns m)"
proof (induction ns arbitrary: m)
  case (Cons n ns)
  then show ?case by (auto intro!: Cons.IH inv_set_route split: option.splits)
qed simp

lemma inv_SetVPNRoute: "mgr_inv m \<Longrightarrow> mgr_inv (snd (SetVPNRoute chg ks name b m))"
  by (auto simp: SetVPNRoute_def split: option.splits intro!: inv_set_route inv_routes_off)

lemma inv_Stop: "mgr_inv m \<Longrightarrow> mgr_inv (snd (Stop now name m))"
  by (auto simp: Stop_def inv_stopManaged split: option.splits)

lemma inv_Restart: "mgr_inv m \<Longrightarrow> mgr_inv (snd (Restart now name m))"
  using inv_Stop [of m now name] by (auto simp: Restart_def inv_startTunnel split: prod.splits option.splits)

lemma inv_Add: "mgr_inv m \<Longrightarrow> mgr_inv (snd (Add save ks tc m))"
proof -
  assume m: "mgr_inv m"
  have "mgr_inv (snd (persist save ks (insert_tunnel tc m)))" if "m_tunnels m (t_Name tc) = None"
    using m that by (intro inv_persist inv_insert) auto
  moreover have "mgr_inv (del_tunnel (t_Name tc) (snd (persist save ks (insert_tunnel tc m))))"
    if "m_tunnels m (t_Name tc) = None"
    using calculation [OF that] by (intro inv_del_tunnel) auto
  ultimately show ?thesis
    using m by (auto simp: Add_def split: option.splits prod.splits intro: inv_startTunnel)
qed

lemma inv_set_cfg:
  "mgr_inv m \<Longrightarrow> m_tunnels m name = Some i \<Longrightarrow> t_Name tc = name \<Longrightarrow> mgr_inv (upd_mt i (\<lambda>mt. mt\<lparr>mt_cfg := tc\<rparr>) m)"
  by (rule inv_upd_mt) (auto simp: mgr_inv_def names_ok_def)

lemma inv_Update: "mgr_inv m \<Longrightarrow> mgr_inv (snd (Update now save ks name tc m))"
proof -
  assume m: "mgr_inv m"
  let ?tc = "tc\<lparr>t_Name := name\<rparr>"
  have p: "mgr_inv (snd (persist save ks (upd_mt i (\<lambda>mt. mt\<lparr>mt_cfg := ?tc\<rparr>) m)))"
    if "m_tunnels m name = Some i" for i
    using m that by (intro inv_persist inv_set_cfg) auto
  have q: "mgr_inv (upd_mt i (\<lambda>mt. mt\<lparr>mt_cfg := mt_cfg (m_heap m i)\<rparr>)
      (snd (persist save ks (upd_mt i (\<lambda>mt. mt\<lparr>mt_cfg := ?tc\<rparr>) m))))"
    if "m_tunnels m name = Some i" for i
    using p [OF that] m that by (intro inv_set_cfg [where name = name]) (auto simp: mgr_inv_def names_ok_def)
  show ?thesis
    using m p q by (auto simp: Update_def Let_def split: option.splits prod.splits)
      (metis inv_Restart snd_conv)+
qed

lemma inv_Delete: "mgr_inv m \<Longrightarrow> mgr_inv (snd (Delete now save ks name m))"
proof -
  assume m: "mgr_inv m"
  then have ok: "runs_ok m" by (simp add: mgr_inv_def)
  have "mgr_inv (stopManaged now i (del_tunnel name m))" if "m_tunnels m name = Some i" for i
    unfolding stop_del_commute
    using m that by (intro inv_del_tunnel inv_stopManaged) (simp_all add: stopManaged_table [OF ok] stopManaged_cancel [OF ok])
  then show ?thesis using m by (auto simp: Delete_def split: option.splits intro!: inv_persist)
qed

lemma inv_upsert_all: "mgr_inv m \<Longrightarrow> mgr_inv (snd (upsert_all prefix acc tcs m))"
proof (induction tcs arbitrary: acc m)
  case (Cons tc tcs)
  obtain a b c where "acc = (a, b, c)" by (cases acc)
  then show ?case using Cons by (auto simp: Let_def split: option.splits intro!: Cons.IH inv_insert inv_set_cfg)
qed simp

lemma inv_BulkUpsert: "mgr_inv m \<Longrightarrow> mgr_inv (snd (BulkUpsert save ks prefix tcs m))"
proof -
  assume "mgr_inv m"
  then have "mgr_inv (snd (upsert_all prefix (0, 0, []) tcs m))" by (rule inv_upsert_all)
  then show ?thesis
    by (auto simp: BulkUpsert_def split: prod.splits option.splits) (metis inv_persist snd_conv)+
qed

lemma inv_BulkMerge: "mgr_inv m \<Longrightarrow> mgr_inv (snd (BulkMerge now save kss prefix acc tcs m))"
proof (induction now save kss prefix acc tcs m rule: BulkMerge.induct)
  case (2 now save kss prefix imp skip errs tc tcs m)
  let ?tc = "prefixed prefix tc"
  let ?p = "if m_tunnels m (t_Name ?tc) \<noteq> None then Update now save (kss (length tcs)) (t_Name ?tc) ?tc m
    else Add save (kss (length tcs)) ?tc m"
  have "mgr_inv (snd ?p)" using 2(3) by (simp add: inv_Update inv_Add)
  then show ?case using 2(1,2) by (cases ?p) (auto simp: Let_def split: option.splits)
qed simp

section \<open>Runs of the manager\<close>

text \<open>
  The operations one at a time, each completed before the next begins, and the state reports
  of the runs in between.
\<close>

datatype manager_op =
    OpAdd "string list" TunnelCfg
  | OpUpdate int "string list" string TunnelCfg
  | OpDelete int "string list" string
  | OpStart string
  | OpStop int string
  | OpRestart int string
  | OpRoute "string list" string bool
  | OpMerge int "nat \<Rightarrow> string list" string "TunnelCfg list"
  | OpUpsert "string list" string "TunnelCfg list"
  | OpStopAll int "string list"
  | OpReport int nat string "go_error option"

fun manager_apply :: "saver \<Rightarrow> (nat \<Rightarrow> bool \<Rightarrow> go_error option) \<Rightarrow> manager_op \<Rightarrow> Manager \<Rightarrow> Manager" where
  "manager_apply save chg (OpAdd ks tc) m = snd (Add save ks tc m)"
| "manager_apply save chg (OpUpdate now ks name tc) m = snd (Update now save ks name tc m)"
| "manager_apply save chg (OpDelete now ks name) m = snd (Delete now save ks name m)"
| "manager_apply save chg (OpStart name) m = snd (startTunnel name m)"
| "manager_apply save chg (OpStop now name) m = snd (Stop now name m)"
| "manager_apply save chg (OpRestart now name) m = snd (Restart now name m)"
| "manager_apply save chg (OpRoute ks name b) m = snd (SetVPNRoute chg ks name b m)"
| "manager_apply save chg (OpMerge now kss prefix tcs) m = snd (BulkMerge now save kss prefix (0, 0, []) tcs m)"
| "manager_apply save chg (OpUpsert ks prefix tcs) m = snd (BulkUpsert save ks prefix tcs m)"
| "manager_apply save chg (OpStopAll now ks) m = StopAll now ks m"
| "manager_apply save chg (OpReport now i st err) m = on_state_change now i st err m"

lemma inv_stop_each: "mgr_inv m \<Longrightarrow> \<forall>(i, w)\<in>set xs. w \<noteq> None \<Longrightarrow> mgr_inv (snd (stop_each xs m))"
proof (induction xs arbitrary: m)
  case (Cons x xs)
  obtain i w where x: "x = (i, w)" by (cases x)
  then obtain now where w: "w = Some now" using Cons.prems(2) by auto
  have "mgr_inv (snd (stopManagedWithTimeout w i m))"
    using inv_stopManaged [OF Cons.prems(1), of now i] by (simp add: w stopManaged_def)
  then show ?case using Cons x by (simp add: split_beta)
qed simp

lemma inv_StopAll: "mgr_inv m \<Longrightarrow> mgr_inv (StopAll now ks m)"
  unfolding StopAll_def stopAllWithTimeout_def
  by (rule inv_stop_each) (auto simp: List.map_filter_def)

interpretation manager: operations "manager_apply save chg" mgr_inv for save chg
proof
  fix m :: Manager and e
  assume "mgr_inv m"
  then show "mgr_inv (manager_apply save chg e m)"
    by (cases e) (simp_all add: inv_Add inv_Update inv_Delete inv_startTunnel inv_Stop inv_Restart
        inv_SetVPNRoute inv_BulkMerge inv_BulkUpsert inv_StopAll inv_on_state_change)
qed

lemma inv_New_mgr: "mgr_inv (New cfgs)"
proof -
  have "mgr_inv (fold insert_tunnel cfgs m) \<and> (\<forall>i. mt_cancel (m_heap (fold insert_tunnel cfgs m) i) = None)"
    if "mgr_inv m" "\<forall>i. mt_cancel (m_heap m i) = None" for m
    using that
  proof (induction cfgs arbitrary: m)
    case (Cons tc cfgs)
    have "mgr_inv (insert_tunnel tc m)" using Cons.prems by (intro inv_insert) auto
    then show ?case using Cons by simp
  qed simp
  moreover have "mgr_inv \<lparr>m_heap = (\<lambda>_. new_managed empty_tunnel), m_next = 0, m_tunnels = Map.empty,
      m_runs = Map.empty, m_nextRun = 0, m_started = False, m_saved = []\<rparr>"
    by (simp add: mgr_inv_def names_ok_def runs_ok_def run_views)
  ultimately show ?thesis by (simp add: New_def)
qed

lemma inv_Start: "mgr_inv (Start m) = mgr_inv m"
  by (simp add: Start_def)

section \<open>Properties\<close>

text \<open>C7: Every running tunnel can be stopped: after any sequence of completed operations on a
  manager, each live run belongs to exactly one name in the table, stopping that name ends
  this run and no other, and no tunnel has two live runs.\<close>

theorem live_runs_can_be_stopped:
  assumes "m = fold (manager_apply save chg) ops (Start (New cfgs))" "live m r"
  shows "(\<exists>!name. m_tunnels m name = Some (run_object m r) \<and>
      fst (Stop now name m) = None \<and> (\<forall>q. live (snd (Stop now name m)) q \<longleftrightarrow> live m q \<and> q \<noteq> r)) \<and>
    (\<forall>q. live m q \<and> run_object m q = run_object m r \<longrightarrow> q = r)"
proof -
  have inv: "mgr_inv m" unfolding assms(1) by (rule manager.run_inv) (simp add: inv_Start inv_New_mgr)
  then have ok: "names_ok m" "runs_ok m" by (simp_all add: mgr_inv_def)
  note d = runs_okD [OF ok(2)]
  let ?i = "run_object m r"
  have c: "mt_cancel (m_heap m ?i) = Some r" using d(6) [OF assms(2)] .
  have "live (stopManaged now ?i m) q \<longleftrightarrow> live m q \<and> q \<noteq> r" for q
    using stopManaged_running(2) [OF ok(2) c, of now q] by (auto simp: live_def split: option.splits)
  then have s: "m_tunnels m name = Some ?i \<Longrightarrow> fst (Stop now name m) = None \<and>
      (\<forall>q. live (snd (Stop now name m)) q \<longleftrightarrow> live m q \<and> q \<noteq> r)" for name
    by (simp add: Stop_def)
  obtain n where n: "m_tunnels m n = Some ?i" using d(7) [OF assms(2)] by blast
  have "\<exists>!name. m_tunnels m name = Some ?i \<and> fst (Stop now name m) = None \<and>
      (\<forall>q. live (snd (Stop now name m)) q \<longleftrightarrow> live m q \<and> q \<noteq> r)"
  proof (rule ex1I [of _ n])
    show "m_tunnels m n = Some ?i \<and> fst (Stop now n m) = None \<and>
        (\<forall>q. live (snd (Stop now n m)) q \<longleftrightarrow> live m q \<and> q \<noteq> r)"
      using n s by blast
    show "k = n" if "m_tunnels m k = Some ?i \<and> fst (Stop now k m) = None \<and>
        (\<forall>q. live (snd (Stop now k m)) q \<longleftrightarrow> live m q \<and> q \<noteq> r)" for k
      using that n ok(1) unfolding names_ok_def by metis
  qed
  moreover have "q = r" if "live m q" "run_object m q = ?i" for q
    using c d(6) [OF that(1)] that(2) by simp
  ultimately show ?thesis by blast
qed

definition sample_local :: TunnelCfg where
  "sample_local = empty_tunnel\<lparr>t_Name := ''db'', t_Mode := ModeLocal, t_Listen := '':1'', t_Forward := '':2'',
     t_SSH := empty_ssh\<lparr>ssh_Addr := ''h:22'', ssh_User := ''u'', ssh_Password := ''p''\<rparr>\<rparr>"

theorem live_runs_can_be_stopped_witness:
  "\<exists>name. m_tunnels (fold (manager_apply None (\<lambda>_ _. None)) [OpAdd [] sample_local] (Start (New []))) name = Some 0 \<and>
     \<not> live (snd (Stop 5 name (fold (manager_apply None (\<lambda>_ _. None)) [OpAdd [] sample_local] (Start (New []))))) 0"
proof -
  let ?m = "fold (manager_apply None (\<lambda>_ _. None)) [OpAdd [] sample_local] (Start (New []))"
  have l: "live ?m 0" "run_object ?m 0 = 0" by (code_simp, code_simp)
  from live_runs_can_be_stopped [OF refl l(1), of 5] show ?thesis unfolding l(2) by blast
qed

text \<open>That needs the operations to be completed.  When a stop gives up waiting (as
  \<open>StopAllTimeout\<close> does) the tunnel counts as not running, so it can be started again; when
  the first run then ends, it clears the cancel function of the second.  That run goes on,
  \<open>Stop\<close> and \<open>StopAll\<close> report success without stopping it, and another start makes a
  second live run of the same tunnel.\<close>

definition orphaned :: Manager where
  "orphaned =
     (let m0 = snd (Add None [] sample_local (Start (New [])));
          m1 = snd (stopAllWithTimeout [(''db'', None)] m0);
          m2 = snd (startTunnel ''db'' m1)
      in end_run 9 0 m2)"

lemma late_end_orphans_a_run:
  "live orphaned 1 \<and> run_object orphaned 1 = 0 \<and> m_tunnels orphaned ''db'' = Some 0 \<and>
   fst (Stop 10 ''db'' orphaned) = None \<and> live (snd (Stop 10 ''db'' orphaned)) 1 \<and>
   live (snd (startTunnel ''db'' orphaned)) 1 \<and> live (snd (startTunnel ''db'' orphaned)) 2"
  by (intro conjI; code_simp)

lemma routes_off_other:
  assumes "\<forall>r. chg r False = None"
  shows "route_active q (routes_off chg name ns m) \<longleftrightarrow> route_active q m \<and>
    (\<forall>n\<in>set ns. \<forall>i. n \<noteq> name \<longrightarrow> m_tunnels m n = Some i \<longrightarrow> mt_vpn (m_heap m i) \<noteq> Some q)"
proof (induction ns arbitrary: m)
  case (Cons n ns)
  have off: "route_active q (snd (vpn_set_route chg r False m)) \<longleftrightarrow> q \<noteq> r \<and> route_active q m" for r
    using assms by (auto simp: vpn_set_route_def route_active_def split: option.splits)
  show ?case
    by (auto simp: Cons off split: option.splits)
qed simp

text \<open>C26: Enabling a VPN's global route disables every other one's: if switching routes off
  does not fail, then after a successful request no other tunnel of the table has its route
  active, and this one has.\<close>

theorem global_route_is_exclusive:
  assumes "mgr_inv m" "\<forall>r. chg r False = None" "dom (m_tunnels m) \<subseteq> set ks"
    and "SetVPNRoute chg ks name True m = (None, m')"
  shows "\<exists>i r. m_tunnels m name = Some i \<and> mt_vpn (m_heap m i) = Some r \<and>
    (\<forall>q. route_active q m' \<longleftrightarrow> q = r)"
proof -
  have ok: "names_ok m" "runs_ok m" using assms(1) by (simp_all add: mgr_inv_def)
  note d = runs_okD [OF ok(2)]
  obtain i r where ir: "m_tunnels m name = Some i" "mt_vpn (m_heap m i) = Some r"
    and s: "vpn_set_route chg r True (routes_off chg name ks m) = (None, m')"
    using assms(4) by (auto simp: SetVPNRoute_def split: option.splits if_splits)
  have r: "live m r" "run_object m r = i"
    using d(8) [of i] d(3,4) [of i] ir(2) by (cases "mt_cancel (m_heap m i)"; force split: if_splits)+
  let ?o = "routes_off chg name ks m"
  have vpn_of: "\<exists>n. m_tunnels m n = Some (run_object m q) \<and> mt_vpn (m_heap m (run_object m q)) = Some q"
    if "route_active q m" for q
    using d(6,7,8) [of q] d(8) [of "run_object m q"] d(9,10) [OF that] by auto
  have off: "route_active q ?o \<longrightarrow> q = r" for q
  proof
    assume q: "route_active q ?o"
    then have qa: "route_active q m" by (simp add: routes_off_other [where chg = chg, OF assms(2)])
    obtain n where n: "m_tunnels m n = Some (run_object m q)" "mt_vpn (m_heap m (run_object m q)) = Some q"
      using vpn_of [OF qa] by blast
    then have "n \<in> set ks" using assms(3) by auto
    then have "n = name" using q n by (auto simp: routes_off_other [where chg = chg, OF assms(2)])
    then show "q = r" using n ir by simp
  qed
  have "m_runs ?o r \<noteq> None" using r(1) by (auto simp: live_def split: option.splits)
  then obtain ru where ru: "m_runs ?o r = Some ru" by blast
  then have "m' = ?o \<and> r_route ru \<or> m' = upd_run r (\<lambda>ru. ru\<lparr>r_route := True\<rparr>) ?o"
    using s by (auto simp: vpn_set_route_def split: option.splits if_splits)
  then have "route_active q m' \<longleftrightarrow> q = r \<or> route_active q ?o" for q
    by (elim disjE) (auto simp: route_active_def ru)
  then show ?thesis using ir off by blast
qed

lemma Add_names: "dom (m_tunnels (snd (Add save ks tc m))) \<subseteq> insert (t_Name tc) (dom (m_tunnels m))"
  by (auto simp: Add_def persist_def startTunnel_launch split: option.splits sum.splits if_splits)

lemma SetVPNRoute_names [simp]: "m_tunnels (snd (SetVPNRoute chg ks name b m)) = m_tunnels m"
  by (auto simp: SetVPNRoute_def split: option.splits)

definition sample_vpn :: "string \<Rightarrow> TunnelCfg" where
  "sample_vpn name = empty_tunnel\<lparr>t_Name := name, t_Mode := ModeVPN, t_Forward := '':2'',
     t_SSH := empty_ssh\<lparr>ssh_User := ''u'', ssh_Password := ''p''\<rparr>\<rparr>"

definition two_vpns :: Manager where
  "two_vpns = fold (manager_apply None (\<lambda>_ _. None))
     [OpAdd [] (sample_vpn ''a''), OpAdd [] (sample_vpn ''b''), OpRoute [''a'', ''b''] ''a'' True] (Start (New []))"

theorem global_route_is_exclusive_witness:
  "\<forall>q. route_active q (snd (SetVPNRoute (\<lambda>_ _. None) [''a'', ''b''] ''b'' True two_vpns)) \<longleftrightarrow> q = 1"
proof -
  have inv: "mgr_inv two_vpns"
    unfolding two_vpns_def by (rule manager.run_inv) (simp add: inv_Start inv_New_mgr)
  have e: "fst (SetVPNRoute (\<lambda>_ _. None) [''a'', ''b''] ''b'' True two_vpns) = None" by code_simp
  have d: "dom (m_tunnels two_vpns) \<subseteq> set [''a'', ''b'']"
    using Add_names [of None "[]" "sample_vpn ''b''"] Add_names [of None "[]" "sample_vpn ''a''" "Start (New [])"]
    by (fastforce simp: two_vpns_def SetVPNRoute_names sample_vpn_def New_def Start_def)
  have b: "m_tunnels two_vpns ''b'' = Some 1" "mt_vpn (m_heap two_vpns 1) = Some 1" by (code_simp, code_simp)
  obtain m' where m': "SetVPNRoute (\<lambda>_ _. None) [''a'', ''b''] ''b'' True two_vpns = (None, m')"
    using e by (metis prod.collapse)
  obtain i r where "m_tunnels two_vpns ''b'' = Some i" "mt_vpn (m_heap two_vpns i) = Some r"
    "\<forall>q. route_active q m' \<longleftrightarrow> q = r"
    using global_route_is_exclusive [OF inv _ d m'] by auto
  then show ?thesis using b m' by simp
qed

text \<open>\<open>Add\<close> is all or nothing: on a started manager, when it returns an error the table
  and the saved tunnels are what they were; when it succeeds the tunnel is in the table under
  its name, valid, running, and (with a store) what was saved is the new table.\<close>

lemma add_all_or_nothing:
  assumes "mgr_inv m" "m_started m"
  shows "case Add save ks tc m of
      (Some e, m') \<Rightarrow> m_tunnels m' = m_tunnels m \<and> m_saved m' = m_saved m
    | (None, m') \<Rightarrow> ValidateTunnel tc = None \<and> m_tunnels m (t_Name tc) = None \<and>
        m_tunnels m' = (m_tunnels m)(t_Name tc \<mapsto> m_next m) \<and> mt_cfg (m_heap m' (m_next m)) = tc \<and>
        (\<exists>r. mt_cancel (m_heap m' (m_next m)) = Some r \<and> live m' r) \<and>
        m_saved m' = (if save = None then m_saved m else table_cfgs ks (insert_tunnel tc m))"
proof -
  have st: "m_started (insert_tunnel tc m)" "m_saved (insert_tunnel tc m) = m_saved m"
    using assms(2) by (simp_all add: insert_tunnel_def put_tunnel_def)
  have del: "m_tunnels (del_tunnel (t_Name tc) (insert_tunnel tc m)) = m_tunnels m"
    if "m_tunnels m (t_Name tc) = None"
    using that by (simp add: fun_upd_idem)
  have sv: "m_saved (launch i b q) = m_saved q" "m_saved (del_tunnel n q) = m_saved q" for i b q n
    by (simp_all add: launch_def del_tunnel_def)
  show ?thesis
  proof (cases "ValidateTunnel tc = None \<and> m_tunnels m (t_Name tc) = None")
    case True
    then obtain impl where "Build tc = Inr impl" using Build_ok [of tc] by (auto simp: is_ok_iff)
    then show ?thesis
      using True st del
      by (auto simp: Add_def persist_def startTunnel_launch sv split: option.splits)
  qed (auto simp: Add_def split: option.splits)
qed

lemma merge_counts:
  "fst (fst (BulkMerge now save kss prefix (i, s, es) tcs m)) + fst (snd (fst (BulkMerge now save kss prefix (i, s, es) tcs m)))
     = i + s + length tcs \<and>
   length (snd (snd (fst (BulkMerge now save kss prefix (i, s, es) tcs m)))) + s
     = length es + fst (snd (fst (BulkMerge now save kss prefix (i, s, es) tcs m)))"
proof (induction tcs arbitrary: i s es m)
  case (Cons tc tcs)
  let ?tc = "prefixed prefix tc"
  let ?p = "if m_tunnels m (t_Name ?tc) \<noteq> None then Update now save (kss (length tcs)) (t_Name ?tc) ?tc m
    else Add save (kss (length tcs)) ?tc m"
  obtain err m' where p: "?p = (err, m')" by (cases ?p)
  show ?case
  proof (cases err)
    case None
    then show ?thesis using Cons.IH [of "i + 1" s es m'] p by (simp add: Let_def)
  next
    case (Some e)
    then show ?thesis using Cons.IH [of i "s + 1" "es @ [err_line (t_Name ?tc) e]" m'] p by (simp add: Let_def)
  qed
qed simp

lemma upsert_counts:
  "fst (fst (upsert_all prefix (i, s, es) tcs m)) + fst (snd (fst (upsert_all prefix (i, s, es) tcs m)))
     = i + s + length tcs \<and>
   length (snd (snd (fst (upsert_all prefix (i, s, es) tcs m)))) + s
     = length es + fst (snd (fst (upsert_all prefix (i, s, es) tcs m)))"
proof (induction tcs arbitrary: i s es m)
  case (Cons tc tcs)
  let ?tc = "prefixed prefix tc"
  have skip: "fst (fst (upsert_all prefix (i, s + 1, es @ [x]) tcs q)) + fst (snd (fst (upsert_all prefix (i, s + 1, es @ [x]) tcs q)))
      = i + s + Suc (length tcs) \<and>
      length (snd (snd (fst (upsert_all prefix (i, s + 1, es @ [x]) tcs q)))) + s
      = length es + fst (snd (fst (upsert_all prefix (i, s + 1, es @ [x]) tcs q)))" for x q
    using Cons.IH [of i "s + 1" "es @ [x]" q] by simp
  have take: "fst (fst (upsert_all prefix (i + 1, s, es) tcs q)) + fst (snd (fst (upsert_all prefix (i + 1, s, es) tcs q)))
      = i + s + Suc (length tcs) \<and>
      length (snd (snd (fst (upsert_all prefix (i + 1, s, es) tcs q)))) + s
      = length es + fst (snd (fst (upsert_all prefix (i + 1, s, es) tcs q)))" for q
    using Cons.IH [of "i + 1" s es q] by simp
  show ?case
    using skip take by (simp add: Let_def split: option.splits)
qed simp

text \<open>Bulk imports account for every tunnel: imported and skipped add up to the number given,
  and each skipped one has its error line (\<open>BulkUpsert\<close> adds one when saving fails).\<close>

lemma bulk_imports_account:
  "(let (imp, skip, errs) = fst (BulkMerge now save kss prefix (0, 0, []) tcs m)
    in imp + skip = length tcs \<and> length errs = skip) \<and>
   (let (imp, skip, errs) = fst (BulkUpsert save ks prefix tcs m)
    in imp + skip = length tcs \<and> skip \<le> length errs \<and> length errs \<le> skip + 1)"
  using merge_counts [of now save kss prefix 0 0 "[]" tcs m] upsert_counts [of prefix 0 0 "[]" tcs m]
  by (auto simp: BulkUpsert_def split_beta Let_def split: option.splits prod.splits)

end
