(* ===== verification/AppWindow.thy ===== *)
theory AppWindow
  imports CoreBatch SSHSession Manager Store
begin

text \<open>
  The rest of the desktop application's calls (\<open>client/app.go\<close>): the event log of the window,
  the debug log of the terminals, the calls for tunnels, terminals and saved connections, the node
  tests with their progress events, and the helpers.  The proxy is in \<open>DesktopApp\<close>.  The
  clock, the operating system and the window's runtime are parameters.
\<close>

section \<open>Texts\<close>

text \<open>The texts of the log are UTF-8; those on nodes and tunnels end in a full-width colon.\<close>

definition fullwidth_colon :: string where
  "fullwidth_colon =
     [CHR 0xEF, CHR 0xBC, CHR 0x9A]"

definition module_tunnels :: string where
  "module_tunnels =
     ''SSH '' @ [CHR 0xE9, CHR 0x9A, CHR 0xA7, CHR 0xE9, CHR 0x81, CHR 0x93]"

definition module_terminal :: string where
  "module_terminal =
     ''SSH '' @ [CHR 0xE7, CHR 0xBB, CHR 0x88, CHR 0xE7, CHR 0xAB, CHR 0xAF]"

definition module_nodes :: string where
  "module_nodes =
     [CHR 0xE8, CHR 0x8A, CHR 0x82, CHR 0xE7, CHR 0x82, CHR 0xB9]"

definition text_add :: string where
  "text_add =
     [CHR 0xE6, CHR 0x96, CHR 0xB0, CHR 0xE5, CHR 0xA2, CHR 0x9E, CHR 0xE9, CHR 0x9A, CHR 0xA7, CHR 0xE9, CHR
     0x81, CHR 0x93, CHR 0xEF, CHR 0xBC, CHR 0x9A]"

definition text_update :: string where
  "text_update =
     [CHR 0xE6, CHR 0x9B, CHR 0xB4, CHR 0xE6, CHR 0x96, CHR 0xB0, CHR 0xE9, CHR 0x9A, CHR 0xA7, CHR 0xE9, CHR
     0x81, CHR 0x93, CHR 0xEF, CHR 0xBC, CHR 0x9A]"

definition text_delete :: string where
  "text_delete =
     [CHR 0xE5, CHR 0x88, CHR 0xA0, CHR 0xE9, CHR 0x99, CHR 0xA4, CHR 0xE9, CHR 0x9A, CHR 0xA7, CHR 0xE9, CHR
     0x81, CHR 0x93, CHR 0xEF, CHR 0xBC, CHR 0x9A]"

definition text_start :: string where
  "text_start =
     [CHR 0xE5, CHR 0x90, CHR 0xAF, CHR 0xE5, CHR 0x8A, CHR 0xA8, CHR 0xE9, CHR 0x9A, CHR 0xA7, CHR 0xE9, CHR
     0x81, CHR 0x93, CHR 0xEF, CHR 0xBC, CHR 0x9A]"

definition text_stop :: string where
  "text_stop =
     [CHR 0xE5, CHR 0x81, CHR 0x9C, CHR 0xE6, CHR 0xAD, CHR 0xA2, CHR 0xE9, CHR 0x9A, CHR 0xA7, CHR 0xE9, CHR
     0x81, CHR 0x93, CHR 0xEF, CHR 0xBC, CHR 0x9A]"

definition text_restart :: string where
  "text_restart =
     [CHR 0xE9, CHR 0x87, CHR 0x8D, CHR 0xE5, CHR 0x90, CHR 0xAF, CHR 0xE9, CHR 0x9A, CHR 0xA7, CHR 0xE9, CHR
     0x81, CHR 0x93, CHR 0xEF, CHR 0xBC, CHR 0x9A]"

definition text_open :: string where
  "text_open =
     [CHR 0xE5, CHR 0x9C, CHR 0xA8, CHR 0xE4, CHR 0xB8, CHR 0xBB, CHR 0xE7, CHR 0xAA, CHR 0x97, CHR 0xE5, CHR
     0x8F, CHR 0xA3, CHR 0xE6, CHR 0x89, CHR 0x93, CHR 0xE5, CHR 0xBC, CHR 0x80, CHR 0xEF, CHR 0xBC, CHR 0x9A]"

definition text_save_conn :: string where
  "text_save_conn =
     [CHR 0xE4, CHR 0xBF, CHR 0x9D, CHR 0xE5, CHR 0xAD, CHR 0x98, CHR 0xE8, CHR 0xBF, CHR 0x9E, CHR 0xE6, CHR
     0x8E, CHR 0xA5, CHR 0xEF, CHR 0xBC, CHR 0x9A]"

definition text_delete_conn :: string where
  "text_delete_conn =
     [CHR 0xE5, CHR 0x88, CHR 0xA0, CHR 0xE9, CHR 0x99, CHR 0xA4, CHR 0xE8, CHR 0xBF, CHR 0x9E, CHR 0xE6, CHR
     0x8E, CHR 0xA5, CHR 0xEF, CHR 0xBC, CHR 0x9A]"

definition text_test :: string where
  "text_test =
     [CHR 0xE6, CHR 0xB5, CHR 0x8B, CHR 0xE8, CHR 0xAF, CHR 0x95, CHR 0xE8, CHR 0x8A, CHR 0x82, CHR 0xE7, CHR
     0x82, CHR 0xB9, CHR 0xEF, CHR 0xBC, CHR 0x9A]"

definition text_latency :: string where
  "text_latency =
     [CHR 0xEF, CHR 0xBC, CHR 0x8C, CHR 0xE5, CHR 0xBB, CHR 0xB6, CHR 0xE8, CHR 0xBF, CHR 0x9F] @ '' ''"

definition text_failed :: string where
  "text_failed =
     [CHR 0xE6, CHR 0xB5, CHR 0x8B, CHR 0xE8, CHR 0xAF, CHR 0x95, CHR 0xE5, CHR 0xA4, CHR 0xB1, CHR 0xE8, CHR
     0xB4, CHR 0xA5]"

definition text_batch :: string where
  "text_batch =
     [CHR 0xE6, CHR 0x89, CHR 0xB9, CHR 0xE9, CHR 0x87, CHR 0x8F, CHR 0xE6, CHR 0xB5, CHR 0x8B, CHR 0xE8, CHR
     0xAF, CHR 0x95, CHR 0xE8, CHR 0x8A, CHR 0x82, CHR 0xE7, CHR 0x82, CHR 0xB9]"

definition label_global :: string where
  "label_global =
     [CHR 0xE5, CHR 0x85, CHR 0xA8, CHR 0xE5, CHR 0xB1, CHR 0x80, CHR 0xE6, CHR 0xA8, CHR 0xA1, CHR 0xE5, CHR
     0xBC, CHR 0x8F]"

definition label_direct :: string where
  "label_direct =
     [CHR 0xE7, CHR 0x9B, CHR 0xB4, CHR 0xE8, CHR 0xBF, CHR 0x9E, CHR 0xE6, CHR 0xA8, CHR 0xA1, CHR 0xE5, CHR
     0xBC, CHR 0x8F]"

definition label_rule :: string where
  "label_rule =
     [CHR 0xE8, CHR 0xA7, CHR 0x84, CHR 0xE5, CHR 0x88, CHR 0x99, CHR 0xE6, CHR 0xA8, CHR 0xA1, CHR 0xE5, CHR
     0xBC, CHR 0x8F]"

definition proxyModeLabel :: "string \<Rightarrow> string" where
  "proxyModeLabel mode =
     (let m = NormalizeMode mode in
      if m = ProxyModeGlobal then label_global else if m = ProxyModeDirect then label_direct else label_rule)"

section \<open>The event log\<close>

record LogEntry =
  le_Time :: string
  le_Level :: string
  le_Module :: string
  le_Message :: string

text \<open>Events emitted to the window.\<close>

record ProxyTestProgressEvent =
  pe_BatchID :: string
  pe_Result :: TestResult
  pe_Completed :: nat
  pe_Total :: nat

datatype window_event = TestProgress ProxyTestProgressEvent | OpenRequest string | SSHEvent session_event

text \<open>The logs, the debug log's file, and what was emitted.\<close>

record Window =
  wi_logs :: "LogEntry list"
  wi_debug :: string
  wi_events :: "window_event list"

text \<open>
  The answers to one append: the formatted times, the process, and whether directory and file
  can be opened; \<open>dw_written\<close> is what the write stores of the line.
\<close>

record log_env =
  dw_time :: string
  dw_nano :: string
  dw_pid :: int
  dw_mkdir :: "go_error option"
  dw_open :: "go_error option"
  dw_written :: "string \<Rightarrow> string"

definition recordLog :: "log_env \<Rightarrow> string \<Rightarrow> string \<Rightarrow> string \<Rightarrow> go_error option \<Rightarrow> Window \<Rightarrow> Window" where
  "recordLog env level module message err w =
     (let (level', message') = (case err of None \<Rightarrow> (level, message)
                                | Some e \<Rightarrow> (''error'', message @ fullwidth_colon @ err_text e));
          entry = \<lparr>le_Time = dw_time env, le_Level = level', le_Module = module, le_Message = message'\<rparr>;
          logs = wi_logs w @ [entry]
      in w\<lparr>wi_logs := (if length logs > 500 then drop (length logs - 500) logs else logs)\<rparr>)"

definition GetLogs :: "Window \<Rightarrow> LogEntry list" where "GetLogs w = wi_logs w"

definition ClearLogs :: "Window \<Rightarrow> Window" where "ClearLogs w = w\<lparr>wi_logs := []\<rparr>"

section \<open>The debug log of the terminals\<close>

definition debug_line :: "log_env \<Rightarrow> string \<Rightarrow> string \<Rightarrow> string \<Rightarrow> string" where
  "debug_line env sessionID source detail =
     (let detail' = (if length detail > 2000 then take 2000 detail @ ''...(truncated)'' else detail)
      in format_text ''%s pid=%d session=%s source=%s %s'' [dw_nano env, itoa (dw_pid env), sessionID, source, detail'] @ [CHR 0x0A])"

definition appendSSHDebug :: "log_env \<Rightarrow> string \<Rightarrow> string \<Rightarrow> string \<Rightarrow> Window \<Rightarrow> Window" where
  "appendSSHDebug env sessionID source detail w =
     (if dw_mkdir env \<noteq> None \<or> dw_open env \<noteq> None then w
      else w\<lparr>wi_debug := wi_debug w @ dw_written env (debug_line env sessionID source detail)\<rparr>)"

definition printableASCII :: "string \<Rightarrow> string" where
  "printableASCII data = map (\<lambda>b. if 32 \<le> (of_char b :: nat) \<and> (of_char b :: nat) \<le> 126 then b else CHR ''.'') data"

definition describeBytes :: "string \<Rightarrow> string" where
  "describeBytes data =
     (let limit = min (length data) 64
      in format_text ''len=%d hex=%s ascii=%q''
           [itoa (int (length data)), hex_encode (take limit data), printableASCII (take limit data)])"

fun describeFirstChunk :: "string list \<Rightarrow> string" where
  "describeFirstChunk [] = ''len=0''"
| "describeFirstChunk (chunk # chunks) = (if chunk \<noteq> [] then describeBytes chunk else describeFirstChunk chunks)"

definition executablePath :: "string result \<Rightarrow> string" where
  "executablePath exe = (case exe of Inl _ \<Rightarrow> [] | Inr p \<Rightarrow> p)"

section \<open>Terminals\<close>

definition CreateSSHSession ::
  "log_env \<Rightarrow> (nat \<times> bool) result \<Rightarrow> string \<Rightarrow> SessionConfig \<Rightarrow> Sessions \<Rightarrow> Window \<Rightarrow> string result \<times> Sessions \<times> Window" where
  "CreateSSHSession env opened i cfg m w =
     (case session_Create opened i cfg m of
        (Inl e, m') \<Rightarrow>
          (Inl e, m', appendSSHDebug env [] ''create-error''
             (format_text ''addr=%s user=%s err=%v'' [sc_Addr cfg, sc_User cfg, err_text e]) w)
      | (Inr j, m') \<Rightarrow>
          (Inr j, m', appendSSHDebug env j ''create''
             (format_text ''addr=%s user=%s rows=%d cols=%d'' [sc_Addr cfg, sc_User cfg, itoa (sc_Rows cfg), itoa (sc_Cols cfg)]) w))"

text \<open>The write of a call: its end as an error, where \<open>OutOfRange\<close> is a panic, which comes back as it is.\<close>

definition logged_write :: "log_env \<Rightarrow> string \<Rightarrow> string \<Rightarrow> 'w \<times> write_end \<Rightarrow> Window \<Rightarrow> write_end \<times> 'w \<times> Window" where
  "logged_write env sessionID source r w =
     (case r of
        (t, Failed e) \<Rightarrow> (Failed e, t, appendSSHDebug env sessionID source (err_text e) w)
      | (t, done1) \<Rightarrow> (done1, t, w))"

definition SendSSHInput ::
  "log_env \<Rightarrow> (nat \<Rightarrow> 'w \<Rightarrow> string \<Rightarrow> 'w \<times> int \<times> go_error option) \<Rightarrow> Sessions \<Rightarrow> string \<Rightarrow> string \<Rightarrow> 'w \<Rightarrow> Window
   \<Rightarrow> write_end \<times> 'w \<times> Window" where
  "SendSSHInput env wr m sessionID data t w =
     logged_write env sessionID ''input-string-error'' (WriteBytes wr m t sessionID data)
       (appendSSHDebug env sessionID ''input-string'' (describeBytes data) w)"

text \<open>The loop that decodes; \<open>bad i\<close> is the error text of \<open>base64\<close> for a chunk.\<close>

fun decode_chunks :: "(string \<Rightarrow> string) \<Rightarrow> string list \<Rightarrow> string list result" where
  "decode_chunks bad [] = Inr []"
| "decode_chunks bad (chunk # chunks) =
     (if chunk = [] then decode_chunks bad chunks
      else (case b64_decode True False chunk of
              None \<Rightarrow> Inl (External (bad chunk))
            | Some data \<Rightarrow> bind_result (decode_chunks bad chunks) (\<lambda>rest. Inr (data # rest))))"

definition SendSSHInputBase64Batch ::
  "log_env \<Rightarrow> (string \<Rightarrow> string) \<Rightarrow> (nat \<Rightarrow> 'w \<Rightarrow> string \<Rightarrow> 'w \<times> int \<times> go_error option) \<Rightarrow> Sessions \<Rightarrow> string \<Rightarrow> string list
   \<Rightarrow> 'w \<Rightarrow> Window \<Rightarrow> write_end \<times> 'w \<times> Window" where
  "SendSSHInputBase64Batch env bad wr m sessionID chunks t w =
     (case decode_chunks bad chunks of
        Inl e \<Rightarrow> (Failed (Wrap ''decode ssh input: %w'' [] e), t,
                  appendSSHDebug env sessionID ''input-b64-decode-error'' (err_text e) w)
      | Inr decoded \<Rightarrow>
          logged_write env sessionID ''input-b64-write-error'' (WriteChunks wr m t sessionID decoded)
            (appendSSHDebug env sessionID ''input-b64-batch''
               (format_text ''chunks=%d total=%d first=%s''
                  [itoa (int (length decoded)), itoa (int (length (concat decoded))), describeFirstChunk decoded]) w))"

text \<open>The callbacks of the session manager that the window installs.\<close>

fun on_session_event :: "log_env \<Rightarrow> session_event \<Rightarrow> Window \<Rightarrow> Window" where
  "on_session_event env (OnOutput e) w =
     (let w' = (if oe_DataBase64 e = [] then w
                else (case b64_decode True False (oe_DataBase64 e) of
                        None \<Rightarrow> w
                      | Some data \<Rightarrow> appendSSHDebug env (oe_SessionID e) ''backend-output'' (describeBytes data) w))
      in w'\<lparr>wi_events := wi_events w' @ [SSHEvent (OnOutput e)]\<rparr>)"
| "on_session_event env ev w = w\<lparr>wi_events := wi_events w @ [SSHEvent ev]\<rparr>"

section \<open>Saved connections\<close>

definition OpenSSHConnectionWindow ::
  "log_env \<Rightarrow> SSHConnection list result \<Rightarrow> string \<Rightarrow> Window \<Rightarrow> go_error option \<times> Window" where
  "OpenSSHConnectionWindow env conns i0 w =
     (let i = trim_space i0 in
      if i = [] then (Some (Err ''ssh connection id is required''), w)
      else (case conns of
              Inl e \<Rightarrow> (Some e, w)
            | Inr cs \<Rightarrow>
                if \<not> list_ex (\<lambda>c. conn_ID c = i) cs then (Some (Errf ''ssh connection %q not found'' [i]), w)
                else (None, recordLog env ''info'' module_terminal (text_open @ i) None
                              (w\<lparr>wi_events := wi_events w @ [OpenRequest i]\<rparr>))))"

definition app_SaveSSHConnection ::
  "log_env \<Rightarrow> Store \<Rightarrow> io \<Rightarrow> string \<Rightarrow> SSHConnection \<Rightarrow> files \<Rightarrow> Window \<Rightarrow> SSHConnection result \<times> files \<times> Window" where
  "app_SaveSSHConnection env s io new conn fs w =
     (case SaveSSHConnection s io new conn fs of
        (r, fs') \<Rightarrow> (r, fs', recordLog env ''info'' module_terminal (text_save_conn @ conn_Name conn)
                               (case r of Inl e \<Rightarrow> Some e | Inr _ \<Rightarrow> None) w))"

definition app_DeleteSSHConnection ::
  "log_env \<Rightarrow> Store \<Rightarrow> io \<Rightarrow> string \<Rightarrow> files \<Rightarrow> Window \<Rightarrow> go_error option \<times> files \<times> Window" where
  "app_DeleteSSHConnection env s io i fs w =
     (case DeleteSSHConnection s io i fs of
        (e, fs') \<Rightarrow> (e, fs', recordLog env ''info'' module_terminal (text_delete_conn @ i) e w))"

section \<open>Tunnels\<close>

text \<open>What each call on a tunnel leaves in the log.\<close>

definition logged_tunnel :: "log_env \<Rightarrow> string \<Rightarrow> go_error option \<times> Manager \<Rightarrow> Window \<Rightarrow> go_error option \<times> Manager \<times> Window" where
  "logged_tunnel env message r w = (case r of (e, m) \<Rightarrow> (e, m, recordLog env ''info'' module_tunnels message e w))"

definition app_AddTunnel :: "log_env \<Rightarrow> saver \<Rightarrow> string list \<Rightarrow> TunnelCfg \<Rightarrow> Manager \<Rightarrow> Window \<Rightarrow> go_error option \<times> Manager \<times> Window" where
  "app_AddTunnel env save ks cfg m w = logged_tunnel env (text_add @ t_Name cfg) (Add save ks cfg m) w"

definition app_UpdateTunnel ::
  "log_env \<Rightarrow> int \<Rightarrow> saver \<Rightarrow> string list \<Rightarrow> string \<Rightarrow> TunnelCfg \<Rightarrow> Manager \<Rightarrow> Window \<Rightarrow> go_error option \<times> Manager \<times> Window" where
  "app_UpdateTunnel env now save ks name cfg m w = logged_tunnel env (text_update @ name) (Update now save ks name cfg m) w"

definition app_DeleteTunnel ::
  "log_env \<Rightarrow> int \<Rightarrow> saver \<Rightarrow> string list \<Rightarrow> string \<Rightarrow> Manager \<Rightarrow> Window \<Rightarrow> go_error option \<times> Manager \<times> Window" where
  "app_DeleteTunnel env now save ks name m w = logged_tunnel env (text_delete @ name) (Delete now save ks name m) w"

definition app_StartTunnel :: "log_env \<Rightarrow> string \<Rightarrow> Manager \<Rightarrow> Window \<Rightarrow> go_error option \<times> Manager \<times> Window" where
  "app_StartTunnel env name m w = logged_tunnel env (text_start @ name) (startTunnel name m) w"

definition app_StopTunnel :: "log_env \<Rightarrow> int \<Rightarrow> string \<Rightarrow> Manager \<Rightarrow> Window \<Rightarrow> go_error option \<times> Manager \<times> Window" where
  "app_StopTunnel env now name m w = logged_tunnel env (text_stop @ name) (Stop now name m) w"

definition app_RestartTunnel :: "log_env \<Rightarrow> int \<Rightarrow> string \<Rightarrow> Manager \<Rightarrow> Window \<Rightarrow> go_error option \<times> Manager \<times> Window" where
  "app_RestartTunnel env now name m w = logged_tunnel env (text_restart @ name) (Restart now name m) w"

section \<open>Node tests\<close>

text \<open>
  Store and runner exist (\<open>ready\<close>) once \<open>startup\<close> has run.  No call below panics in the
  model, so the deferred recovery is left out.
\<close>

definition still_starting :: go_error where "still_starting = Err ''application is still starting''"

definition proxyTestFailure :: "log_env \<Rightarrow> string \<Rightarrow> go_error option \<Rightarrow> TestResult" where
  "proxyTestFailure env nodeName err =
     \<lparr>te_NodeName = nodeName, te_OK = False, te_LatencyMS = 0, te_Speed = None,
      te_Error = (case err of None \<Rightarrow> [] | Some e \<Rightarrow> err_text e), te_TestedAt = dw_time env\<rparr>"

definition recordProxyTestResult :: "log_env \<Rightarrow> TestResult \<Rightarrow> Window \<Rightarrow> Window" where
  "recordProxyTestResult env result w =
     (if te_OK result
      then recordLog env ''info'' module_nodes (text_test @ te_NodeName result @ text_latency @ itoa (te_LatencyMS result) @ '' ms'') None w
      else (let message = trim_space (te_Error result); message' = (if message = [] then text_failed else message)
            in recordLog env ''error'' module_nodes (text_test @ te_NodeName result) (Some (Err message')) w))"

definition emitProxyTestProgress :: "string \<Rightarrow> TestResult \<Rightarrow> nat \<Rightarrow> nat \<Rightarrow> Window \<Rightarrow> Window" where
  "emitProxyTestProgress batchID result completed n w =
     (if batchID = [] then w
      else w\<lparr>wi_events := wi_events w @ [TestProgress \<lparr>pe_BatchID = batchID, pe_Result = result,
                                           pe_Completed = completed, pe_Total = n\<rparr>]\<rparr>)"

definition app_TestProxyNode ::
  "log_env \<Rightarrow> bool \<Rightarrow> ProxyNode list result \<Rightarrow> (ProxyNode \<Rightarrow> TestResult) \<Rightarrow> string \<Rightarrow> Window \<Rightarrow> TestResult \<times> Window" where
  "app_TestProxyNode env ready active test nodeName w =
     (if \<not> ready
      then (proxyTestFailure env nodeName (Some still_starting),
            recordLog env ''error'' module_nodes (text_test @ nodeName) (Some still_starting) w)
      else (case active of
        Inl e \<Rightarrow> (proxyTestFailure env nodeName (Some e), w)
      | Inr nodes \<Rightarrow>
          (case find (\<lambda>n. pn_Name n = nodeName) nodes of
             Some node \<Rightarrow> (test node, recordProxyTestResult env (test node) w)
           | None \<Rightarrow>
               (let err = Some (Errf ''proxy node %q not found'' [nodeName]) in
                (proxyTestFailure env nodeName err, recordLog env ''error'' module_nodes (text_test @ nodeName) err w)))))"

fun batch_failure :: "log_env \<Rightarrow> string \<Rightarrow> go_error \<Rightarrow> nat \<Rightarrow> nat \<Rightarrow> string list \<Rightarrow> Window \<Rightarrow> TestResult list \<times> Window" where
  "batch_failure env batchID err i n [] w = ([], w)"
| "batch_failure env batchID err i n (name # names) w =
     (let r = proxyTestFailure env name (Some err) in
      case batch_failure env batchID err (i + 1) n names (emitProxyTestProgress batchID r (i + 1) n w) of
        (rs, w') \<Rightarrow> (r # rs, w'))"

definition proxyTestBatchFailure :: "log_env \<Rightarrow> string list \<Rightarrow> string \<Rightarrow> go_error \<Rightarrow> Window \<Rightarrow> TestResult list \<times> Window" where
  "proxyTestBatchFailure env nodeNames batchID err w = batch_failure env batchID err 0 (length nodeNames) nodeNames w"

text \<open>\<open>onResult\<close>: the count of completed tests and the window.\<close>

definition on_result :: "log_env \<Rightarrow> string \<Rightarrow> nat \<Rightarrow> TestResult \<Rightarrow> nat \<times> Window \<Rightarrow> nat \<times> Window" where
  "on_result env batchID n r s =
     (case s of (completed, w) \<Rightarrow>
        (completed + 1, emitProxyTestProgress batchID r (completed + 1) n (recordProxyTestResult env r w)))"

definition not_found :: "log_env \<Rightarrow> string \<Rightarrow> TestResult" where
  "not_found env name = proxyTestFailure env name (Some (Errf ''proxy node %q not found'' [name]))"

text \<open>
  The requested names, trimmed, with what the map of the active nodes holds: the first node of
  a name.  The loop settles those without a node; the others are tested together.
\<close>

definition lookup_names :: "ProxyNode list \<Rightarrow> string list \<Rightarrow> (string \<times> ProxyNode option) list" where
  "lookup_names active names = map (\<lambda>n. let t = trim_space n in (t, find (\<lambda>x. pn_Name x = t) active)) names"

fun place_results :: "log_env \<Rightarrow> (string \<times> ProxyNode option) list \<Rightarrow> TestResult list \<Rightarrow> TestResult list" where
  "place_results env [] rs = []"
| "place_results env ((name, None) # xs) rs = not_found env name # place_results env xs rs"
| "place_results env ((name, Some node) # xs) [] = \<lparr>te_NodeName = [], te_OK = False, te_LatencyMS = 0, te_Speed = None,
     te_Error = [], te_TestedAt = []\<rparr> # place_results env xs []"
| "place_results env ((name, Some node) # xs) (r # rs) = r # place_results env xs rs"

definition app_TestProxyNodes ::
  "log_env \<Rightarrow> bool \<Rightarrow> ProxyNode list result \<Rightarrow> (ProxyNode list \<Rightarrow> batch) \<Rightarrow> string list \<Rightarrow> string \<Rightarrow> Window
   \<Rightarrow> TestResult list \<times> Window" where
  "app_TestProxyNodes env ready active test nodeNames batchID w =
     (if \<not> ready
      then proxyTestBatchFailure env nodeNames batchID still_starting
             (recordLog env ''error'' module_nodes text_batch (Some still_starting) w)
      else (case active of
        Inl e \<Rightarrow> proxyTestBatchFailure env nodeNames batchID e w
      | Inr nodes \<Rightarrow>
          (let n = length nodeNames; found = lookup_names nodes nodeNames;
               missing = map (\<lambda>(name, _). not_found env name) (filter (\<lambda>(_, x). x = None) found);
               selected = List.map_filter snd found;
               w1 = fold (on_result env batchID n) missing (0, w)
           in case test selected of
                (results, out) \<Rightarrow> (place_results env found results, snd (fold (on_result env batchID n) out w1)))))"

section \<open>Helpers\<close>

definition defaultDataDir :: "string \<Rightarrow> string \<Rightarrow> string" where
  "defaultDataDir appData0 home =
     (let appData = (if appData0 = [] then path_join (path_join home ''AppData'') ''Roaming'' else appData0)
      in path_join appData ''SafeLink'')"

record LaunchOptions = lo_SSHConnectionID :: string

definition launch_prefix :: string where "launch_prefix = ''--ssh-connection-id=''"

fun parse_launch :: "string list \<Rightarrow> string \<Rightarrow> string" where
  "parse_launch [] i = i"
| "parse_launch (a # as) i =
     (let arg = trim_space a in
      if has_prefix arg launch_prefix then parse_launch as (trim_space (trim_prefix arg launch_prefix))
      else if arg = ''--ssh-connection-id''
        then (case as of [] \<Rightarrow> i | b # bs \<Rightarrow> parse_launch bs (trim_space b))
      else parse_launch as i)"

definition parseLaunchOptions :: "string list \<Rightarrow> LaunchOptions" where
  "parseLaunchOptions args = \<lparr>lo_SSHConnectionID = parse_launch args []\<rparr>"

definition GetVersion :: string where "GetVersion = ''3.0.0''"

definition Greet :: "string \<Rightarrow> string" where
  "Greet name = format_text ''Hello %s, SafeLink is running!'' [name]"

definition currentUsername :: "(string \<Rightarrow> string) \<Rightarrow> string" where
  "currentUsername getenv =
     (let user0 = trim_space (getenv ''USERNAME'');
          user = (if user0 = [] then trim_space (getenv ''USER'') else user0);
          domain = trim_space (getenv ''USERDOMAIN'')
      in if domain \<noteq> [] \<and> user \<noteq> [] then domain @ [CHR 0x5C] @ user else user)"

text \<open>
  An interface: whether it is up, whether it is a loopback, its addresses; an address is its text, with
  whether it is of one of the kinds that are left out, or \<open>None\<close> for another type of address.
\<close>

type_synonym interface = "bool \<times> bool \<times> (string \<times> bool) option list result"

definition interface_ips :: "interface \<Rightarrow> string list" where
  "interface_ips i =
     (case i of (up, loopback, addrs) \<Rightarrow>
        if \<not> up \<or> loopback then []
        else (case addrs of
                Inl _ \<Rightarrow> []
              | Inr xs \<Rightarrow> List.map_filter (\<lambda>x. case x of Some (t, False) \<Rightarrow> Some t | _ \<Rightarrow> None) xs))"

definition localIPAddresses :: "interface list result \<Rightarrow> string list" where
  "localIPAddresses ifs =
     (case ifs of
        Inl _ \<Rightarrow> []
      | Inr is \<Rightarrow> fold (\<lambda>t ips. if t \<in> list.set ips then ips else ips @ [t]) (concat (map interface_ips is)) [])"

section \<open>Start-up\<close>

text \<open>
  The components that \<open>startup\<close> makes.  Errors of loading are ignored: the settings are
  then the zero value and there are no tunnels.
\<close>

record Components =
  cm_files :: files
  cm_proxy :: Runner
  cm_manager :: Manager
  cm_terminals :: Sessions

definition app_startup :: "platform \<Rightarrow> string \<Rightarrow> string \<Rightarrow> Store \<Rightarrow> io \<Rightarrow> (nat \<Rightarrow> string) \<Rightarrow> files \<Rightarrow> Components" where
  "app_startup pf corePath dataDir s io ids fs =
     (let fs1 = snd (NormalizeEnabledSubscriptions s io fs);
          settings = (case LoadSettings s io ids fs1 of Inl _ \<Rightarrow> empty_settings | Inr c \<Rightarrow> c);
          tunnels = (case LoadTunnels s io fs1 of Inl _ \<Rightarrow> [] | Inr ts \<Rightarrow> ts)
      in \<lparr>cm_files = fs1,
          cm_proxy = runner_New pf
            \<lparr>co_CorePath = corePath, co_WorkDir = path_join dataDir ''proxy'', co_SOCKSAddr = [], co_HTTPAddr = [],
             co_ClashAPIAddr = [], co_Mode = set_ProxyMode settings, co_RuleModeRules = set_RuleModeRules settings,
             co_DNSServers = [], co_RuleSetDir = [], co_withoutRuleSets = False\<rparr>,
          cm_manager = Start (New tunnels), cm_terminals = NewManager\<rparr>)"

section \<open>The log\<close>

text \<open>What the window shows: of the entries since the last clearing the last 500.\<close>

datatype log_op = Logged log_env string string string "go_error option" | Cleared

fun log_step :: "log_op \<Rightarrow> Window \<Rightarrow> Window" where
  "log_step (Logged env level module message err) w = recordLog env level module message err w"
| "log_step Cleared w = ClearLogs w"

fun shown_entry :: "log_op \<Rightarrow> LogEntry option" where
  "shown_entry (Logged env level module message err) =
     Some \<lparr>le_Time = dw_time env, le_Level = (if err = None then level else ''error''), le_Module = module,
       le_Message = (case err of None \<Rightarrow> message | Some e \<Rightarrow> message @ fullwidth_colon @ err_text e)\<rparr>"
| "shown_entry Cleared = None"

definition since_clear :: "log_op list \<Rightarrow> LogEntry list" where
  "since_clear ops = rev (List.map_filter shown_entry (takeWhile (\<lambda>o1. o1 \<noteq> Cleared) (rev ops)))"

lemma last_500: "drop (length (drop (n - 500) xs @ [x]) - 500) (drop (n - 500) xs @ [x]) = drop (Suc n - 500) (xs @ [x])" if "n = length xs"
proof (cases "500 \<le> n")
  case True
  then have "length (drop (n - 500) xs @ [x]) - 500 = 1" using that by simp
  moreover have "Suc n - 500 = Suc (n - 500)" using True by simp
  ultimately show ?thesis using that True by (simp add: drop_Suc tl_drop)
qed (use that in simp)

lemma recordLog_tail: "wi_logs (log_step o1 w) = (case shown_entry o1 of None \<Rightarrow> []
    | Some e \<Rightarrow> drop (length (wi_logs w @ [e]) - 500) (wi_logs w @ [e]))"
  by (cases o1) (auto simp: recordLog_def ClearLogs_def Let_def split: option.split)

lemma log_shows_last_500:
  assumes "wi_logs w = []"
  shows "GetLogs (fold log_step ops w) = drop (length (since_clear ops) - 500) (since_clear ops)"
proof (induction ops rule: rev_induct)
  case (snoc o1 ops)
  show ?case
  proof (cases "shown_entry o1")
    case None
    then have "o1 = Cleared" by (cases o1) simp_all
    then show ?thesis by (simp add: since_clear_def GetLogs_def ClearLogs_def map_filter_def)
  next
    case (Some e)
    then have "o1 \<noteq> Cleared" by auto
    then have s: "since_clear (ops @ [o1]) = since_clear ops @ [e]" using Some by (simp add: since_clear_def map_filter_def)
    then show ?thesis using snoc last_500 [of "length (since_clear ops)" "since_clear ops" e] Some
      by (simp add: GetLogs_def recordLog_tail)
  qed
qed (simp add: since_clear_def GetLogs_def assms map_filter_def)

text \<open>The debug log holds what is typed: the text of an input of up to 64 bytes tells which it was.\<close>

definition shown_hex :: "string \<Rightarrow> string" where
  "shown_hex s = takeWhile (\<lambda>c. c \<noteq> CHR '' '') (drop 5 (dropWhile (\<lambda>c. c \<noteq> CHR '' '') s))"

lemma itoa_no_space: "CHR '' '' \<notin> list.set (itoa (int n))"
  using nat_str_digits [of n] by (auto simp: itoa_def list_all_iff is_digit_def)

lemma hex_no_space: "CHR '' '' \<notin> list.set (hex_encode s)"
proof -
  have "\<not> lower_hex (CHR '' '')" by (simp add: lower_hex_def)
  then show ?thesis using hex_encode_lower [of s] unfolding list_all_iff by blast
qed

lemma shown_hex_describe: "shown_hex (describeBytes data) = hex_encode (take 64 data)"
proof -
  have t: "takeWhile (\<lambda>c. c \<noteq> CHR '' '') (xs @ CHR '' '' # ys) = xs" "dropWhile (\<lambda>c. c \<noteq> CHR '' '') (xs @ CHR '' '' # ys) = CHR '' '' # ys"
    if "CHR '' '' \<notin> list.set xs" for xs ys :: string
    using that by (auto simp: takeWhile_append dropWhile_append)
  have l: "take (min (length data) 64) data = take 64 data" by (simp add: min_def)
  show ?thesis by (simp add: describeBytes_def l Let_def shown_hex_def t itoa_no_space hex_no_space)
qed

lemma debug_reveals_input:
  assumes "length x \<le> 64" "length y \<le> 64" "describeBytes x = describeBytes y"
  shows "x = y"
  using arg_cong [OF assms(3), of shown_hex] assms(1,2) by (simp add: shown_hex_describe hex_encode_inj)

section \<open>Input\<close>

lemma decode_encoded: "decode_chunks bad (map b64_encode blocks) = Inr (filter (\<lambda>b. b \<noteq> []) blocks)"
  by (induction blocks) (simp_all add: b64_decode_encode)

lemma concat_nonempty: "concat (filter (\<lambda>b. b \<noteq> []) blocks) = concat blocks"
  by (induction blocks) simp_all

lemma write_chunks_succeeds:
  assumes "\<And>w d w' n err. write w d = (w', n, err) \<Longrightarrow> takes (sent w) (calls w) (sent w') (calls w') n d"
    and "\<And>w d w' n err. d \<noteq> [] \<Longrightarrow> write w d = (w', n, err) \<Longrightarrow> err = None \<and> 0 < n"
  shows "snd (write_chunks write w chunks) = Written"
proof (induction chunks arbitrary: w)
  case (Cons d chunks)
  have "snd (writeAll write w d) = Written" by (rule writeAll_succeeds [OF assms])
  then obtain w1 where "writeAll write w d = (w1, Written)" by (metis prod.collapse)
  then show ?case using Cons by simp
qed simp

section \<open>Verdicts of a batch\<close>

lemma fold_on_result:
  "batchID \<noteq> [] \<Longrightarrow> fold (on_result env batchID n) rs (k, w) = (k', w') \<Longrightarrow>
   k' = k + length rs \<and> wi_events w' = wi_events w @
     map (\<lambda>(j, r). TestProgress \<lparr>pe_BatchID = batchID, pe_Result = r, pe_Completed = j, pe_Total = n\<rparr>) (List.enumerate (Suc k) rs)"
proof (induction rs arbitrary: k w)
  case (Cons r rs)
  have e: "wi_events (recordProxyTestResult env r w) = wi_events w" for w
    by (simp add: recordProxyTestResult_def recordLog_def Let_def split: option.split)
  show ?case using Cons.IH [OF Cons.prems(1), of "Suc k"] Cons.prems by (simp add: on_result_def emitProxyTestProgress_def e)
qed simp

definition missing_results :: "log_env \<Rightarrow> (string \<times> ProxyNode option) list \<Rightarrow> TestResult list" where
  "missing_results env found = map (\<lambda>(name, _). not_found env name) (filter (\<lambda>(_, x). x = None) found)"

lemma place_results_all:
  assumes "length rs = length (List.map_filter snd found)"
  shows "mset (place_results env found rs) = mset (missing_results env found) + mset rs"
  using assms by (induction env found rs rule: place_results.induct) (simp_all add: missing_results_def map_filter_def)

lemma place_results_names:
  assumes "map te_NodeName rs = map pn_Name (List.map_filter snd found)"
    "list_all (\<lambda>(name, x). case x of None \<Rightarrow> True | Some node \<Rightarrow> pn_Name node = name) found"
  shows "map te_NodeName (place_results env found rs) = map fst found"
  using assms by (induction env found rs rule: place_results.induct)
    (simp_all add: map_filter_def not_found_def proxyTestFailure_def)

lemma lookup_names_named:
  "list_all (\<lambda>(name, x). case x of None \<Rightarrow> True | Some node \<Rightarrow> pn_Name node = name) (lookup_names active names)"
  by (auto simp: lookup_names_def list_all_iff Let_def find_Some_iff split: option.split)

lemma not_found_verdict: "verdict (not_found env name)"
  by (simp add: not_found_def proxyTestFailure_def verdict_def)

section \<open>Properties\<close>

text \<open>C34: Terminal input that the window sends in base64 blocks reaches the terminal as the
  bytes of the blocks, in order and once, or a prefix of them with an error, whatever sizes the
  blocks have and however few bytes each write takes; it all arrives if the writes never fail.\<close>

theorem batch_input_arrives:
  assumes "SendSSHInputBase64Batch env bad wr m i (map b64_encode blocks) t w = (r, t', w')"
    and "sx_sessions m i = Some p"
    and "\<And>t d t' n err. wr p t d = (t', n, err) \<Longrightarrow> takes (sent t) (calls t) (sent t') (calls t') n d"
  shows "(\<exists>k\<le>length (concat blocks). sent t' = sent t @ take k (concat blocks) \<and>
            (r = Written \<longrightarrow> k = length (concat blocks))) \<and> r \<noteq> OutOfRange \<and>
    ((\<forall>t d t' n err. d \<noteq> [] \<longrightarrow> wr p t d = (t', n, err) \<longrightarrow> err = None \<and> 0 < n) \<longrightarrow> r = Written)"
proof -
  let ?decoded = "filter (\<lambda>b. b \<noteq> []) blocks"
  obtain t1 r1 where run: "write_chunks (wr p) t ?decoded = (t1, r1)" by fastforce
  have d: "decode_chunks bad (map b64_encode blocks) = Inr ?decoded" by (rule decode_encoded)
  have "WriteChunks wr m t i ?decoded = (t1, r1)" using assms(2) run by (simp add: WriteChunks_def session_get_def)
  then have r: "t' = t1" "r = r1"
    using assms(1) d by (auto simp: SendSSHInputBase64Batch_def logged_write_def split: write_end.splits)
  have wr: "wrote (sent t) (calls t) (sent t') (calls t') (concat blocks) r"
    using r concat_nonempty [of blocks]
      write_chunks_wrote [where sent = sent and calls = calls, OF assms(3) run] by simp
  then obtain x y where x: "sent t' = sent t @ x" "sent t' @ y = sent t @ concat blocks" by (auto simp: wrote_def prefix_def)
  then have "x @ y = concat blocks" by simp
  then have "x = take (length x) (concat blocks)" by (metis append_eq_conv_conj)
  moreover have "length x \<le> length (concat blocks)" using \<open>x @ y = concat blocks\<close> by (metis length_append le_add1)
  moreover have "r = Written \<longrightarrow> length x = length (concat blocks)" using wr x(1) by (auto simp: wrote_def)
  moreover have "r = Written" if "\<forall>t d t' n err. d \<noteq> [] \<longrightarrow> wr p t d = (t', n, err) \<longrightarrow> err = None \<and> 0 < n"
  proof -
    have "snd (write_chunks (wr p) t ?decoded) = Written"
      by (rule write_chunks_succeeds [where sent = sent and calls = calls]) (use assms(3) that in blast)+
    then show ?thesis using run r by simp
  qed
  ultimately show ?thesis using x(1) wr by (auto simp: wrote_def)
qed

definition sample_log :: log_env where
  "sample_log = \<lparr>dw_time = ''t'', dw_nano = ''t'', dw_pid = 1, dw_mkdir = None, dw_open = None, dw_written = id\<rparr>"

definition sample_window :: Window where
  "sample_window = \<lparr>wi_logs = [], wi_debug = [], wi_events = []\<rparr>"

definition sample_ttys :: "nat \<Rightarrow> string \<times> nat \<Rightarrow> string \<Rightarrow> (string \<times> nat) \<times> int \<times> go_error option" where
  "sample_ttys p = slow_write"

definition sample_typed :: "write_end \<times> (string \<times> nat) \<times> Window" where
  "sample_typed = SendSSHInputBase64Batch sample_log (\<lambda>_. []) sample_ttys (NewManager\<lparr>sx_sessions := [''s'' \<mapsto> 7]\<rparr>) ''s''
     (map b64_encode [''ls '', [], ''-l'']) ([], 0) sample_window"

theorem batch_input_arrives_witness:
  "fst sample_typed = Written \<and> fst (fst (snd sample_typed)) = ''ls -l''"
proof -
  obtain r t' w' where run: "sample_typed = (r, t', w')" by (metis prod_cases3)
  have s: "sx_sessions (NewManager\<lparr>sx_sessions := [''s'' \<mapsto> 7]\<rparr>) ''s'' = Some 7" by simp
  have law: "takes (fst t) (snd t) (fst t1) (snd t1) n d" if "sample_ttys 7 t d = (t1, n, err)" for t d t1 n err
    using slow_write_takes that by (simp add: sample_ttys_def)
  note b = batch_input_arrives [where sent = fst and calls = snd, OF run [unfolded sample_typed_def] s law]
  then have "r = Written" by (auto simp: sample_ttys_def slow_write_def)
  then have "fst t' = ''ls -l''" using b by auto
  then show ?thesis unfolding run using \<open>r = Written\<close> by simp
qed

text \<open>C35: A batch test of the window answers every requested name, in order, with one verdict: a
  success with a positive latency or a failure with its reason, for the name without the blanks
  around it.  While it runs the window is told exactly these verdicts, counted from one to the
  number of requests.\<close>

theorem requested_tests_answered:
  assumes "app_TestProxyNodes env True (Inr active) (\<lambda>sel. fst (runner_TestNodes slot be at sched arrived sel r)) names batchID w = (results, w')"
    and "\<And>xs. mset (sched xs) = mset xs" "\<And>obs. mset (arrived obs) = mset obs"
    and "\<And>n. env_speaks n be" "case slot of Inl e \<Rightarrow> err_text e \<noteq> [] | Inr _ \<Rightarrow> True" "batchID \<noteq> []"
  shows "map te_NodeName results = map trim_space names \<and> list_all verdict results \<and>
    (\<exists>told. mset told = mset results \<and> wi_events w' = wi_events w @
       map (\<lambda>(j, x). TestProgress \<lparr>pe_BatchID = batchID, pe_Result = x, pe_Completed = j, pe_Total = length names\<rparr>)
         (List.enumerate 1 told))"
proof -
  let ?found = "lookup_names active names" and ?n = "length names"
  let ?sel = "List.map_filter snd ?found" and ?miss = "missing_results env ?found"
  obtain rs out used where test: "runner_TestNodes slot be at sched arrived ?sel r = ((rs, out), used)" by (metis prod.exhaust)
  from runner_TestNodes_settled [OF this assms(2,3,4,5)] have s: "settled ?sel (rs, out)" "list_all verdict rs" by simp_all
  moreover from s(2) have "filter verdict rs = rs" by (simp add: list_all_iff filter_id_conv)
  ultimately have names: "map te_NodeName rs = map pn_Name ?sel" and out: "mset out = mset rs"
    by (simp_all add: settled_def del: mset_filter)
  obtain k1 w1 where w1: "fold (on_result env batchID ?n) ?miss (0, w) = (k1, w1)" by fastforce
  obtain k2 w2 where w2: "fold (on_result env batchID ?n) out (k1, w1) = (k2, w2)" by fastforce
  have res: "results = place_results env ?found rs" "w' = w2"
    using assms(1) test w1 w2 by (simp_all add: app_TestProxyNodes_def Let_def missing_results_def)
  have placed: "mset results = mset ?miss + mset rs"
    unfolding res(1) by (rule place_results_all) (metis names length_map)
  have "map te_NodeName results = map fst ?found" unfolding res(1) by (rule place_results_names [OF names lookup_names_named])
  moreover have "map fst ?found = map trim_space names" by (simp add: lookup_names_def Let_def comp_def)
  moreover have "list_all verdict results"
  proof -
    have "list.set results = list.set ?miss \<union> list.set rs" using placed by (metis set_mset_mset set_mset_union)
    then show ?thesis using s(2) not_found_verdict by (auto simp: list_all_iff missing_results_def)
  qed
  moreover have "wi_events w' = wi_events w @
      map (\<lambda>(j, x). TestProgress \<lparr>pe_BatchID = batchID, pe_Result = x, pe_Completed = j, pe_Total = ?n\<rparr>) (List.enumerate 1 (?miss @ out))"
    using fold_on_result [OF assms(6) w1] fold_on_result [OF assms(6) w2] res(2) by (simp add: enumerate_append_eq add.commute)
  moreover have "mset (?miss @ out) = mset results" using placed out by simp
  ultimately show ?thesis by metis
qed

definition sample_requests :: "TestResult list \<times> Window" where
  "sample_requests = app_TestProxyNodes sample_log True (Inr [sample_core_node])
     (\<lambda>sel. fst (runner_TestNodes (Inr 1) sample_batch ''t'' id id sel (runner_New (ce_platform sample_core_env) sample_core_options)))
     ['' '' @ pn_Name sample_core_node, ''gone''] ''b'' sample_window"

theorem requested_tests_answered_witness:
  "map te_NodeName (fst sample_requests) = [trim_space ('' '' @ pn_Name sample_core_node), trim_space ''gone''] \<and>
   list_all verdict (fst sample_requests)"
proof -
  obtain results w' where run: "sample_requests = (results, w')" by fastforce
  from requested_tests_answered [OF run [unfolded sample_requests_def]] show ?thesis
    unfolding run by (simp add: sample_batch_speaks)
qed

end
