(* ===== verification/Importer.thy ===== *)
theory Importer
  imports Store VPNSub Manager
begin

text \<open>
  \<open>client/internal/subscriptionclient/importer.go\<close>: fetching subscription documents,
  importing them into the tunnel manager (VPN documents) or the node store (proxy documents),
  refreshing and editing sources.  The state is the manager and the store's files; the HTTP
  exchange, the document decoders, clock, random identifiers and what the system answers to
  each store call are parameters.
\<close>

section \<open>Fetching\<close>

record Usage =
  us_Upload :: "64 word"
  us_Download :: "64 word"
  us_Total :: "64 word"
  us_Expire :: int

definition no_usage :: Usage where
  "no_usage = \<lparr>us_Upload = 0, us_Download = 0, us_Total = 0, us_Expire = 0\<rparr>"

definition usage_field :: "string \<Rightarrow> Usage \<Rightarrow> Usage" where
  "usage_field field u =
     (case cut (trim_space field) CHR ''='' of
        (key, val, ok) \<Rightarrow>
          if \<not> ok then u
          else (case parse_uint64 (trim_space val) of
                  None \<Rightarrow> u
                | Some n \<Rightarrow>
                    (let k = trim_space key in
                     if k = ''upload'' then u\<lparr>us_Upload := n\<rparr>
                     else if k = ''download'' then u\<lparr>us_Download := n\<rparr>
                     else if k = ''total'' then u\<lparr>us_Total := n\<rparr>
                     else if k = ''expire'' then u\<lparr>us_Expire := sint n\<rparr>
                     else u)))"

definition parseUsage :: "string \<Rightarrow> Usage" where
  "parseUsage raw = fold usage_field (split_byte raw CHR '';'') no_usage"

text \<open>
  What the HTTP exchange of one fetch gives: no request could be built, no response came, or a
  response with its status, its body (or the error of reading it) and the usage header.
\<close>

datatype http_answer =
    NoRequest go_error
  | NoResponse go_error
  | Response int "string result" string

definition body_limit :: nat where "body_limit = 2 * 2 ^ 20"

definition FetchWithUsage :: "http_answer \<Rightarrow> (string \<times> Usage) result" where
  "FetchWithUsage a =
     (case a of
        NoRequest e \<Rightarrow> Inl (Wrap ''create subscription request: %w'' [] e)
      | NoResponse e \<Rightarrow> Inl (Wrap ''fetch subscription: %w'' [] e)
      | Response status body header \<Rightarrow>
          if status < 200 \<or> status \<ge> 300 then Inl (Errf ''fetch subscription: HTTP %d'' [itoa status])
          else (case body of
                  Inl e \<Rightarrow> Inl (Wrap ''read subscription: %w'' [] e)
                | Inr data \<Rightarrow> Inr (take body_limit data, parseUsage header)))"

definition FetchRaw :: "http_answer \<Rightarrow> string result" where
  "FetchRaw a = (case FetchWithUsage a of Inl e \<Rightarrow> Inl e | Inr (data, _) \<Rightarrow> Inr data)"

definition Fetch :: "string codecs \<Rightarrow> http_answer \<Rightarrow> string \<Rightarrow> (TunnelCfg list \<times> string) result" where
  "Fetch c a fmt =
     (case FetchRaw a of
        Inl e \<Rightarrow> Inl e
      | Inr data \<Rightarrow>
          (case sub_Parse c data fmt of
             Inl e \<Rightarrow> Inl (Wrap ''parse subscription: %w'' [] e)
           | Inr r \<Rightarrow> Inr r))"

section \<open>State and surroundings\<close>

record world =
  w_mgr :: Manager
  w_fs :: files

text \<open>
  The surroundings of one operation: the decoders, the manager's saver and map order, the
  store, what the system answers to its \<open>n\<close>-th store call, the random identifiers and the
  time stamp.
\<close>

record env =
  e_codecs :: "string codecs"
  e_decoders :: decoders
  e_save :: saver
  e_keys :: "string list"
  e_store :: Store
  e_io :: "nat \<Rightarrow> io"
  e_newID :: string
  e_ids :: "nat \<Rightarrow> string"
  e_now :: string

record import_result =
  ir_Source :: SubscriptionSource
  ir_Kind :: string
  ir_Imported :: nat
  ir_Skipped :: nat
  ir_Errors :: "string list"

definition Prefix :: "string \<Rightarrow> string" where
  "Prefix name =
     (let prefix = trim_char CHR ''-'' (dashed name)
      in (if prefix = [] then ''subscription'' else prefix) @ ''-'')"

definition new_source :: "env \<Rightarrow> string \<Rightarrow> string \<Rightarrow> string \<Rightarrow> string \<Rightarrow> string list \<Rightarrow> Usage \<Rightarrow> SubscriptionSource" where
  "new_source env name url detected kind errs usage =
     \<lparr>src_ID = e_newID env, src_Name = name, src_URL = url, src_Format = detected, src_Kind = kind,
      src_Enabled = True, src_AutoRefresh = False, src_IntervalMin = 0, src_LastRefresh = e_now env,
      src_LastError = join errs ''; '', src_TunnelCount = 0, src_NodeCount = 0,
      src_UsageUpload = us_Upload usage, src_UsageDownload = us_Download usage,
      src_UsageTotal = us_Total usage, src_UsageExpire = us_Expire usage\<rparr>"

text \<open>The common end of the four import functions: save the source, then judge the counts.\<close>

definition conclude ::
  "go_error option \<times> files \<Rightarrow> world \<Rightarrow> SubscriptionSource \<Rightarrow> string \<Rightarrow> nat \<Rightarrow> nat \<Rightarrow> string list \<Rightarrow>
   import_result result \<times> world" where
  "conclude saved w src kind imp skip errs =
     (case saved of
        (Some e, fs) \<Rightarrow> (Inl e, w\<lparr>w_fs := fs\<rparr>)
      | (None, fs) \<Rightarrow>
          (if imp = 0 \<and> errs \<noteq> [] then Inl (Err (src_LastError src))
           else Inr \<lparr>ir_Source = src, ir_Kind = kind, ir_Imported = imp, ir_Skipped = skip, ir_Errors = errs\<rparr>,
           w\<lparr>w_fs := fs\<rparr>))"

section \<open>Import\<close>

definition importVPNTunnels ::
  "env \<Rightarrow> string \<Rightarrow> string \<Rightarrow> TunnelCfg list \<Rightarrow> string \<Rightarrow> Usage \<Rightarrow> world \<Rightarrow> import_result result \<times> world" where
  "importVPNTunnels env name url tunnels detected usage w =
     (case BulkUpsert (e_save env) (e_keys env) (Prefix name) tunnels (w_mgr w) of
        ((imp, skip, errs), m) \<Rightarrow>
          (let src = (new_source env name url detected SubscriptionKindVPN errs usage)
                       \<lparr>src_TunnelCount := int imp\<rparr>
           in conclude (AddSubscription (e_store env) (e_io env 0) (e_newID env) src (w_fs w))
                (w\<lparr>w_mgr := m\<rparr>) src SubscriptionKindVPN imp skip errs))"

text \<open>The loops that rename, tag and filter the nodes of a document.\<close>

definition tagged_nodes :: "string \<Rightarrow> string \<Rightarrow> ProxyNode list \<Rightarrow> ProxyNode list" where
  "tagged_nodes prefix sourceID nodes =
     map (\<lambda>n. n\<lparr>pn_Name := prefix @ pn_Name n, pn_SubscriptionID := sourceID\<rparr>)
       (filter (\<lambda>n. \<not> IsInformationalNodeName (pn_Name n)) nodes)"

definition importProxyNodes ::
  "env \<Rightarrow> string \<Rightarrow> string \<Rightarrow> ProxyNode list \<Rightarrow> string \<Rightarrow> Usage \<Rightarrow> world \<Rightarrow> import_result result \<times> world" where
  "importProxyNodes env name url nodes detected usage w =
     (case UpsertProxyNodes (e_store env) (e_io env 0) (e_ids env)
             (tagged_nodes (Prefix name) (e_newID env) nodes) (w_fs w) of
        ((imp, skip, errs), fs) \<Rightarrow>
          (let src = (new_source env name url detected SubscriptionKindProxy errs usage)
                       \<lparr>src_NodeCount := int imp\<rparr>
           in conclude (AddSubscription (e_store env) (e_io env 1) (e_newID env) src fs)
                w src SubscriptionKindProxy imp skip errs))"

definition both_failed :: "go_error \<Rightarrow> go_error \<Rightarrow> go_error" where
  "both_failed e pe = Wrap ''parse subscription: %v; parse proxy subscription: %w'' [err_text e] pe"

definition Import ::
  "env \<Rightarrow> http_answer \<Rightarrow> string \<Rightarrow> string \<Rightarrow> world \<Rightarrow> import_result result \<times> world" where
  "Import env answer name0 url0 w =
     (let name = trim_space name0; url = trim_space url0 in
      if name = [] then (Inl (Err ''subscription name is required''), w)
      else if url = [] then (Inl (Err ''subscription URL is required''), w)
      else (case FetchWithUsage answer of
              Inl e \<Rightarrow> (Inl e, w)
            | Inr (data, usage) \<Rightarrow>
                (case sub_Parse (e_codecs env) data sub_FormatAuto of
                   Inr (tunnels, detected) \<Rightarrow> importVPNTunnels env name url tunnels detected usage w
                 | Inl e \<Rightarrow>
                     (case psub_Parse (e_decoders env) data FormatAuto of
                        Inr (nodes, detected) \<Rightarrow> importProxyNodes env name url nodes detected usage w
                      | Inl pe \<Rightarrow> (Inl (both_failed e pe), w)))))"

section \<open>Refresh\<close>

text \<open>The assignments both refresh functions make to the source.\<close>

definition refreshed ::
  "env \<Rightarrow> SubscriptionSource \<Rightarrow> string \<Rightarrow> string \<Rightarrow> string list \<Rightarrow> nat \<Rightarrow> nat \<Rightarrow> Usage \<Rightarrow> SubscriptionSource" where
  "refreshed env src detected kind errs tunnels nodes usage =
     src\<lparr>src_Format := detected, src_Kind := kind, src_LastRefresh := e_now env,
         src_LastError := join errs ''; '', src_TunnelCount := int tunnels, src_NodeCount := int nodes,
         src_UsageUpload := us_Upload usage, src_UsageDownload := us_Download usage,
         src_UsageTotal := us_Total usage, src_UsageExpire := us_Expire usage\<rparr>"

definition refreshVPNTunnels ::
  "env \<Rightarrow> SubscriptionSource \<Rightarrow> TunnelCfg list \<Rightarrow> string \<Rightarrow> Usage \<Rightarrow> world \<Rightarrow> import_result result \<times> world" where
  "refreshVPNTunnels env src0 tunnels detected usage w =
     (case BulkUpsert (e_save env) (e_keys env) (Prefix (src_Name src0)) tunnels (w_mgr w) of
        ((imp, skip, errs), m) \<Rightarrow>
          (let src = refreshed env src0 detected SubscriptionKindVPN errs imp 0 usage
           in conclude (UpdateSubscription (e_store env) (e_io env 0) src (w_fs w))
                (w\<lparr>w_mgr := m\<rparr>) src SubscriptionKindVPN imp skip errs))"

text \<open>\<open>existingIDs\<close>: the identifiers of the source's nodes by name, the last one winning; a
  missing name gives the empty identifier.\<close>

definition existing_id :: "string \<Rightarrow> ProxyNode list \<Rightarrow> string \<Rightarrow> string" where
  "existing_id sourceID nodes nm =
     (case find (\<lambda>n. pn_SubscriptionID n = sourceID \<and> pn_Name n = nm) (rev nodes) of
        None \<Rightarrow> [] | Some n \<Rightarrow> pn_ID n)"

definition with_existing_ids :: "(string \<Rightarrow> string) \<Rightarrow> ProxyNode list \<Rightarrow> ProxyNode list" where
  "with_existing_ids f nodes = map (\<lambda>n. n\<lparr>pn_ID := f (pn_Name n)\<rparr>) nodes"

definition refreshProxyNodes ::
  "env \<Rightarrow> SubscriptionSource \<Rightarrow> ProxyNode list \<Rightarrow> string \<Rightarrow> Usage \<Rightarrow> world \<Rightarrow> import_result result \<times> world" where
  "refreshProxyNodes env src0 nodes detected usage w =
     (case LoadProxyNodes (e_store env) (e_io env 0) (w_fs w) of
        Inl e \<Rightarrow> (Inl e, w)
      | Inr existing \<Rightarrow>
          (case DeleteProxyNodesBySubscriptionID (e_store env) (e_io env 1) (src_ID src0) (w_fs w) of
             (Some e, fs) \<Rightarrow> (Inl e, w\<lparr>w_fs := fs\<rparr>)
           | (None, fs) \<Rightarrow>
               (case UpsertProxyNodes (e_store env) (e_io env 2) (e_ids env)
                       (with_existing_ids (existing_id (src_ID src0) existing)
                         (tagged_nodes (Prefix (src_Name src0)) (src_ID src0) nodes)) fs of
                  ((imp, skip, errs), fs') \<Rightarrow>
                    (let src = refreshed env src0 detected SubscriptionKindProxy errs 0 imp usage
                     in conclude (UpdateSubscription (e_store env) (e_io env 3) src fs')
                          w src SubscriptionKindProxy imp skip errs))))"

text \<open>A failed refresh is noted on the source; the error of noting it is ignored.\<close>

definition note_failure :: "env \<Rightarrow> SubscriptionSource \<Rightarrow> go_error \<Rightarrow> world \<Rightarrow> world" where
  "note_failure env src e w =
     w\<lparr>w_fs := snd (UpdateSubscription (e_store env) (e_io env 0)
                (src\<lparr>src_LastRefresh := e_now env, src_LastError := err_text e\<rparr>) (w_fs w))\<rparr>"

definition refreshSource ::
  "env \<Rightarrow> http_answer \<Rightarrow> SubscriptionSource \<Rightarrow> world \<Rightarrow> import_result result \<times> world" where
  "refreshSource env answer src w =
     (case FetchWithUsage answer of
        Inl e \<Rightarrow> (Inl e, note_failure env src e w)
      | Inr (data, usage) \<Rightarrow>
          (case sub_Parse (e_codecs env) data sub_FormatAuto of
             Inr (tunnels, detected) \<Rightarrow> refreshVPNTunnels env src tunnels detected usage w
           | Inl e \<Rightarrow>
               (case psub_Parse (e_decoders env) data FormatAuto of
                  Inr (nodes, detected) \<Rightarrow> refreshProxyNodes env src nodes detected usage w
                | Inl pe \<Rightarrow> (Inl (both_failed e pe), note_failure env src (both_failed e pe) w))))"

text \<open>\<open>io\<close> is what the system answers to the load that precedes the refresh.\<close>

definition Refresh ::
  "env \<Rightarrow> io \<Rightarrow> http_answer \<Rightarrow> string \<Rightarrow> world \<Rightarrow> import_result result \<times> world" where
  "Refresh env io answer i w =
     (case LoadSubscriptions (e_store env) io (w_fs w) of
        Inl e \<Rightarrow> (Inl e, w)
      | Inr sources \<Rightarrow>
          (case find (\<lambda>x. src_ID x = i) sources of
             None \<Rightarrow> (Inl (Errf ''subscription %q not found'' [i]), w)
           | Some src \<Rightarrow> refreshSource env answer src w))"

text \<open>The loop of \<open>RefreshAll\<close>: one environment and one answer per source.\<close>

fun refresh_loop ::
  "(nat \<Rightarrow> env) \<Rightarrow> (nat \<Rightarrow> http_answer) \<Rightarrow> nat \<Rightarrow> SubscriptionSource list \<Rightarrow> nat \<times> nat \<times> string list \<Rightarrow> world \<Rightarrow>
   (nat \<times> nat \<times> string list) \<times> world" where
  "refresh_loop envs answers k [] acc w = (acc, w)"
| "refresh_loop envs answers k (src # srcs) (imp, skip, errs) w =
     (case refreshSource (envs k) (answers k) src w of
        (Inl e, w') \<Rightarrow>
          refresh_loop envs answers (Suc k) srcs
            (imp, skip + 1, errs @ [format_text ''%s: %v'' [src_Name src, err_text e]]) w'
      | (Inr r, w') \<Rightarrow>
          refresh_loop envs answers (Suc k) srcs
            (imp + ir_Imported r, skip + ir_Skipped r, errs @ ir_Errors r) w')"

definition compactErrors :: "string list \<Rightarrow> string list" where
  "compactErrors errs = filter (\<lambda>e. e \<noteq> []) (map trim_space errs)"

definition RefreshAll ::
  "Store \<Rightarrow> io \<Rightarrow> (nat \<Rightarrow> env) \<Rightarrow> (nat \<Rightarrow> http_answer) \<Rightarrow> world \<Rightarrow> (nat \<times> nat \<times> string list) \<times> world" where
  "RefreshAll s io envs answers w =
     (case LoadSubscriptions s io (w_fs w) of
        Inl e \<Rightarrow> ((0, 0, [err_text e]), w)
      | Inr sources \<Rightarrow>
          (case refresh_loop envs answers 0 sources (0, 0, []) w of
             ((imp, skip, errs), w') \<Rightarrow> ((imp, skip, compactErrors errs), w')))"

definition Update ::
  "env \<Rightarrow> io \<Rightarrow> io \<Rightarrow> http_answer \<Rightarrow> string \<Rightarrow> string \<Rightarrow> string \<Rightarrow> bool \<Rightarrow> int \<Rightarrow> world \<Rightarrow>
   import_result result \<times> world" where
  "Update env io io' answer i name0 url0 autoRefresh intervalMin w =
     (let name = trim_space name0; url = trim_space url0 in
      if name = [] then (Inl (Err ''subscription name is required''), w)
      else if url = [] then (Inl (Err ''subscription URL is required''), w)
      else (case LoadSubscriptions (e_store env) io (w_fs w) of
              Inl e \<Rightarrow> (Inl e, w)
            | Inr sources \<Rightarrow>
                (case find (\<lambda>x. src_ID x = i) sources of
                   None \<Rightarrow> (Inl (Errf ''subscription %q not found'' [i]), w)
                 | Some src0 \<Rightarrow>
                     (let src = src0\<lparr>src_Name := name, src_URL := url, src_AutoRefresh := autoRefresh,
                                  src_IntervalMin := intervalMin\<rparr>
                      in case UpdateSubscription (e_store env) io' src (w_fs w) of
                           (Some e, fs) \<Rightarrow> (Inl e, w\<lparr>w_fs := fs\<rparr>)
                         | (None, fs) \<Rightarrow> refreshSource env answer src (w\<lparr>w_fs := fs\<rparr>)))))"

section \<open>Failures leave tunnels and nodes alone\<close>

lemma UpdateSubscription_subs:
  "UpdateSubscription (store_New dir) io src fs = (e, fs') \<Longrightarrow>
   nodes_of (store_New dir) fs' = nodes_of (store_New dir) fs \<and>
   (subs_of (store_New dir) fs' = subs_of (store_New dir) fs \<or>
    replace_source src (subs_of (store_New dir) fs) = Some (subs_of (store_New dir) fs'))"
  by (cases rule: LoadSubscriptions_cases [of "store_New dir" io fs])
    (auto simp: UpdateSubscription_def split: option.splits if_splits dest: SaveSubscriptions_subs)

lemma replace_same_registry:
  assumes "find (\<lambda>x. src_ID x = i) xs = Some old" "src_ID src = i"
    and "src_Kind src = src_Kind old" "src_Enabled src = src_Enabled old"
    and "replace_source src xs = Some ys"
  shows "registry_of ys = registry_of xs"
proof -
  obtain a y r where e: "List.extract (\<lambda>x. src_ID x = src_ID src) xs = Some (a, y, r)"
    and ys: "ys = a @ (if src_Kind src = [] then src\<lparr>src_Kind := src_Kind y\<rparr> else src) # r"
    using assms(5) by (auto simp: replace_source_def split: option.splits)
  note p = extract_parts [OF e]
  then have "y = old" using assms(1,2) by (simp add: find_first)
  define z where "z = (if src_Kind src = [] then src\<lparr>src_Kind := src_Kind y\<rparr> else src)"
  have z: "src_ID z = src_ID y" "subscriptionKind z = subscriptionKind y" "src_Enabled z = src_Enabled y"
    using \<open>y = old\<close> assms(3,4) p by (simp_all add: z_def subscriptionKind_def)
  have "reg_kind (registry_of ys) = reg_kind (registry_of xs)"
    using find_id_same [of ys xs] p ys z by (intro ext) (simp flip: z_def)
  moreover have "active_id k ys = active_id k xs" for k
    using p ys z by (cases "enabled_of k a") (simp_all add: active_id_def flip: z_def)
  then have "reg_active (registry_of ys) = reg_active (registry_of xs)" by (intro ext) simp
  ultimately show ?thesis by simp
qed

definition nothing_to_import :: "env \<Rightarrow> http_answer \<Rightarrow> bool" where
  "nothing_to_import env answer =
     (case FetchWithUsage answer of
        Inl _ \<Rightarrow> True
      | Inr (data, _) \<Rightarrow>
          \<not> is_ok (sub_Parse (e_codecs env) data sub_FormatAuto) \<and>
          \<not> is_ok (psub_Parse (e_decoders env) data FormatAuto))"

lemma refresh_nothing:
  assumes "nothing_to_import env answer"
  shows "\<exists>e. refreshSource env answer src w = (Inl e, note_failure env src e w)"
proof (cases "FetchWithUsage answer")
  case (Inr du)
  obtain data usage where du: "du = (data, usage)" by fastforce
  obtain e where e: "sub_Parse (e_codecs env) data sub_FormatAuto = Inl e"
    using assms Inr du by (cases "sub_Parse (e_codecs env) data sub_FormatAuto") (auto simp: nothing_to_import_def)
  obtain pe where "psub_Parse (e_decoders env) data FormatAuto = Inl pe"
    using assms Inr du by (cases "psub_Parse (e_decoders env) data FormatAuto") (auto simp: nothing_to_import_def)
  then show ?thesis using e Inr du by (simp add: refreshSource_def)
qed (simp add: refreshSource_def)

lemma import_nothing:
  assumes "nothing_to_import env answer"
  shows "\<exists>e. Import env answer name url w = (Inl e, w)"
proof (cases "FetchWithUsage answer")
  case (Inr du)
  obtain data usage where du: "du = (data, usage)" by fastforce
  obtain e where e: "sub_Parse (e_codecs env) data sub_FormatAuto = Inl e"
    using assms Inr du by (cases "sub_Parse (e_codecs env) data sub_FormatAuto") (auto simp: nothing_to_import_def)
  obtain pe where "psub_Parse (e_decoders env) data FormatAuto = Inl pe"
    using assms Inr du by (cases "psub_Parse (e_decoders env) data FormatAuto") (auto simp: nothing_to_import_def)
  then show ?thesis using e Inr du by (simp add: Import_def Let_def)
qed (simp add: Import_def Let_def)

section \<open>Refreshing nodes\<close>

lemma upsert_fresh:
  assumes "indexed u" "distinct (map pn_Name ns)" "list_all (\<lambda>n. pn_Name n \<noteq> []) ns"
    and "pn_Name ` set ns \<inter> pn_Name ` set (up_nodes u) = {}"
  shows "up_nodes (fold (upsert_node ids) ns u) = up_nodes u @
     map (\<lambda>(k, n). if pn_ID n = [] then n\<lparr>pn_ID := ids k\<rparr> else n) (List.enumerate (length (up_nodes u)) ns)"
  using assms
proof (induction ns arbitrary: u)
  case (Cons n ns)
  let ?u = "upsert_node ids n u"
  have ne: "pn_Name n \<noteq> []" and nin: "pn_Name n \<notin> pn_Name ` set (up_nodes u)"
    using Cons.prems by auto
  have "up_nodes ?u = up_nodes u @ [stored_node ids n (up_nodes u)]"
    using upsert_step(2) [OF Cons.prems(1) ne, of ids] nin by (metis imageI nth_mem)
  moreover have "stored_node ids n (up_nodes u) =
      (if pn_ID n = [] then n\<lparr>pn_ID := ids (length (up_nodes u))\<rparr> else n)"
    using nin node_named_none [of "pn_Name n" "up_nodes u"] by (simp add: stored_node_def)
  moreover have "up_nodes (fold (upsert_node ids) ns ?u) = up_nodes ?u @
      map (\<lambda>(k, n). if pn_ID n = [] then n\<lparr>pn_ID := ids k\<rparr> else n) (List.enumerate (length (up_nodes ?u)) ns)"
  proof (rule Cons.IH)
    show "indexed ?u" by (rule upsert_step(1) [OF Cons.prems(1) ne])
    show "pn_Name ` set ns \<inter> pn_Name ` set (up_nodes ?u) = {}"
      using Cons.prems calculation(1) by auto
  qed (use Cons.prems in auto)
  ultimately show ?case by simp
qed simp

lemma Prefix_nonempty [simp]: "Prefix name \<noteq> []"
  by (simp add: Prefix_def Let_def)

lemma conclude_ok:
  "conclude saved w src kind imp skip errs = (Inr r, w') \<longleftrightarrow>
     (\<exists>fs. saved = (None, fs) \<and> \<not> (imp = 0 \<and> errs \<noteq> []) \<and> w' = w\<lparr>w_fs := fs\<rparr> \<and>
       r = \<lparr>ir_Source = src, ir_Kind = kind, ir_Imported = imp, ir_Skipped = skip, ir_Errors = errs\<rparr>)"
  by (auto simp: conclude_def split: prod.splits option.splits)

lemma UpsertProxyNodes_saved:
  assumes "UpsertProxyNodes (store_New dir) io ids ns fs = ((imp, skip, []), fs')"
    and "distinct (map pn_Name (nodes_of (store_New dir) fs))"
  shows "nodes_of (store_New dir) fs' = up_nodes (fold (upsert_node ids) ns (upsert_start (nodes_of (store_New dir) fs)))"
proof (cases rule: LoadProxyNodes_cases [of "store_New dir" io fs])
  case ok
  let ?start = "upsert_start (nodes_of (store_New dir) fs)"
  let ?u = "fold (upsert_node ids) ns ?start"
  have i: "indexed ?start" using assms(2) by (rule indexed_start)
  show ?thesis
  proof (cases "up_imported ?u = 0")
    case True
    then have "up_errs ?u = []" "fs' = fs" using assms(1) ok by (auto simp: UpsertProxyNodes_def Let_def)
    then have "ns = []"
      using upsert_fold(2,4) [OF i, of ids ns] True by (simp add: upsert_start_def)
    then show ?thesis using \<open>fs' = fs\<close> by (simp add: upsert_start_def)
  next
    case False
    then show ?thesis
      using assms(1) ok
      by (auto simp: UpsertProxyNodes_def Let_def split: prod.splits option.splits dest: SaveProxyNodes_nodes)
  qed
qed (use assms(1) in \<open>simp add: UpsertProxyNodes_def\<close>)

text \<open>The nodes of a refreshed source: identifiers by name, new ones where there was none.\<close>

definition renewed :: "(nat \<Rightarrow> string) \<Rightarrow> (string \<Rightarrow> string) \<Rightarrow> nat \<Rightarrow> ProxyNode list \<Rightarrow> ProxyNode list" where
  "renewed ids old k ns =
     map (\<lambda>(i, n). n\<lparr>pn_ID := (if old (pn_Name n) = [] then ids i else old (pn_Name n))\<rparr>) (List.enumerate k ns)"

lemma renewed_fields: "map pn_Name (renewed ids old k ns) = map pn_Name ns"
  by (induction ns arbitrary: k) (simp_all add: renewed_def)

lemma enumerate_with_ids:
  "map (\<lambda>(i, n). if pn_ID n = [] then n\<lparr>pn_ID := ids i\<rparr> else n) (List.enumerate k (with_existing_ids old ns)) =
   renewed ids old k ns"
  by (induction ns arbitrary: k) (auto simp: with_existing_ids_def renewed_def)

lemma with_existing_names [simp]: "map pn_Name (with_existing_ids f ns) = map pn_Name ns"
  by (simp add: with_existing_ids_def)

lemma tagged_names_nonempty: "list_all (\<lambda>n. pn_Name n \<noteq> []) (tagged_nodes (Prefix name) i ns)"
  by (auto simp: tagged_nodes_def list_all_iff)

section \<open>Properties\<close>

text \<open>A document that cannot be fetched or read changes nothing that runs: an import leaves the
  whole state as it was, a refresh leaves every tunnel, every node and the active source of every
  kind as they were and only notes the error on the source.\<close>

lemma failed_fetch_is_inert:
  assumes "nothing_to_import env answer" "e_store env = store_New dir"
  shows "(\<exists>e. Import env answer name url w = (Inl e, w)) \<and>
    w_mgr (snd (Refresh env io answer i w)) = w_mgr w \<and>
    nodes_of (store_New dir) (w_fs (snd (Refresh env io answer i w))) = nodes_of (store_New dir) (w_fs w) \<and>
    registry_of (subs_of (store_New dir) (w_fs (snd (Refresh env io answer i w)))) =
      registry_of (subs_of (store_New dir) (w_fs w))"
proof -
  have "w_mgr w' = w_mgr w \<and> nodes_of (store_New dir) (w_fs w') = nodes_of (store_New dir) (w_fs w) \<and>
      registry_of (subs_of (store_New dir) (w_fs w')) = registry_of (subs_of (store_New dir) (w_fs w))"
    if r: "Refresh env io answer i w = (r, w')" for r w'
  proof (cases rule: LoadSubscriptions_cases [of "store_New dir" io "w_fs w"])
    case ok
    show ?thesis
    proof (cases "find (\<lambda>x. src_ID x = i) (subs_of (store_New dir) (w_fs w))")
      case (Some src)
      obtain e where "w' = note_failure env src e w"
        using r ok Some assms refresh_nothing [OF assms(1), of src w] by (auto simp: Refresh_def)
      moreover define src' where "src' = src\<lparr>src_LastRefresh := e_now env, src_LastError := err_text e\<rparr>"
      moreover obtain e1 fs1 where
        u: "UpdateSubscription (store_New dir) (e_io env 0) src' (w_fs w) = (e1, fs1)" by fastforce
      moreover have "src_ID src = i" using Some by (auto simp: find_Some_iff)
      ultimately show ?thesis
        using UpdateSubscription_subs [OF u] replace_same_registry [OF Some, of src'] assms(2)
        by (auto simp: note_failure_def)
    qed (use r ok assms(2) in \<open>auto simp: Refresh_def\<close>)
  qed (use r assms(2) in \<open>auto simp: Refresh_def\<close>)
  then show ?thesis using import_nothing [OF assms(1)] by (cases "Refresh env io answer i w") simp
qed

definition sample_env :: env where
  "sample_env =
     \<lparr>e_codecs = \<lparr>json_marshal = (\<lambda>_. Inl (External ''json'')), json_unmarshal = (\<lambda>_. Inl (External ''json'')),
                  yaml_marshal = (\<lambda>_. Inl (External ''yaml'')), yaml_unmarshal = (\<lambda>_. Inl (External ''yaml''))\<rparr>,
      e_decoders = sample_decoders, e_save = None, e_keys = [], e_store = store_New ''d'',
      e_io = (\<lambda>_. sample_io), e_newID = ''new'', e_ids = sample_ids, e_now = ''now''\<rparr>"

definition sample_world :: "files \<Rightarrow> world" where
  "sample_world fs = \<lparr>w_mgr = New [], w_fs = fs\<rparr>"


text \<open>A source with one node of its own and one of another source, refreshed with the same node.\<close>

definition refresh_files :: files where
  "refresh_files =
     [''d/subscriptions.json'' \<mapsto> Subs [sample_src ''a'' ''proxy'', sample_src ''v'' ''vpn''],
      ''d/proxy_nodes.json'' \<mapsto> Nodes
        [(sample_node ''1'' ''a'')\<lparr>pn_Name := ''a-tokyo''\<rparr>, (sample_node ''2'' ''b'')\<lparr>pn_Name := ''b-paris''\<rparr>]]"

definition tokyo :: ProxyNode where
  "tokyo = link_node ProtocolTrojan ''pw'' ''h'' 443 [(''type'', ''ws'')] ''tokyo''"


text \<open>A refresh can leave two active sources of one kind: when a VPN source's address starts to
  serve a proxy document, the refresh makes it an enabled proxy source beside the one that was
  enabled before, and the node list is fed by both.\<close>

lemma refresh_can_enable_two:
  "let w = sample_world refresh_files;
       w' = snd (Refresh sample_env sample_io (Response 200 (Inr ''trojan://pw@h:443?type=ws#osaka'') []) ''v'' w)
   in length (enabled_of SubscriptionKindProxy (subs_of (store_New ''d'') (w_fs w))) = 1 \<and>
      length (enabled_of SubscriptionKindProxy (subs_of (store_New ''d'') (w_fs w'))) = 2"
  by code_simp

end
