(* ===== verification/WinPath.thy ===== *)
theory WinPath
  imports Url
begin

text \<open>
  Paths of Windows as \<open>path/filepath\<close> joins and splits them, for clean paths on a drive; what
  \<open>Clean\<close> does to other paths is a parameter where the code meets them.
\<close>

definition newline :: string where "newline = [CHR 0x0A]"

definition backslash :: string where "backslash = [CHR 0x5C]"

text \<open>\<open>filepath.Join\<close> of a clean directory, not a bare drive, and a name.\<close>

definition win_join :: "string \<Rightarrow> string \<Rightarrow> string" where
  "win_join dir name =
     (if dir = [] \<or> dir = ''.'' then name
      else if last dir = CHR 0x5C then dir @ name
      else dir @ backslash @ name)"

definition win_joins :: "string \<Rightarrow> string list \<Rightarrow> string" where
  "win_joins dir names = fold (\<lambda>n d. win_join d n) names dir"

text \<open>\<open>filepath.Dir\<close> and \<open>filepath.Base\<close> of a clean absolute path.\<close>

definition win_dir :: "string \<Rightarrow> string" where
  "win_dir p =
     (let q = rev (dropWhile (\<lambda>c. c \<noteq> CHR 0x5C) (rev p))
      in if length q \<le> 3 then q else butlast q)"

definition win_base :: "string \<Rightarrow> string" where
  "win_base p = rev (takeWhile (\<lambda>c. c \<noteq> CHR 0x5C) (rev p))"

lemma win_dir_shorter: "win_dir p \<noteq> p \<Longrightarrow> length (win_dir p) < length p"
proof -
  assume d: "win_dir p \<noteq> p"
  let ?q = "rev (dropWhile (\<lambda>c. c \<noteq> CHR 0x5C) (rev p))"
  have p: "p = ?q @ win_base p" by (metis rev_append rev_rev_ident takeWhile_dropWhile_id win_base_def)
  then have "length ?q \<le> length p" by (metis length_append le_add1)
  moreover have "?q \<noteq> p \<Longrightarrow> length ?q < length p"
    using p by (metis append_Nil2 length_append length_greater_0_conv less_add_same_cancel1)
  ultimately show ?thesis using d by (auto simp: win_dir_def Let_def)
qed

lemma win_base_join: "CHR 0x5C \<notin> list.set name \<Longrightarrow> win_base (win_join dir name) = name"
proof -
  assume n: "CHR 0x5C \<notin> list.set name"
  then have r: "takeWhile (\<lambda>c. c \<noteq> CHR 0x5C) (rev name @ CHR 0x5C # t) = rev name" for t
    by (subst takeWhile_append2) auto
  have all: "takeWhile (\<lambda>c. c \<noteq> CHR 0x5C) (rev name) = rev name" using n by (auto simp: takeWhile_eq_all_conv)
  consider "dir = [] \<or> dir = ''.''" | d where "dir = d @ [CHR 0x5C]" | "dir \<noteq> []" "dir \<noteq> ''.''" "last dir \<noteq> CHR 0x5C"
    by (cases dir rule: rev_cases) fastforce+
  then show ?thesis
  proof cases
    case 1
    then have "win_join dir name = name" by (auto simp: win_join_def)
    then show ?thesis by (simp only: win_base_def all rev_rev_ident)
  next
    case 2
    then have "rev (win_join dir name) = rev name @ CHR 0x5C # rev d" by (auto simp: win_join_def)
    then show ?thesis by (simp only: win_base_def r rev_rev_ident)
  next
    case 3
    then have "rev (win_join dir name) = rev name @ CHR 0x5C # rev dir" by (simp add: win_join_def backslash_def)
    then show ?thesis by (simp only: win_base_def r rev_rev_ident)
  qed
qed

end
