(* ===== verification/Elevation.thy ===== *)
theory Elevation
  imports WinPath
begin

text \<open>
  Administrator rights, the restart that asks for them, and the TUN driver on Windows
  (\<open>client/internal/tunnel/elevation_windows.go\<close>, \<open>tun_driver.go\<close>,
  \<open>tundev_windows.go\<close>).  The answers of the system, of the download and of the device are
  parameters.
\<close>

section \<open>Rights\<close>

text \<open>The answers of \<open>OpenProcessToken\<close> and \<open>GetTokenInformation\<close>.\<close>

definition IsRunningAsAdmin :: "unit result \<Rightarrow> nat result \<Rightarrow> bool" where
  "IsRunningAsAdmin token info =
     (case token of Inl _ \<Rightarrow> False | Inr _ \<Rightarrow> (case info of Inl _ \<Rightarrow> False | Inr elevated \<Rightarrow> elevated \<noteq> 0))"

definition denied_chinese :: string where
  "denied_chinese =
     [CHR 0xE6, CHR 0x8B, CHR 0x92, CHR 0xE7, CHR 0xBB, CHR 0x9D, CHR 0xE8, CHR 0xAE, CHR 0xBF,
     CHR 0xE9, CHR 0x97, CHR 0xAE]"

definition IsTUNAccessDenied :: "go_error option \<Rightarrow> bool" where
  "IsTUNAccessDenied err =
     (case err of
        None \<Rightarrow> False
      | Some e \<Rightarrow>
          (let msg = to_lower (err_text e) in
           contains msg ''access is denied'' \<or> contains msg ''access denied'' \<or> contains msg denied_chinese))"

section \<open>The program to restart\<close>

text \<open>
  The directories from \<open>startDir\<close> upwards; the list is also the set of those seen.  The loop
  ends where \<open>filepath.Dir\<close>, here \<open>par\<close>, stays.
\<close>

partial_function (option) candidate_dirs :: "(string \<Rightarrow> string) \<Rightarrow> string list \<Rightarrow> string \<Rightarrow> string list option" where
  "candidate_dirs par dirs dir =
     (if dir = [] then Some dirs
      else let dirs' = (if dir \<in> list.set dirs then dirs else dirs @ [dir]) in
        if par dir = dir then Some dirs' else candidate_dirs par dirs' (par dir))"

definition candidateProjectDirs :: "(string \<Rightarrow> string) \<Rightarrow> string \<Rightarrow> string list option" where
  "candidateProjectDirs par startDir = candidate_dirs par [] startDir"

text \<open>\<open>stat\<close> is \<open>Some\<close> when \<open>os.Stat\<close> succeeds, with whether the path is a directory.\<close>

definition built_names :: "string \<Rightarrow> string list" where
  "built_names dir = [win_join dir ''SafeLink.exe'', win_joins dir [''build'', ''bin'', ''SafeLink.exe'']]"

definition first_built :: "(string \<Rightarrow> bool option) \<Rightarrow> string list \<Rightarrow> string option" where
  "first_built stat dirs = find (\<lambda>p. stat p = Some False) (concat (map built_names dirs))"

definition findBuiltSafeLinkExecutable :: "(string \<Rightarrow> string) \<Rightarrow> (string \<Rightarrow> bool option) \<Rightarrow> string \<Rightarrow> string option option" where
  "findBuiltSafeLinkExecutable par stat startDir = map_option (first_built stat) (candidateProjectDirs par startDir)"

definition isDevExecutableName :: "string \<Rightarrow> bool" where
  "isDevExecutableName base \<longleftrightarrow> base = ''safelink-dev'' \<or> has_suffix base ''-dev''"

text \<open>The message says that this is a development build and how to build the program.\<close>

definition dev_message :: string where
  "dev_message =
     [CHR 0xE5, CHR 0xBD, CHR 0x93, CHR 0xE5, CHR 0x89, CHR 0x8D, CHR 0xE6, CHR 0x98, CHR 0xAF,
     CHR 0xE5, CHR 0xBC, CHR 0x80, CHR 0xE5, CHR 0x8F, CHR 0x91, CHR 0xE6, CHR 0xA8, CHR 0xA1,
     CHR 0xE5, CHR 0xBC, CHR 0x8F, CHR 0xEF, CHR 0xBC, CHR 0x8C, CHR 0xE6, CHR 0x97, CHR 0xA0,
     CHR 0xE6, CHR 0xB3, CHR 0x95, CHR 0xE7, CHR 0x9B, CHR 0xB4, CHR 0xE6, CHR 0x8E, CHR 0xA5,
     CHR 0xE9, CHR 0x80, CHR 0x9A, CHR 0xE8, CHR 0xBF, CHR 0x87] @ '' UAC '' @ [CHR 0xE9, CHR 0x87,
     CHR 0x8D, CHR 0xE5, CHR 0x90, CHR 0xAF, CHR 0xE3, CHR 0x80, CHR 0x82, CHR 0xE8, CHR 0xAF,
     CHR 0xB7, CHR 0xE5, CHR 0x85, CHR 0x88, CHR 0xE6, CHR 0x89, CHR 0xA7, CHR 0xE8, CHR 0xA1,
     CHR 0x8C] @ '' scripts'' @ [CHR 0x5C] @ ''build-client.bat '' @ [CHR 0xE7, CHR 0x94, CHR 0x9F,
     CHR 0xE6, CHR 0x88, CHR 0x90] @ '' client'' @ [CHR 0x5C] @ ''build'' @ [CHR 0x5C] @ ''bin'' @
     [CHR 0x5C] @ ''SafeLink.exe'' @ [CHR 0xEF, CHR 0xBC, CHR 0x8C, CHR 0xE6, CHR 0x88, CHR 0x96,
     CHR 0xE4, CHR 0xBB, CHR 0xA5, CHR 0xE7, CHR 0xAE, CHR 0xA1, CHR 0xE7, CHR 0x90, CHR 0x86,
     CHR 0xE5, CHR 0x91, CHR 0x98, CHR 0xE8, CHR 0xBA, CHR 0xAB, CHR 0xE4, CHR 0xBB, CHR 0xBD,
     CHR 0xE6, CHR 0x89, CHR 0x93, CHR 0xE5, CHR 0xBC, CHR 0x80] @ '' PowerShell '' @ [CHR 0xE5,
     CHR 0x90, CHR 0x8E, CHR 0xE5, CHR 0x9C, CHR 0xA8] @ '' client '' @ [CHR 0xE7, CHR 0x9B, CHR 0xAE,
     CHR 0xE5, CHR 0xBD, CHR 0x95, CHR 0xE8, CHR 0xBF, CHR 0x90, CHR 0xE8, CHR 0xA1, CHR 0x8C] @
     '' wails dev''"

text \<open>\<open>resolved\<close> is the answer of \<open>filepath.EvalSymlinks\<close>, with whether the error says
  that the file does not exist.\<close>

definition resolveRestartTargetFromExecutable ::
    "(string \<Rightarrow> string) \<Rightarrow> (string \<Rightarrow> string) \<Rightarrow> (string \<Rightarrow> bool option) \<Rightarrow> (go_error \<times> bool) + string \<Rightarrow> string \<Rightarrow>
     (string \<times> string) result option" where
  "resolveRestartTargetFromExecutable par base_name stat resolved exe0 =
     (case (case resolved of Inr p \<Rightarrow> Inr p | Inl (e, missing) \<Rightarrow> if missing then Inr exe0 else Inl e) of
        Inl e \<Rightarrow> Some (Inl e)
      | Inr exe \<Rightarrow>
          if isDevExecutableName (trim_suffix (to_lower (base_name exe)) ''.exe'') then
            (case findBuiltSafeLinkExecutable par stat (par exe) of
               None \<Rightarrow> None
             | Some None \<Rightarrow> Some (Inl (Err dev_message))
             | Some (Some built) \<Rightarrow> Some (Inr (built, [])))
          else Some (Inr (exe, [])))"

definition resolveRestartTarget ::
    "(string \<Rightarrow> string) \<Rightarrow> (string \<Rightarrow> string) \<Rightarrow> (string \<Rightarrow> bool option) \<Rightarrow> (string \<Rightarrow> (go_error \<times> bool) + string) \<Rightarrow>
     string result \<Rightarrow> (string \<times> string) result option" where
  "resolveRestartTarget par base_name stat resolve exe =
     (case exe of
        Inl e \<Rightarrow> Some (Inl e)
      | Inr p \<Rightarrow> resolveRestartTargetFromExecutable par base_name stat (resolve p) p)"

definition cannot_elevate :: string where
  "cannot_elevate =
     [CHR 0xE6, CHR 0x97, CHR 0xA0, CHR 0xE6, CHR 0xB3, CHR 0x95, CHR 0xE8, CHR 0xAF, CHR 0xB7,
     CHR 0xE6, CHR 0xB1, CHR 0x82, CHR 0xE7, CHR 0xAE, CHR 0xA1, CHR 0xE7, CHR 0x90, CHR 0x86,
     CHR 0xE5, CHR 0x91, CHR 0x98, CHR 0xE6, CHR 0x9D, CHR 0x83, CHR 0xE9, CHR 0x99, CHR 0x90]"

definition cannot_elevate_code :: string where
  "cannot_elevate_code =
     [CHR 0xE6, CHR 0x97, CHR 0xA0, CHR 0xE6, CHR 0xB3, CHR 0x95, CHR 0xE8, CHR 0xAF, CHR 0xB7,
     CHR 0xE6, CHR 0xB1, CHR 0x82, CHR 0xE7, CHR 0xAE, CHR 0xA1, CHR 0xE7, CHR 0x90, CHR 0x86,
     CHR 0xE5, CHR 0x91, CHR 0x98, CHR 0xE6, CHR 0x9D, CHR 0x83, CHR 0xE9, CHR 0x99, CHR 0x90] @
     '' (ShellExecute '' @ [CHR 0xE8, CHR 0xBF, CHR 0x94, CHR 0xE5, CHR 0x9B, CHR 0x9E] @ '' %d'' @
     [CHR 0xEF, CHR 0xBC, CHR 0x8C, CHR 0xE5, CHR 0x8F, CHR 0xAF, CHR 0xE8, CHR 0x83, CHR 0xBD,
     CHR 0xE5, CHR 0xB7, CHR 0xB2, CHR 0xE5, CHR 0x8F, CHR 0x96, CHR 0xE6, CHR 0xB6, CHR 0x88] @
     '' UAC '' @ [CHR 0xE6, CHR 0x8F, CHR 0x90, CHR 0xE7, CHR 0xA4, CHR 0xBA] @ '')''"

text \<open>\<open>shell\<close> is what \<open>ShellExecuteW\<close> answers: its value and the last error, if any.\<close>

definition shellExecuteRunAs :: "(string \<Rightarrow> string \<Rightarrow> nat \<times> go_error option) \<Rightarrow> string \<Rightarrow> string \<Rightarrow> go_error option" where
  "shellExecuteRunAs shell program args =
     (case shell program args of
        (ret, callErr) \<Rightarrow>
          if ret \<le> 32 then
            (case callErr of
               Some e \<Rightarrow> Some (Wrap (cannot_elevate @ '': %w'') [] e)
             | None \<Rightarrow> Some (Errf cannot_elevate_code [itoa (int ret)]))
          else None)"

definition RequestAdminRestart ::
    "(string \<times> string) result option \<Rightarrow> (string \<Rightarrow> string \<Rightarrow> nat \<times> go_error option) \<Rightarrow> go_error option option" where
  "RequestAdminRestart target shell =
     map_option (\<lambda>r. case r of Inl e \<Rightarrow> Some e | Inr (program, args) \<Rightarrow> shellExecuteRunAs shell program args) target"

section \<open>The driver\<close>

record DriverStatus =
  ds_OS :: string
  ds_Installed :: bool
  ds_DriverPath :: string
  ds_Message :: string
  ds_CanAutoFix :: bool
  ds_IsAdmin :: bool
  ds_CanRequestAdmin :: bool

type_synonym disk = "string \<rightharpoonup> string"

text \<open>
  The system and the download: \<open>dv_get\<close> is the status, the bytes that could be read of the body
  and the error that ended the reading.  The three commands of the script answer with whether
  they succeeded.
\<close>

record driver_env =
  dv_goos :: string
  dv_admin :: bool
  dv_bin :: string
  dv_sysroot :: string
  dv_tmp :: string
  dv_create :: "go_error option"
  dv_get :: "(nat \<times> string \<times> go_error option) result"
  dv_expand :: "disk \<Rightarrow> bool \<times> disk"
  dv_copy :: "disk \<Rightarrow> bool \<times> disk"
  dv_remove :: "disk \<Rightarrow> bool \<times> disk"

definition driver_dirs :: "driver_env \<Rightarrow> string list" where
  "driver_dirs env = [dv_bin env, ''.'', dv_sysroot env @ backslash @ ''System32'']"

definition empty_status :: "driver_env \<Rightarrow> DriverStatus" where
  "empty_status env = \<lparr>ds_OS = dv_goos env, ds_Installed = False, ds_DriverPath = [], ds_Message = [], ds_CanAutoFix = False,
     ds_IsAdmin = False, ds_CanRequestAdmin = False\<rparr>"

definition CheckDriver :: "driver_env \<Rightarrow> disk \<Rightarrow> DriverStatus" where
  "CheckDriver env fs =
     (let st = empty_status env in
      if dv_goos env \<in> {''linux'', ''darwin''} then st\<lparr>ds_Installed := True, ds_Message := ''TUN ready (kernel built-in)''\<rparr>
      else if dv_goos env = ''windows'' then
        (let st1 = st\<lparr>ds_IsAdmin := dv_admin env, ds_CanRequestAdmin := \<not> dv_admin env\<rparr> in
         case find (\<lambda>p. fs p \<noteq> None) (map (\<lambda>d. win_join d ''wintun.dll'') (filter (\<lambda>d. d \<noteq> []) (driver_dirs env))) of
           Some p \<Rightarrow> st1\<lparr>ds_Installed := True, ds_DriverPath := p,
             ds_Message := (if dv_admin env then ''Wintun driver installed''
                            else ''Wintun driver installed, but administrator privileges are required to create TUN device''),
             ds_CanAutoFix := \<not> dv_admin env\<rparr>
         | None \<Rightarrow> st1\<lparr>ds_Installed := False, ds_Message := ''Wintun driver not found (wintun.dll)'', ds_CanAutoFix := True\<rparr>)
      else st\<lparr>ds_Message := ''unsupported platform: '' @ dv_goos env\<rparr>)"

text \<open>The file is created first and stays empty when the request fails.\<close>

definition downloadFile :: "driver_env \<Rightarrow> string \<Rightarrow> disk \<Rightarrow> go_error option \<times> disk" where
  "downloadFile env path fs =
     (case dv_create env of
        Some e \<Rightarrow> (Some e, fs)
      | None \<Rightarrow>
          (case dv_get env of
             Inl e \<Rightarrow> (Some e, fs(path \<mapsto> []))
           | Inr (status, body, err) \<Rightarrow>
               if status \<noteq> 200 then (Some (Errf ''HTTP %d'' [itoa (int status)]), fs(path \<mapsto> []))
               else (err, fs(path \<mapsto> body))))"

definition slashes_back :: "string \<Rightarrow> string" where
  "slashes_back s = map (\<lambda>c. if c = CHR 0x2F then CHR 0x5C else c) s"

definition sq :: "string \<Rightarrow> string" where
  "sq s = [CHR 0x27] @ s @ [CHR 0x27]"

definition extract_script :: "string \<Rightarrow> string \<Rightarrow> string \<Rightarrow> string \<Rightarrow> string" where
  "extract_script zipPath insidePath dst tmp =
     ''Expand-Archive -Path '' @ sq zipPath @ '' -DestinationPath '' @ sq tmp @ '' -Force; '' @
     ''Copy-Item '' @ sq (tmp @ backslash @ slashes_back insidePath) @ '' -Destination '' @ sq dst @ '' -Force; '' @
     ''Remove-Item -Recurse -Force '' @ sq tmp @ '' -ErrorAction SilentlyContinue''"

text \<open>
  PowerShell runs the statements of \<open>-Command\<close> in turn, also after one that failed without
  ending the script, and its exit code is that of the last.
\<close>

fun statements :: "(disk \<Rightarrow> bool \<times> disk) list \<Rightarrow> disk \<Rightarrow> bool \<times> disk" where
  "statements [] fs = (True, fs)"
| "statements [c] fs = c fs"
| "statements (c # d # cs) fs = statements (d # cs) (snd (c fs))"

definition extract_tmp :: "driver_env \<Rightarrow> string" where
  "extract_tmp env = win_join (dv_tmp env) ''wintun_extract''"

text \<open>\<open>os.RemoveAll\<close>.\<close>

definition without_tree :: "string \<Rightarrow> disk \<Rightarrow> disk" where
  "without_tree dir fs = (\<lambda>p. if p = dir \<or> has_prefix p (dir @ backslash) then None else fs p)"

definition extractFromZip :: "driver_env \<Rightarrow> disk \<Rightarrow> go_error option \<times> disk" where
  "extractFromZip env fs =
     (case statements [dv_expand env, dv_copy env, dv_remove env] fs of
        (ok, fs') \<Rightarrow> (if ok then None else Some (External ''exit status 1''), without_tree (extract_tmp env) fs'))"

definition zip_path :: "driver_env \<Rightarrow> string" where
  "zip_path env = win_join (dv_tmp env) ''wintun.zip''"

definition InstallDriver :: "driver_env \<Rightarrow> disk \<Rightarrow> go_error option \<times> disk" where
  "InstallDriver env fs =
     (if dv_goos env \<noteq> ''windows'' then (Some (Err ''auto install only supported on Windows''), fs)
      else if ds_Installed (CheckDriver env fs) then (None, fs)
      else
        (let drop_zip = (\<lambda>fs. fs(zip_path env := None)) in
         case downloadFile env (zip_path env) fs of
           (Some e, fs1) \<Rightarrow> (Some (Wrap ''download failed: %w'' [] e), drop_zip fs1)
         | (None, fs1) \<Rightarrow>
             (case extractFromZip env fs1 of
                (Some e, fs2) \<Rightarrow> (Some (Wrap ''extract failed: %w'' [] e), drop_zip fs2)
              | (None, fs2) \<Rightarrow> (None, drop_zip fs2))))"

section \<open>The device\<close>

text \<open>
  \<open>CreateTUNNamed\<close> tries three times, waiting longer after each failure (the list is in
  milliseconds); \<open>stale\<close> says whether an adapter was left over, which is closed first.
\<close>

fun create_tries :: "(nat \<Rightarrow> 'd result) \<Rightarrow> nat \<Rightarrow> nat \<Rightarrow> go_error \<Rightarrow> 'd result \<times> nat list" where
  "create_tries create i 0 err = (Inl err, [])"
| "create_tries create i (Suc k) err =
     (case create i of
        Inr d \<Rightarrow> (Inr d, [])
      | Inl e \<Rightarrow> (case create_tries create (Suc i) k e of (r, waits) \<Rightarrow> (r, (i + 1) * 500 # waits)))"

record 'd wintunDevice =
  wd_dev :: 'd
  wd_name :: string
  wd_caps :: "nat list"

definition CreateTUNNamed ::
    "bool \<Rightarrow> (nat \<Rightarrow> 'd result) \<Rightarrow> ('d \<Rightarrow> string) \<Rightarrow> ('d \<Rightarrow> nat) \<Rightarrow> string \<Rightarrow> 'd wintunDevice result \<times> nat list" where
  "CreateTUNNamed stale create dev_name batch name =
     (let ifName = ''SafeLink'' in
      case create_tries create 0 3 (Err []) of
        (r, waits) \<Rightarrow>
          ((case r of
              Inl e \<Rightarrow> Inl (Wrap ''wintun CreateTUN: %w'' [] e)
            | Inr d \<Rightarrow> Inr \<lparr>wd_dev = d, wd_name = (if dev_name d = [] then ifName else dev_name d), wd_caps = replicate (batch d) 0\<rparr>),
           (if stale then [500] else []) @ waits))"

definition CreateTUN :: "bool \<Rightarrow> (nat \<Rightarrow> 'd result) \<Rightarrow> ('d \<Rightarrow> string) \<Rightarrow> ('d \<Rightarrow> nat) \<Rightarrow> 'd wintunDevice result \<times> nat list" where
  "CreateTUN stale create dev_name batch = CreateTUNNamed stale create dev_name batch ''SafeLink''"

text \<open>
  A read of \<open>len1\<close> bytes: the buffers get that length, the device answers with the packets of a
  batch, none longer than the buffers, and the first one is handed on.
\<close>

definition wintun_Read :: "nat \<Rightarrow> string list result \<Rightarrow> 'd wintunDevice \<Rightarrow> string result \<times> 'd wintunDevice" where
  "wintun_Read len1 answer w =
     (let w' = w\<lparr>wd_caps := map (\<lambda>c. if c < len1 then len1 else c) (wd_caps w)\<rparr> in
      ((case answer of
          Inl e \<Rightarrow> Inl e
        | Inr [] \<Rightarrow> Inl (Err ''tun read: no packets'')
        | Inr (p # ps) \<Rightarrow> Inr p), w'))"

definition wintun_Write :: "string \<Rightarrow> nat result \<Rightarrow> nat result" where
  "wintun_Write p answer =
     (case answer of
        Inl e \<Rightarrow> Inl e
      | Inr n \<Rightarrow> if n = 0 then Inl (Err ''tun write: 0 packets written'') else Inr (length p))"

lemma create_tries_first:
  assumes "i \<le> j" "j < i + k" "\<And>h. i \<le> h \<Longrightarrow> h < j \<Longrightarrow> \<exists>e. create h = Inl e" "create j = Inr d"
  shows "create_tries create i k err = (Inr d, map (\<lambda>h. (h + 1) * 500) [i..<j])"
  using assms
proof (induction k arbitrary: i err)
  case (Suc k)
  show ?case
  proof (cases "i = j")
    case True
    then show ?thesis using Suc.prems by simp
  next
    case False
    then have i: "i < j" using Suc.prems(1) by simp
    then obtain e where e: "create i = Inl e" using Suc.prems(3) [of i] by auto
    have "create_tries create (Suc i) k e = (Inr d, map (\<lambda>h. (h + 1) * 500) [Suc i..<j])"
      by (rule Suc.IH) (use i Suc.prems in auto)
    then show ?thesis using e upt_conv_Cons [OF i] by simp
  qed
qed simp

text \<open>The name given is not the name of the adapter.\<close>

lemma adapter_name_ignored:
  "CreateTUNNamed stale create dev_name batch name = CreateTUNNamed stale create dev_name batch name'"
  by (simp add: CreateTUNNamed_def)

section \<open>The search ends\<close>

text \<open>The list is the directory, its parent and so on, up to the one that is its own parent.\<close>

fun parents_of :: "(string \<Rightarrow> string) \<Rightarrow> string \<Rightarrow> string list \<Rightarrow> bool" where
  "parents_of par d [] = (d = [])"
| "parents_of par d (x # xs) = (x = d \<and> d \<noteq> [] \<and> (if par d = d then xs = [] else parents_of par (par d) xs))"

lemma candidate_dirs_chain:
  assumes "\<And>d. par d \<noteq> d \<Longrightarrow> rank (par d) < (rank d :: nat)"
  shows "(\<forall>x\<in>list.set dirs. rank d < rank x) \<Longrightarrow> \<exists>ds. candidate_dirs par dirs d = Some (dirs @ ds) \<and>
    parents_of par d ds \<and> distinct ds \<and> (\<forall>x\<in>list.set ds. rank x \<le> rank d)"
proof (induction "rank d" arbitrary: d dirs rule: less_induct)
  case less
  have new: "d \<notin> list.set dirs" using less.prems by auto
  show ?case
  proof (cases "d = [] \<or> par d = d")
    case True
    then have "candidate_dirs par dirs d = Some (dirs @ (if d = [] then [] else [d]))"
      using new by (subst candidate_dirs.simps) auto
    moreover have "parents_of par d (if d = [] then [] else [d])" using True by (cases "d = []") auto
    ultimately show ?thesis by (intro exI [of _ "if d = [] then [] else [d]"]) simp
  next
    case False
    then have r: "rank (par d) < rank d" using assms by simp
    have "\<forall>x\<in>list.set (dirs @ [d]). rank (par d) < rank x" using less.prems r by auto
    then obtain ds where ds: "candidate_dirs par (dirs @ [d]) (par d) = Some ((dirs @ [d]) @ ds)" "parents_of par (par d) ds"
        "distinct ds" "\<forall>x\<in>list.set ds. rank x \<le> rank (par d)"
      using less.hyps [OF r] by blast
    have "candidate_dirs par dirs d = Some (dirs @ d # ds)" using False new ds(1) by (subst candidate_dirs.simps) simp
    moreover have "d \<notin> list.set ds" using ds(4) r by auto
    ultimately show ?thesis using False ds r by (intro exI [of _ "d # ds"]) auto
  qed
qed

section \<open>Properties\<close>

text \<open>The search for the project's directory ends: it visits the start directory and its parents,
  each once, up to the root, when going up makes a path smaller in some order.\<close>

lemma project_dirs_chain_exists:
  assumes "\<And>d. par d \<noteq> d \<Longrightarrow> rank (par d) < (rank d :: nat)"
  shows "\<exists>ds. candidateProjectDirs par d = Some ds \<and> parents_of par d ds \<and> distinct ds"
  using candidate_dirs_chain [of par rank "[]" d] assms by (auto simp: candidateProjectDirs_def)

definition sample_dir :: string where "sample_dir = ''C:'' @ backslash @ ''p'' @ backslash @ ''bin''"

definition dev_build :: "(string \<Rightarrow> string) \<Rightarrow> string \<Rightarrow> bool" where
  "dev_build base_name p = isDevExecutableName (trim_suffix (to_lower (base_name p)) ''.exe'')"

lemma built_not_dev:
  assumes "\<And>d. base_name (win_join d ''SafeLink.exe'') = ''SafeLink.exe''" "p \<in> list.set (built_names d)"
  shows "\<not> dev_build base_name p"
proof -
  have "base_name p = ''SafeLink.exe''" using assms by (auto simp: built_names_def win_joins_def)
  moreover have "\<not> isDevExecutableName (trim_suffix (to_lower ''SafeLink.exe'') ''.exe'')" by code_simp
  ultimately show ?thesis by (simp add: dev_build_def)
qed

text \<open>C38: The restart with administrator rights always finds its answer, and never starts a
  development build: it starts the program itself, or the \<open>SafeLink.exe\<close> built in a directory
  above it, a file, and fails when there is none.\<close>

theorem restart_never_dev:
  assumes "\<And>d. par d \<noteq> d \<Longrightarrow> rank (par d) < (rank d :: nat)"
    and "\<And>d. base_name (win_join d ''SafeLink.exe'') = ''SafeLink.exe''"
  shows "\<exists>r. resolveRestartTarget par base_name stat resolve exe = Some r \<and>
    (\<forall>p args. r = Inr (p, args) \<longrightarrow> args = [] \<and> \<not> dev_build base_name p \<and>
      (exe = Inr p \<or> (\<exists>q. exe = Inr q \<and> resolve q = Inr p) \<or> stat p = Some False))"
proof (cases exe)
  case (Inr q)
  define r where "r = (case resolve q of Inr p \<Rightarrow> Inr p | Inl (e, missing) \<Rightarrow> if missing then Inr q else Inl e)"
  show ?thesis
  proof (cases "r")
    case (Inr p)
    then have p: "p = q \<or> resolve q = Inr p" by (auto simp: r_def split: sum.splits prod.splits if_splits)
    obtain ds where ds: "candidateProjectDirs par (par p) = Some ds" using project_dirs_chain_exists [of par rank, OF assms(1)] by blast
    show ?thesis
    proof (cases "dev_build base_name p")
      case True
      have "\<not> dev_build base_name b \<and> stat b = Some False" if "first_built stat ds = Some b" for b
        using that built_not_dev [of base_name, OF assms(2)] by (auto simp: first_built_def find_Some_iff dest!: nth_mem)
      then show ?thesis using True \<open>exe = Inr q\<close> Inr ds
        by (auto simp: resolveRestartTarget_def resolveRestartTargetFromExecutable_def r_def [symmetric] dev_build_def
            findBuiltSafeLinkExecutable_def split: option.split)
    next
      case False
      then show ?thesis using \<open>exe = Inr q\<close> Inr p
        by (auto simp: resolveRestartTarget_def resolveRestartTargetFromExecutable_def r_def [symmetric] dev_build_def)
    qed
  qed (simp add: resolveRestartTarget_def resolveRestartTargetFromExecutable_def r_def [symmetric] Inr)
qed (simp add: resolveRestartTarget_def)

theorem restart_never_dev_witness:
  "\<exists>r. resolveRestartTarget win_dir win_base (\<lambda>_. None) (\<lambda>_. Inl (Err [], True)) (Inr sample_dir) = Some r"
  using restart_never_dev [of win_dir length win_base "\<lambda>_. None" "\<lambda>_. Inl (Err [], True)" "Inr sample_dir"] win_dir_shorter win_base_join
  by auto

text \<open>When copying the driver failed, installing it still reports success.\<close>

lemma failed_copy_unnoticed:
  defines "env \<equiv> \<lparr>dv_goos = ''windows'', dv_admin = False, dv_bin = ''C:/p'', dv_sysroot = ''C:/w'', dv_tmp = ''C:/t'',
     dv_create = None, dv_get = Inr (200, [], None), dv_expand = (\<lambda>fs. (True, fs)), dv_copy = (\<lambda>fs. (False, fs)),
     dv_remove = (\<lambda>fs. (True, fs))\<rparr>"
  shows "fst (InstallDriver env Map.empty) = None \<and> \<not> ds_Installed (CheckDriver env (snd (InstallDriver env Map.empty)))"
proof -
  have c: "\<not> ds_Installed (CheckDriver env fs)" if "fs = Map.empty" for fs
    using that by (simp add: env_def CheckDriver_def empty_status_def driver_dirs_def Let_def)
  have i: "InstallDriver env Map.empty = (None, (without_tree (extract_tmp env) (Map.empty(zip_path env \<mapsto> [])))(zip_path env := None))"
    using c [OF refl] by (simp add: InstallDriver_def env_def downloadFile_def extractFromZip_def Let_def)
  have "(without_tree (extract_tmp env) (Map.empty(zip_path env \<mapsto> [])))(zip_path env := None) = Map.empty"
    by (auto simp: without_tree_def)
  then show ?thesis using c i by simp
qed

text \<open>What is found is one of the three places, and is there.\<close>

lemma driver_is_there:
  assumes "dv_goos env = ''windows''" "ds_Installed (CheckDriver env fs)"
  shows "fs (ds_DriverPath (CheckDriver env fs)) \<noteq> None"
proof -
  let ?f = "find (\<lambda>p. fs p \<noteq> None) (map (\<lambda>d. win_join d ''wintun.dll'') (filter (\<lambda>d. d \<noteq> []) (driver_dirs env)))"
  have w: "dv_goos env \<notin> {''linux'', ''darwin''}" using assms(1) by simp
  show ?thesis
  proof (cases ?f)
    case None
    then show ?thesis using assms w by (simp add: CheckDriver_def Let_def)
  next
    case (Some p)
    then have "fs p \<noteq> None" by (auto simp: find_Some_iff)
    then show ?thesis using Some assms(1) w by (simp add: CheckDriver_def Let_def)
  qed
qed

end
