(* ===== verification/AppLeave.thy ===== *)
theory AppLeave
  imports DesktopApp AppWindow Importer Elevation
begin

text \<open>
  The life of the desktop application around its operations (\<open>client/app.go\<close>,
  \<open>client/main.go\<close>): the calls for subscriptions, the menu of the tray, and the ways in which
  the application ends.  The components are those of \<open>DesktopApp\<close>, \<open>Manager\<close>,
  \<open>SSHSession\<close> and \<open>Importer\<close>; the window's runtime is the list of calls it gets.
\<close>

section \<open>State\<close>

text \<open>\<open>dk_calls\<close> are the calls of Wails, of the tray and of the system that do not change
  the components; components are \<open>None\<close> before start-up.\<close>

datatype runtime_call = WindowShow | WindowUnminimise | RuntimeQuit | TrayQuit | Warned string | ReleaseMutex | ExitProcess

record Desktop =
  dk_app :: "App option"
  dk_manager :: "Manager option"
  dk_terms :: "Sessions option"
  dk_window :: Window
  dk_ctx :: bool
  dk_cancelled :: bool
  dk_shutdown :: bool
  dk_closed :: "nat list"
  dk_calls :: "runtime_call list"

text \<open>What the surroundings answer during one way out; \<open>lv_waits\<close> says in which order the
  tunnels are stopped and how each wait goes, \<open>lv_order\<close> is the order of the terminals.\<close>

record leave_env =
  lv_store :: Store
  lv_env :: app_env
  lv_waits :: "(string \<times> int option) list"
  lv_order :: "string list"
  lv_log :: log_env

definition rt_call :: "runtime_call \<Rightarrow> Desktop \<Rightarrow> Desktop" where
  "rt_call c d = d\<lparr>dk_calls := dk_calls d @ [c]\<rparr>"

section \<open>Texts\<close>

definition module_tray :: string where
  "module_tray =
     [CHR 0xE6, CHR 0x89, CHR 0x98, CHR 0xE7, CHR 0x9B, CHR 0x98]"

definition text_close_proxy :: string where
  "text_close_proxy =
     [CHR 0xE5, CHR 0x85, CHR 0xB3, CHR 0xE9, CHR 0x97, CHR 0xAD, CHR 0xE4, CHR 0xBB, CHR 0xA3,
     CHR 0xE7, CHR 0x90, CHR 0x86]"

definition module_subs :: string where
  "module_subs =
     [CHR 0xE8, CHR 0xAE, CHR 0xA2, CHR 0xE9, CHR 0x98, CHR 0x85]"

definition text_import :: string where
  "text_import =
     [CHR 0xE5, CHR 0xAF, CHR 0xBC, CHR 0xE5, CHR 0x85, CHR 0xA5, CHR 0xE8, CHR 0xAE, CHR 0xA2,
     CHR 0xE9, CHR 0x98, CHR 0x85, CHR 0xEF, CHR 0xBC, CHR 0x9A]"

definition text_refresh :: string where
  "text_refresh =
     [CHR 0xE5, CHR 0x88, CHR 0xB7, CHR 0xE6, CHR 0x96, CHR 0xB0, CHR 0xE8, CHR 0xAE, CHR 0xA2,
     CHR 0xE9, CHR 0x98, CHR 0x85, CHR 0xEF, CHR 0xBC, CHR 0x9A]"

definition text_refresh_all :: string where
  "text_refresh_all =
     [CHR 0xE5, CHR 0x88, CHR 0xB7, CHR 0xE6, CHR 0x96, CHR 0xB0, CHR 0xE5, CHR 0x85, CHR 0xA8,
     CHR 0xE9, CHR 0x83, CHR 0xA8, CHR 0xE8, CHR 0xAE, CHR 0xA2, CHR 0xE9, CHR 0x98, CHR 0x85,
     CHR 0xEF, CHR 0xBC, CHR 0x9A, CHR 0xE5, CHR 0xAF, CHR 0xBC, CHR 0xE5, CHR 0x85, CHR 0xA5] @ '' ''"

definition text_update_sub :: string where
  "text_update_sub =
     [CHR 0xE6, CHR 0x9B, CHR 0xB4, CHR 0xE6, CHR 0x96, CHR 0xB0, CHR 0xE8, CHR 0xAE, CHR 0xA2,
     CHR 0xE9, CHR 0x98, CHR 0x85, CHR 0xEF, CHR 0xBC, CHR 0x9A]"

definition text_skipped :: string where
  "text_skipped =
     '' '' @ [CHR 0xE6, CHR 0x9D, CHR 0xA1, CHR 0xEF, CHR 0xBC, CHR 0x8C, CHR 0xE8, CHR 0xB7, CHR 0xB3,
     CHR 0xE8, CHR 0xBF, CHR 0x87] @ '' ''"

definition text_items :: string where
  "text_items =
     '' '' @ [CHR 0xE6, CHR 0x9D, CHR 0xA1]"

definition paren_open :: string where
  "paren_open =
     [CHR 0xEF, CHR 0xBC, CHR 0x88]"

definition paren_close :: string where
  "paren_close =
     [CHR 0xEF, CHR 0xBC, CHR 0x89]"

definition wide_comma :: string where
  "wide_comma =
     [CHR 0xEF, CHR 0xBC, CHR 0x8C]"

section \<open>Subscriptions\<close>

text \<open>A call works on the manager and the files; its message tells what came of it.\<close>

definition logged_subscription ::
    "log_env \<Rightarrow> string \<Rightarrow> (import_result \<Rightarrow> string) \<Rightarrow> import_result result \<times> world \<Rightarrow> Window \<Rightarrow> go_error option \<times> world \<times> Window" where
  "logged_subscription env message told r w =
     (case r of
        (Inl e, wd) \<Rightarrow> (Some e, wd, recordLog env ''info'' module_subs message (Some e) w)
      | (Inr res, wd) \<Rightarrow> (None, wd, recordLog env ''info'' module_subs (told res) None w))"

definition ImportSubscription ::
    "log_env \<Rightarrow> env \<Rightarrow> http_answer \<Rightarrow> string \<Rightarrow> string \<Rightarrow> world \<Rightarrow> Window \<Rightarrow> go_error option \<times> world \<times> Window" where
  "ImportSubscription lg env answer name url wd w =
     logged_subscription lg (text_import @ name)
       (\<lambda>res. text_import @ name @ paren_open @ ir_Kind res @ wide_comma @ itoa (int (ir_Imported res)) @ text_items @ paren_close)
       (Import env answer name url wd) w"

definition RefreshSubscription ::
    "log_env \<Rightarrow> env \<Rightarrow> io \<Rightarrow> http_answer \<Rightarrow> string \<Rightarrow> world \<Rightarrow> Window \<Rightarrow> go_error option \<times> world \<times> Window" where
  "RefreshSubscription lg env io answer i wd w =
     logged_subscription lg (text_refresh @ i)
       (\<lambda>res. text_refresh @ src_Name (ir_Source res) @ paren_open @ itoa (int (ir_Imported res)) @ text_items @ paren_close)
       (Refresh env io answer i wd) w"

definition RefreshAllSubscriptions ::
    "log_env \<Rightarrow> Store \<Rightarrow> io \<Rightarrow> (nat \<Rightarrow> env) \<Rightarrow> (nat \<Rightarrow> http_answer) \<Rightarrow> world \<Rightarrow> Window \<Rightarrow>
     (nat \<times> nat \<times> string list) \<times> world \<times> Window" where
  "RefreshAllSubscriptions lg s io envs answers wd w =
     (case RefreshAll s io envs answers wd of
        ((imported, skipped, errs), wd') \<Rightarrow>
          ((imported, skipped, errs), wd',
           recordLog lg ''info'' module_subs
             (text_refresh_all @ itoa (int imported) @ text_skipped @ itoa (int skipped) @ text_items) None w))"

definition app_UpdateSubscription ::
    "log_env \<Rightarrow> env \<Rightarrow> io \<Rightarrow> io \<Rightarrow> http_answer \<Rightarrow> string \<Rightarrow> string \<Rightarrow> string \<Rightarrow> bool \<Rightarrow> int \<Rightarrow> world \<Rightarrow> Window \<Rightarrow>
     go_error option \<times> world \<times> Window" where
  "app_UpdateSubscription lg env io io' answer i name url autoRefresh intervalMin wd w =
     logged_subscription lg (text_update_sub @ name)
       (\<lambda>res. text_update_sub @ src_Name (ir_Source res) @ paren_open @ itoa (int (ir_Imported res)) @ text_items @ paren_close)
       (Update env io io' answer i name url autoRefresh intervalMin wd) w"

section \<open>The ways out\<close>

definition close_proxy :: "leave_env \<Rightarrow> Desktop \<Rightarrow> Desktop" where
  "close_proxy x d = d\<lparr>dk_app := map_option (closeProxyForExit (lv_store x) (lv_env x)) (dk_app d)\<rparr>"

definition stop_tunnels :: "leave_env \<Rightarrow> string \<Rightarrow> Desktop \<Rightarrow> Desktop" where
  "stop_tunnels x warning d =
     (case dk_manager d of
        None \<Rightarrow> d
      | Some m \<Rightarrow>
          (case stopAllWithTimeout (lv_waits x) m of
             (ok, m') \<Rightarrow> (if ok then id else rt_call (Warned warning)) (d\<lparr>dk_manager := Some m'\<rparr>)))"

definition close_terminals :: "leave_env \<Rightarrow> Desktop \<Rightarrow> Desktop" where
  "close_terminals x d =
     (case dk_terms d of None \<Rightarrow> d | Some t \<Rightarrow> d\<lparr>dk_closed := dk_closed d @ CloseAll (lv_order x) t\<rparr>)"

definition app_shutdown :: "leave_env \<Rightarrow> Desktop \<Rightarrow> Desktop" where
  "app_shutdown x d =
     (if dk_shutdown d then d
      else
        (let d1 = close_proxy x (d\<lparr>dk_shutdown := True\<rparr>);
             d2 = stop_tunnels x ''timed out waiting for tunnels to stop during shutdown'' d1;
             d3 = rt_call TrayQuit (close_terminals x d2)
         in if dk_ctx d3 then d3\<lparr>dk_cancelled := True\<rparr> else d3))"

definition showMainWindow :: "Desktop \<Rightarrow> Desktop" where
  "showMainWindow d = (if \<not> dk_ctx d then d else rt_call WindowUnminimise (rt_call WindowShow d))"

definition quitFromTray :: "leave_env \<Rightarrow> Desktop \<Rightarrow> Desktop" where
  "quitFromTray x d =
     (let d1 = close_proxy x d in if \<not> dk_ctx d1 then rt_call TrayQuit d1 else rt_call RuntimeQuit d1)"

datatype tray_click = OpenItem | CloseItem | QuitItem

text \<open>The loop of the tray's goroutine over the clicks; after \<open>QuitItem\<close> nobody listens.\<close>

fun handleTrayMenu :: "(nat \<Rightarrow> leave_env) \<Rightarrow> nat \<Rightarrow> tray_click list \<Rightarrow> Desktop \<Rightarrow> Desktop" where
  "handleTrayMenu xs k [] d = d"
| "handleTrayMenu xs k (OpenItem # cs) d = handleTrayMenu xs (Suc k) cs (showMainWindow d)"
| "handleTrayMenu xs k (CloseItem # cs) d =
     handleTrayMenu xs (Suc k) cs
       (case dk_app d of
          None \<Rightarrow> d
        | Some a \<Rightarrow>
            (case StopProxy (lv_store (xs k)) (lv_env (xs k)) a of
               (None, a') \<Rightarrow> d\<lparr>dk_app := Some a'\<rparr>
             | (Some e, a') \<Rightarrow>
                 d\<lparr>dk_app := Some a', dk_window := recordLog (lv_log (xs k)) ''error'' module_tray text_close_proxy (Some e) (dk_window d)\<rparr>))"
| "handleTrayMenu xs k (QuitItem # cs) d = quitFromTray (xs k) d"

text \<open>The handler of signals; the timer that ends a process whose window does not close in five
  seconds is left out.\<close>

definition on_signal :: "leave_env \<Rightarrow> Desktop \<Rightarrow> Desktop" where
  "on_signal x d =
     (let d1 = close_proxy x d in if dk_ctx d1 then rt_call RuntimeQuit d1 else rt_call ExitProcess d1)"

text \<open>The goroutine that ends the application after a restart was asked for.\<close>

definition restart_quits :: "leave_env \<Rightarrow> Desktop \<Rightarrow> Desktop" where
  "restart_quits x d =
     rt_call RuntimeQuit (stop_tunnels x ''timed out waiting for tunnels to stop before admin restart'' (close_proxy x d))"

definition app_RequestAdminRestart :: "leave_env \<Rightarrow> go_error option \<Rightarrow> Desktop \<Rightarrow> go_error option \<times> Desktop" where
  "app_RequestAdminRestart x restarted d =
     (case restarted of Some e \<Rightarrow> (Some e, d) | None \<Rightarrow> (None, restart_quits x d))"

text \<open>The deferred calls of \<open>main\<close>.\<close>

definition main_end :: "leave_env \<Rightarrow> Desktop \<Rightarrow> Desktop" where
  "main_end x d = rt_call ReleaseMutex (close_proxy x d)"

text \<open>How the window comes to close; then Wails shuts down and \<open>main\<close> returns.\<close>

datatype way_out = FromTray | WindowClosed | Signalled | Restarted

fun begin_leaving :: "leave_env \<Rightarrow> way_out \<Rightarrow> Desktop \<Rightarrow> Desktop" where
  "begin_leaving x FromTray d = quitFromTray x d"
| "begin_leaving x WindowClosed d = d"
| "begin_leaving x Signalled d = on_signal x d"
| "begin_leaving x Restarted d = snd (app_RequestAdminRestart x None d)"

definition leave_by :: "leave_env \<Rightarrow> leave_env \<Rightarrow> leave_env \<Rightarrow> way_out \<Rightarrow> Desktop \<Rightarrow> Desktop" where
  "leave_by x1 x2 x3 way d = main_end x3 (app_shutdown x2 (begin_leaving x1 way d))"

section \<open>Telling the tunnels to stop\<close>

text \<open>A run that was not told to stop.\<close>

definition untold :: "Manager \<Rightarrow> nat \<Rightarrow> bool" where
  "untold m q \<longleftrightarrow> (\<exists>ru. m_runs m q = Some ru \<and> \<not> r_done ru \<and> \<not> r_cancelled ru)"

text \<open>Each such run is held by the cancel function of an object in the table, also while others that
  were told to stop have not ended.\<close>

definition tellable :: "Manager \<Rightarrow> bool" where
  "tellable m \<longleftrightarrow>
     (\<forall>i r. mt_cancel (m_heap m i) = Some r \<longrightarrow> mt_done (m_heap m i) = Some r \<and> (\<exists>ru. m_runs m r = Some ru \<and> r_mt ru = i)) \<and>
     (\<forall>q. untold m q \<longrightarrow> (\<exists>n i. m_tunnels m n = Some i \<and> mt_cancel (m_heap m i) = Some q))"

lemma mgr_inv_tellable: "mgr_inv m \<Longrightarrow> tellable m"
proof -
  assume "mgr_inv m"
  then have ok: "runs_ok m" by (simp add: mgr_inv_def)
  note d = runs_okD [OF ok]
  have "\<exists>ru. m_runs m r = Some ru \<and> r_mt ru = i" if "mt_cancel (m_heap m i) = Some r" for i r
    using d(3,4) [OF that] by (auto simp: live_def run_object_def split: option.splits)
  moreover have "\<exists>n i. m_tunnels m n = Some i \<and> mt_cancel (m_heap m i) = Some q" if "untold m q" for q
  proof -
    have "live m q" using that by (auto simp: untold_def live_def)
    then show ?thesis using d(6,7) by blast
  qed
  ultimately show ?thesis using d(2) by (simp add: tellable_def)
qed

lemma tellableD:
  assumes "tellable m"
  shows "mt_cancel (m_heap m i) = Some r \<Longrightarrow> mt_done (m_heap m i) = Some r"
    and "mt_cancel (m_heap m i) = Some r \<Longrightarrow> \<exists>ru. m_runs m r = Some ru \<and> r_mt ru = i"
    and "untold m r \<Longrightarrow> \<exists>n i. m_tunnels m n = Some i \<and> mt_cancel (m_heap m i) = Some r"
  using assms unfolding tellable_def by blast+

lemma tellableI:
  assumes "\<And>i r. mt_cancel (m_heap m i) = Some r \<Longrightarrow> mt_done (m_heap m i) = Some r"
    and "\<And>i r. mt_cancel (m_heap m i) = Some r \<Longrightarrow> \<exists>ru. m_runs m r = Some ru \<and> r_mt ru = i"
    and "\<And>r. untold m r \<Longrightarrow> \<exists>n i. m_tunnels m n = Some i \<and> mt_cancel (m_heap m i) = Some r"
  shows "tellable m"
  using assms unfolding tellable_def by blast

lemma stop_one:
  assumes "tellable m" "stopManagedWithTimeout w i m = (ok, m')"
  shows "tellable m' \<and> m_tunnels m' = m_tunnels m \<and>
    (\<forall>j. mt_cancel (m_heap m' j) = (if j = i then None else mt_cancel (m_heap m j))) \<and>
    (\<forall>q. untold m' q \<longleftrightarrow> untold m q \<and> mt_cancel (m_heap m i) \<noteq> Some q)"
proof (cases "mt_cancel (m_heap m i)")
  case None
  then have m': "m' = upd_mt i (\<lambda>mt. mt\<lparr>mt_cancel := None\<rparr>) m"
    using assms(2) by (simp add: stopManagedWithTimeout_def take_cancel_def Let_def)
  have u: "untold m' q = untold m q" for q by (simp add: m' untold_def)
  have c: "mt_cancel (m_heap m' j) = mt_cancel (m_heap m j)" "mt_done (m_heap m' j) = mt_done (m_heap m j)" for j
    using None by (simp_all add: m')
  have t: "m_tunnels m' = m_tunnels m" "m_runs m' = m_runs m" by (simp_all add: m')
  have "tellable m'" by (rule tellableI) (use tellableD [OF assms(1)] in \<open>simp_all add: c t u\<close>)
  then show ?thesis using None by (simp add: c t u)
next
  case (Some r)
  then obtain ru where ru: "mt_done (m_heap m i) = Some r" "m_runs m r = Some ru" "r_mt ru = i"
    using tellableD(1,2) [OF assms(1) Some] by blast
  note defs = stopManagedWithTimeout_def take_cancel_def end_run_def finish_run_def on_state_change_def
  have c: "mt_cancel (m_heap m' j) = (if j = i then None else mt_cancel (m_heap m j))"
    and dn: "mt_done (m_heap m' j) = mt_done (m_heap m j)" for j
    using assms(2) Some ru by (auto simp: defs Let_def split: option.splits if_splits)
  have t: "m_tunnels m' = m_tunnels m"
    using assms(2) Some ru by (auto simp: defs Let_def split: option.splits if_splits)
  have runs: "m_runs m' q = m_runs m q" if "q \<noteq> r" for q
    using assms(2) Some ru that by (auto simp: defs Let_def split: option.splits if_splits)
  obtain ru' where ru': "m_runs m' r = Some ru'" "r_mt ru' = i" "r_cancelled ru'"
    using assms(2) Some ru by (auto simp: defs Let_def split: option.splits if_splits)
  have u: "untold m' q \<longleftrightarrow> untold m q \<and> q \<noteq> r" for q
    using runs [of q] ru' by (cases "q = r") (auto simp: untold_def)
  have old: "j \<noteq> i \<and> mt_cancel (m_heap m j) = Some q" if "mt_cancel (m_heap m' j) = Some q" for j q
    using that by (simp add: c split: if_splits)
  have "tellable m'"
  proof (rule tellableI)
    fix j q
    assume a: "mt_cancel (m_heap m' j) = Some q"
    then show "mt_done (m_heap m' j) = Some q" using tellableD(1) [OF assms(1)] old dn by simp
    obtain rq where rq: "m_runs m q = Some rq" "r_mt rq = j" using tellableD(2) [OF assms(1)] old [OF a] by blast
    have "q \<noteq> r" using rq ru(2,3) old [OF a] by auto
    then show "\<exists>ru. m_runs m' q = Some ru \<and> r_mt ru = j" using rq runs by simp
  next
    fix q
    assume q: "untold m' q"
    then obtain n j where j: "m_tunnels m n = Some j" "mt_cancel (m_heap m j) = Some q"
      using u [of q] tellableD(3) [OF assms(1)] by blast
    then have "j \<noteq> i" using Some u [of q] q by auto
    then show "\<exists>n j. m_tunnels m' n = Some j \<and> mt_cancel (m_heap m' j) = Some q" using j c [of j] t by auto
  qed
  then show ?thesis using t u c Some by auto
qed

lemma stop_all_tells:
  assumes "tellable m" "stop_each xs m = (ok, m')"
  shows "tellable m' \<and> m_tunnels m' = m_tunnels m \<and>
    (\<forall>q. untold m' q \<longrightarrow> untold m q \<and> (\<forall>i\<in>fst ` list.set xs. mt_cancel (m_heap m i) \<noteq> Some q))"
  using assms
proof (induction xs arbitrary: m ok)
  case (Cons x xs)
  obtain i w where x: "x = (i, w)" by (cases x)
  obtain ok1 m1 where m1: "stopManagedWithTimeout w i m = (ok1, m1)" by fastforce
  note one = stop_one [OF Cons.prems(1) m1]
  obtain ok2 where m': "stop_each xs m1 = (ok2, m')" using Cons.prems(2) m1 by (auto simp: x split: prod.splits)
  have IH: "tellable m' \<and> m_tunnels m' = m_tunnels m1 \<and>
      (\<forall>q. untold m' q \<longrightarrow> untold m1 q \<and> (\<forall>i\<in>fst ` list.set xs. mt_cancel (m_heap m1 i) \<noteq> Some q))"
    using Cons.IH [OF _ m'] one by blast
  have "mt_cancel (m_heap m j) \<noteq> Some q" if q: "untold m' q" and j: "j \<in> fst ` list.set (x # xs)" for q j
  proof (cases "j = i")
    case True
    then show ?thesis using q one IH by simp
  next
    case False
    then have "j \<in> fst ` list.set xs" using j by (simp add: x)
    then have "mt_cancel (m_heap m1 j) \<noteq> Some q" using q IH by blast
    then show ?thesis using False one by simp
  qed
  then show ?case using IH one by simp
qed simp

lemma stop_tunnels_fields [simp]:
  "dk_app (stop_tunnels x w d) = dk_app d" "dk_terms (stop_tunnels x w d) = dk_terms d"
  "dk_ctx (stop_tunnels x w d) = dk_ctx d" "dk_shutdown (stop_tunnels x w d) = dk_shutdown d"
  "dk_closed (stop_tunnels x w d) = dk_closed d" "dk_cancelled (stop_tunnels x w d) = dk_cancelled d"
  by (simp_all add: stop_tunnels_def rt_call_def split: option.split prod.split)

lemma stopped_objects:
  assumes "n \<in> fst ` list.set ws" "tb n = Some i"
  shows "i \<in> fst ` list.set (List.map_filter (\<lambda>(n, w). map_option (\<lambda>i. (i, w)) (tb n)) ws)"
proof -
  obtain w where "(n, w) \<in> list.set ws" using assms(1) by auto
  then have "(i, w) \<in> list.set (List.map_filter (\<lambda>(n, w). map_option (\<lambda>i. (i, w)) (tb n)) ws)"
    using assms(2) by (induction ws) (auto simp: List.map_filter_def)
  then show ?thesis by (rule rev_image_eqI) simp
qed

lemma closed_terminals: "dom tb \<subseteq> list.set order \<Longrightarrow> ran tb \<subseteq> list.set (List.map_filter tb order)"
proof
  fix p
  assume d: "dom tb \<subseteq> list.set order" and "p \<in> ran tb"
  then obtain i where i: "tb i = Some p" by (auto simp: ran_def)
  then have "i \<in> list.set order" using d by blast
  then show "p \<in> list.set (List.map_filter tb order)" using i by (induction order) (auto simp: List.map_filter_def)
qed

lemma stop_tunnels_manager:
  assumes "dk_manager d = Some m" "tellable m"
  shows "\<exists>m'. dk_manager (stop_tunnels x w d) = Some m' \<and> tellable m' \<and> m_tunnels m' = m_tunnels m \<and>
    (dom (m_tunnels m) \<subseteq> fst ` list.set (lv_waits x) \<longrightarrow> (\<forall>q. \<not> untold m' q))"
proof -
  let ?xs = "List.map_filter (\<lambda>(n, w). map_option (\<lambda>i. (i, w)) (m_tunnels m n)) (lv_waits x)"
  obtain ok m' where m': "stop_each ?xs m = (ok, m')" by fastforce
  note tells = stop_all_tells [OF assms(2) m']
  have none: "\<not> untold m' q" if cover: "dom (m_tunnels m) \<subseteq> fst ` list.set (lv_waits x)" for q
  proof
    assume q: "untold m' q"
    then have "untold m q" using tells by blast
    then obtain n i where i: "m_tunnels m n = Some i" "mt_cancel (m_heap m i) = Some q"
      using tellableD(3) [OF assms(2)] by blast
    then have "n \<in> fst ` list.set (lv_waits x)" using cover by blast
    then have "i \<in> fst ` list.set ?xs" using i(1) by (rule stopped_objects)
    then show False using tells q i(2) by blast
  qed
  have "stopAllWithTimeout (lv_waits x) m = (ok, m')" unfolding stopAllWithTimeout_def by (rule m')
  then have "dk_manager (stop_tunnels x w d) = Some m'" by (simp add: stop_tunnels_def assms(1) rt_call_def)
  then show ?thesis using tells none by (intro exI [of _ m']) simp
qed

lemma rt_call_fields [simp]:
  "dk_app (rt_call c d) = dk_app d" "dk_manager (rt_call c d) = dk_manager d" "dk_terms (rt_call c d) = dk_terms d"
  "dk_ctx (rt_call c d) = dk_ctx d" "dk_shutdown (rt_call c d) = dk_shutdown d" "dk_closed (rt_call c d) = dk_closed d"
  "dk_calls (rt_call c d) = dk_calls d @ [c]"
  by (simp_all add: rt_call_def)

lemma close_proxy_fields [simp]:
  "dk_app (close_proxy x d) = map_option (closeProxyForExit (lv_store x) (lv_env x)) (dk_app d)"
  "dk_manager (close_proxy x d) = dk_manager d" "dk_terms (close_proxy x d) = dk_terms d" "dk_ctx (close_proxy x d) = dk_ctx d"
  "dk_shutdown (close_proxy x d) = dk_shutdown d" "dk_closed (close_proxy x d) = dk_closed d"
  by (simp_all add: close_proxy_def)

text \<open>The state between the steps of leaving.\<close>

definition leaving_ok :: "string \<Rightarrow> Sessions \<Rightarrow> (string \<rightharpoonup> nat) \<Rightarrow> Desktop \<Rightarrow> bool" where
  "leaving_ok dir t tunnels d \<longleftrightarrow>
     (\<exists>a m. dk_app d = Some a \<and> app_inv (store_New dir) a \<and> dk_manager d = Some m \<and> tellable m \<and> m_tunnels m = tunnels) \<and>
     dk_terms d = Some t \<and> \<not> dk_shutdown d"

lemma leaving_begin:
  assumes "leaving_ok dir t tunnels d" "lv_store x = store_New dir"
  shows "leaving_ok dir t tunnels (begin_leaving x way d)"
proof -
  obtain a m where a: "dk_app d = Some a" "app_inv (store_New dir) a" and m: "dk_manager d = Some m" "tellable m" "m_tunnels m = tunnels"
    using assms(1) unfolding leaving_ok_def by blast
  have c: "dk_app (close_proxy x d) = Some (closeProxyForExit (store_New dir) (lv_env x) a)"
    "app_inv (store_New dir) (closeProxyForExit (store_New dir) (lv_env x) a)"
    using a assms(2) inv_leave by simp_all
  show ?thesis
  proof (cases way)
    case Restarted
    obtain m' where "dk_manager (restart_quits x d) = Some m'" "tellable m'" "m_tunnels m' = tunnels"
      using stop_tunnels_manager [of "close_proxy x d" m x "''timed out waiting for tunnels to stop before admin restart''"] m
      unfolding restart_quits_def by auto
    then show ?thesis using Restarted assms a(1) c(2) by (auto simp: leaving_ok_def app_RequestAdminRestart_def restart_quits_def)
  qed (use assms c m in \<open>auto simp: leaving_ok_def quitFromTray_def on_signal_def Let_def\<close>)
qed

section \<open>Properties\<close>


definition sample_leave :: leave_env where
  "sample_leave =
     \<lparr>lv_store = store_New ''d'', lv_env = sample_app_env, lv_waits = [(''db'', None)], lv_order = [''s''],
      lv_log = \<lparr>dw_time = [], dw_nano = [], dw_pid = 0, dw_mkdir = None, dw_open = None, dw_written = id\<rparr>\<rparr>"

definition sample_desktop :: Desktop where
  "sample_desktop =
     \<lparr>dk_app = Some running_app,
      dk_manager = Some (fold (manager_apply None (\<lambda>_ _. None)) [OpAdd [] sample_local] (Start (New []))),
      dk_terms = Some (NewManager\<lparr>sx_sessions := [''s'' \<mapsto> 0]\<rparr>), dk_window = \<lparr>wi_logs = [], wi_debug = [], wi_events = []\<rparr>,
      dk_ctx = True, dk_cancelled = False, dk_shutdown = False, dk_closed = [], dk_calls = []\<rparr>"

lemma sample_table: "m_tunnels (fold (manager_apply None (\<lambda>_ _. None)) [OpAdd [] sample_local] (Start (New []))) = [''db'' \<mapsto> 0]"
proof -
  have "startTunnel n m = (e, m') \<Longrightarrow> m_tunnels m' = m_tunnels m" for n m e m'
    by (auto simp: startTunnel_def Let_def split: option.splits sum.splits if_splits)
  then have st: "m_tunnels (snd (startTunnel n m)) = m_tunnels m" for n m by (metis prod.collapse)
  have v: "ValidateTunnel sample_local = None" "t_Name sample_local = ''db''" by (code_simp, code_simp)
  have e: "m_tunnels (Start (New [])) = Map.empty" "m_next (Start (New [])) = 0" by (simp_all add: Start_def New_def)
  show ?thesis using v e st by (simp add: Add_def persist_def insert_tunnel_def put_tunnel_def)
qed

lemma running_app_reached: "reach (app_init (store_New ''d'')) (app_does (store_New ''d'')) running_app"
proof -
  have "app_does (store_New ''d'') sample_app (sample_app_env, CoreEvents [Begin sample_start_env sample_core_node True])
      (app_step (store_New ''d'') sample_app_env (CoreEvents [Begin sample_start_env sample_core_node True]) sample_app)"
    by (rule app_doesI) (rule sample_saving)
  then have "app_does (store_New ''d'') sample_app (sample_app_env, CoreEvents [Begin sample_start_env sample_core_node True]) running_app"
    by (simp add: running_app_def)
  then show ?thesis by (rule reach_step [OF reach_init [of "app_init (store_New ''d'')", OF sample_app_init]])
qed


end
