(* ===== verification/Instance.thy ===== *)
theory Instance
  imports Interfaces
begin

text \<open>
  The single instance of the desktop application (\<open>client/instance_windows.go\<close>, and its use in
  \<open>client/main.go\<close>): processes that ask for a named mutex and hold handles of it.  A process is
  its number; the mutex exists as long as a process holds a handle.
\<close>

section \<open>Processes\<close>

text \<open>How \<open>CreateMutex\<close> answers.\<close>

datatype create_answer = Created | AlreadyExists | CreateFailed

text \<open>
  \<open>Refused\<close>: the process holds a handle of the mutex of another one, shows that one's window,
  closes the handle and ends.  \<open>Unguarded\<close>: it runs without a mutex.
\<close>

datatype inst_phase = Starting | Refused | Primary | Unguarded | Gone

definition acquireSingleInstance :: "create_answer \<Rightarrow> inst_phase" where
  "acquireSingleInstance a =
     (case a of CreateFailed \<Rightarrow> Unguarded | AlreadyExists \<Rightarrow> Refused | Created \<Rightarrow> Primary)"

definition holds_handle :: "inst_phase \<Rightarrow> bool" where
  "holds_handle p \<longleftrightarrow> p = Refused \<or> p = Primary"

definition runs_app :: "inst_phase \<Rightarrow> bool" where
  "runs_app p \<longleftrightarrow> p = Primary \<or> p = Unguarded"

definition create_mutex :: "inst_phase list \<Rightarrow> create_answer" where
  "create_mutex ps = (if list_ex holds_handle ps then AlreadyExists else Created)"

datatype inst_event = Launch | Acquire nat | AcquireFails nat | Ends nat

text \<open>A process ends by \<open>main\<close> returning, which closes the handle, or in another way, where the
  system does; \<open>fails\<close> says whether \<open>CreateMutex\<close> can fail.\<close>

inductive inst_step :: "bool \<Rightarrow> inst_phase list \<Rightarrow> inst_event \<Rightarrow> inst_phase list \<Rightarrow> bool" for fails :: bool where
  launch: "inst_step fails ps Launch (ps @ [Starting])"
| acquire: "i < length ps \<Longrightarrow> ps ! i = Starting \<Longrightarrow> inst_step fails ps (Acquire i) (ps[i := acquireSingleInstance (create_mutex ps)])"
| acquire_fails: "fails \<Longrightarrow> i < length ps \<Longrightarrow> ps ! i = Starting \<Longrightarrow> inst_step fails ps (AcquireFails i) (ps[i := acquireSingleInstance CreateFailed])"
| ends: "i < length ps \<Longrightarrow> holds_handle (ps ! i) \<or> runs_app (ps ! i) \<Longrightarrow> inst_step fails ps (Ends i) (ps[i := Gone])"

code_pred (modes: i \<Rightarrow> i \<Rightarrow> i \<Rightarrow> o \<Rightarrow> bool) inst_step .

inductive_cases inst_stepE: "inst_step fails ps e ps'"

lemmas phase_defs = acquireSingleInstance_def holds_handle_def runs_app_def create_mutex_def

section \<open>At most one\<close>

definition one_primary :: "inst_phase list \<Rightarrow> bool" where
  "one_primary ps \<longleftrightarrow> Unguarded \<notin> set ps \<and>
     (\<forall>i j. i < length ps \<longrightarrow> j < length ps \<longrightarrow> ps ! i = Primary \<longrightarrow> ps ! j = Primary \<longrightarrow> i = j)"

lemma no_handle: "create_mutex ps = Created \<Longrightarrow> i < length ps \<Longrightarrow> ps ! i \<noteq> Primary"
  by (auto simp: phase_defs list_ex_iff split: if_splits dest: nth_mem)

lemma one_primary_update:
  assumes "one_primary ps" "p \<noteq> Unguarded" "p = Primary \<Longrightarrow> create_mutex ps = Created"
  shows "one_primary (ps[i := p])"
proof -
  have "Unguarded \<notin> set (ps[i := p])" using assms(1,2) set_update_subset_insert [of ps i p] by (auto simp: one_primary_def)
  moreover have "j = k" if "j < length ps" "k < length ps" "ps[i := p] ! j = Primary" "ps[i := p] ! k = Primary" for j k
  proof (cases "p = Primary")
    case True
    then have "ps ! l \<noteq> Primary" if "l < length ps" for l using that no_handle [OF assms(3)] by simp
    then have "j = i \<and> k = i" using that nth_list_update_neq by metis
    then show ?thesis by simp
  next
    case False
    then have "ps[i := p] ! l = Primary \<Longrightarrow> l < length ps \<Longrightarrow> ps ! l = Primary" for l
      by (cases "l = i") auto
    then show ?thesis using that assms(1) unfolding one_primary_def by blast
  qed
  ultimately show ?thesis by (simp add: one_primary_def)
qed

lemma one_primary_launch: "one_primary ps \<Longrightarrow> one_primary (ps @ [Starting])"
  by (auto simp: one_primary_def nth_append)

interpretation inst: machine "\<lambda>ps. ps = []" "inst_step False" one_primary
proof
  show "one_primary ps" if "ps = []" for ps using that by (simp add: one_primary_def)
  show "one_primary t" if "one_primary s" "inst_step False s e t" for s e t
    using that(2)
  proof cases
    case (acquire i)
    then show ?thesis using one_primary_update [OF that(1)] by (auto simp: phase_defs split: create_answer.splits)
  qed (use that(1) in \<open>auto intro: one_primary_launch one_primary_update\<close>)
qed

text \<open>At most one process runs the application, as long as creating the mutex does not fail in
  another way than that it exists.\<close>

lemma one_main_instance:
  assumes "reach (\<lambda>ps. ps = []) (inst_step False) ps" "i < length ps" "j < length ps" "runs_app (ps ! i)" "runs_app (ps ! j)"
  shows "i = j"
proof -
  have inv: "one_primary ps" using assms(1) by (rule inst.reach_inv)
  then have "ps ! i \<noteq> Unguarded" "ps ! j \<noteq> Unguarded" using assms(2,3) nth_mem unfolding one_primary_def by metis+
  then show ?thesis using inv assms(2-5) by (auto simp: one_primary_def runs_app_def)
qed

section \<open>A second process\<close>

lemma while_primary:
  assumes "reach (\<lambda>s. s = ps) (inst_step False) t" "i < length ps" "ps ! i = Primary" "q < length ps \<Longrightarrow> ps ! q = Starting"
  shows "i < length t \<and> (t ! i = Primary \<or> t ! i = Gone) \<and>
    (t ! i = Primary \<longrightarrow> q < length t \<longrightarrow> t ! q \<in> {Starting, Refused, Gone})"
  using assms(1)
proof (induction rule: reach.induct)
  case (reach_init s)
  then show ?case using assms(2-4) by auto
next
  case (reach_step s e t)
  have ex: "create_mutex s = AlreadyExists" if "s ! i = Primary"
    using that reach_step.IH by (auto simp: phase_defs list_ex_iff intro!: bexI [of _ Primary]) (metis nth_mem)+
  from reach_step.hyps(2) show ?case
  proof cases
    case launch
    then show ?thesis using reach_step.IH by (auto simp: nth_append less_Suc_eq)
  next
    case (acquire j)
    then show ?thesis using reach_step.IH ex by (cases "j = i") (auto simp: nth_list_update acquireSingleInstance_def)
  next
    case (ends j)
    then show ?thesis using reach_step.IH by (auto simp: nth_list_update)
  qed simp
qed

lemma stays_refused:
  assumes "reach (\<lambda>s. s = ps) (inst_step False) t" "q < length ps" "ps ! q = Refused \<or> ps ! q = Gone"
  shows "q < length t \<and> (t ! q = Refused \<or> t ! q = Gone)"
  using assms(1)
proof (induction rule: reach.induct)
  case (reach_step s e t)
  from reach_step.hyps(2) show ?case
    using reach_step.IH by cases (auto simp: nth_append nth_list_update)
qed (use assms(2,3) in simp)



end
