(* ===== verification/Installer.thy ===== *)
theory Installer
  imports WinPath
begin

text \<open>
  The Windows installer (\<open>client/cmd/installer/main_windows.go\<close>): its arguments, the steps of
  installing and uninstalling over the files and the registry of the machine, and the scripts it
  hands to PowerShell.  The dialogs, the environment and the answers of the system are parameters;
  PowerShell's reading of a quoted string is the one of its language specification.
\<close>

section \<open>Constants and options\<close>

definition inst_appName :: string where "inst_appName = ''SafeLink''"
definition publisher :: string where "publisher = ''SafeLink''"
definition mainExe :: string where "mainExe = ''SafeLink.exe''"
definition uninstallExe :: string where "uninstallExe = ''uninstall.exe''"
definition installStamp :: string where "installStamp = ''.safelink-install''"
definition appVersion :: string where "appVersion = ''2.0.0''"

text \<open>The bundled files: the name in the payload, and in the directory.\<close>

definition bundledFiles :: "(string \<times> string) list" where
  "bundledFiles = [(''payload/SafeLink.exe'', ''SafeLink.exe''), (''payload/sing-box.exe'', ''sing-box.exe''),
     (''payload/wintun.dll'', ''wintun.dll'')]"

record installOptions =
  op_InstallDir :: string
  op_CreateDesktopShortcut :: bool
  op_Quiet :: bool

section \<open>Arguments\<close>

text \<open>\<open>strings.EqualFold\<close> with an ASCII text; the long s and the Kelvin sign fold to \<open>s\<close> and \<open>k\<close>.\<close>

fun equal_fold :: "string \<Rightarrow> string \<Rightarrow> bool" where
  "equal_fold s [] = (s = [])"
| "equal_fold s (c # w) =
     ((s \<noteq> [] \<and> ascii_lower (hd s) = ascii_lower c \<and> equal_fold (tl s) w) \<or>
      (ascii_lower c = CHR ''s'' \<and> take 2 s = [CHR 0xC5, CHR 0xBF] \<and> equal_fold (drop 2 s) w) \<or>
      (ascii_lower c = CHR ''k'' \<and> take 3 s = [CHR 0xE2, CHR 0x84, CHR 0xAA] \<and> equal_fold (drop 3 s) w))"

definition hasArg :: "string list \<Rightarrow> string \<Rightarrow> bool" where
  "hasArg args want = list_ex (\<lambda>a. equal_fold a want) args"

definition argValue :: "string list \<Rightarrow> string \<Rightarrow> string" where
  "argValue args prefix =
     (case find (\<lambda>a. has_prefix (to_lower a) (to_lower prefix)) args of
        None \<Rightarrow> []
      | Some a \<Rightarrow> trim_space (drop (length prefix) a))"

definition inst_parseBool :: "string \<Rightarrow> bool \<Rightarrow> bool" where
  "inst_parseBool value fallback =
     (let v = to_lower (trim_space value) in
      if v \<in> {''1'', ''true'', ''yes'', ''y'', ''on''} then True
      else if v \<in> {''0'', ''false'', ''no'', ''n'', ''off''} then False
      else fallback)"

text \<open>\<open>local1\<close> is \<open>LOCALAPPDATA\<close>, \<open>home\<close> the home directory.\<close>

definition defaultInstallDir :: "string \<Rightarrow> string \<Rightarrow> string" where
  "defaultInstallDir local1 home =
     (let base = (if local1 = [] then win_joins home [''AppData'', ''Local''] else local1)
      in win_joins base [''Programs'', inst_appName])"

definition quiet_args :: "string list \<Rightarrow> bool" where
  "quiet_args args \<longleftrightarrow> hasArg args ''/S'' \<or> hasArg args ''/quiet'' \<or> hasArg args ''--quiet''"

definition parseInstallOptions :: "string \<Rightarrow> string list \<Rightarrow> installOptions" where
  "parseInstallOptions dflt args =
     (let dir = argValue args ''/dir='';
          no_shortcut = hasArg args ''/no-desktop-shortcut'' \<or> hasArg args ''--no-desktop-shortcut'';
          shortcut = argValue args ''/desktop-shortcut=''
      in \<lparr>op_InstallDir = (if dir \<noteq> [] then dir else dflt),
          op_CreateDesktopShortcut = (if shortcut \<noteq> [] then inst_parseBool shortcut True else \<not> no_shortcut),
          op_Quiet = quiet_args args\<rparr>)"

section \<open>PowerShell\<close>

fun double_quotes :: "string \<Rightarrow> string" where
  "double_quotes [] = []"
| "double_quotes (c # s) = (if c = CHR 0x27 then [CHR 0x27, CHR 0x27] else [c]) @ double_quotes s"

definition psQuote :: "string \<Rightarrow> string" where
  "psQuote value = [CHR 0x27] @ double_quotes value @ [CHR 0x27]"

text \<open>\<open>utf16\<close> is \<open>utf16.Encode([]rune(script))\<close>, as numbers below \<open>2^16\<close>.\<close>

definition encodePowerShell :: "(string \<Rightarrow> nat list) \<Rightarrow> string \<Rightarrow> string" where
  "encodePowerShell utf16 script =
     b64_encode (concat (map (\<lambda>r. [char_of (r mod 256), char_of (r div 256 mod 256)]) (utf16 script)))"

definition shortcut_script :: "string \<Rightarrow> string \<Rightarrow> string \<Rightarrow> string" where
  "shortcut_script linkPath target workingDir =
     newline @ ''$shell = New-Object -ComObject WScript.Shell'' @ newline @
     ''$shortcut = $shell.CreateShortcut('' @ psQuote linkPath @ '')'' @ newline @
     ''$shortcut.TargetPath = '' @ psQuote target @ newline @
     ''$shortcut.WorkingDirectory = '' @ psQuote workingDir @ newline @
     ''$shortcut.IconLocation = '' @ psQuote (target @ '',0'') @ newline @
     ''$shortcut.Save()'' @ newline"

text \<open>The names the removal script deletes, and the script up to its two loops.\<close>

definition removed_files :: "string list" where
  "removed_files = [mainExe, ''sing-box.exe'', ''wintun.dll'', uninstallExe, installStamp]"

fun comma_list :: "string list \<Rightarrow> string" where
  "comma_list [] = []"
| "comma_list [s] = s"
| "comma_list (s # t # ss) = s @ '', '' @ comma_list (t # ss)"

definition removal_loops :: string where
  "removal_loops =
     ''foreach ($file in $files) {'' @ newline @
     ''    $path = Join-Path $dir $file'' @ newline @
     ''    for ($i = 0; $i -lt 30; $i++) {'' @ newline @
     ''        Remove-Item -LiteralPath $path -Force -ErrorAction SilentlyContinue'' @ newline @
     ''        if (-not (Test-Path -LiteralPath $path)) { break }'' @ newline @
     ''        Start-Sleep -Milliseconds 200'' @ newline @
     ''    }'' @ newline @ ''}'' @ newline @
     ''for ($i = 0; $i -lt 30; $i++) {'' @ newline @
     ''    Remove-Item -LiteralPath $dir -Force -ErrorAction SilentlyContinue'' @ newline @
     ''    if (-not (Test-Path -LiteralPath $dir)) { break }'' @ newline @
     ''    Start-Sleep -Milliseconds 200'' @ newline @ ''}'' @ newline"

definition removal_script :: "string \<Rightarrow> string" where
  "removal_script dir =
     newline @ ''$ProgressPreference = '' @ psQuote ''SilentlyContinue'' @ newline @
     ''Start-Sleep -Milliseconds 800'' @ newline @
     ''$dir = '' @ psQuote dir @ newline @
     ''$files = @('' @ comma_list (map psQuote removed_files) @ '')'' @ newline @ removal_loops"

section \<open>The machine\<close>

text \<open>
  Files by path and registry keys by path, with their texts; \<open>im_scripts\<close> are the scripts
  handed to PowerShell, with whether the installer waits for them.
\<close>

record Machine =
  im_files :: "string \<rightharpoonup> string"
  im_reg :: "string \<rightharpoonup> (string \<rightharpoonup> string)"
  im_scripts :: "(string \<times> bool) list"

text \<open>The answers of the system.\<close>

record install_env =
  ie_local :: string
  ie_home :: string
  ie_dialog :: "installOptions \<Rightarrow> (installOptions \<times> bool) result"
  ie_confirm :: "string \<Rightarrow> bool"
  ie_expand :: "string \<Rightarrow> string"
  ie_clean :: "string \<Rightarrow> string"
  ie_dir :: "string \<Rightarrow> string"
  ie_mkdir :: "string \<Rightarrow> go_error option"
  ie_payload :: "string \<Rightarrow> string result"
  ie_write :: "string \<Rightarrow> (go_error \<times> string option) option"
  ie_removes :: "string \<Rightarrow> bool"
  ie_exe :: "string result"
  ie_self :: "string \<Rightarrow> string result"
  ie_appdata :: string
  ie_desktop :: "string result"
  ie_script :: "string \<Rightarrow> go_error option"
  ie_create_key :: "string \<Rightarrow> go_error option"
  ie_set_value :: "string \<Rightarrow> string \<Rightarrow> go_error option"
  ie_order :: "string list"
  ie_size :: "string \<Rightarrow> nat result"

definition and_then :: "go_error option \<times> Machine \<Rightarrow> (Machine \<Rightarrow> go_error option \<times> Machine) \<Rightarrow> go_error option \<times> Machine" where
  "and_then r f = (case r of (Some e, m) \<Rightarrow> (Some e, m) | (None, m) \<Rightarrow> f m)"

text \<open>\<open>os.WriteFile\<close>; a failed write leaves what the system says.\<close>

definition write_file :: "install_env \<Rightarrow> string \<Rightarrow> string \<Rightarrow> Machine \<Rightarrow> go_error option \<times> Machine" where
  "write_file env path data m =
     (case ie_write env path of
        Some (e, left) \<Rightarrow> (Some e, m\<lparr>im_files := (im_files m)(path := left)\<rparr>)
      | None \<Rightarrow> (None, m\<lparr>im_files := (im_files m)(path \<mapsto> data)\<rparr>))"

definition wrapped :: "string \<Rightarrow> go_error option \<times> Machine \<Rightarrow> go_error option \<times> Machine" where
  "wrapped f r = (case r of (Some e, m) \<Rightarrow> (Some (Wrap f [] e), m) | (None, m) \<Rightarrow> (None, m))"

definition writeBundledFile :: "install_env \<Rightarrow> string \<times> string \<Rightarrow> string \<Rightarrow> Machine \<Rightarrow> go_error option \<times> Machine" where
  "writeBundledFile env f installDir m =
     (case ie_payload env (fst f) of
        Inl e \<Rightarrow> (Some (Wrap ''read bundled %s: %w'' [snd f] e), m)
      | Inr data \<Rightarrow>
          (case write_file env (win_join installDir (snd f)) data m of
             (Some e, m') \<Rightarrow> (Some (Wrap ''write %s: %w'' [snd f] e), m')
           | (None, m') \<Rightarrow> (None, m')))"

fun write_bundle :: "install_env \<Rightarrow> string \<Rightarrow> (string \<times> string) list \<Rightarrow> Machine \<Rightarrow> go_error option \<times> Machine" where
  "write_bundle env dir [] m = (None, m)"
| "write_bundle env dir (f # fs) m = and_then (writeBundledFile env f dir m) (write_bundle env dir fs)"

definition stamp_text :: string where
  "stamp_text = ''name='' @ inst_appName @ newline @ ''version='' @ appVersion @ newline"

definition writeStamp :: "install_env \<Rightarrow> string \<Rightarrow> Machine \<Rightarrow> go_error option \<times> Machine" where
  "writeStamp env installDir m = write_file env (win_join installDir installStamp) stamp_text m"

definition copySelf :: "install_env \<Rightarrow> string \<Rightarrow> Machine \<Rightarrow> go_error option \<times> Machine" where
  "copySelf env dst m =
     (case ie_exe env of
        Inl e \<Rightarrow> (Some (Wrap ''locate installer: %w'' [] e), m)
      | Inr src \<Rightarrow>
          (case ie_self env src of
             Inl e \<Rightarrow> (Some (Wrap ''read installer: %w'' [] e), m)
           | Inr data \<Rightarrow> wrapped ''write uninstaller: %w'' (write_file env dst data m)))"

definition run_script :: "install_env \<Rightarrow> bool \<Rightarrow> string \<Rightarrow> Machine \<Rightarrow> go_error option \<times> Machine" where
  "run_script env waits script m = (ie_script env script, m\<lparr>im_scripts := im_scripts m @ [(script, waits)]\<rparr>)"

definition createShortcut :: "install_env \<Rightarrow> string \<Rightarrow> string \<Rightarrow> string \<Rightarrow> Machine \<Rightarrow> go_error option \<times> Machine" where
  "createShortcut env linkPath target workingDir m = run_script env True (shortcut_script linkPath target workingDir) m"

definition menu_dir :: "install_env \<Rightarrow> string" where
  "menu_dir env = win_joins (ie_appdata env) [''Microsoft'', ''Windows'', ''Start Menu'', ''Programs'', inst_appName]"

definition createStartMenuShortcut :: "install_env \<Rightarrow> string \<Rightarrow> Machine \<Rightarrow> go_error option \<times> Machine" where
  "createStartMenuShortcut env installDir m =
     (if ie_appdata env = [] then (Some (Err ''APPDATA is not set''), m)
      else (case ie_mkdir env (menu_dir env) of
              Some e \<Rightarrow> (Some (Wrap ''create start menu directory: %w'' [] e), m)
            | None \<Rightarrow> wrapped ''create start menu shortcut: %w''
                (createShortcut env (win_join (menu_dir env) (inst_appName @ ''.lnk'')) (win_join installDir mainExe) installDir m)))"

definition createDesktopShortcut :: "install_env \<Rightarrow> string \<Rightarrow> Machine \<Rightarrow> go_error option \<times> Machine" where
  "createDesktopShortcut env installDir m =
     (case ie_desktop env of
        Inl e \<Rightarrow> (Some e, m)
      | Inr desktop \<Rightarrow> wrapped ''create desktop shortcut: %w''
          (createShortcut env (win_join desktop (inst_appName @ ''.lnk'')) (win_join installDir mainExe) installDir m))"

definition removeDesktopShortcut :: "install_env \<Rightarrow> Machine \<Rightarrow> Machine" where
  "removeDesktopShortcut env m =
     (case ie_desktop env of
        Inl _ \<Rightarrow> m
      | Inr desktop \<Rightarrow>
          (let p = win_join desktop (inst_appName @ ''.lnk'') in
           if ie_removes env p then m\<lparr>im_files := (im_files m)(p := None)\<rparr> else m))"

text \<open>\<open>os.RemoveAll\<close> of the directory in the start menu.\<close>

definition removeStartMenuShortcut :: "install_env \<Rightarrow> Machine \<Rightarrow> Machine" where
  "removeStartMenuShortcut env m =
     (if ie_appdata env = [] then m
      else m\<lparr>im_files := (\<lambda>p. if has_prefix p (menu_dir env @ backslash) \<and> ie_removes env p then None else im_files m p)\<rparr>)"

section \<open>The registry\<close>

definition windows_key :: string where
  "windows_key = ''Software'' @ backslash @ ''Microsoft'' @ backslash @ ''Windows'' @ backslash @ ''CurrentVersion'' @ backslash"

definition uninstall_key :: string where "uninstall_key = windows_key @ ''Uninstall'' @ backslash @ inst_appName"

definition app_path_key :: string where "app_path_key = windows_key @ ''App Paths'' @ backslash @ mainExe"

definition set_value :: "string \<Rightarrow> string \<Rightarrow> string \<Rightarrow> Machine \<Rightarrow> Machine" where
  "set_value key name value m =
     m\<lparr>im_reg := (im_reg m)(key \<mapsto> ((case im_reg m key of None \<Rightarrow> Map.empty | Some vs \<Rightarrow> vs)(name \<mapsto> value)))\<rparr>"

definition uninstall_values :: "string \<Rightarrow> (string \<times> string) list" where
  "uninstall_values installDir =
     (let cmd = go_quote (win_join installDir uninstallExe) @ '' /uninstall'' in
      [(''DisplayName'', inst_appName), (''DisplayVersion'', appVersion), (''Publisher'', publisher),
       (''InstallLocation'', installDir), (''DisplayIcon'', win_join installDir mainExe), (''UninstallString'', cmd),
       (''QuietUninstallString'', cmd @ '' /quiet'')])"

fun set_values :: "install_env \<Rightarrow> (string \<times> string) list \<Rightarrow> string list \<Rightarrow> Machine \<Rightarrow> go_error option \<times> Machine" where
  "set_values env values [] m = (None, m)"
| "set_values env values (name # names) m =
     (case map_of values name of
        None \<Rightarrow> set_values env values names m
      | Some value \<Rightarrow>
          (case ie_set_value env uninstall_key name of
             Some e \<Rightarrow> (Some (Wrap ''write registry value %s: %w'' [name] e), m)
           | None \<Rightarrow> set_values env values names (set_value uninstall_key name value m)))"

text \<open>Numbers are kept as their decimal texts; \<open>ie_order\<close> is Go's order of the map.\<close>

definition writeUninstallRegistry :: "install_env \<Rightarrow> string \<Rightarrow> Machine \<Rightarrow> go_error option \<times> Machine" where
  "writeUninstallRegistry env installDir m =
     (case ie_create_key env uninstall_key of
        Some e \<Rightarrow> (Some (Wrap ''open uninstall registry key: %w'' [] e), m)
      | None \<Rightarrow>
          and_then (set_values env (uninstall_values installDir) (ie_order env) m)
            (\<lambda>m1. case ie_set_value env uninstall_key ''NoModify'' of
               Some e \<Rightarrow> (Some e, m1)
             | None \<Rightarrow>
                 (let m2 = set_value uninstall_key ''NoModify'' ''1'' m1 in
                  case ie_set_value env uninstall_key ''NoRepair'' of
                    Some e \<Rightarrow> (Some e, m2)
                  | None \<Rightarrow>
                      (let m3 = set_value uninstall_key ''NoRepair'' ''1'' m2;
                           m4 = (case ie_size env installDir of
                                   Inl _ \<Rightarrow> m3
                                 | Inr n \<Rightarrow> if ie_set_value env uninstall_key ''EstimatedSize'' \<noteq> None then m3
                                            else set_value uninstall_key ''EstimatedSize'' (itoa (int ((n + 1023) div 1024 mod 2 ^ 32))) m3);
                           put = (\<lambda>name value m. if ie_set_value env app_path_key name \<noteq> None then m else set_value app_path_key name value m)
                       in (None, if ie_create_key env app_path_key \<noteq> None then m4
                                 else put ''Path'' installDir (put [] (win_join installDir mainExe) m4))))))"

definition installedDirFromRegistry :: "Machine \<Rightarrow> string result" where
  "installedDirFromRegistry m =
     (case im_reg m uninstall_key of
        None \<Rightarrow> Inl (External ''file does not exist'')
      | Some vs \<Rightarrow> (case vs ''InstallLocation'' of None \<Rightarrow> Inl (External ''file does not exist'') | Some d \<Rightarrow> Inr d))"

definition remove_key :: "install_env \<Rightarrow> string \<Rightarrow> Machine \<Rightarrow> Machine" where
  "remove_key env key m = (if ie_removes env key then m\<lparr>im_reg := (im_reg m)(key := None)\<rparr> else m)"

definition removeRegistryKeys :: "install_env \<Rightarrow> Machine \<Rightarrow> Machine" where
  "removeRegistryKeys env m = remove_key env uninstall_key (remove_key env app_path_key m)"

section \<open>Installing and uninstalling\<close>

definition install_steps :: "install_env \<Rightarrow> string \<Rightarrow> bool \<Rightarrow> Machine \<Rightarrow> go_error option \<times> Machine" where
  "install_steps env dir desktop m0 =
     and_then (wrapped ''create install directory: %w'' (ie_mkdir env dir, m0))
      (\<lambda>m. and_then (write_bundle env dir bundledFiles m)
      (\<lambda>m. and_then (writeStamp env dir m)
      (\<lambda>m. and_then (copySelf env (win_join dir uninstallExe) m)
      (\<lambda>m. and_then (createStartMenuShortcut env dir m)
      (\<lambda>m. and_then (if desktop then createDesktopShortcut env dir m else (None, removeDesktopShortcut env m))
      (\<lambda>m. writeUninstallRegistry env dir m))))))"

definition inst_install :: "install_env \<Rightarrow> string list \<Rightarrow> Machine \<Rightarrow> go_error option \<times> Machine" where
  "inst_install env args m =
     (let opts0 = parseInstallOptions (defaultInstallDir (ie_local env) (ie_home env)) args in
      case (if op_Quiet opts0 then Inr (opts0, True) else ie_dialog env opts0) of
        Inl e \<Rightarrow> (Some e, m)
      | Inr (opts, ok) \<Rightarrow>
          if \<not> ok then (Some (Err ''installation cancelled''), m)
          else (let dir = ie_clean env (ie_expand env (op_InstallDir opts)) in
                if dir = ''.'' \<or> dir = backslash then (Some (Errf ''invalid install directory: %s'' [dir]), m)
                else install_steps env dir (op_CreateDesktopShortcut opts) m))"

definition isSafeInstallDir :: "Machine \<Rightarrow> string \<Rightarrow> bool" where
  "isSafeInstallDir m dir =
     (case im_files m (win_join dir installStamp) of
        None \<Rightarrow> False
      | Some stamp \<Rightarrow> contains stamp (''name='' @ inst_appName))"

definition uninstall_dir :: "install_env \<Rightarrow> Machine \<Rightarrow> string result" where
  "uninstall_dir env m =
     (let own = (\<lambda>err. case ie_exe env of
                   Inl exeErr \<Rightarrow> Inl (case err of Some e \<Rightarrow> e | None \<Rightarrow> exeErr)
                 | Inr exe \<Rightarrow> Inr (ie_dir env exe)) in
      case installedDirFromRegistry m of
        Inl e \<Rightarrow> own (Some e)
      | Inr d \<Rightarrow> if d = [] then own None else Inr d)"

definition inst_uninstall :: "install_env \<Rightarrow> string list \<Rightarrow> Machine \<Rightarrow> go_error option \<times> Machine" where
  "inst_uninstall env args m =
     (case uninstall_dir env m of
        Inl e \<Rightarrow> (Some e, m)
      | Inr dir0 \<Rightarrow>
          (let dir = ie_clean env dir0 in
           if \<not> isSafeInstallDir m dir then (Some (Errf ''refusing to remove unexpected directory: %s'' [dir]), m)
           else if \<not> quiet_args args \<and> \<not> ie_confirm env dir then (Some (Err ''uninstall cancelled''), m)
           else (let m1 = removeRegistryKeys env (removeDesktopShortcut env (removeStartMenuShortcut env m))
                 in wrapped ''schedule install directory removal: %w'' (run_script env False (removal_script dir) m1))))"

text \<open>The exit code.\<close>

definition inst_main :: "install_env \<Rightarrow> string list \<Rightarrow> Machine \<Rightarrow> nat \<times> Machine" where
  "inst_main env args m =
     (case (if hasArg args ''/uninstall'' \<or> hasArg args ''--uninstall'' then inst_uninstall env args m else inst_install env args m) of
        (Some e, m') \<Rightarrow> (1, m') | (None, m') \<Rightarrow> (0, m'))"

section \<open>Reading a quoted string\<close>

text \<open>
  PowerShell takes five characters for single quotes: the ASCII one and, three bytes each,
  U+2018 to U+201B.  A pair of them inside a literal stands for one; a single one ends it.
\<close>

definition ps_quote_at :: "string \<Rightarrow> nat" where
  "ps_quote_at s =
     (case s of
        c # t \<Rightarrow>
          if c = CHR 0x27 then 1
          else if c = CHR 0xE2 \<and> length t \<ge> 2 \<and> t ! 0 = CHR 0x80 \<and> t ! 1 \<in> {CHR 0x98, CHR 0x99, CHR 0x9A, CHR 0x9B} then 3
          else 0
      | [] \<Rightarrow> 0)"

text \<open>What follows an opening quote: the text of the literal, and what comes after it.\<close>

function ps_literal :: "string \<Rightarrow> (string \<times> string) option" where
  "ps_literal s =
     (if s = [] then None
      else let n = ps_quote_at s in
        if n = 0 then map_option (\<lambda>(t, r). (hd s # t, r)) (ps_literal (tl s))
        else let r = drop n s; k = ps_quote_at r in
          if k = 0 then Some ([], r)
          else map_option (\<lambda>(t, r). (take n s @ t, r)) (ps_literal (drop k r)))"
  by pat_completeness auto
termination
  by (relation "measure length") auto

declare ps_literal.simps [simp del]

fun smart_free :: "string \<Rightarrow> bool" where
  "smart_free [] = True"
| "smart_free (c # s) = (ps_quote_at (c # s) \<noteq> 3 \<and> smart_free s)"

lemma ps_quote_ascii [simp]: "ps_quote_at (CHR 0x27 # s) = 1"
  by (simp add: ps_quote_at_def)

lemma ps_quote_doubled:
  assumes "c \<noteq> CHR 0x27" "ps_quote_at (c # s) \<noteq> 3"
  shows "ps_quote_at (c # double_quotes s @ CHR 0x27 # rest) = 0"
proof (cases s)
  case (Cons d s')
  then show ?thesis using assms by (cases s') (auto simp: ps_quote_at_def nth_append split: if_splits)
qed (use assms in \<open>simp add: ps_quote_at_def\<close>)

lemma ps_literal_quoted:
  assumes "smart_free v" "ps_quote_at rest = 0"
  shows "ps_literal (double_quotes v @ CHR 0x27 # rest) = Some (v, rest)"
  using assms(1)
proof (induction v)
  case Nil
  then show ?case using assms(2) by (subst ps_literal.simps) simp
next
  case (Cons c s)
  then have IH: "ps_literal (double_quotes s @ CHR 0x27 # rest) = Some (s, rest)" by simp
  show ?case
  proof (cases "c = CHR 0x27")
    case True
    then show ?thesis using IH by (subst ps_literal.simps) simp
  next
    case False
    then show ?thesis using IH ps_quote_doubled [OF False, of s rest] Cons.prems by (subst ps_literal.simps) simp
  qed
qed

section \<open>What installing changes\<close>

definition reg_value :: "Machine \<Rightarrow> string \<Rightarrow> string \<Rightarrow> string option" where
  "reg_value m key name = Option.bind (im_reg m key) (\<lambda>vs. vs name)"

lemma reg_value_set [simp]:
  "reg_value (set_value key name v m) key' name' = (if key' = key \<and> name' = name then Some v else reg_value m key' name')"
  "im_files (set_value key name v m) = im_files m" "im_scripts (set_value key name v m) = im_scripts m"
  by (auto simp: reg_value_def set_value_def split: option.split)

text \<open>The files that the installer may write or delete.\<close>

definition own_path :: "install_env \<Rightarrow> string \<Rightarrow> string \<Rightarrow> bool" where
  "own_path env dir p \<longleftrightarrow> p \<in> win_join dir ` list.set removed_files \<or>
     (\<exists>d. ie_desktop env = Inr d \<and> p = win_join d (inst_appName @ ''.lnk''))"

definition only_own :: "install_env \<Rightarrow> string \<Rightarrow> Machine \<Rightarrow> Machine \<Rightarrow> bool" where
  "only_own env dir m m' \<longleftrightarrow> (\<forall>p. im_files m' p \<noteq> im_files m p \<longrightarrow> own_path env dir p)"

lemma only_own_refl: "only_own env dir m m"
  by (simp add: only_own_def)

lemma only_own_trans: "only_own env dir m m1 \<Longrightarrow> only_own env dir m1 m2 \<Longrightarrow> only_own env dir m m2"
  unfolding only_own_def by metis

lemma and_thenE:
  assumes "and_then r f = (None, m')"
  obtains m1 where "r = (None, m1)" "f m1 = (None, m')"
  using assms by (cases r) (auto simp: and_then_def split: option.splits)

lemma write_file_ok:
  "write_file env path data m = (None, m') \<Longrightarrow> m' = m\<lparr>im_files := (im_files m)(path \<mapsto> data)\<rparr>"
  by (simp add: write_file_def split: option.splits prod.splits)

lemma write_own:
  "n \<in> list.set removed_files \<Longrightarrow> write_file env (win_join dir n) data m = (None, m') \<Longrightarrow> only_own env dir m m'"
  by (auto dest!: write_file_ok simp: only_own_def own_path_def split: if_splits)

lemma wrapped_ok: "wrapped f r = (None, m') \<longleftrightarrow> r = (None, m')"
  by (cases r) (auto simp: wrapped_def split: option.splits)

lemma bundle_own:
  "list.set (map snd fs) \<subseteq> list.set removed_files \<Longrightarrow> write_bundle env dir fs m = (None, m') \<Longrightarrow> only_own env dir m m'"
proof (induction fs arbitrary: m)
  case (Cons f fs)
  from Cons.prems(2) obtain m1 where m1: "writeBundledFile env f dir m = (None, m1)" "write_bundle env dir fs m1 = (None, m')"
    by (auto elim: and_thenE)
  then have "only_own env dir m m1"
    using Cons.prems(1) by (auto simp: writeBundledFile_def split: sum.splits prod.splits option.splits intro: write_own)
  then show ?case using Cons.IH [OF _ m1(2)] Cons.prems(1) only_own_trans by auto
qed (simp add: only_own_refl)

lemma copySelf_ok:
  "copySelf env dst m = (None, m') \<Longrightarrow> \<exists>data. write_file env dst data m = (None, m')"
  by (auto simp: copySelf_def wrapped_ok split: sum.splits)

lemma shortcuts_files:
  "createStartMenuShortcut env dir m = (None, m') \<Longrightarrow> im_files m' = im_files m"
  "createDesktopShortcut env dir m = (None, m') \<Longrightarrow> im_files m' = im_files m"
  by (auto simp: createStartMenuShortcut_def createDesktopShortcut_def createShortcut_def run_script_def wrapped_ok
      split: if_splits option.splits sum.splits)

lemma set_values_ok:
  "set_values env values names m = (None, m') \<Longrightarrow> im_files m' = im_files m \<and>
   (\<forall>name v. map_of values name = Some v \<longrightarrow>
      name \<in> list.set names \<or> reg_value m uninstall_key name = Some v \<longrightarrow> reg_value m' uninstall_key name = Some v)"
proof (induction names arbitrary: m)
  case (Cons n names)
  show ?case
  proof (cases "map_of values n")
    case None
    then show ?thesis using Cons by auto
  next
    case (Some v)
    then have "set_values env values names (set_value uninstall_key n v m) = (None, m')"
      using Cons.prems by (auto split: option.splits)
    note IH = Cons.IH [OF this]
    have "reg_value m' uninstall_key name = Some w"
      if "map_of values name = Some w" "name \<in> list.set (n # names) \<or> reg_value m uninstall_key name = Some w" for name w
    proof (cases "name = n")
      case True
      then show ?thesis using IH Some that(1) by auto
    next
      case False
      then show ?thesis using IH that by auto
    qed
    then show ?thesis using IH by auto
  qed
qed simp

lemma keys_differ: "app_path_key \<noteq> uninstall_key"
  by (simp add: app_path_key_def uninstall_key_def)

lemma registry_written:
  assumes "writeUninstallRegistry env dir m = (None, m')" "''InstallLocation'' \<in> list.set (ie_order env)"
  shows "im_files m' = im_files m \<and> reg_value m' uninstall_key ''InstallLocation'' = Some dir"
proof -
  have "ie_create_key env uninstall_key = None" using assms(1) by (auto simp: writeUninstallRegistry_def split: option.splits)
  then obtain m1 where m1: "set_values env (uninstall_values dir) (ie_order env) m = (None, m1)"
    using assms(1) by (auto simp: writeUninstallRegistry_def elim: and_thenE)
  have "map_of (uninstall_values dir) ''InstallLocation'' = Some dir" by (simp add: uninstall_values_def Let_def)
  then have v: "im_files m1 = im_files m" "reg_value m1 uninstall_key ''InstallLocation'' = Some dir"
    using set_values_ok [OF m1] assms(2) by blast+
  show ?thesis using assms(1) m1 v keys_differ
    by (auto simp: writeUninstallRegistry_def and_then_def Let_def split: option.splits sum.splits if_splits)
qed

lemma own_name_differs: "win_join d (inst_appName @ ''.lnk'') \<noteq> win_join dir installStamp"
proof
  assume "win_join d (inst_appName @ ''.lnk'') = win_join dir installStamp"
  then have "last (win_join d (inst_appName @ ''.lnk'')) = last (win_join dir installStamp)" by simp
  then show False by (simp add: win_join_def inst_appName_def installStamp_def split: if_splits)
qed

lemma win_join_inj: "win_join d a = win_join d b \<longleftrightarrow> a = b"
  by (simp add: win_join_def)

text \<open>After the steps, only the installer's own files have changed, the stamp is there, and the
  registry knows the directory.\<close>

lemma steps_effect:
  assumes "install_steps env dir desktop m0 = (None, m')" "''InstallLocation'' \<in> list.set (ie_order env)"
  shows "only_own env dir m0 m' \<and> im_files m' (win_join dir installStamp) = Some stamp_text \<and>
    reg_value m' uninstall_key ''InstallLocation'' = Some dir"
proof -
  let ?stamp = "win_join dir installStamp"
  obtain m1 m2 m3 m4 m5 where
    s: "write_bundle env dir bundledFiles m0 = (None, m1)" "writeStamp env dir m1 = (None, m2)"
      "copySelf env (win_join dir uninstallExe) m2 = (None, m3)" "createStartMenuShortcut env dir m3 = (None, m4)"
      "(if desktop then createDesktopShortcut env dir m4 else (None, removeDesktopShortcut env m4)) = (None, m5)"
      "writeUninstallRegistry env dir m5 = (None, m')"
    using assms(1) unfolding install_steps_def by (auto simp: wrapped_ok elim!: and_thenE)
  have "list.set (map snd bundledFiles) \<subseteq> list.set removed_files"
    by (simp add: bundledFiles_def removed_files_def mainExe_def)
  from bundle_own [OF this s(1)] have o1: "only_own env dir m0 m1" .
  have o2: "only_own env dir m1 m2" "im_files m2 ?stamp = Some stamp_text"
    using s(2) write_own [of installStamp] write_file_ok [of env ?stamp stamp_text m1 m2] by (auto simp: writeStamp_def removed_files_def)
  obtain data where w: "write_file env (win_join dir uninstallExe) data m2 = (None, m3)" using copySelf_ok [OF s(3)] by blast
  then have o3: "only_own env dir m2 m3" by (rule write_own [rotated]) (simp add: removed_files_def)
  have "installStamp \<noteq> uninstallExe" by (simp add: installStamp_def uninstallExe_def)
  then have st3: "im_files m3 ?stamp = Some stamp_text" using o2(2) write_file_ok [OF w] by (simp add: win_join_inj)
  have f4: "im_files m4 = im_files m3" using shortcuts_files(1) [OF s(4)] .
  have o5: "only_own env dir m4 m5 \<and> im_files m5 ?stamp = im_files m4 ?stamp"
  proof (cases desktop)
    case True
    then show ?thesis using shortcuts_files(2) [of env dir m4 m5] s(5) by (simp add: only_own_def)
  next
    case False
    then have "m5 = removeDesktopShortcut env m4" using s(5) by simp
    then show ?thesis using own_name_differs own_name_differs [symmetric]
      by (auto simp: removeDesktopShortcut_def only_own_def own_path_def Let_def split: sum.splits)
  qed
  note r = registry_written [OF s(6) assms(2)]
  have "only_own env dir m0 m'"
    using only_own_trans [OF only_own_trans [OF only_own_trans [OF o1 o2(1)] o3], of m5] o5 f4 r by (simp add: only_own_def)
  then show ?thesis using r o5 f4 st3 by simp
qed

lemma stamp_accepted: "contains stamp_text (''name='' @ inst_appName)"
  by (simp add: stamp_text_def inst_appName_def appVersion_def newline_def)

section \<open>Properties\<close>


definition sample_install :: install_env where
  "sample_install = \<lparr>ie_local = ''C:/p'', ie_home = [], ie_dialog = (\<lambda>o1. Inr (o1, True)), ie_confirm = (\<lambda>_. True), ie_expand = id,
     ie_clean = (\<lambda>p. if p = [] then ''.'' else p), ie_dir = id, ie_mkdir = (\<lambda>_. None), ie_payload = (\<lambda>p. Inr p),
     ie_write = (\<lambda>_. None), ie_removes = (\<lambda>_. True), ie_exe = Inr ''setup'', ie_self = (\<lambda>p. Inr p), ie_appdata = ''C:/a'', ie_desktop = Inr ''C:/d'',
     ie_script = (\<lambda>_. None), ie_create_key = (\<lambda>_. None), ie_set_value = (\<lambda>_ _. None),
     ie_order = map fst (uninstall_values []), ie_size = (\<lambda>_. Inr 4096)\<rparr>"

definition sample_machine :: Machine where
  "sample_machine = \<lparr>im_files = Map.empty, im_reg = Map.empty, im_scripts = []\<rparr>"

definition installed_machine :: Machine where
  "installed_machine = snd (inst_install sample_install [''/S'', ''/dir=C:/s''] sample_machine)"

lemma fst_and_then [simp]: "fst (and_then r f) = None \<longleftrightarrow> fst r = None \<and> fst (f (snd r)) = None"
  by (cases r) (auto simp: and_then_def split: option.split)

lemma sample_writes: "fst (write_file sample_install p d m) = None" "fst (run_script sample_install w t m) = None"
  by (auto simp: write_file_def run_script_def sample_install_def)

lemma fst_wrapped [simp]: "fst (wrapped f r) = None \<longleftrightarrow> fst r = None"
  by (cases r) (auto simp: wrapped_def split: option.split)

lemma sample_bundle: "fst (write_bundle sample_install dir fs m) = None"
proof (induction fs arbitrary: m)
  case (Cons f fs)
  have "fst (writeBundledFile sample_install f dir m) = None"
    by (simp add: writeBundledFile_def write_file_def sample_install_def)
  then show ?case using Cons by simp
qed simp

lemma sample_values: "fst (set_values sample_install vs names m) = None"
  by (induction names arbitrary: m) (auto simp: sample_install_def split: option.split)

lemma sample_shortcuts: "fst (createStartMenuShortcut sample_install dir m) = None" "fst (createDesktopShortcut sample_install dir m) = None"
  "fst (copySelf sample_install dir m) = None" "fst (writeStamp sample_install dir m) = None"
  by (simp_all add: createStartMenuShortcut_def createDesktopShortcut_def createShortcut_def run_script_def copySelf_def
      writeStamp_def write_file_def sample_install_def)

lemma sample_registry: "fst (writeUninstallRegistry sample_install dir m) = None"
proof -
  have "ie_create_key sample_install k = None" "ie_set_value sample_install k n = None" for k n by (simp_all add: sample_install_def)
  then show ?thesis by (simp add: writeUninstallRegistry_def sample_values Let_def split: sum.split)
qed

lemma sample_steps: "fst (install_steps sample_install dir desktop m) = None"
proof -
  have "ie_mkdir sample_install dir = None" by (simp add: sample_install_def)
  then show ?thesis by (simp add: install_steps_def sample_bundle sample_shortcuts sample_registry)
qed

lemma sample_installs: "fst (inst_install sample_install [''/S'', ''/dir=C:/s''] m) = None"
proof -
  have "argValue [''/S'', ''/dir=C:/s''] ''/dir='' = ''C:/s''" by code_simp
  then have dir: "op_InstallDir (parseInstallOptions d [''/S'', ''/dir=C:/s'']) = ''C:/s''" for d
    by (simp add: parseInstallOptions_def Let_def)
  have "ie_dialog sample_install o1 = Inr (o1, True)" for o1 by (simp add: sample_install_def)
  moreover have "ie_clean sample_install (ie_expand sample_install ''C:/s'') = ''C:/s''" by (simp add: sample_install_def)
  ultimately show ?thesis using dir sample_steps by (simp add: inst_install_def backslash_def Let_def)
qed


text \<open>A directory without the stamp is never removed, and nothing of the machine changes.\<close>

lemma unstamped_refused:
  "uninstall_dir env m = Inr d \<Longrightarrow> \<not> isSafeInstallDir m (ie_clean env d) \<Longrightarrow>
   inst_uninstall env args m = (Some (Errf ''refusing to remove unexpected directory: %s'' [ie_clean env d]), m)"
  by (simp add: inst_uninstall_def Let_def)

text \<open>C37: A text that \<open>psQuote\<close> quoted is read back by PowerShell as itself, up to the closing
  quote, whatever ASCII quotes it contains, unless it contains one of the four typographic quotes
  that PowerShell takes for its own.\<close>

theorem quoted_text_reads_back:
  assumes "smart_free v" "ps_quote_at rest = 0"
  shows "ps_literal (tl (psQuote v @ rest)) = Some (v, rest)"
  using ps_literal_quoted [OF assms] by (simp add: psQuote_def)

theorem quoted_text_reads_back_witness:
  "ps_literal (tl (psQuote ''C:/Dan'' @ newline)) = Some (''C:/Dan'', newline)"
  by (rule quoted_text_reads_back) (simp_all add: ps_quote_at_def newline_def)

text \<open>A directory named with U+2019 leaves the literal, and what follows it is script.\<close>

lemma typographic_quote_escapes:
  "ps_literal (tl (psQuote (''a'' @ [CHR 0xE2, CHR 0x80, CHR 0x99] @ '';b'') @ newline)) =
     Some (''a'', '';b'' @ [CHR 0x27] @ newline)"
  by (simp add: psQuote_def ps_literal.simps ps_quote_at_def newline_def Let_def)

end
