(* ===== verification/InstallDialog.thy ===== *)
theory InstallDialog
  imports Installer
begin

text \<open>
  The dialog of the installer (\<open>client/cmd/installer/ui_windows.go\<close>): its state, the handling of
  its messages, the loop that fetches them, the choice of a folder and the desktop's directory.
  Fonts, colours and the drawing of the controls are left out; what the user does and what Windows
  answers are parameters.
\<close>

section \<open>State\<close>

text \<open>\<open>id_edit\<close> and \<open>id_check\<close> are the controls, \<open>id_quit\<close> says that
  \<open>PostQuitMessage\<close> was called, \<open>id_boxes\<close> are the texts of message boxes.\<close>

record installDialogState =
  id_defaults :: installOptions
  id_result :: installOptions
  id_accepted :: bool
  id_done :: bool
  id_edit :: string
  id_check :: bool
  id_quit :: bool
  id_boxes :: "string list"

definition idInstallDirEdit :: nat where "idInstallDirEdit = 1001"
definition idBrowseButton :: nat where "idBrowseButton = 1002"
definition idDesktopCheck :: nat where "idDesktopCheck = 1003"
definition idInstallButton :: nat where "idInstallButton = 1005"
definition idCancelButton :: nat where "idCancelButton = 1006"

lemmas id_defs = idInstallDirEdit_def idBrowseButton_def idDesktopCheck_def idInstallButton_def idCancelButton_def

text \<open>Asks to choose a directory.\<close>

definition choose_text :: string where
  "choose_text =
     [CHR 0xE8, CHR 0xAF, CHR 0xB7, CHR 0xE9, CHR 0x80, CHR 0x89, CHR 0xE6, CHR 0x8B, CHR 0xA9,
     CHR 0xE5, CHR 0xAE, CHR 0x89, CHR 0xE8, CHR 0xA3, CHR 0x85, CHR 0xE7, CHR 0x9B, CHR 0xAE,
     CHR 0xE5, CHR 0xBD, CHR 0x95, CHR 0xE3, CHR 0x80, CHR 0x82]"

section \<open>Folders\<close>

text \<open>\<open>pick\<close> is \<open>SHBrowseForFolderW\<close>, which returns nothing with the last error, if there is
  one; \<open>path_of\<close> is \<open>SHGetPathFromIDListW\<close>.\<close>

definition browseFolder ::
    "(string \<Rightarrow> string) \<Rightarrow> (string \<Rightarrow> string) \<Rightarrow> (string \<Rightarrow> string) \<Rightarrow> (string \<Rightarrow> go_error option + 'p) \<Rightarrow>
     ('p \<Rightarrow> go_error option + string) \<Rightarrow> string \<Rightarrow> (string \<times> bool) result" where
  "browseFolder expand clean base_name pick path_of initial0 =
     (let initial = clean (expand (trim_space initial0)) in
      case pick initial of
        Inl None \<Rightarrow> Inr ([], False)
      | Inl (Some e) \<Rightarrow> Inl (Wrap ''browse install directory: %w'' [] e)
      | Inr pidl \<Rightarrow>
          (case path_of pidl of
             Inl (Some e) \<Rightarrow> Inl (Wrap ''resolve selected directory: %w'' [] e)
           | Inl None \<Rightarrow> Inl (Err ''resolve selected directory failed'')
           | Inr path \<Rightarrow> Inr (if base_name (clean path) \<noteq> inst_appName then win_join path inst_appName else path, True)))"

text \<open>\<open>hex\<close> is the printed return value.\<close>

definition shellFolderPath :: "string \<Rightarrow> (int \<times> go_error option) \<times> string \<Rightarrow> string result" where
  "shellFolderPath hex answer =
     (case answer of
        ((ret, err), path) \<Rightarrow>
          if ret < 0 then Inl (case err of Some e \<Rightarrow> e | None \<Rightarrow> Errf ''SHGetFolderPathW failed: 0x%x'' [hex])
          else Inr path)"

definition desktopDir :: "string result \<Rightarrow> string \<Rightarrow> string result \<Rightarrow> string result" where
  "desktopDir shell userProfile home =
     (if is_ok shell \<and> shell \<noteq> Inr [] then shell
      else if userProfile \<noteq> [] then Inr (win_join userProfile ''Desktop'')
      else (case home of
              Inl e \<Rightarrow> Inl (Wrap ''locate desktop directory: %w'' [] e)
            | Inr h \<Rightarrow> Inr (win_join h ''Desktop'')))"

section \<open>Messages\<close>

text \<open>The user's actions on the controls, the messages of buttons and of the window, and a failing
  \<open>GetMessage\<close>.\<close>

datatype dialog_event = Typed string | Ticked bool | Pressed nat | CloseWindow | Destroyed | OtherMessage | FetchFails go_error

definition createControls :: "installDialogState \<Rightarrow> installDialogState" where
  "createControls s =
     s\<lparr>id_edit := op_InstallDir (id_defaults s), id_check := op_CreateDesktopShortcut (id_defaults s)\<rparr>"

text \<open>\<open>DestroyWindow\<close> sends \<open>WM_DESTROY\<close> to the window before it returns.\<close>

definition destroy_window :: "installDialogState \<Rightarrow> installDialogState" where
  "destroy_window s = s\<lparr>id_quit := True\<rparr>"

definition handleCommand ::
    "(string \<Rightarrow> (string \<times> bool) result) \<Rightarrow> nat \<Rightarrow> installDialogState \<Rightarrow> bool \<times> installDialogState" where
  "handleCommand browse i s =
     (if i = idBrowseButton then
        (case browse (id_edit s) of
           Inl e \<Rightarrow> (True, s\<lparr>id_boxes := id_boxes s @ [err_text e]\<rparr>)
         | Inr (selected, ok) \<Rightarrow> (True, if ok then s\<lparr>id_edit := selected\<rparr> else s))
      else if i = idInstallButton then
        (let installDir = trim_space (id_edit s) in
         if installDir = [] then (True, s\<lparr>id_boxes := id_boxes s @ [choose_text]\<rparr>)
         else (True, destroy_window
           (s\<lparr>id_result := \<lparr>op_InstallDir = installDir, op_CreateDesktopShortcut = id_check s, op_Quiet = False\<rparr>,
              id_accepted := True, id_done := True\<rparr>)))
      else if i = idCancelButton then (True, destroy_window (s\<lparr>id_accepted := False, id_done := True\<rparr>))
      else (False, s))"

fun installWindowProc :: "(string \<Rightarrow> (string \<times> bool) result) \<Rightarrow> dialog_event \<Rightarrow> installDialogState \<Rightarrow> installDialogState" where
  "installWindowProc browse (Typed t) s = s\<lparr>id_edit := t\<rparr>"
| "installWindowProc browse (Ticked b) s = s\<lparr>id_check := b\<rparr>"
| "installWindowProc browse (Pressed i) s = snd (handleCommand browse i s)"
| "installWindowProc browse CloseWindow s = destroy_window (s\<lparr>id_done := True, id_accepted := False\<rparr>)"
| "installWindowProc browse Destroyed s = s\<lparr>id_quit := True\<rparr>"
| "installWindowProc browse OtherMessage s = s"
| "installWindowProc browse (FetchFails e) s = s"

text \<open>The loop; \<open>None\<close> means that the dialog is still open after these events.  A window that was
  destroyed in another way leaves the loop by the message that \<open>PostQuitMessage\<close> posted.\<close>

fun message_loop :: "(string \<Rightarrow> (string \<times> bool) result) \<Rightarrow> dialog_event list \<Rightarrow> installDialogState \<Rightarrow>
    (go_error option \<times> installDialogState) option" where
  "message_loop browse [] s = (if id_quit s then Some (None, s) else None)"
| "message_loop browse (e # es) s =
     (case e of
        FetchFails err \<Rightarrow> Some (Some (Wrap ''read installer window message: %w'' [] err), s)
      | _ \<Rightarrow>
          (let s' = installWindowProc browse e s in
           if id_done s' then Some (None, s') else message_loop browse es s'))"

text \<open>Where the window is put on a screen of that size: centred, with Go's division.\<close>

definition dialog_place :: "int \<Rightarrow> int \<Rightarrow> int" where
  "dialog_place screen extent =
     (let d = screen - extent; x = (if d < 0 then - ((- d) div 2) else d div 2) in if x < 0 then 100 else x)"

text \<open>\<open>opens\<close> are the errors of the module, of the window's class and of the window.\<close>

definition dialog_start :: "(string \<Rightarrow> string) \<Rightarrow> installOptions \<Rightarrow> installDialogState" where
  "dialog_start clean_dir defaults =
     (let defaults = defaults\<lparr>op_InstallDir := clean_dir (op_InstallDir defaults)\<rparr> in
      createControls
        \<lparr>id_defaults = defaults, id_result = defaults, id_accepted = False, id_done = False, id_edit = [],
         id_check = False, id_quit = False, id_boxes = []\<rparr>)"

definition showInstallOptions ::
    "(string \<Rightarrow> string) \<Rightarrow> go_error option list \<Rightarrow> (string \<Rightarrow> (string \<times> bool) result) \<Rightarrow> dialog_event list \<Rightarrow>
     installOptions \<Rightarrow> (installOptions \<times> bool) result option" where
  "showInstallOptions clean_dir opens browse events defaults =
     (case find (\<lambda>e. e \<noteq> None) opens of
        Some (Some e) \<Rightarrow> Some (Inl e)
      | _ \<Rightarrow>
          (case message_loop browse events (dialog_start clean_dir defaults) of
             None \<Rightarrow> None
           | Some (Some e, _) \<Rightarrow> Some (Inl e)
           | Some (None, s) \<Rightarrow> Some (Inr (id_result s, id_accepted s))))"

section \<open>What the user sees\<close>

text \<open>The folder and the tick that the controls show after some events.\<close>

fun shown :: "(string \<Rightarrow> (string \<times> bool) result) \<Rightarrow> dialog_event list \<Rightarrow> string \<times> bool \<Rightarrow> string \<times> bool" where
  "shown browse [] v = v"
| "shown browse (Typed t # es) v = shown browse es (t, snd v)"
| "shown browse (Ticked b # es) v = shown browse es (fst v, b)"
| "shown browse (Pressed i # es) v =
     shown browse es
       (if i = idBrowseButton then (case browse (fst v) of Inr (d, True) \<Rightarrow> (d, snd v) | _ \<Rightarrow> v) else v)"
| "shown browse (e # es) v = shown browse es v"

lemma handle_open:
  assumes "handleCommand browse i s = (b, s')" "\<not> id_done s" "\<not> id_done s'"
  shows "(id_edit s', id_check s') = shown browse [Pressed i] (id_edit s, id_check s)" "id_accepted s' = id_accepted s"
    "id_result s' = id_result s" "id_quit s' = id_quit s" "id_defaults s' = id_defaults s"
  using assms by (auto simp: handleCommand_def destroy_window_def Let_def id_defs split: if_splits sum.splits prod.splits bool.splits)

lemma handle_accepts:
  assumes "handleCommand browse i s = (b, s')" "\<not> id_done s" "id_done s'"
  shows "id_accepted s' \<longleftrightarrow> i = idInstallButton" "\<not> id_accepted s' \<Longrightarrow> i = idCancelButton"
    "id_accepted s' \<Longrightarrow> trim_space (id_edit s) \<noteq> [] \<and>
      id_result s' = \<lparr>op_InstallDir = trim_space (id_edit s), op_CreateDesktopShortcut = id_check s, op_Quiet = False\<rparr>"
    "id_quit s'"
  using assms by (auto simp: handleCommand_def destroy_window_def Let_def id_defs split: if_splits sum.splits prod.splits bool.splits)

lemma shown_append: "shown browse (es @ fs) v = shown browse fs (shown browse es v)"
proof (induction es arbitrary: v)
  case (Cons e es)
  then show ?case by (cases e) auto
qed simp

lemma accepted_how:
  assumes "message_loop browse es s = Some (None, s')" "id_accepted s'" "\<not> id_done s" "\<not> id_accepted s"
  shows "\<exists>before after. es = before @ Pressed idInstallButton # after \<and>
    trim_space (fst (shown browse before (id_edit s, id_check s))) \<noteq> [] \<and>
    id_result s' = \<lparr>op_InstallDir = trim_space (fst (shown browse before (id_edit s, id_check s))),
      op_CreateDesktopShortcut = snd (shown browse before (id_edit s, id_check s)), op_Quiet = False\<rparr> \<and> id_quit s'"
  using assms
proof (induction es arbitrary: s)
  case Nil
  then show ?case by (auto split: if_splits)
next
  case (Cons e es)
  have step: "?case" if "\<not> id_done t" "\<not> id_accepted t" "message_loop browse es t = Some (None, s')"
    "(id_edit t, id_check t) = shown browse [e] (id_edit s, id_check s)" for t
  proof -
    note t = that
    obtain before after where "es = before @ Pressed idInstallButton # after"
      and r: "trim_space (fst (shown browse before (id_edit t, id_check t))) \<noteq> []"
        "id_result s' = \<lparr>op_InstallDir = trim_space (fst (shown browse before (id_edit t, id_check t))),
          op_CreateDesktopShortcut = snd (shown browse before (id_edit t, id_check t)), op_Quiet = False\<rparr>" "id_quit s'"
      using Cons.IH [OF t(3) Cons.prems(2) t(1,2)] by blast
    then have "e # es = (e # before) @ Pressed idInstallButton # after" by simp
    moreover have "shown browse (e # before) (id_edit s, id_check s) = shown browse before (id_edit t, id_check t)"
      using shown_append [of browse "[e]" before] t(4) by simp
    ultimately show ?thesis using r by metis
  qed
  show ?case
  proof (cases e)
    case (Pressed i)
    obtain b t where t: "handleCommand browse i s = (b, t)" by fastforce
    show ?thesis
    proof (cases "id_done t")
      case True
      then have "s' = t" using Cons.prems(1) by (simp add: Pressed t)
      then show ?thesis using handle_accepts [OF t Cons.prems(3) True] Cons.prems(2) Pressed
        by (intro exI [of _ "[]"] exI [of _ es]) simp
    next
      case False
      note h = handle_open [OF t Cons.prems(3) False]
      show ?thesis by (rule step [of t]) (use h False Cons.prems in \<open>simp_all add: Pressed t\<close>)
    qed
  next
    case (Typed x)
    show ?thesis by (rule step [of "s\<lparr>id_edit := x\<rparr>"]) (use Cons.prems in \<open>simp_all add: Typed\<close>)
  next
    case (Ticked x)
    show ?thesis by (rule step [of "s\<lparr>id_check := x\<rparr>"]) (use Cons.prems in \<open>simp_all add: Ticked\<close>)
  next
    case CloseWindow
    then show ?thesis using Cons.prems by (auto simp: destroy_window_def)
  next
    case Destroyed
    show ?thesis by (rule step [of "s\<lparr>id_quit := True\<rparr>"]) (use Cons.prems in \<open>simp_all add: Destroyed\<close>)
  next
    case OtherMessage
    show ?thesis by (rule step [of s]) (use Cons.prems in \<open>simp_all add: OtherMessage\<close>)
  qed (use Cons.prems in simp)
qed

section \<open>Properties\<close>

text \<open>C40: The dialog gives what was shown: when it reports an accepted choice, the install button was
  pressed, and the choice is the folder and the tick that the controls showed at that moment, the
  folder without surrounding space and not empty, never a quiet installation.\<close>

theorem dialog_gives_what_was_shown:
  assumes "showInstallOptions clean_dir opens browse events defaults = Some (Inr (opts, True))"
  shows "\<exists>before after d. events = before @ Pressed idInstallButton # after \<and>
    shown browse before (clean_dir (op_InstallDir defaults), op_CreateDesktopShortcut defaults) = (d, op_CreateDesktopShortcut opts) \<and>
    op_InstallDir opts = trim_space d \<and> op_InstallDir opts \<noteq> [] \<and> \<not> op_Quiet opts"
proof -
  let ?s = "dialog_start clean_dir defaults"
  obtain s' where l: "message_loop browse events ?s = Some (None, s')" "id_result s' = opts" "id_accepted s'"
    using assms by (auto simp: showInstallOptions_def split: option.splits prod.splits)
  have s: "\<not> id_done ?s" "\<not> id_accepted ?s" "id_edit ?s = clean_dir (op_InstallDir defaults)"
    "id_check ?s = op_CreateDesktopShortcut defaults"
    by (simp_all add: dialog_start_def createControls_def Let_def)
  obtain before after where "events = before @ Pressed idInstallButton # after"
    "trim_space (fst (shown browse before (id_edit ?s, id_check ?s))) \<noteq> []"
    "id_result s' = \<lparr>op_InstallDir = trim_space (fst (shown browse before (id_edit ?s, id_check ?s))),
      op_CreateDesktopShortcut = snd (shown browse before (id_edit ?s, id_check ?s)), op_Quiet = False\<rparr>"
    using accepted_how [OF l(1,3) s(1,2)] by blast
  then show ?thesis using l(2) s(3,4) by (intro exI [of _ before] exI [of _ after]) (auto simp: prod_eq_iff)
qed

definition sample_events :: "dialog_event list" where
  "sample_events = [Typed '' '', Pressed idInstallButton, Ticked False, Typed ''C:/s'', Pressed idInstallButton]"

definition sample_defaults :: installOptions where
  "sample_defaults = \<lparr>op_InstallDir = ''C:/p'', op_CreateDesktopShortcut = True, op_Quiet = False\<rparr>"

theorem dialog_gives_what_was_shown_witness:
  "\<exists>opts. showInstallOptions id [] (\<lambda>_. Inr ([], False)) sample_events sample_defaults = Some (Inr (opts, True)) \<and>
     op_InstallDir opts \<noteq> [] \<and> \<not> op_Quiet opts"
proof -
  let ?o = "\<lparr>op_InstallDir = ''C:/s'', op_CreateDesktopShortcut = False, op_Quiet = False\<rparr>"
  have a: "showInstallOptions id [] (\<lambda>_. Inr ([], False)) sample_events sample_defaults = Some (Inr (?o, True))" by code_simp
  show ?thesis using dialog_gives_what_was_shown [OF a] a by blast
qed

text \<open>A chosen folder is one named after the application.\<close>

lemma browsed_folder_named:
  assumes "browseFolder expand clean base_name pick path_of initial = Inr (path, True)"
    and "\<And>d. base_name (clean (win_join d inst_appName)) = inst_appName"
  shows "base_name (clean path) = inst_appName"
  using assms by (auto simp: browseFolder_def Let_def split: sum.splits option.splits if_splits)

text \<open>Closing the window or cancelling installs nothing.\<close>

lemma cancelled_dialog:
  "find (\<lambda>e. e \<noteq> None) opens = None \<Longrightarrow>
   showInstallOptions clean_dir opens browse [Pressed idCancelButton] defaults =
     Some (Inr (defaults\<lparr>op_InstallDir := clean_dir (op_InstallDir defaults)\<rparr>, False))"
  by (simp add: showInstallOptions_def dialog_start_def createControls_def handleCommand_def destroy_window_def Let_def id_defs)

lemma dialog_on_screen: "0 \<le> screen \<Longrightarrow> 0 \<le> dialog_place screen extent"
  by (simp add: dialog_place_def Let_def)

end
