(* ===== verification/MobileBridge.thy ===== *)
theory MobileBridge
  imports CoreBatch SSHSession
begin

text \<open>
  The JSON bridge of the Android library (\<open>client/mobilecore/mobilecore.go\<close>): the values
  of a decoded request, the helpers that read its fields, and the answers.  Decoding a value
  into a Go type, \<open>float64\<close> arithmetic and the formatting of times are parameters.
\<close>

section \<open>Requests\<close>

text \<open>
  What \<open>encoding/json\<close> stores in an \<open>any\<close>; \<open>'f\<close> is \<open>float64\<close>.  The
  decoder makes neither an \<open>int\<close> nor a \<open>json.Number\<close>, so these cases of
  \<open>asIntDefault\<close> never apply.  A request is a map or \<open>nil\<close>.
\<close>

datatype 'f any_value =
    ANil
  | ABool bool
  | ANumber 'f
  | AString string
  | AArray "'f any_value list"
  | AObject "(string \<times> 'f any_value) list"

type_synonym 'f payload = "(string \<times> 'f any_value) list option"

definition data_field :: "'f payload \<Rightarrow> string \<Rightarrow> 'f any_value option" where
  "data_field data key = (case data of None \<Rightarrow> None | Some m \<Rightarrow> map_of m key)"

definition asString :: "'f payload \<Rightarrow> string \<Rightarrow> string" where
  "asString data key = (case data_field data key of Some (AString s) \<Rightarrow> s | _ \<Rightarrow> [])"

definition asStringDefault :: "'f payload \<Rightarrow> string \<Rightarrow> string \<Rightarrow> string" where
  "asStringDefault data key fallback = (let v = asString data key in if v \<noteq> [] then v else fallback)"

definition asIntDefault :: "('f \<Rightarrow> int) \<Rightarrow> 'f payload \<Rightarrow> string \<Rightarrow> int \<Rightarrow> int" where
  "asIntDefault trunc data key fallback =
     (case data_field data key of Some (ANumber x) \<Rightarrow> trunc x | _ \<Rightarrow> fallback)"

definition asBoolDefault :: "'f payload \<Rightarrow> string \<Rightarrow> bool \<Rightarrow> bool" where
  "asBoolDefault data key fallback =
     (case data_field data key of
        Some (ABool b) \<Rightarrow> b
      | Some (AString s) \<Rightarrow>
          if s \<in> {''true'', ''1'', ''yes'', ''on''} then True
          else if s \<in> {''false'', ''0'', ''no'', ''off''} then False
          else fallback
      | _ \<Rightarrow> fallback)"

definition asStringSlice :: "'f payload \<Rightarrow> string \<Rightarrow> string list" where
  "asStringSlice data key =
     (case data_field data key of
        Some (AArray raw) \<Rightarrow> List.map_filter (\<lambda>x. case x of AString s \<Rightarrow> if s \<noteq> [] then Some s else None | _ \<Rightarrow> None) raw
      | _ \<Rightarrow> [])"

text \<open>Durations in nanoseconds.\<close>

definition timeoutFromPayload :: "('f \<Rightarrow> int) \<Rightarrow> 'f payload \<Rightarrow> int \<Rightarrow> int" where
  "timeoutFromPayload trunc data fallback =
     (let ms = asIntDefault trunc data ''timeout_ms'' 0
      in if ms \<le> 0 then fallback else wrap64 (ms * 1000000))"

definition decodeField :: "('f any_value \<Rightarrow> 'a result) \<Rightarrow> 'f payload \<Rightarrow> string \<Rightarrow> 'a result" where
  "decodeField decodeValue data key =
     (case data_field data key of
        None \<Rightarrow> Inl (Errf ''%s is required'' [key])
      | Some raw \<Rightarrow> decodeValue raw)"

section \<open>Answers\<close>

datatype answer_value =
    VNull
  | VText string
  | VInt int
  | VCount u64
  | VBool bool
  | VTunnels "TunnelCfg list"
  | VNodes "ProxyNode list"
  | VRules "ProxyRule list"
  | VConfig fields
  | VResult TestResult
  | VResults "TestResult list"
  | VItems "(string \<times> answer_value) list list"

type_synonym answer_data = "(string \<times> answer_value) list"

datatype answer = Answer answer_data | Refusal string string

definition failCode :: "string \<Rightarrow> string \<Rightarrow> answer" where
  "failCode code message = Refusal code message"

definition answer_fail :: "string \<Rightarrow> go_error \<Rightarrow> answer" where
  "answer_fail code err = failCode code (err_text err)"

text \<open>\<open>marshal\<close>: the error of \<open>json.Marshal\<close>, which some \<open>float64\<close> values bring.\<close>

definition answer_ok :: "(answer_data \<Rightarrow> go_error option) \<Rightarrow> answer_data \<Rightarrow> answer" where
  "answer_ok marshal data =
     (case marshal data of None \<Rightarrow> Answer data | Some e \<Rightarrow> answer_fail ''marshal'' e)"

text \<open>
  What the bridge uses of \<open>encoding/json\<close>, of \<open>float64\<close> and of \<open>time\<close>; the rules come
  with what was decoded before an error.
\<close>

record 'f bridge =
  br_payload :: "string \<Rightarrow> 'f payload result"
  br_tunnel :: "'f any_value \<Rightarrow> TunnelCfg result"
  br_node :: "'f any_value \<Rightarrow> ProxyNode result"
  br_nodes :: "'f any_value \<Rightarrow> ProxyNode list result"
  br_rules :: "'f any_value \<Rightarrow> ProxyRule list option \<times> go_error option"
  br_ssh :: "'f any_value \<Rightarrow> SessionConfig result"
  br_marshal :: "answer_data \<Rightarrow> go_error option"
  br_trunc :: "'f \<Rightarrow> int"
  br_rate :: "u64 \<Rightarrow> int \<Rightarrow> u64"
  br_seconds :: "int \<Rightarrow> int"
  br_rfc3339 :: "int \<Rightarrow> string"

lemma request_simps [simp]:
  "asString None k = []" "asIntDefault trunc None k d = d" "asBoolDefault None k b = b" "asStringSlice None k = []"
  "asStringDefault None k s = s" "decodeField dec None k = Inl (Errf ''%s is required'' [k])"
  by (simp_all add: asString_def asIntDefault_def asBoolDefault_def asStringSlice_def asStringDefault_def decodeField_def data_field_def)

lemma asStringDefault_nonempty: "d \<noteq> [] \<Longrightarrow> asStringDefault data k d \<noteq> []"
  by (simp add: asStringDefault_def Let_def)

end
