(* ===== verification/MobileVPN.thy ===== *)
theory MobileVPN
  imports MobileBridge
begin

text \<open>
  The VPNs of the Android library (\<open>client/mobilecore/vpn_android.go\<close>): the object a
  \<open>Core\<close> holds, the calls that start and stop it, the goroutine that keeps a SafeLink VPN
  connected, and the file descriptors they close.  The copying loops are in \<open>Frame\<close>, the
  authentication texts in \<open>VPNAuth\<close>.  QUIC, tun2socks and the operating system are parameters.
\<close>

section \<open>State\<close>

text \<open>
  A \<open>mobileVPN\<close> is shared by reference, so it lives in a heap.  \<open>mv_cancel\<close> tells whether
  the cancel function is set, \<open>mv_tunnel\<close> is the tun2socks tunnel; times are nanoseconds, the
  zero time is \<open>None\<close>.
\<close>

record mobileVPN =
  mv_name :: string
  mv_kind :: string
  mv_cancel :: bool
  mv_tunnel :: "nat option"
  mv_fd :: int
  mv_state :: string
  mv_lastError :: string
  mv_startedAt :: int
  mv_bytesIn :: u64
  mv_bytesOut :: u64
  mv_sampledAt :: "int option"
  mv_sampledIn :: u64
  mv_sampledOut :: u64
  mv_downSpeedBps :: u64
  mv_upSpeedBps :: u64

text \<open>
  What is closed and by whom: a descriptor of a refused request, of a stopped VPN, or of the
  \<open>os.File\<close> a goroutine holds; or a tun2socks tunnel.
\<close>

datatype fd_act = CloseRefused int | CloseStopped nat int | CloseTun nat int | Disconnect nat

text \<open>
  \<open>vc_runs\<close>: the VPNs whose goroutine runs, with the descriptor of its \<open>os.File\<close>;
  \<open>vc_cancelled\<close>: those whose context ended; \<open>vc_open\<close>: the open descriptors of the process
  and what they are; \<open>vc_tunnels\<close>: the connected tun2socks tunnels.
\<close>

record MobileVPNs =
  vc_heap :: "nat \<Rightarrow> mobileVPN"
  vc_next :: nat
  vc_vpn :: "nat option"
  vc_runs :: "(nat \<times> int) list"
  vc_cancelled :: "nat \<Rightarrow> bool"
  vc_open :: "int \<rightharpoonup> string"
  vc_tunnels :: "nat list"
  vc_acts :: "fd_act list"

definition upd_vpn :: "nat \<Rightarrow> (mobileVPN \<Rightarrow> mobileVPN) \<Rightarrow> MobileVPNs \<Rightarrow> MobileVPNs" where
  "upd_vpn i f s = s\<lparr>vc_heap := (vc_heap s)(i := f (vc_heap s i))\<rparr>"

text \<open>\<open>close(2)\<close>: whatever the number names is closed, and nothing if it names nothing.\<close>

definition close_number :: "int \<Rightarrow> fd_act \<Rightarrow> MobileVPNs \<Rightarrow> MobileVPNs" where
  "close_number fd act s = s\<lparr>vc_open := (vc_open s)(fd := None), vc_acts := vc_acts s @ [act]\<rparr>"

definition new_vpn :: "string \<Rightarrow> string \<Rightarrow> bool \<Rightarrow> nat option \<Rightarrow> int \<Rightarrow> string \<Rightarrow> int \<Rightarrow> mobileVPN" where
  "new_vpn name kind cancel tunnel fd state now =
     \<lparr>mv_name = name, mv_kind = kind, mv_cancel = cancel, mv_tunnel = tunnel, mv_fd = fd, mv_state = state,
      mv_lastError = [], mv_startedAt = now, mv_bytesIn = 0, mv_bytesOut = 0, mv_sampledAt = None,
      mv_sampledIn = 0, mv_sampledOut = 0, mv_downSpeedBps = 0, mv_upSpeedBps = 0\<rparr>"

definition register_vpn :: "mobileVPN \<Rightarrow> MobileVPNs \<Rightarrow> MobileVPNs" where
  "register_vpn v s = s\<lparr>vc_heap := (vc_heap s)(vc_next s := v), vc_vpn := Some (vc_next s), vc_next := vc_next s + 1\<rparr>"

section \<open>Traffic\<close>

definition diffBytes :: "u64 \<Rightarrow> u64 \<Rightarrow> u64" where
  "diffBytes current previous = (if current < previous then 0 else current - previous)"

text \<open>
  The results are bytes in and out and the two rates.  \<open>rate b t\<close> is \<open>b\<close> bytes over
  \<open>t\<close> nanoseconds in \<open>float64\<close> seconds; intervals below 0.2 s keep the last rates.
\<close>

definition sampleTraffic :: "(u64 \<Rightarrow> int \<Rightarrow> u64) \<Rightarrow> int \<Rightarrow> mobileVPN \<Rightarrow> (u64 \<times> u64 \<times> u64 \<times> u64) \<times> mobileVPN" where
  "sampleTraffic rate now v =
     (let i = mv_bytesIn v; o1 = mv_bytesOut v in
      case mv_sampledAt v of
        None \<Rightarrow> ((i, o1, 0, 0), v\<lparr>mv_sampledAt := Some now, mv_sampledIn := i, mv_sampledOut := o1\<rparr>)
      | Some at \<Rightarrow>
          (let elapsed = now - at in
           if elapsed < 200000000 then ((i, o1, mv_downSpeedBps v, mv_upSpeedBps v), v)
           else (let down = rate (diffBytes i (mv_sampledIn v)) elapsed;
                     up = rate (diffBytes o1 (mv_sampledOut v)) elapsed
                 in ((i, o1, down, up),
                     v\<lparr>mv_downSpeedBps := down, mv_upSpeedBps := up, mv_sampledAt := Some now,
                       mv_sampledIn := i, mv_sampledOut := o1\<rparr>))))"

section \<open>Calls\<close>

definition stopMobileVPN :: "nat \<Rightarrow> MobileVPNs \<Rightarrow> MobileVPNs" where
  "stopMobileVPN i s =
     (let s1 = (if mv_cancel (vc_heap s i)
                then upd_vpn i (\<lambda>v. v\<lparr>mv_cancel := False\<rparr>) (s\<lparr>vc_cancelled := (vc_cancelled s)(i := True)\<rparr>) else s);
          s2 = (case mv_tunnel (vc_heap s1 i) of
                  None \<Rightarrow> s1
                | Some t \<Rightarrow> upd_vpn i (\<lambda>v. v\<lparr>mv_tunnel := None\<rparr>)
                    (s1\<lparr>vc_tunnels := removeAll t (vc_tunnels s1), vc_acts := vc_acts s1 @ [Disconnect t]\<rparr>));
          fd = mv_fd (vc_heap s2 i);
          s3 = (if fd \<ge> 0 then upd_vpn i (\<lambda>v. v\<lparr>mv_fd := - 1\<rparr>) (close_number fd (CloseStopped i fd) s2) else s2)
      in upd_vpn i (\<lambda>v. v\<lparr>mv_state := ''stopped''\<rparr>) s3)"

definition stop_current :: "MobileVPNs \<Rightarrow> MobileVPNs" where
  "stop_current s = (case vc_vpn s of None \<Rightarrow> s | Some i \<Rightarrow> stopMobileVPN i s)"

definition startVPNFromFD :: "'f bridge \<Rightarrow> int \<Rightarrow> 'f payload \<Rightarrow> MobileVPNs \<Rightarrow> answer \<times> MobileVPNs" where
  "startVPNFromFD br now data s =
     (let fd = asIntDefault (br_trunc br) data ''fd'' (- 1) in
      if fd < 0 then (failCode ''bad_request'' ''fd is required'', s)
      else (let refused = close_number fd (CloseRefused fd) s in
        case decodeField (br_tunnel br) data ''tunnel'' of
          Inl e \<Rightarrow> (answer_fail ''bad_tunnel'' e, refused)
        | Inr cfg \<Rightarrow>
            if t_Mode cfg \<noteq> ModeVPN then (failCode ''bad_tunnel'' ''only vpn mode can use startVPNFromFD'', refused)
            else (case ValidateTunnel cfg of
              Some e \<Rightarrow> (answer_fail ''validate_tunnel'' e, refused)
            | None \<Rightarrow>
                let s1 = stop_current s; i = vc_next s1;
                    s2 = register_vpn (new_vpn (t_Name cfg) ''safelink-vpn'' True None fd ''connecting'' now) s1
                in (answer_ok (br_marshal br) [(''state'', VText ''connecting''), (''name'', VText (t_Name cfg))],
                    s2\<lparr>vc_runs := (i, fd) # vc_runs s2\<rparr>))))"

text \<open>The last critical section of \<open>startTun2SocksFromFD\<close>, with \<open>tunnel\<close> connected before it.\<close>

definition t2s_registers :: "string \<Rightarrow> int \<Rightarrow> int \<Rightarrow> nat \<Rightarrow> MobileVPNs \<Rightarrow> MobileVPNs" where
  "t2s_registers name fd now tunnel s = register_vpn (new_vpn name ''proxy-vpn'' False (Some tunnel) fd ''running'' now) s"

definition t2s_connects :: "nat \<Rightarrow> MobileVPNs \<Rightarrow> MobileVPNs" where
  "t2s_connects tunnel s = s\<lparr>vc_tunnels := tunnel # vc_tunnels s\<rparr>"

text \<open>\<open>nonblock\<close> is the answer of \<open>SetNonblock\<close>, \<open>connect\<close> that of \<open>ConnectSocksTunnel\<close>.\<close>

definition startTun2SocksFromFD ::
  "'f bridge \<Rightarrow> go_error option \<Rightarrow> (int \<Rightarrow> string \<Rightarrow> int \<Rightarrow> bool \<Rightarrow> nat result) \<Rightarrow> int \<Rightarrow> 'f payload \<Rightarrow> MobileVPNs \<Rightarrow> answer \<times> MobileVPNs" where
  "startTun2SocksFromFD br nonblock connect now data s =
     (let fd = asIntDefault (br_trunc br) data ''fd'' (- 1) in
      if fd < 0 then (failCode ''bad_request'' ''fd is required'', s)
      else (let name = asStringDefault data ''name'' ''Proxy VPN'';
                host = asStringDefault data ''socks_host'' ''127.0.0.1'';
                port = asIntDefault (br_trunc br) data ''socks_port'' 10808;
                refused = close_number fd (CloseRefused fd) in
        if port \<le> 0 \<or> port > 65535
        then (failCode ''bad_request'' ''socks_port must be between 1 and 65535'', refused s)
        else (case nonblock of
          Some e \<Rightarrow> (answer_fail ''tun_fd_blocking'' e, refused s)
        | None \<Rightarrow>
            (let s1 = stop_current s in
             case connect fd host port (asBoolDefault data ''udp'' True) of
               Inl e \<Rightarrow> (answer_fail ''start_tun2socks'' e, refused s1)
             | Inr t \<Rightarrow>
                 (answer_ok (br_marshal br) [(''state'', VText ''running''), (''name'', VText name),
                    (''socks_host'', VText host), (''socks_port'', VInt port)],
                  t2s_registers name fd now t (t2s_connects t s1))))))"

definition stopVPN :: "'f bridge \<Rightarrow> MobileVPNs \<Rightarrow> answer \<times> MobileVPNs" where
  "stopVPN br s = (answer_ok (br_marshal br) [(''state'', VText ''stopped'')], stop_current s)"

definition vpnStatus :: "'f bridge \<Rightarrow> int \<Rightarrow> MobileVPNs \<Rightarrow> answer \<times> MobileVPNs" where
  "vpnStatus br now s =
     (case vc_vpn s of
        None \<Rightarrow> (answer_ok (br_marshal br) [(''state'', VText ''stopped'')], s)
      | Some i \<Rightarrow>
          (case sampleTraffic (br_rate br) now (vc_heap s i) of
             ((bytesIn, bytesOut, downloadBps, uploadBps), v) \<Rightarrow>
               (answer_ok (br_marshal br)
                  [(''name'', VText (mv_name v)), (''kind'', VText (mv_kind v)), (''state'', VText (mv_state v)),
                   (''last_error'', VText (mv_lastError v)), (''started_at'', VText (br_rfc3339 br (mv_startedAt v))),
                   (''bytes_in'', VCount bytesIn), (''bytes_out'', VCount bytesOut),
                   (''upload_total_bytes'', VCount bytesOut), (''download_total_bytes'', VCount bytesIn),
                   (''upload_speed_bps'', VCount uploadBps), (''download_speed_bps'', VCount downloadBps),
                   (''uptime_secs'', VInt (br_seconds br (now - mv_startedAt v)))],
                upd_vpn i (\<lambda>_. v) s)))"

section \<open>The goroutine of a SafeLink VPN\<close>

definition setVPNState :: "nat \<Rightarrow> string \<Rightarrow> go_error option \<Rightarrow> MobileVPNs \<Rightarrow> MobileVPNs" where
  "setVPNState i state err =
     upd_vpn i (\<lambda>v. v\<lparr>mv_state := state,
       mv_lastError := (case err of Some e \<Rightarrow> err_text e | None \<Rightarrow> if state = ''running'' then [] else mv_lastError v)\<rparr>)"

text \<open>The deferred calls, in their order: the state first, then the file.\<close>

definition run_ends :: "nat \<Rightarrow> int \<Rightarrow> MobileVPNs \<Rightarrow> MobileVPNs" where
  "run_ends i fd s =
     (let s1 = (if vc_vpn s = Some i then upd_vpn i (\<lambda>v. v\<lparr>mv_state := ''stopped'', mv_cancel := False\<rparr>) s else s)
      in close_number fd (CloseTun i fd) (s1\<lparr>vc_runs := remove1 (i, fd) (vc_runs s1)\<rparr>))"

text \<open>
  The answers one session gets: opening the control stream, the write, one read into a
  128-byte buffer, opening the data stream, and whether the context ended before both copying
  loops did.
\<close>

record session_env =
  an_ctl :: "unit result"
  an_write :: "go_error option"
  an_read :: "string \<times> go_error option"
  an_stream :: "unit result"
  an_done :: "go_error option"

definition authenticateVPN :: "session_env \<Rightarrow> TunnelCfg \<Rightarrow> string list \<times> go_error option" where
  "authenticateVPN env cfg =
     (case an_ctl env of
        Inl e \<Rightarrow> ([], Some (Wrap ''open auth stream: %w'' [] e))
      | Inr _ \<Rightarrow>
          (let req = auth_request (ssh_User (t_SSH cfg)) (ssh_Password (t_SSH cfg)) in
           case an_write env of
             Some e \<Rightarrow> ([], Some (Wrap ''auth send: %w'' [] e))
           | None \<Rightarrow>
               (case an_read env of (resp, err) \<Rightarrow>
                  ([req], (case (err, resp) of
                             (Some e, []) \<Rightarrow> Some (Wrap ''auth response: %w'' [] e)
                           | _ \<Rightarrow> if android_accepts resp then None else Some (Errf ''auth rejected: %s'' [resp]))))))"

datatype android_act = Become string "go_error option" | DialTo string TLSOpts | SendText string | Pause int

definition dial_target :: "TunnelCfg \<Rightarrow> string \<times> TLSOpts" where
  "dial_target cfg =
     (if t_Forward cfg = [] then ssh_Addr (t_SSH cfg) else t_Forward cfg,
      \<lparr>to_CertFile = [], to_KeyFile = [], to_SNI = tun_SNI (t_Tun cfg), to_PinSHA256 = tun_PinSHA256 (t_Tun cfg)\<rparr>)"

definition runVPNSession ::
  "(string \<Rightarrow> TLSOpts \<Rightarrow> unit result) \<Rightarrow> session_env \<Rightarrow> TunnelCfg \<Rightarrow> android_act list \<times> go_error option" where
  "runVPNSession dial env cfg =
     (case dial_target cfg of (addr, opts) \<Rightarrow>
        let start = [Become ''connecting'' None, DialTo addr opts] in
        case dial addr opts of
          Inl e \<Rightarrow> (start, Some e)
        | Inr _ \<Rightarrow>
            (case authenticateVPN env cfg of
               (sent, Some e) \<Rightarrow> (start @ map SendText sent, Some e)
             | (sent, None) \<Rightarrow>
                 (case an_stream env of
                    Inl e \<Rightarrow> (start @ map SendText sent, Some (Wrap ''open data stream: %w'' [] e))
                  | Inr _ \<Rightarrow>
                      (start @ map SendText sent @ [Become ''running'' None],
                       Some (case an_done env of None \<Rightarrow> External ''EOF'' | Some e \<Rightarrow> e)))))"

text \<open>One turn of \<open>runVPN\<close>: is the context live, what the session met, does the timer fire first.\<close>

record android_turn =
  at_live :: bool
  at_dial :: "string \<Rightarrow> TLSOpts \<Rightarrow> unit result"
  at_env :: session_env
  at_timer :: bool

definition android_second :: int where "android_second = 1000000000"

definition android_next :: "int \<Rightarrow> int" where
  "android_next backoff = (let b = wrap64 (backoff * 2) in if b > 60 * android_second then 60 * android_second else b)"

fun runVPN_loop :: "TunnelCfg \<Rightarrow> int \<Rightarrow> android_turn list \<Rightarrow> android_act list" where
  "runVPN_loop cfg backoff [] = []"
| "runVPN_loop cfg backoff (t # ts) =
     (if \<not> at_live t then []
      else (case runVPNSession (at_dial t) (at_env t) cfg of
        (acts, Some e) \<Rightarrow>
          acts @ [Become ''reconnecting'' (Some e), Pause backoff] @
          (if at_timer t then runVPN_loop cfg (android_next backoff) ts else [])
      | (acts, None) \<Rightarrow> acts @ runVPN_loop cfg android_second ts))"

definition runVPN :: "TunnelCfg \<Rightarrow> android_turn list \<Rightarrow> android_act list" where
  "runVPN cfg ts = runVPN_loop cfg android_second ts"

section \<open>The life of a VPN object\<close>

definition closings :: "nat \<Rightarrow> fd_act list \<Rightarrow> fd_act list" where
  "closings i acts = filter (\<lambda>a. case a of CloseStopped j fd \<Rightarrow> j = i | CloseTun j fd \<Rightarrow> j = i | _ \<Rightarrow> False) acts"

lemma closings_simps [simp]:
  "closings i [] = []"
  "closings i (as @ bs) = closings i as @ closings i bs"
  "closings i (CloseRefused fd # as) = closings i as"
  "closings i (Disconnect t # as) = closings i as"
  "closings i (CloseStopped j fd # as) = (if j = i then CloseStopped j fd # closings i as else closings i as)"
  "closings i (CloseTun j fd # as) = (if j = i then CloseTun j fd # closings i as else closings i as)"
  by (simp_all add: closings_def)

lemma upd_vpn_simps [simp]:
  "vc_heap (upd_vpn i f s) = (vc_heap s)(i := f (vc_heap s i))"
  "vc_next (upd_vpn i f s) = vc_next s" "vc_vpn (upd_vpn i f s) = vc_vpn s" "vc_runs (upd_vpn i f s) = vc_runs s"
  "vc_cancelled (upd_vpn i f s) = vc_cancelled s" "vc_open (upd_vpn i f s) = vc_open s"
  "vc_tunnels (upd_vpn i f s) = vc_tunnels s" "vc_acts (upd_vpn i f s) = vc_acts s"
  by (simp_all add: upd_vpn_def)

lemma close_number_simps [simp]:
  "vc_heap (close_number fd a s) = vc_heap s" "vc_next (close_number fd a s) = vc_next s"
  "vc_vpn (close_number fd a s) = vc_vpn s" "vc_runs (close_number fd a s) = vc_runs s"
  "vc_cancelled (close_number fd a s) = vc_cancelled s" "vc_tunnels (close_number fd a s) = vc_tunnels s"
  "vc_acts (close_number fd a s) = vc_acts s @ [a]" "vc_open (close_number fd a s) = (vc_open s)(fd := None)"
  by (simp_all add: close_number_def)

lemma stop_effect:
  "vc_heap (stopMobileVPN i s) = (vc_heap s)(i := (vc_heap s i)\<lparr>mv_cancel := False, mv_tunnel := None,
     mv_fd := (if mv_fd (vc_heap s i) \<ge> 0 then - 1 else mv_fd (vc_heap s i)), mv_state := ''stopped''\<rparr>)"
  "vc_next (stopMobileVPN i s) = vc_next s" "vc_vpn (stopMobileVPN i s) = vc_vpn s"
  "vc_runs (stopMobileVPN i s) = vc_runs s"
  "vc_cancelled (stopMobileVPN i s) = (if mv_cancel (vc_heap s i) then (vc_cancelled s)(i := True) else vc_cancelled s)"
  "vc_tunnels (stopMobileVPN i s) = (case mv_tunnel (vc_heap s i) of None \<Rightarrow> vc_tunnels s | Some t \<Rightarrow> removeAll t (vc_tunnels s))"
  "closings j (vc_acts (stopMobileVPN i s)) = closings j (vc_acts s) @
     (if j = i \<and> mv_fd (vc_heap s i) \<ge> 0 then [CloseStopped i (mv_fd (vc_heap s i))] else [])"
  by (auto simp: stopMobileVPN_def Let_def fun_eq_iff split: option.splits)

text \<open>
  What holds of a registered object: while its goroutine runs and was not cancelled it is the
  current one and holds its descriptor; from then on the descriptor is given up.
\<close>

definition ended_closings :: "nat \<Rightarrow> mobileVPN \<Rightarrow> fd_act list \<Rightarrow> bool" where
  "ended_closings i v cs \<longleftrightarrow>
     (\<exists>fd. cs = (if mv_kind v = ''safelink-vpn'' then [CloseStopped i fd, CloseTun i fd] else [CloseStopped i fd]))"

definition vpn_life :: "MobileVPNs \<Rightarrow> nat \<Rightarrow> bool" where
  "vpn_life s i \<longleftrightarrow>
     (let v = vc_heap s i; cs = closings i (vc_acts s) in
      (case map_of (vc_runs s) i of
         Some fd \<Rightarrow>
           mv_kind v = ''safelink-vpn'' \<and> mv_tunnel v = None \<and>
           (if vc_cancelled s i then mv_fd v < 0 \<and> \<not> mv_cancel v \<and> cs = [CloseStopped i fd]
            else mv_fd v = fd \<and> 0 \<le> fd \<and> mv_cancel v \<and> vc_vpn s = Some i \<and> cs = [])
       | None \<Rightarrow>
           \<not> mv_cancel v \<and>
           (if mv_fd v \<ge> 0 then vc_vpn s = Some i \<and> cs = [] \<and> mv_kind v \<noteq> ''safelink-vpn''
            else mv_tunnel v = None \<and> ended_closings i v cs)))"

definition vpns_inv :: "MobileVPNs \<Rightarrow> bool" where
  "vpns_inv s \<longleftrightarrow>
     (\<forall>i<vc_next s. vpn_life s i) \<and> (\<forall>i\<ge>vc_next s. closings i (vc_acts s) = [] \<and> \<not> vc_cancelled s i) \<and>
     distinct (map fst (vc_runs s)) \<and> (\<forall>(i, fd)\<in>list.set (vc_runs s). i < vc_next s) \<and>
     (case vc_vpn s of None \<Rightarrow> vc_tunnels s = []
      | Some i \<Rightarrow> i < vc_next s \<and> (\<forall>t\<in>list.set (vc_tunnels s). mv_tunnel (vc_heap s i) = Some t))"

definition vpns_init :: "MobileVPNs \<Rightarrow> bool" where
  "vpns_init s \<longleftrightarrow> vc_next s = 0 \<and> vc_vpn s = None \<and> vc_runs s = [] \<and> vc_cancelled s = (\<lambda>_. False) \<and>
     vc_tunnels s = [] \<and> vc_acts s = []"

lemma inv_vpns_init: "vpns_init s \<Longrightarrow> vpns_inv s"
  by (simp add: vpns_init_def vpns_inv_def)

text \<open>A step that touches one object, or none, keeps the life of the others.\<close>

lemma life_cong:
  assumes "vc_heap s' i = vc_heap s i" "map_of (vc_runs s') i = map_of (vc_runs s) i"
    "vc_cancelled s' i = vc_cancelled s i" "vc_vpn s' = vc_vpn s"
    "closings i (vc_acts s') = closings i (vc_acts s)"
  shows "vpn_life s' i = vpn_life s i"
  unfolding vpn_life_def assms ..

text \<open>Only an object that is not current may stay behind when another becomes current.\<close>

lemma life_left:
  assumes "vpn_life s i" "vc_heap s' i = vc_heap s i" "map_of (vc_runs s') i = map_of (vc_runs s) i"
    "vc_cancelled s' i = vc_cancelled s i" "closings i (vc_acts s') = closings i (vc_acts s)"
    "mv_fd (vc_heap s i) < 0"
  shows "vpn_life s' i"
  using assms by (auto simp: vpn_life_def Let_def split: option.splits if_splits)

lemma stop_life:
  assumes "vpn_life s i" "vc_vpn s = Some i"
  shows "vpn_life (stopMobileVPN i s) i"
  using assms by (auto simp: vpn_life_def Let_def stop_effect ended_closings_def split: option.splits if_splits)

lemma inv_stop_current:
  assumes "vpns_inv s"
  shows "vpns_inv (stop_current s)"
proof (cases "vc_vpn s")
  case None
  then show ?thesis using assms by (simp add: stop_current_def)
next
  case (Some i)
  let ?s = "stopMobileVPN i s"
  have i: "i < vc_next s" and life: "\<And>j. j < vc_next s \<Longrightarrow> vpn_life s j"
    and fresh: "\<And>j. j \<ge> vc_next s \<Longrightarrow> closings j (vc_acts s) = [] \<and> \<not> vc_cancelled s j"
    using assms Some by (auto simp: vpns_inv_def)
  have "vpn_life ?s j" if "j < vc_next s" for j
  proof (cases "j = i")
    case True
    then show ?thesis using stop_life [OF life [OF i] Some] by simp
  next
    case False
    then show ?thesis using life_cong [of ?s j s] life [OF that] by (simp add: stop_effect)
  qed
  moreover have "closings j (vc_acts ?s) = [] \<and> \<not> vc_cancelled ?s j" if "j \<ge> vc_next s" for j
    using fresh [OF that] that i by (simp add: stop_effect)
  moreover have "\<forall>t\<in>list.set (vc_tunnels ?s). mv_tunnel (vc_heap ?s i) = Some t"
    using assms Some by (auto simp: vpns_inv_def stop_effect removeAll_filter_not_eq filter_empty_conv split: option.splits)
  ultimately show ?thesis
    using assms Some i by (simp add: vpns_inv_def stop_current_def stop_effect)
qed

text \<open>After stopping, no object holds anything.\<close>

lemma stop_current_free:
  assumes "vpns_inv s"
  shows "i < vc_next s \<Longrightarrow> mv_fd (vc_heap (stop_current s) i) < 0 \<and> closings i (vc_acts (stop_current s)) \<noteq> []"
    and "vc_tunnels (stop_current s) = []"
    and "(i, fd) \<in> list.set (vc_runs (stop_current s)) \<Longrightarrow> vc_cancelled (stop_current s) i"
    and "vc_next (stop_current s) = vc_next s"
proof -
  let ?s = "stop_current s"
  note inv = inv_stop_current [OF assms]
  show n: "vc_next ?s = vc_next s" by (simp add: stop_current_def stop_effect split: option.splits)
  have v: "vc_vpn ?s = vc_vpn s" by (simp add: stop_current_def stop_effect split: option.splits)
  have cur: "mv_fd (vc_heap ?s i) < 0 \<and> mv_tunnel (vc_heap ?s i) = None \<and> \<not> mv_cancel (vc_heap ?s i)" if "vc_vpn s = Some i" for i
    using that by (simp add: stop_current_def stop_effect)
  show tun: "vc_tunnels ?s = []"
  proof (cases "vc_vpn s")
    case None
    then show ?thesis using assms by (simp add: stop_current_def vpns_inv_def)
  next
    case (Some k)
    then show ?thesis using inv cur [OF Some] v by (cases "vc_tunnels ?s") (auto simp: vpns_inv_def)
  qed
  have free: "mv_fd (vc_heap ?s i) < 0 \<and> closings i (vc_acts ?s) \<noteq> [] \<and> (map_of (vc_runs ?s) i \<noteq> None \<longrightarrow> vc_cancelled ?s i)"
    if "i < vc_next s" for i
  proof -
    have "vpn_life ?s i" using inv that n by (simp add: vpns_inv_def)
    then show ?thesis using cur [of i] v
      by (auto simp: vpn_life_def Let_def ended_closings_def split: option.splits if_splits)
  qed
  show "i < vc_next s \<Longrightarrow> mv_fd (vc_heap ?s i) < 0 \<and> closings i (vc_acts ?s) \<noteq> []" using free by blast
  assume r: "(i, fd) \<in> list.set (vc_runs ?s)"
  then have "i < vc_next s" "map_of (vc_runs ?s) i \<noteq> None"
    using inv n by (auto simp: vpns_inv_def map_of_eq_None_iff image_iff)
  then show "vc_cancelled ?s i" using free by blast
qed

lemma inv_refused: "vpns_inv s \<Longrightarrow> vpns_inv (close_number fd (CloseRefused fd) s)"
  using life_cong [of "close_number fd (CloseRefused fd) s" _ s] by (simp add: vpns_inv_def split: option.splits)

text \<open>A new object becomes current after the current one was stopped.\<close>

lemma inv_registered:
  assumes "vpns_inv s" "v = new_vpn name kind cancel tunnel fd state now" "0 \<le> fd"
    and new: "if cancel then kind = ''safelink-vpn'' \<and> tunnel = None \<and> runs = [(vc_next s, fd)] \<and> tuns = []
      else kind \<noteq> ''safelink-vpn'' \<and> runs = [] \<and> (\<exists>t. tunnel = Some t \<and> tuns = [t])"
    and s': "vc_heap s' = (vc_heap (stop_current s))(vc_next s := v)" "vc_next s' = vc_next s + 1"
      "vc_vpn s' = Some (vc_next s)" "vc_runs s' = runs @ vc_runs (stop_current s)"
      "vc_cancelled s' = vc_cancelled (stop_current s)" "vc_tunnels s' = tuns @ vc_tunnels (stop_current s)"
      "vc_acts s' = vc_acts (stop_current s)"
  shows "vpns_inv s'"
proof -
  let ?n = "vc_next s" and ?c = "stop_current s"
  have inv: "vpns_inv ?c" using assms(1) by (rule inv_stop_current)
  note free = stop_current_free [OF assms(1)]
  have n: "map_of (vc_runs ?c) ?n = None" using inv free(4) by (auto simp: vpns_inv_def map_of_eq_None_iff)
  have fresh: "closings j (vc_acts ?c) = []" "\<not> vc_cancelled ?c j" if "j \<ge> ?n" for j
    using inv free(4) that by (simp_all add: vpns_inv_def)
  have "vpn_life s' j" if "j < ?n" for j
  proof (rule life_left [of ?c])
    show "vpn_life ?c j" using inv free(4) that by (simp add: vpns_inv_def)
    show "map_of (vc_runs s') j = map_of (vc_runs ?c) j" using that new by (auto simp: s' split: if_splits)
  qed (use that free(1) [OF that] in \<open>simp_all add: s'\<close>)
  moreover have "vpn_life s' ?n"
    using new n fresh [of ?n] assms(3)
    by (auto simp: vpn_life_def Let_def s' assms(2) new_vpn_def split: if_splits)
  moreover have "\<forall>t\<in>list.set (vc_tunnels s'). mv_tunnel (vc_heap s' ?n) = Some t"
    using new by (auto simp: s' free(2) assms(2) new_vpn_def split: if_splits)
  moreover have "distinct (map fst (vc_runs s')) \<and> (\<forall>(i, fd)\<in>list.set (vc_runs s'). i < vc_next s')"
    using inv new free(4) by (auto simp: s' vpns_inv_def split: if_splits)
  ultimately show ?thesis using fresh by (auto simp: vpns_inv_def s' less_Suc_eq)
qed

lemma inv_startVPN:
  assumes "vpns_inv s"
  shows "vpns_inv (snd (startVPNFromFD br now data s))"
proof -
  have n: "vc_next (stop_current s) = vc_next s" using stop_current_free(4) [OF assms] .
  have "vpns_inv ((register_vpn (new_vpn name ''safelink-vpn'' True None fd st now) (stop_current s))
      \<lparr>vc_runs := (vc_next (stop_current s), fd) # vc_runs (register_vpn (new_vpn name ''safelink-vpn'' True None fd st now) (stop_current s))\<rparr>)"
    if "0 \<le> fd" for name fd st
    by (rule inv_registered [OF assms refl that, where runs = "[(vc_next s, fd)]" and tuns = "[]" and cancel = True])
      (simp_all add: register_vpn_def n)
  then show ?thesis using assms inv_refused by (simp add: startVPNFromFD_def Let_def split: sum.splits option.splits)
qed

lemma inv_startTun2Socks:
  assumes "vpns_inv s"
  shows "vpns_inv (snd (startTun2SocksFromFD br nb connect now data s))"
proof -
  have n: "vc_next (stop_current s) = vc_next s" using stop_current_free(4) [OF assms] .
  have "vpns_inv (t2s_registers name fd now t (t2s_connects t (stop_current s)))" if "0 \<le> fd" for name fd t
    by (rule inv_registered [OF assms refl that, where runs = "[]" and tuns = "[t]" and cancel = False])
      (simp_all add: register_vpn_def n t2s_registers_def t2s_connects_def)
  then show ?thesis using assms inv_refused inv_refused [OF inv_stop_current [OF assms]]
    by (simp add: startTun2SocksFromFD_def Let_def split: sum.splits option.splits)
qed

text \<open>Updates of fields that no life depends on.\<close>

definition keeps_life :: "(mobileVPN \<Rightarrow> mobileVPN) \<Rightarrow> bool" where
  "keeps_life f \<longleftrightarrow> (\<forall>v. mv_kind (f v) = mv_kind v \<and> mv_cancel (f v) = mv_cancel v \<and>
     mv_tunnel (f v) = mv_tunnel v \<and> mv_fd (f v) = mv_fd v)"

lemma inv_upd_vpn:
  assumes "vpns_inv s" "keeps_life f"
  shows "vpns_inv (upd_vpn i f s)"
proof -
  let ?v = "\<lambda>j. vc_heap (upd_vpn i f s) j"
  have "mv_kind (?v j) = mv_kind (vc_heap s j)" "mv_cancel (?v j) = mv_cancel (vc_heap s j)"
    "mv_tunnel (?v j) = mv_tunnel (vc_heap s j)" "mv_fd (?v j) = mv_fd (vc_heap s j)" for j
    using assms(2) by (simp_all add: keeps_life_def)
  then have "vpn_life (upd_vpn i f s) j = vpn_life s j" for j
    by (simp only: vpn_life_def Let_def ended_closings_def upd_vpn_simps(2-))
  then show ?thesis using assms by (auto simp: vpns_inv_def keeps_life_def split: option.splits)
qed

lemma inv_setVPNState: "vpns_inv s \<Longrightarrow> vpns_inv (setVPNState i st e s)"
  unfolding setVPNState_def by (rule inv_upd_vpn) (simp_all add: keeps_life_def)

lemma sampleTraffic_life:
  "sampleTraffic rate now v = (r, v') \<Longrightarrow> mv_kind v' = mv_kind v \<and> mv_cancel v' = mv_cancel v \<and> mv_tunnel v' = mv_tunnel v \<and> mv_fd v' = mv_fd v"
  by (auto simp: sampleTraffic_def Let_def split: option.splits if_splits)

lemma inv_vpnStatus:
  assumes "vpns_inv s"
  shows "vpns_inv (snd (vpnStatus br now s))"
proof (cases "vc_vpn s")
  case (Some i)
  obtain r v where v: "sampleTraffic (br_rate br) now (vc_heap s i) = (r, v)" by fastforce
  have "upd_vpn i (\<lambda>_. v) s = upd_vpn i (\<lambda>w. if w = vc_heap s i then v else w) s" by (simp add: upd_vpn_def)
  moreover have "keeps_life (\<lambda>w. if w = vc_heap s i then v else w)"
    using sampleTraffic_life [OF v] by (simp add: keeps_life_def)
  ultimately have "vpns_inv (upd_vpn i (\<lambda>_. v) s)" using inv_upd_vpn [OF assms] by metis
  then show ?thesis using Some v by (cases r) (simp add: vpnStatus_def)
qed (use assms in \<open>simp add: vpnStatus_def\<close>)

lemma inv_run_ends:
  assumes "vpns_inv s" "(i, fd) \<in> list.set (vc_runs s)" "vc_cancelled s i"
  shows "vpns_inv (run_ends i fd s)"
proof -
  let ?s = "run_ends i fd s"
  have d: "distinct (map fst (vc_runs s))" and i: "i < vc_next s" using assms(1,2) by (auto simp: vpns_inv_def)
  have m: "map_of (vc_runs s) i = Some fd" using d assms(2) by simp
  have gone: "map_of (remove1 (i, fd) (vc_runs s)) = (map_of (vc_runs s))(i := None)" using d assms(2) by (rule map_of_remove1)
  have life: "vpn_life s i" using assms(1) i by (simp add: vpns_inv_def)
  then have l: "mv_fd (vc_heap s i) < 0" "\<not> mv_cancel (vc_heap s i)" "closings i (vc_acts s) = [CloseStopped i fd]"
    "mv_kind (vc_heap s i) = ''safelink-vpn''" "mv_tunnel (vc_heap s i) = None"
    using m assms(3) by (simp_all add: vpn_life_def Let_def)
  have "vpn_life ?s j" if "j < vc_next s" for j
  proof (cases "j = i")
    case True
    then show ?thesis using l gone by (auto simp: vpn_life_def Let_def run_ends_def ended_closings_def)
  next
    case False
    then show ?thesis using life_cong [of ?s j s] gone assms(1) that by (auto simp: run_ends_def Let_def vpns_inv_def)
  qed
  moreover have "distinct (map fst (remove1 (i, fd) (vc_runs s)))"
    using d assms(2) by (simp add: map_fst_remove1)
  moreover have "\<forall>(j, x)\<in>list.set (remove1 (i, fd) (vc_runs s)). j < vc_next s"
    using assms(1) set_remove1_subset [of "(i, fd)" "vc_runs s"] by (fastforce simp: vpns_inv_def)
  ultimately show ?thesis using assms i by (auto simp: vpns_inv_def run_ends_def Let_def split: option.splits)
qed

section \<open>Courses\<close>

text \<open>
  The application makes its calls one after another; the goroutines take their steps in
  between, and others open descriptors with numbers that are free.
\<close>

datatype 'f vpn_event =
    CallStart int "'f payload"
  | CallTun2Socks "go_error option" "nat result" int "'f payload"
  | CallStop
  | CallStatus int
  | GoReports nat string "go_error option"
  | GoCounts nat u64 u64
  | GoEnds nat int
  | OtherOpens int string

inductive vpn_step :: "'f bridge \<Rightarrow> MobileVPNs \<Rightarrow> 'f vpn_event \<Rightarrow> MobileVPNs \<Rightarrow> bool" for br :: "'f bridge" where
  call_start: "vpn_step br s (CallStart now data) (snd (startVPNFromFD br now data s))"
| call_tun2socks: "vpn_step br s (CallTun2Socks nb t now data) (snd (startTun2SocksFromFD br nb (\<lambda>_ _ _ _. t) now data s))"
| call_stop: "vpn_step br s CallStop (snd (stopVPN br s))"
| call_status: "vpn_step br s (CallStatus now) (snd (vpnStatus br now s))"
| go_reports: "(i, fd) \<in> list.set (vc_runs s) \<Longrightarrow> vpn_step br s (GoReports i st e) (setVPNState i st e s)"
| go_counts: "(i, fd) \<in> list.set (vc_runs s) \<Longrightarrow>
    vpn_step br s (GoCounts i x y) (upd_vpn i (\<lambda>v. v\<lparr>mv_bytesIn := mv_bytesIn v + x, mv_bytesOut := mv_bytesOut v + y\<rparr>) s)"
| go_ends: "(i, fd) \<in> list.set (vc_runs s) \<Longrightarrow> vc_cancelled s i \<Longrightarrow> vpn_step br s (GoEnds i fd) (run_ends i fd s)"
| other_opens: "vc_open s n = None \<Longrightarrow> vpn_step br s (OtherOpens n what) (s\<lparr>vc_open := (vc_open s)(n \<mapsto> what)\<rparr>)"

inductive_cases vpn_stepE: "vpn_step br s e s'"

lemma inv_vpn_step:
  assumes "vpns_inv s" "vpn_step br s e s'"
  shows "vpns_inv s'"
  using assms(2)
proof (cases rule: vpn_step.cases)
  case (go_counts i fd x y)
  then show ?thesis using inv_upd_vpn [OF assms(1)] by (simp add: keeps_life_def)
next
  case (other_opens n what)
  then show ?thesis using assms(1) life_cong [of s' _ s] by (simp add: vpns_inv_def split: option.splits)
qed (use assms(1) in \<open>auto simp: stopVPN_def intro: inv_startVPN inv_startTun2Socks inv_stop_current inv_vpnStatus
    inv_setVPNState inv_run_ends\<close>)

interpretation mobile_vpns: machine vpns_init "vpn_step br" vpns_inv for br
  by unfold_locales (auto intro: inv_vpns_init inv_vpn_step)

section \<open>Delays\<close>

lemma session_fails: "snd (runVPNSession dial env cfg) \<noteq> None"
  by (auto simp: runVPNSession_def Let_def split: prod.splits sum.splits option.splits)

interpretation android_retry: doubling_backoff android_next "60 * android_second"
proof
  fix d :: int
  assume d: "0 \<le> d" "d \<le> 60 * android_second"
  have "wrap64 (d * 2) = d * 2" by (rule wrap64_id) (use d in \<open>auto simp: android_second_def\<close>)
  then show "android_next d = min (60 * android_second) (2 * d)" by (simp add: android_next_def Let_def min_def)
qed (simp add: android_second_def)

fun pauses :: "android_act list \<Rightarrow> int list" where
  "pauses [] = []"
| "pauses (Pause d # as) = d # pauses as"
| "pauses (_ # as) = pauses as"

lemma pauses_append [simp]: "pauses (as @ bs) = pauses as @ pauses bs"
  by (induction as rule: pauses.induct) auto

lemma pauses_sent [simp]: "pauses (map SendText xs) = []"
  by (induction xs) auto

lemma session_pauses: "pauses (fst (runVPNSession dial env cfg)) = []"
  by (auto simp: runVPNSession_def Let_def split: prod.splits sum.splits option.splits)

lemma loop_pauses:
  "pauses (runVPN_loop cfg b ts) = map (\<lambda>k. (android_next ^^ k) b) [0..<length (pauses (runVPN_loop cfg b ts))]"
proof (induction ts arbitrary: b)
  case (Cons t ts)
  obtain acts e where r: "runVPNSession (at_dial t) (at_env t) cfg = (acts, Some e)"
    using session_fails [of "at_dial t" "at_env t" cfg] by (cases "runVPNSession (at_dial t) (at_env t) cfg") auto
  then have p: "pauses acts = []" using session_pauses by (metis fst_conv)
  let ?r = "runVPN_loop cfg (android_next b) ts"
  have "map (\<lambda>k. (android_next ^^ k) (android_next b)) [0..<n] = map (\<lambda>k. (android_next ^^ k) b) [Suc 0..<Suc n]" for n
    by (simp add: map_Suc_upt [symmetric] comp_def del: upt_Suc) (simp add: funpow_swap1)
  then have "b # pauses ?r = map (\<lambda>k. (android_next ^^ k) b) [0..<Suc (length (pauses ?r))]"
    using Cons [of "android_next b"] by (simp add: upt_conv_Cons del: upt_Suc)
  then show ?case using r p by auto
qed simp

section \<open>A course\<close>

definition sample_android :: TunnelCfg where
  "sample_android = empty_tunnel\<lparr>t_Name := ''v'', t_Mode := ModeVPN, t_Forward := ''h:443'',
     t_SSH := empty_ssh\<lparr>ssh_User := ''u'', ssh_Password := ''p''\<rparr>\<rparr>"

definition sample_bridge :: "int bridge" where
  "sample_bridge = \<lparr>br_payload = (\<lambda>_. Inr None), br_tunnel = (\<lambda>_. Inr sample_android),
     br_node = (\<lambda>_. Inl (External ''json'')), br_nodes = (\<lambda>_. Inr []), br_rules = (\<lambda>_. (None, None)),
     br_ssh = (\<lambda>_. Inl (External ''json'')),
     br_marshal = (\<lambda>_. None), br_trunc = id, br_rate = (\<lambda>b t. b), br_seconds = (\<lambda>t. t div 1000000000),
     br_rfc3339 = (\<lambda>_. [])\<rparr>"

definition sample_vpns :: MobileVPNs where
  "sample_vpns = \<lparr>vc_heap = (\<lambda>_. new_vpn [] [] False None (- 1) [] 0), vc_next = 0, vc_vpn = None, vc_runs = [],
     vc_cancelled = (\<lambda>_. False), vc_open = [5 \<mapsto> ''tun''], vc_tunnels = [], vc_acts = []\<rparr>"

definition sample_start :: "int payload" where
  "sample_start = Some [(''fd'', ANumber 5), (''tunnel'', ANil)]"

text \<open>A VPN is started and stopped, a socket gets the free number, and then the goroutine ends.\<close>

definition started_vpns :: MobileVPNs where
  "started_vpns = snd (startVPNFromFD sample_bridge 0 sample_start sample_vpns)"

definition reused_vpns :: MobileVPNs where
  "reused_vpns = (let s = snd (stopVPN sample_bridge started_vpns) in s\<lparr>vc_open := (vc_open s)(5 \<mapsto> ''socket'')\<rparr>)"

definition ended_vpns :: MobileVPNs where
  "ended_vpns = run_ends 0 5 reused_vpns"

lemma started_vpns_state:
  "vc_next started_vpns = 1" "vc_vpn started_vpns = Some 0" "vc_runs started_vpns = [(0, 5)]" "vc_tunnels started_vpns = []"
  "vc_heap started_vpns 0 = new_vpn ''v'' ''safelink-vpn'' True None 5 ''connecting'' 0" "vc_acts started_vpns = []"
  "vc_open started_vpns = [5 \<mapsto> ''tun'']" "\<not> vc_cancelled started_vpns i"
proof -
  have "ValidateTunnel sample_android = None" by (simp add: ValidateTunnel_vpn sample_android_def)
  moreover have "t_Mode sample_android = ModeVPN" "t_Name sample_android = ''v''" by (simp_all add: sample_android_def)
  ultimately have s: "started_vpns = (register_vpn (new_vpn ''v'' ''safelink-vpn'' True None 5 ''connecting'' 0) sample_vpns)\<lparr>vc_runs := [(0, 5)]\<rparr>"
    by (simp add: started_vpns_def startVPNFromFD_def sample_start_def asIntDefault_def decodeField_def data_field_def
        sample_bridge_def stop_current_def sample_vpns_def register_vpn_def Let_def)
  show "vc_next started_vpns = 1" "vc_vpn started_vpns = Some 0" "vc_runs started_vpns = [(0, 5)]" "vc_tunnels started_vpns = []"
    "vc_heap started_vpns 0 = new_vpn ''v'' ''safelink-vpn'' True None 5 ''connecting'' 0" "vc_acts started_vpns = []"
    "vc_open started_vpns = [5 \<mapsto> ''tun'']" "\<not> vc_cancelled started_vpns i"
    by (simp_all add: s sample_vpns_def register_vpn_def)
qed

lemma started_vpns_reached: "reach vpns_init (vpn_step sample_bridge) started_vpns"
proof -
  have "reach vpns_init (vpn_step sample_bridge) sample_vpns"
    by (rule reach_init) (simp add: vpns_init_def sample_vpns_def)
  then show ?thesis unfolding started_vpns_def by (rule reach_step) (rule call_start)
qed

lemma reused_vpns_state:
  "vc_runs reused_vpns = [(0, 5)]" "vc_cancelled reused_vpns 0" "vc_open reused_vpns 5 = Some ''socket''"
  "vc_next reused_vpns = 1" "mv_kind (vc_heap reused_vpns 0) = ''safelink-vpn''"
  by (simp_all add: reused_vpns_def Let_def stopVPN_def stop_current_def stop_effect started_vpns_state new_vpn_def)

lemma reused_vpns_reached: "reach vpns_init (vpn_step sample_bridge) reused_vpns"
proof -
  let ?s = "snd (stopVPN sample_bridge started_vpns)"
  have "vc_open ?s 5 = None"
    by (simp add: stopVPN_def stop_current_def stopMobileVPN_def started_vpns_state new_vpn_def Let_def)
  moreover have "reach vpns_init (vpn_step sample_bridge) ?s" by (rule reach_step [OF started_vpns_reached call_stop])
  ultimately show ?thesis unfolding reused_vpns_def Let_def by (metis reach_step other_opens)
qed

lemma ended_vpns_reached: "reach vpns_init (vpn_step sample_bridge) ended_vpns"
  unfolding ended_vpns_def by (rule reach_step [OF reused_vpns_reached go_ends]) (simp_all add: reused_vpns_state)

lemma ended_vpns_state:
  "vc_next ended_vpns = 1" "vc_runs ended_vpns = []" "mv_kind (vc_heap ended_vpns 0) = ''safelink-vpn''" "vc_open ended_vpns 5 = None"
  using reused_vpns_state by (simp_all add: ended_vpns_def run_ends_def Let_def)

section \<open>Properties\<close>



text \<open>The number of the descriptor of a SafeLink VPN is closed twice: by the stop, and
  again by its goroutine when that ends; in between the number is free for others.\<close>

lemma ended_vpn_closed_twice:
  assumes "reach vpns_init (vpn_step br) s" "i < vc_next s" "mv_kind (vc_heap s i) = ''safelink-vpn''"
    "i \<notin> list.set (map fst (vc_runs s))"
  shows "\<exists>fd. closings i (vc_acts s) = [CloseStopped i fd, CloseTun i fd]"
proof -
  have "vpn_life s i" using mobile_vpns.reach_inv [OF assms(1)] assms(2) by (simp add: vpns_inv_def)
  moreover have "map_of (vc_runs s) i = None" using assms(4) by (simp add: map_of_eq_None_iff)
  ultimately show ?thesis using assms(3) by (auto simp: vpn_life_def Let_def ended_closings_def split: if_splits)
qed

lemma socket_closed_by_ended_vpn:
  "length (closings 0 (vc_acts ended_vpns)) = 2 \<and> vc_open reused_vpns 5 = Some ''socket'' \<and> vc_open ended_vpns 5 = None"
  using ended_vpn_closed_twice [OF ended_vpns_reached, of 0] ended_vpns_state reused_vpns_state by auto

text \<open>Two calls of \<open>startTun2SocksFromFD\<close> that both connect before either registers: the tunnel and
  the descriptor of the first are lost, and no stop reaches them.\<close>

lemma parallel_starts_leak:
  assumes "t \<noteq> u" "0 \<le> fd"
  shows "let s2 = t2s_registers n2 fd2 now u (t2s_registers n1 fd now t (t2s_connects u (t2s_connects t s)));
             s' = snd (stopVPN br s2)
         in t \<in> list.set (vc_tunnels s') \<and> mv_fd (vc_heap s' (vc_next s)) = fd"
  using assms
  by (simp add: Let_def stopVPN_def stop_current_def t2s_registers_def t2s_connects_def register_vpn_def stop_effect new_vpn_def)

text \<open>C31: Whatever the sessions of an Android VPN brought, and however long they lasted, the \<open>k\<close>-th
  pause before a reconnection is \<open>2^k\<close> seconds, or 60 when that is more: no session ends
  without an error, so the delay is never set back to a second.\<close>

theorem android_backoff_grows:
  "pauses (runVPN cfg ts) =
     map (\<lambda>k. min (60 * android_second) (2 ^ k * android_second)) [0..<length (pauses (runVPN cfg ts))]"
proof -
  have "(android_next ^^ k) android_second = min (60 * android_second) (2 ^ k * android_second)" for k
    by (rule android_retry.closed_form) (simp_all add: android_second_def)
  then show ?thesis using loop_pauses [of cfg android_second ts] by (simp add: runVPN_def)
qed

text \<open>\<open>diffBytes\<close> is the difference of counters, or zero when the counter went back.\<close>

lemma diffBytes_nat: "unat (diffBytes x y) = unat x - unat y"
  by (auto simp: diffBytes_def unat_sub_if' word_less_nat_alt)

end
