(* ===== verification/MobileCore.thy ===== *)
theory MobileCore
  imports MobileVPN VPNSub
begin

text \<open>
  The core object of the Android library (\<open>client/mobilecore/mobilecore.go\<close>): its state, the
  events of SSH sessions that wait to be drained, the tunnels it runs, and \<open>Call\<close>, which
  dispatches a request to the other components.  The answers of the world outside are collected
  in one record.
\<close>

section \<open>State\<close>

text \<open>
  A \<open>mobileTunnel\<close> is shared by the table, the callback and the goroutine of its supervisor,
  so it lives in a heap.  \<open>mo_runs\<close>: the tunnels whose goroutine runs; \<open>mo_cancelling\<close>:
  those whose cancel function was taken by a stop that has not called it yet;
  \<open>mo_cancelled\<close>: those whose context ended.
\<close>

record mobileTunnel =
  mu_cfg :: TunnelCfg
  mu_cancel :: bool
  mu_state :: string
  mu_lastError :: string
  mu_startedAt :: int
  mu_stats :: Stats

record Core =
  mo_dataDir :: string
  mo_ssh :: Sessions
  mo_sshEvents :: "string \<rightharpoonup> session_event list"
  mo_tunnels :: "string \<rightharpoonup> nat"
  mo_heap :: "nat \<Rightarrow> mobileTunnel"
  mo_next :: nat
  mo_runs :: "nat list"
  mo_cancelling :: "nat list"
  mo_cancelled :: "nat \<Rightarrow> bool"
  mo_vpns :: MobileVPNs
  mo_files :: rule_files
  mo_refreshing :: "string list"

text \<open>The answers a call gets from outside.\<close>

record ('f, 'w) call_env =
  en_br :: "'f bridge"
  en_now :: int
  en_codecs :: "string codecs"
  en_decoders :: decoders
  en_core :: core_env
  en_test :: test_env
  en_probe :: "int \<Rightarrow> probe"
  en_batch :: "int \<Rightarrow> batch_env"
  en_tested :: string
  en_sched :: "nat list \<Rightarrow> nat list"
  en_arrived :: "batchTestOutbound list \<Rightarrow> batchTestOutbound list"
  en_opened :: "(nat \<times> bool) result"
  en_id :: string
  en_write :: "nat \<Rightarrow> 'w \<Rightarrow> string \<Rightarrow> 'w \<times> int \<times> go_error option"
  en_change :: "nat \<Rightarrow> int \<Rightarrow> int \<Rightarrow> go_error option"
  en_close :: "nat \<Rightarrow> go_error option"
  en_order :: "string list"
  en_nonblock :: "go_error option"
  en_connect :: "int \<Rightarrow> string \<Rightarrow> int \<Rightarrow> bool \<Rightarrow> nat result"

definition call_ok :: "('f, 'w) call_env \<Rightarrow> answer_data \<Rightarrow> answer" where
  "call_ok env data = answer_ok (br_marshal (en_br env)) data"

section \<open>Events of SSH sessions\<close>

fun event_session :: "session_event \<Rightarrow> string" where
  "event_session (OnOutput e) = oe_SessionID e"
| "event_session (OnClosed e) = ce_SessionID e"
| "event_session (OnError e) = ee_SessionID e"

fun event_map :: "session_event \<Rightarrow> answer_data" where
  "event_map (OnOutput e) = [(''type'', VText ''output''), (''session_id'', VText (oe_SessionID e)),
     (''data'', VText (oe_Data e)), (''data_base64'', VText (oe_DataBase64 e))]"
| "event_map (OnClosed e) = [(''type'', VText ''closed''), (''session_id'', VText (ce_SessionID e)),
     (''message'', VText (ce_Message e))]"
| "event_map (OnError e) = [(''type'', VText ''error''), (''session_id'', VText (ee_SessionID e)),
     (''message'', VText (ee_Message e))]"

definition mobile_callbacks :: callbacks where
  "mobile_callbacks = \<lparr>cb_output = True, cb_closed = True, cb_error = True\<rparr>"

definition events_of :: "Core \<Rightarrow> string \<Rightarrow> session_event list" where
  "events_of c i = (case mo_sshEvents c i of None \<Rightarrow> [] | Some es \<Rightarrow> es)"

definition appendSSHEvent :: "session_event \<Rightarrow> Core \<Rightarrow> Core" where
  "appendSSHEvent e c = c\<lparr>mo_sshEvents := (mo_sshEvents c)(event_session e \<mapsto> events_of c (event_session e) @ [e])\<rparr>"

text \<open>A step of the session manager, whose callbacks append what they get.\<close>

definition session_moves :: "Sessions \<Rightarrow> Core \<Rightarrow> Core" where
  "session_moves m c = fold appendSSHEvent (drop (length (sx_log (mo_ssh c))) (sx_log m)) (c\<lparr>mo_ssh := m\<rparr>)"

definition drain_one :: "string \<Rightarrow> session_event list \<times> Core \<Rightarrow> session_event list \<times> Core" where
  "drain_one i s = (case s of (es, c) \<Rightarrow> (es @ events_of c i, c\<lparr>mo_sshEvents := (mo_sshEvents c)(i := None)\<rparr>))"

text \<open>The events handed out; \<open>order\<close> is the order in which Go visits the map.\<close>

definition drained :: "string list \<Rightarrow> string \<Rightarrow> Core \<Rightarrow> session_event list \<times> Core" where
  "drained order sessionID c =
     (if sessionID \<noteq> [] then drain_one sessionID ([], c) else fold drain_one order ([], c))"

definition drainSSHEvents :: "('f, 'w) call_env \<Rightarrow> 'f payload \<Rightarrow> Core \<Rightarrow> answer \<times> Core" where
  "drainSSHEvents env data c =
     (case drained (en_order env) (asString data ''session_id'') c of
        (events, c') \<Rightarrow>
          (call_ok env [(''events'', if events = [] then VNull else VItems (map event_map events))], c'))"

section \<open>SSH sessions\<close>

definition createSSHSession :: "('f, 'w) call_env \<Rightarrow> 'f payload \<Rightarrow> Core \<Rightarrow> answer \<times> Core" where
  "createSSHSession env data c =
     (case decodeField (br_ssh (en_br env)) data ''config'' of
        Inl e \<Rightarrow> (answer_fail ''bad_ssh_config'' e, c)
      | Inr cfg \<Rightarrow>
          (case session_Create (en_opened env) (en_id env) cfg (mo_ssh c) of
             (Inl e, m) \<Rightarrow> (answer_fail ''create_ssh_session'' e, c\<lparr>mo_ssh := m\<rparr>)
           | (Inr i, m) \<Rightarrow> (call_ok env [(''session_id'', VText i)], c\<lparr>mo_ssh := m\<rparr>)))"

text \<open>The terminals' state comes back; \<open>None\<close> is the panic of \<open>writeAll\<close>.\<close>

definition sendSSHInput :: "('f, 'w) call_env \<Rightarrow> 'f payload \<Rightarrow> Core \<Rightarrow> 'w \<Rightarrow> answer option \<times> 'w" where
  "sendSSHInput env data c w =
     (let sessionID = asString data ''session_id'' in
      if sessionID = [] then (Some (failCode ''bad_request'' ''session_id is required''), w)
      else (case WriteBytes (en_write env) (mo_ssh c) w sessionID (asString data ''data'') of
              (w', Written) \<Rightarrow> (Some (call_ok env [(''sent'', VBool True)]), w')
            | (w', Failed e) \<Rightarrow> (Some (answer_fail ''send_ssh_input'' e), w')
            | (w', OutOfRange) \<Rightarrow> (None, w')))"

definition resizeSSHSession :: "('f, 'w) call_env \<Rightarrow> 'f payload \<Rightarrow> Core \<Rightarrow> answer" where
  "resizeSSHSession env data c =
     (let sessionID = asString data ''session_id''; int_of = asIntDefault (br_trunc (en_br env)) data in
      if sessionID = [] then failCode ''bad_request'' ''session_id is required''
      else (case session_Resize (en_change env) (mo_ssh c) sessionID (int_of ''rows'' 24) (int_of ''cols'' 80) of
              Some e \<Rightarrow> answer_fail ''resize_ssh_session'' e
            | None \<Rightarrow> call_ok env [(''resized'', VBool True)]))"

definition closeSSHSession :: "('f, 'w) call_env \<Rightarrow> 'f payload \<Rightarrow> Core \<Rightarrow> answer \<times> nat list" where
  "closeSSHSession env data c =
     (let sessionID = asString data ''session_id'' in
      if sessionID = [] then (failCode ''bad_request'' ''session_id is required'', [])
      else (case session_Close (en_close env) (mo_ssh c) sessionID of
              (Some e, ps) \<Rightarrow> (answer_fail ''close_ssh_session'' e, ps)
            | (None, ps) \<Rightarrow> (call_ok env [(''closed'', VBool True)], ps)))"

section \<open>Subscriptions\<close>

definition parseSubscription :: "('f, 'w) call_env \<Rightarrow> 'f payload \<Rightarrow> answer" where
  "parseSubscription env data =
     (let body = asString data ''body'' in
      case sub_Parse (en_codecs env) body (asStringDefault data ''format'' sub_FormatAuto) of
        Inr (tunnels, detected) \<Rightarrow>
          call_ok env [(''kind'', VText ''vpn''), (''format'', VText detected), (''tunnels'', VTunnels tunnels)]
      | Inl err \<Rightarrow>
          (case psub_Parse (en_decoders env) body FormatAuto of
             Inr (nodes, detected) \<Rightarrow>
               call_ok env [(''kind'', VText ''proxy''), (''format'', VText detected), (''nodes'', VNodes nodes)]
           | Inl proxyErr \<Rightarrow> failCode ''parse_subscription'' (err_text err @ ''; '' @ err_text proxyErr)))"

definition parseProxySubscription :: "('f, 'w) call_env \<Rightarrow> 'f payload \<Rightarrow> answer" where
  "parseProxySubscription env data =
     (case psub_Parse (en_decoders env) (asString data ''body'') (asStringDefault data ''format'' FormatAuto) of
        Inl e \<Rightarrow> answer_fail ''parse_proxy_subscription'' e
      | Inr (nodes, detected) \<Rightarrow> call_ok env [(''format'', VText detected), (''nodes'', VNodes nodes)])"

definition parseVPNSubscription :: "('f, 'w) call_env \<Rightarrow> 'f payload \<Rightarrow> answer" where
  "parseVPNSubscription env data =
     (case sub_Parse (en_codecs env) (asString data ''body'') (asStringDefault data ''format'' sub_FormatAuto) of
        Inl e \<Rightarrow> answer_fail ''parse_vpn_subscription'' e
      | Inr (tunnels, detected) \<Rightarrow> call_ok env [(''format'', VText detected), (''tunnels'', VTunnels tunnels)])"

section \<open>The proxy core\<close>

definition proxyRuntimeDir :: "'f payload \<Rightarrow> Core \<Rightarrow> string" where
  "proxyRuntimeDir data c =
     (let dir = asString data ''proxy_work_dir'' in if dir \<noteq> [] then dir else path_join (mo_dataDir c) ''sing-box'')"

definition ruleSetDir :: "'f payload \<Rightarrow> Core \<Rightarrow> string" where
  "ruleSetDir data c =
     (let dir = asString data ''rule_set_dir'' in if dir \<noteq> [] then dir else path_join (mo_dataDir c) ''rule-sets'')"

text \<open>The options both kinds of calls share.\<close>

definition common_options :: "'f payload \<Rightarrow> Core \<Rightarrow> string \<Rightarrow> string \<Rightarrow> ProxyRule list option \<Rightarrow> core_options" where
  "common_options data c corePath workDir rules =
     \<lparr>co_CorePath = corePath, co_WorkDir = workDir,
      co_SOCKSAddr = asStringDefault data ''socks_addr'' ''127.0.0.1:10808'',
      co_HTTPAddr = asStringDefault data ''http_addr'' ''127.0.0.1:10809'',
      co_ClashAPIAddr = asString data ''clash_api_addr'', co_Mode = asStringDefault data ''mode'' ProxyModeRule,
      co_RuleModeRules = rules, co_DNSServers = asStringSlice data ''dns_servers'',
      co_RuleSetDir = ruleSetDir data c, co_withoutRuleSets = False\<rparr>"

definition buildProxyConfig :: "('f, 'w) call_env \<Rightarrow> 'f payload \<Rightarrow> Core \<Rightarrow> answer \<times> Core" where
  "buildProxyConfig env data c =
     (case decodeField (br_node (en_br env)) data ''node'' of
        Inl e \<Rightarrow> (answer_fail ''bad_node'' e, c)
      | Inr node \<Rightarrow>
          (case (case data_field data ''rules'' of None \<Rightarrow> (None, None) | Some raw \<Rightarrow> br_rules (en_br env) raw) of
             (_, Some e) \<Rightarrow> (answer_fail ''bad_rules'' e, c)
           | (rules, None) \<Rightarrow>
               (case BuildConfig (en_core env) node (common_options data c [] (proxyRuntimeDir data c) rules) (mo_files c) of
                  (Inl e, fs) \<Rightarrow> (answer_fail ''build_proxy_config'' e, c\<lparr>mo_files := fs\<rparr>)
                | (Inr cfg, fs) \<Rightarrow> (call_ok env [(''config'', VConfig cfg)], c\<lparr>mo_files := fs\<rparr>))))"

text \<open>The refresh itself is a goroutine of its own.\<close>

definition mobile_refreshRuleSets :: "('f, 'w) call_env \<Rightarrow> 'f payload \<Rightarrow> Core \<Rightarrow> answer \<times> Core" where
  "mobile_refreshRuleSets env data c =
     (let dir = ruleSetDir data c
      in (call_ok env [(''dir'', VText dir), (''started'', VBool True)], c\<lparr>mo_refreshing := dir # mo_refreshing c\<rparr>))"

text \<open>The rules of a test: what was decoded, also before an error.\<close>

definition proxyOptions :: "('f, 'w) call_env \<Rightarrow> 'f payload \<Rightarrow> Core \<Rightarrow> core_options" where
  "proxyOptions env data c =
     (let rules = (case data_field data ''rules'' of None \<Rightarrow> None | Some raw \<Rightarrow> fst (br_rules (en_br env) raw));
          workDir = asString data ''work_dir''
      in common_options data c (asString data ''core_path'')
           (if workDir = [] then path_join (mo_dataDir c) ''proxy-tests'' else workDir) rules)"

definition mobile_testProxyNode :: "('f, 'w) call_env \<Rightarrow> 'f payload \<Rightarrow> Core \<Rightarrow> answer \<times> Core" where
  "mobile_testProxyNode env data c =
     (case decodeField (br_node (en_br env)) data ''node'' of
        Inl e \<Rightarrow> (answer_fail ''bad_node'' e, c)
      | Inr node \<Rightarrow>
          (case TestNode (en_test env) (en_probe env (timeoutFromPayload (br_trunc (en_br env)) data (8 * 1000000000)))
                  (en_tested env) node (proxyOptions env data c) (mo_files c) of
             (result, _, fs) \<Rightarrow> (call_ok env [(''result'', VResult result)], c\<lparr>mo_files := fs\<rparr>)))"

definition mobile_testProxyNodes :: "('f, 'w) call_env \<Rightarrow> 'f payload \<Rightarrow> Core \<Rightarrow> answer" where
  "mobile_testProxyNodes env data c =
     (case decodeField (br_nodes (en_br env)) data ''nodes'' of
        Inl e \<Rightarrow> answer_fail ''bad_nodes'' e
      | Inr nodes \<Rightarrow>
          call_ok env [(''results'', VResults (fst (TestNodes
            (en_batch env (timeoutFromPayload (br_trunc (en_br env)) data (5 * 1000000000)))
            (en_tested env) (en_sched env) (en_arrived env) nodes (proxyOptions env data c))))])"

definition mobile_speedTestProxyNode :: "('f, 'w) call_env \<Rightarrow> 'f payload \<Rightarrow> Core \<Rightarrow> answer \<times> Core" where
  "mobile_speedTestProxyNode env data c =
     (case decodeField (br_node (en_br env)) data ''node'' of
        Inl e \<Rightarrow> (answer_fail ''bad_node'' e, c)
      | Inr node \<Rightarrow>
          (case SpeedTestNode (en_test env) (en_probe env (timeoutFromPayload (br_trunc (en_br env)) data (15 * 1000000000)))
                  (en_tested env) node (proxyOptions env data c) (mo_files c) of
             (result, _, fs) \<Rightarrow> (call_ok env [(''result'', VResult result)], c\<lparr>mo_files := fs\<rparr>)))"

section \<open>Tunnels\<close>

definition mobile_validateTunnel :: "('f, 'w) call_env \<Rightarrow> 'f payload \<Rightarrow> answer" where
  "mobile_validateTunnel env data =
     (case decodeField (br_tunnel (en_br env)) data ''tunnel'' of
        Inl e \<Rightarrow> answer_fail ''bad_tunnel'' e
      | Inr t \<Rightarrow> (case ValidateTunnel t of
                   Some e \<Rightarrow> answer_fail ''validate_tunnel'' e
                 | None \<Rightarrow> call_ok env [(''valid'', VBool True)]))"

text \<open>\<open>config.ConnDefaults{}\<close>, and the supervisor with it: it ignores host keys.\<close>

definition no_defaults :: ConnDefaults where
  "no_defaults = \<lparr>KeepAliveInterval = 0, KeepAliveMaxFails = 0, DialTimeout = 0, ReconnectInitial = 0, ReconnectMax = 0\<rparr>"

definition mobile_supervisor :: "(int \<Rightarrow> int) \<Rightarrow> turn list \<Rightarrow> sup_act list" where
  "mobile_supervisor jit ts = Supervisor_Run no_defaults jit ts"

definition mobile_dial :: "'signer auth_method list result \<Rightarrow> dial_env \<Rightarrow> go_error option" where
  "mobile_dial methods env = sup_dial methods True env"

definition upd_tunnel :: "nat \<Rightarrow> (mobileTunnel \<Rightarrow> mobileTunnel) \<Rightarrow> Core \<Rightarrow> Core" where
  "upd_tunnel i f c = c\<lparr>mo_heap := (mo_heap c)(i := f (mo_heap c i))\<rparr>"

definition add_tunnel :: "TunnelCfg \<Rightarrow> int \<Rightarrow> Core \<Rightarrow> Core" where
  "add_tunnel cfg now c =
     (let i = mo_next c in
      c\<lparr>mo_heap := (mo_heap c)(i := \<lparr>mu_cfg = cfg, mu_cancel = True, mu_state = state_text sup_state.StateConnecting,
             mu_lastError = [], mu_startedAt = now, mu_stats = NewStats\<rparr>),
        mo_next := i + 1, mo_tunnels := (mo_tunnels c)(t_Name cfg \<mapsto> i), mo_runs := i # mo_runs c\<rparr>)"

definition running_tunnel :: "string \<Rightarrow> Core \<Rightarrow> nat option" where
  "running_tunnel name c =
     (case mo_tunnels c name of None \<Rightarrow> None | Some i \<Rightarrow> if mu_cancel (mo_heap c i) then Some i else None)"

definition mobile_startTunnel :: "('f, 'w) call_env \<Rightarrow> 'f payload \<Rightarrow> Core \<Rightarrow> answer \<times> Core" where
  "mobile_startTunnel env data c =
     (case decodeField (br_tunnel (en_br env)) data ''tunnel'' of
        Inl e \<Rightarrow> (answer_fail ''bad_tunnel'' e, c)
      | Inr cfg \<Rightarrow>
          if t_Mode cfg = ModeVPN
          then (failCode ''unsupported_tunnel'' ''vpn mode is started through Android VpnService'', c)
          else (case ValidateTunnel cfg of
            Some e \<Rightarrow> (answer_fail ''validate_tunnel'' e, c)
          | None \<Rightarrow>
              (let started = (\<lambda>state. call_ok env [(''state'', VText state), (''name'', VText (t_Name cfg))]) in
               case running_tunnel (t_Name cfg) c of
                 Some i \<Rightarrow> (started (mu_state (mo_heap c i)), c)
               | None \<Rightarrow>
                   (case Build cfg of
                      Inl e \<Rightarrow> (answer_fail ''build_tunnel'' e, c)
                    | Inr _ \<Rightarrow> (started (state_text sup_state.StateConnecting), add_tunnel cfg (en_now env) c)))))"

text \<open>
  The answer reads the state after the lock was released; here it is the one stored.
  The callback and the end of the goroutine; both write to the object they were made for.
\<close>

definition tunnel_reports :: "nat \<Rightarrow> sup_state \<Rightarrow> go_error option \<Rightarrow> Core \<Rightarrow> Core" where
  "tunnel_reports i st err =
     upd_tunnel i (\<lambda>t. t\<lparr>mu_state := state_text st,
       mu_lastError := (case err of Some e \<Rightarrow> err_text e
                        | None \<Rightarrow> if st = sup_state.StateRunning then [] else mu_lastError t)\<rparr>)"

definition tunnel_ends :: "nat \<Rightarrow> Core \<Rightarrow> Core" where
  "tunnel_ends i c =
     upd_tunnel i (\<lambda>t. t\<lparr>mu_cancel := False, mu_state := state_text sup_state.StateStopped\<rparr>)
       (c\<lparr>mo_runs := remove1 i (mo_runs c)\<rparr>)"

text \<open>The locked part of \<open>stopTunnel\<close>, with the answer; then the call of the cancel function.\<close>

definition mobile_stopTunnel :: "('f, 'w) call_env \<Rightarrow> 'f payload \<Rightarrow> Core \<Rightarrow> answer \<times> Core" where
  "mobile_stopTunnel env data c =
     (let name = asString data ''name'' in
      if name = [] then (failCode ''bad_request'' ''name is required'', c)
      else (case mo_tunnels c name of
        None \<Rightarrow> (failCode ''not_found'' (err_text (Errf ''tunnel %q not found'' [name])), c)
      | Some i \<Rightarrow>
          (call_ok env [(''state'', VText (state_text sup_state.StateStopped)), (''name'', VText name)],
           upd_tunnel i (\<lambda>t. t\<lparr>mu_cancel := False, mu_state := state_text sup_state.StateStopped\<rparr>)
             (c\<lparr>mo_cancelling := (if mu_cancel (mo_heap c i) then i # mo_cancelling c else mo_cancelling c)\<rparr>))))"

definition cancel_called :: "nat \<Rightarrow> Core \<Rightarrow> Core" where
  "cancel_called i c = c\<lparr>mo_cancelling := remove1 i (mo_cancelling c), mo_cancelled := (mo_cancelled c)(i := True)\<rparr>"

definition listTunnelStates :: "('f, 'w) call_env \<Rightarrow> Core \<Rightarrow> answer" where
  "listTunnelStates env c =
     call_ok env [(''tunnels'', VItems (List.map_filter (\<lambda>name.
       map_option (\<lambda>i. let t = mo_heap c i; snapshot = Stats_Snapshot (Some (mu_stats t)) in
         [(''name'', VText name), (''state'', VText (mu_state t)), (''last_error'', VText (mu_lastError t)),
          (''started_at'', VText (br_rfc3339 (en_br env) (mu_startedAt t))),
          (''bytes_in'', VCount (s_BytesIn snapshot)), (''bytes_out'', VCount (s_BytesOut snapshot))])
         (mo_tunnels c name)) (en_order env)))]"

section \<open>Call\<close>

definition NewCore :: "string \<Rightarrow> MobileVPNs \<Rightarrow> rule_files \<Rightarrow> (nat \<Rightarrow> mobileTunnel) \<Rightarrow> Core" where
  "NewCore dataDir vpns files unused =
     \<lparr>mo_dataDir = dataDir, mo_ssh = NewManager, mo_sshEvents = Map.empty, mo_tunnels = Map.empty,
      mo_heap = unused, mo_next = 0, mo_runs = [], mo_cancelling = [], mo_cancelled = (\<lambda>_. False),
      mo_vpns = vpns, mo_files = files, mo_refreshing = []\<rparr>"

definition Version :: string where "Version = ''0.1.0''"

definition on_vpns :: "(MobileVPNs \<Rightarrow> answer \<times> MobileVPNs) \<Rightarrow> Core \<Rightarrow> answer \<times> Core" where
  "on_vpns f c = (case f (mo_vpns c) of (a, v) \<Rightarrow> (a, c\<lparr>mo_vpns := v\<rparr>))"

definition dispatch :: "('f, 'w) call_env \<Rightarrow> string \<Rightarrow> 'f payload \<Rightarrow> Core \<Rightarrow> 'w \<Rightarrow> answer option \<times> Core \<times> 'w" where
  "dispatch env method data c w =
     (let pure = (\<lambda>a. (Some a, c, w)); acts = (\<lambda>(a, c'). (Some a, c', w)) in
      if method = ''version'' then pure (call_ok env [(''version'', VText Version)])
      else if method = ''parseSubscription'' then pure (parseSubscription env data)
      else if method = ''parseProxySubscription'' then pure (parseProxySubscription env data)
      else if method = ''parseVpnSubscription'' then pure (parseVPNSubscription env data)
      else if method = ''buildProxyConfig'' then acts (buildProxyConfig env data c)
      else if method = ''defaultProxyRules'' then pure (call_ok env [(''rules'', VRules DefaultProxyRules)])
      else if method = ''refreshRuleSets'' then acts (mobile_refreshRuleSets env data c)
      else if method = ''testProxyNode'' then acts (mobile_testProxyNode env data c)
      else if method = ''testProxyNodes'' then pure (mobile_testProxyNodes env data c)
      else if method = ''speedTestProxyNode'' then acts (mobile_speedTestProxyNode env data c)
      else if method = ''validateTunnel'' then pure (mobile_validateTunnel env data)
      else if method = ''createSSHSession'' then acts (createSSHSession env data c)
      else if method = ''sendSSHInput'' then (case sendSSHInput env data c w of (a, w') \<Rightarrow> (a, c, w'))
      else if method = ''resizeSSHSession'' then pure (resizeSSHSession env data c)
      else if method = ''closeSSHSession'' then pure (fst (closeSSHSession env data c))
      else if method = ''drainSSHEvents'' then acts (drainSSHEvents env data c)
      else if method = ''startTunnel'' then acts (mobile_startTunnel env data c)
      else if method = ''stopTunnel'' then acts (mobile_stopTunnel env data c)
      else if method = ''listTunnelStates'' then pure (listTunnelStates env c)
      else if method = ''startVPNFromFD'' then acts (on_vpns (startVPNFromFD (en_br env) (en_now env) data) c)
      else if method = ''startTun2SocksFromFD''
        then acts (on_vpns (startTun2SocksFromFD (en_br env) (en_nonblock env) (en_connect env) (en_now env) data) c)
      else if method = ''stopVPN'' then acts (on_vpns (stopVPN (en_br env)) c)
      else if method = ''vpnStatus'' then acts (on_vpns (vpnStatus (en_br env) (en_now env)) c)
      else pure (failCode ''not_found'' (err_text (Errf ''unknown method %q'' [method]))))"

definition core_Call :: "('f, 'w) call_env \<Rightarrow> string \<Rightarrow> string \<Rightarrow> Core \<Rightarrow> 'w \<Rightarrow> answer option \<times> Core \<times> 'w" where
  "core_Call env method payload c w =
     (case (if payload = [] then Inr None else br_payload (en_br env) payload) of
        Inl e \<Rightarrow> (Some (answer_fail ''bad_json'' e), c, w)
      | Inr data \<Rightarrow> dispatch env method data c w)"

section \<open>Waiting events\<close>

definition session_events :: "string \<Rightarrow> session_event list \<Rightarrow> session_event list" where
  "session_events i es = filter (\<lambda>e. event_session e = i) es"

lemma session_events_append [simp]: "session_events i (es @ fs) = session_events i es @ session_events i fs"
  by (simp add: session_events_def)

lemma events_of_append:
  "events_of (appendSSHEvent e c) i = events_of c i @ session_events i [e]" "mo_ssh (appendSSHEvent e c) = mo_ssh c"
  by (simp_all add: appendSSHEvent_def events_of_def session_events_def)

lemma events_of_appends:
  "events_of (fold appendSSHEvent es c) i = events_of c i @ session_events i es \<and> mo_ssh (fold appendSSHEvent es c) = mo_ssh c"
proof (induction es arbitrary: c)
  case (Cons e es)
  then show ?case by (simp add: events_of_append session_events_def)
qed (simp add: session_events_def)

lemma drain_one_effect:
  "drain_one j (es, c) = (es', c') \<Longrightarrow>
   es' = es @ events_of c j \<and> mo_ssh c' = mo_ssh c \<and> events_of c' i = (if i = j then [] else events_of c i)"
  by (auto simp: drain_one_def events_of_def)

lemma drain_loop:
  assumes "distinct order" "fold drain_one order (es, c) = (es', c')"
  shows "es' = es @ concat (map (events_of c) order) \<and> mo_ssh c' = mo_ssh c \<and>
    (\<forall>i. events_of c' i = (if i \<in> list.set order then [] else events_of c i))"
  using assms
proof (induction order arbitrary: es c)
  case (Cons j order)
  obtain es1 c1 where one: "drain_one j (es, c) = (es1, c1)" by fastforce
  then have rest: "fold drain_one order (es1, c1) = (es', c')" using Cons.prems(2) by simp
  have d: "es1 = es @ events_of c j" "mo_ssh c1 = mo_ssh c" using drain_one_effect [OF one] by simp_all
  have e: "events_of c1 i = (if i = j then [] else events_of c i)" for i using drain_one_effect [OF one] by simp
  have "map (events_of c1) order = map (events_of c) order" using e Cons.prems(1) by (intro map_cong) auto
  then have "concat (map (events_of c1) order) = concat (map (events_of c) order)" by (rule arg_cong)
  then have "es' = es @ concat (map (events_of c) (j # order))" "mo_ssh c' = mo_ssh c"
    using Cons.IH [OF _ rest] Cons.prems(1) d by simp_all
  moreover have "events_of c' i = (if i \<in> list.set (j # order) then [] else events_of c i)" for i
    using Cons.IH [OF _ rest] Cons.prems(1) e [of i] by auto
  ultimately show ?case by blast
qed simp

text \<open>What an unrestricted drain hands out of one session.\<close>

lemma session_events_concat:
  assumes "\<And>j. session_events j (events_of c j) = events_of c j" "distinct order"
  shows "session_events i (concat (map (events_of c) order)) = (if i \<in> list.set order then events_of c i else [])"
  using assms(2)
proof (induction order)
  case (Cons j order)
  have "session_events i (events_of c j) = []" if "i \<noteq> j"
    using assms(1) [of j] that unfolding session_events_def filter_empty_conv filter_id_conv by auto
  then show ?case using Cons assms(1) [of i] by auto
qed (simp add: session_events_def)

lemma drained_effect:
  assumes "\<And>j. session_events j (events_of c j) = events_of c j" "distinct order" "list.set order = dom (mo_sshEvents c)"
    "drained order i c = (es, c')"
  shows "mo_ssh c' = mo_ssh c" "session_events j es @ events_of c' j = events_of c j"
proof -
  have o: "events_of c k = []" if "k \<notin> list.set order" for k using that assms(3) by (auto simp: events_of_def domIff)
  have "mo_ssh c' = mo_ssh c \<and> session_events j es @ events_of c' j = events_of c j"
  proof (cases "i = []")
    case True
    then have "fold drain_one order ([], c) = (es, c')" using assms(4) by (simp add: drained_def)
    from drain_loop [OF assms(2) this] show ?thesis using session_events_concat [OF assms(1,2), of j] o [of j] by simp
  next
    case False
    then have one: "drain_one i ([], c) = (es, c')" using assms(4) by (simp add: drained_def)
    have "session_events j (events_of c i) = []" if "j \<noteq> i"
      using assms(1) [of i] that unfolding session_events_def filter_empty_conv filter_id_conv by auto
    then show ?thesis using assms(1) [of j] drain_one_effect [OF one, of j] by auto
  qed
  then show "mo_ssh c' = mo_ssh c" "session_events j es @ events_of c' j = events_of c j" by simp_all
qed

text \<open>The steps of the sessions and the calls that drain, with what was drained so far.\<close>

datatype event_op = Moves session_op | Drains string "string list"

inductive event_step :: "Core \<times> session_event list \<Rightarrow> event_op \<Rightarrow> Core \<times> session_event list \<Rightarrow> bool" where
  moves: "session_step mobile_callbacks (mo_ssh c) e m \<Longrightarrow> event_step (c, got) (Moves e) (session_moves m c, got)"
| drains: "distinct order \<Longrightarrow> list.set order = dom (mo_sshEvents c) \<Longrightarrow> drained order i c = (es, c') \<Longrightarrow>
    event_step (c, got) (Drains i order) (c', got @ es)"

inductive_cases event_stepE: "event_step s e s'"

definition events_init :: "Core \<times> session_event list \<Rightarrow> bool" where
  "events_init s \<longleftrightarrow> mo_ssh (fst s) = NewManager \<and> mo_sshEvents (fst s) = Map.empty \<and> snd s = []"

definition events_inv :: "Core \<times> session_event list \<Rightarrow> bool" where
  "events_inv s \<longleftrightarrow> (\<forall>i. session_events i (snd s) @ events_of (fst s) i = session_events i (sx_log (mo_ssh (fst s))) \<and>
     session_events i (events_of (fst s) i) = events_of (fst s) i)"

lemma session_step_log: "session_step cb m e m' \<Longrightarrow> \<exists>new. sx_log m' = sx_log m @ new"
  by (erule session_stepE)
    (auto simp: session_Create_def output_turn_def wait_returns_def wait_reports_def split: option.splits sum.splits prod.splits)

lemma inv_moves:
  assumes "events_inv (c, got)" "session_step mobile_callbacks (mo_ssh c) e m"
  shows "events_inv (session_moves m c, got)"
proof -
  obtain new where new: "sx_log m = sx_log (mo_ssh c) @ new" using session_step_log [OF assms(2)] by blast
  then have s: "session_moves m c = fold appendSSHEvent new (c\<lparr>mo_ssh := m\<rparr>)" by (simp add: session_moves_def)
  have "events_of (c\<lparr>mo_ssh := m\<rparr>) i = events_of c i" for i by (simp add: events_of_def)
  then have "events_of (session_moves m c) i = events_of c i @ session_events i new" "mo_ssh (session_moves m c) = m" for i
    using events_of_appends [of new "c\<lparr>mo_ssh := m\<rparr>"] by (simp_all add: s)
  moreover have "session_events i (session_events i new) = session_events i new" for i by (simp add: session_events_def)
  ultimately show ?thesis using assms(1) by (simp add: events_inv_def new flip: append_assoc)
qed

lemma inv_drains:
  assumes "events_inv (c, got)" "distinct order" "list.set order = dom (mo_sshEvents c)" "drained order i c = (es, c')"
  shows "events_inv (c', got @ es)"
proof -
  have own: "session_events j (events_of c j) = events_of c j" for j using assms(1) by (simp add: events_inv_def)
  note d = drained_effect [OF own assms(2-4)]
  have "session_events j (events_of c' j) = events_of c' j" for j
  proof -
    have "\<forall>e\<in>list.set (events_of c j). event_session e = j"
      using own [of j] unfolding session_events_def filter_id_conv .
    moreover have "list.set (events_of c' j) \<subseteq> list.set (events_of c j)" using d(2) [of j] by (metis set_append sup_ge2)
    ultimately show ?thesis unfolding session_events_def filter_id_conv by blast
  qed
  then show ?thesis using assms(1) d by (simp add: events_inv_def)
qed

interpretation waiting_events: machine events_init event_step events_inv
proof
  show "events_inv s" if "events_init s" for s
    using that by (simp add: events_init_def events_inv_def events_of_def NewManager_def session_events_def)
  show "events_inv t" if "events_inv s" "event_step s e t" for s e t
    using that(2,1) by (auto elim!: event_stepE intro: inv_moves inv_drains)
qed

section \<open>Tunnels that can be stopped\<close>

datatype ('f, 'w) tunnel_event =
    TStart "('f, 'w) call_env" "'f payload"
  | TStop "('f, 'w) call_env" "'f payload"
  | TCancel nat
  | TReport nat sup_state "go_error option"
  | TEnd nat

inductive tunnel_step :: "Core \<Rightarrow> ('f, 'w) tunnel_event \<Rightarrow> Core \<Rightarrow> bool" where
  t_start: "tunnel_step c (TStart env data) (snd (mobile_startTunnel env data c))"
| t_stop: "tunnel_step c (TStop env data) (snd (mobile_stopTunnel env data c))"
| t_cancel: "i \<in> list.set (mo_cancelling c) \<Longrightarrow> tunnel_step c (TCancel i) (cancel_called i c)"
| t_report: "i \<in> list.set (mo_runs c) \<Longrightarrow> tunnel_step c (TReport i st e) (tunnel_reports i st e c)"
| t_end: "i \<in> list.set (mo_runs c) \<Longrightarrow> mo_cancelled c i \<Longrightarrow> tunnel_step c (TEnd i) (tunnel_ends i c)"

inductive_cases tunnel_stepE: "tunnel_step c e c'"

definition tunnels_init :: "Core \<Rightarrow> bool" where
  "tunnels_init c \<longleftrightarrow> mo_tunnels c = Map.empty \<and> mo_next c = 0 \<and> mo_runs c = [] \<and> mo_cancelling c = [] \<and>
     mo_cancelled c = (\<lambda>_. False)"

text \<open>What holds of one tunnel object.\<close>

definition tunnel_life :: "Core \<Rightarrow> nat \<Rightarrow> bool" where
  "tunnel_life c i \<longleftrightarrow>
     (let t = mo_heap c i; name = t_Name (mu_cfg t) in
      name \<noteq> [] \<and>
      (mu_cancel t \<longrightarrow> i \<in> list.set (mo_runs c) \<and> mo_tunnels c name = Some i) \<and>
      (if i \<in> list.set (mo_runs c) then mu_cancel t \<or> i \<in> list.set (mo_cancelling c) \<or> mo_cancelled c i
       else mu_state t = ''stopped''))"

definition table_ok :: "Core \<Rightarrow> bool" where
  "table_ok c \<longleftrightarrow> (\<forall>name i. mo_tunnels c name = Some i \<longrightarrow> i < mo_next c \<and> t_Name (mu_cfg (mo_heap c i)) = name)"

definition tunnels_inv :: "Core \<Rightarrow> bool" where
  "tunnels_inv c \<longleftrightarrow> (\<forall>i<mo_next c. tunnel_life c i) \<and> distinct (mo_runs c) \<and>
     (\<forall>i\<in>list.set (mo_runs c). i < mo_next c) \<and> (\<forall>i\<in>list.set (mo_cancelling c). i < mo_next c) \<and> table_ok c"

lemma table_okD: "table_ok c \<Longrightarrow> mo_tunnels c name = Some i \<Longrightarrow> i < mo_next c \<and> t_Name (mu_cfg (mo_heap c i)) = name"
  unfolding table_ok_def by blast

lemma table_ok_cong:
  "table_ok c \<Longrightarrow> mo_tunnels c' = mo_tunnels c \<Longrightarrow> mo_next c' = mo_next c \<Longrightarrow>
   (\<And>i. mu_cfg (mo_heap c' i) = mu_cfg (mo_heap c i)) \<Longrightarrow> table_ok c'"
  unfolding table_ok_def by simp

text \<open>The life of an object depends on these of the state only.\<close>

lemma tunnel_lifeI:
  assumes "t_Name (mu_cfg (mo_heap c i)) \<noteq> []"
    "mu_cancel (mo_heap c i) \<Longrightarrow> i \<in> list.set (mo_runs c) \<and> mo_tunnels c (t_Name (mu_cfg (mo_heap c i))) = Some i"
    "i \<in> list.set (mo_runs c) \<Longrightarrow> mu_cancel (mo_heap c i) \<or> i \<in> list.set (mo_cancelling c) \<or> mo_cancelled c i"
    "i \<notin> list.set (mo_runs c) \<Longrightarrow> mu_state (mo_heap c i) = ''stopped''"
  shows "tunnel_life c i"
  using assms by (simp add: tunnel_life_def Let_def)

lemma tunnel_lifeD:
  assumes "tunnel_life c i"
  shows "t_Name (mu_cfg (mo_heap c i)) \<noteq> []"
    "mu_cancel (mo_heap c i) \<Longrightarrow> i \<in> list.set (mo_runs c)"
    "mu_cancel (mo_heap c i) \<Longrightarrow> mo_tunnels c (t_Name (mu_cfg (mo_heap c i))) = Some i"
    "i \<in> list.set (mo_runs c) \<Longrightarrow> mu_cancel (mo_heap c i) \<or> i \<in> list.set (mo_cancelling c) \<or> mo_cancelled c i"
    "i \<notin> list.set (mo_runs c) \<Longrightarrow> mu_state (mo_heap c i) = ''stopped''"
  using assms by (simp_all add: tunnel_life_def Let_def)

lemma tunnel_life_cong:
  assumes "tunnel_life c i" "mo_heap c' i = mo_heap c i" "i \<in> list.set (mo_runs c') \<longleftrightarrow> i \<in> list.set (mo_runs c)"
    "i \<in> list.set (mo_cancelling c) \<or> mo_cancelled c i \<Longrightarrow> i \<in> list.set (mo_cancelling c') \<or> mo_cancelled c' i"
    "mu_cancel (mo_heap c i) \<Longrightarrow> mo_tunnels c' (t_Name (mu_cfg (mo_heap c i))) = mo_tunnels c (t_Name (mu_cfg (mo_heap c i)))"
  shows "tunnel_life c' i"
proof (rule tunnel_lifeI)
  show "i \<in> list.set (mo_runs c') \<Longrightarrow> mu_cancel (mo_heap c' i) \<or> i \<in> list.set (mo_cancelling c') \<or> mo_cancelled c' i"
    using tunnel_lifeD(4) [OF assms(1)] assms(2-4) by auto
qed (use tunnel_lifeD [OF assms(1)] assms(2,3,5) in auto)

lemma upd_tunnel_simps [simp]:
  "mo_heap (upd_tunnel i f c) = (mo_heap c)(i := f (mo_heap c i))" "mo_next (upd_tunnel i f c) = mo_next c"
  "mo_runs (upd_tunnel i f c) = mo_runs c" "mo_tunnels (upd_tunnel i f c) = mo_tunnels c"
  "mo_cancelling (upd_tunnel i f c) = mo_cancelling c" "mo_cancelled (upd_tunnel i f c) = mo_cancelled c"
  by (simp_all add: upd_tunnel_def)

lemma running_tunnel_none:
  "running_tunnel name c = None \<Longrightarrow> mo_tunnels c name = Some i \<Longrightarrow> \<not> mu_cancel (mo_heap c i)"
  by (simp add: running_tunnel_def split: if_splits)

lemma startTunnel_cases:
  "snd (mobile_startTunnel env data c) = c \<or>
   (\<exists>cfg. ValidateTunnel cfg = None \<and> running_tunnel (t_Name cfg) c = None \<and>
      snd (mobile_startTunnel env data c) = add_tunnel cfg (en_now env) c)"
  by (simp add: mobile_startTunnel_def Let_def split: sum.split option.split) blast

lemma inv_add_tunnel:
  assumes inv: "tunnels_inv c" and "ValidateTunnel cfg = None" "running_tunnel (t_Name cfg) c = None"
  shows "tunnels_inv (add_tunnel cfg now c)"
proof -
  let ?c = "add_tunnel cfg now c" and ?n = "mo_next c"
  have f: "mo_heap ?c ?n = \<lparr>mu_cfg = cfg, mu_cancel = True, mu_state = state_text sup_state.StateConnecting,
      mu_lastError = [], mu_startedAt = now, mu_stats = NewStats\<rparr>"
    "\<And>i. i \<noteq> ?n \<Longrightarrow> mo_heap ?c i = mo_heap c i" "mo_next ?c = ?n + 1" "mo_runs ?c = ?n # mo_runs c"
    "mo_tunnels ?c = (mo_tunnels c)(t_Name cfg \<mapsto> ?n)" "mo_cancelling ?c = mo_cancelling c" "mo_cancelled ?c = mo_cancelled c"
    by (simp_all add: add_tunnel_def Let_def)
  have fresh: "?n \<notin> list.set (mo_runs c)" using inv by (auto simp: tunnels_inv_def)
  have "tunnel_life ?c i" if i: "i < ?n" for i
  proof (rule tunnel_life_cong)
    show life: "tunnel_life c i" using inv i by (simp add: tunnels_inv_def)
    assume "mu_cancel (mo_heap c i)"
    then have "t_Name (mu_cfg (mo_heap c i)) \<noteq> t_Name cfg"
      using tunnel_lifeD(3) [OF life] running_tunnel_none [OF assms(3), of i] by auto
    then show "mo_tunnels ?c (t_Name (mu_cfg (mo_heap c i))) = mo_tunnels c (t_Name (mu_cfg (mo_heap c i)))" by (simp add: f)
  qed (use i in \<open>simp_all add: f\<close>)
  moreover have "tunnel_life ?c ?n"
    by (rule tunnel_lifeI) (simp_all add: f ValidateTunnel_nonempty_name [OF assms(2)])
  moreover have "table_ok ?c"
    unfolding table_ok_def
  proof (intro allI impI)
    fix name i
    assume t: "mo_tunnels ?c name = Some i"
    show "i < mo_next ?c \<and> t_Name (mu_cfg (mo_heap ?c i)) = name"
    proof (cases "name = t_Name cfg")
      case False
      then have "mo_tunnels c name = Some i" using t by (simp add: f)
      then have "i < ?n \<and> t_Name (mu_cfg (mo_heap c i)) = name" using inv table_okD by (auto simp: tunnels_inv_def)
      then show ?thesis by (simp add: f)
    next
      case True
      then have "i = ?n" using t by (simp add: f)
      then show ?thesis using True by (simp add: f(1,3))
    qed
  qed
  ultimately show ?thesis using inv fresh by (auto simp: tunnels_inv_def f less_Suc_eq)
qed

lemma inv_start_tunnel: "tunnels_inv c \<Longrightarrow> tunnels_inv (snd (mobile_startTunnel env data c))"
  using startTunnel_cases [of env data c] inv_add_tunnel [of c] by auto

lemma inv_upd_tunnel:
  assumes "tunnels_inv c" "\<And>t. mu_cfg (f t) = mu_cfg t" "\<And>t. mu_cancel (f t) = mu_cancel t" "i \<in> list.set (mo_runs c)"
  shows "tunnels_inv (upd_tunnel i f c)"
proof -
  have "tunnel_life (upd_tunnel i f c) j" if "tunnel_life c j" for j
    by (rule tunnel_lifeI) (use tunnel_lifeD [OF that] assms(2-4) in \<open>auto split: if_splits\<close>)
  moreover have "table_ok (upd_tunnel i f c)"
    by (rule table_ok_cong [of c]) (use assms(1,2) in \<open>simp_all add: tunnels_inv_def\<close>)
  ultimately show ?thesis using assms(1) by (simp add: tunnels_inv_def)
qed

lemma stopTunnel_effect:
  assumes "mo_tunnels c (asString data ''name'') = Some i" "asString data ''name'' \<noteq> []"
  shows "snd (mobile_stopTunnel env data c) =
    upd_tunnel i (\<lambda>t. t\<lparr>mu_cancel := False, mu_state := ''stopped''\<rparr>)
      (c\<lparr>mo_cancelling := (if mu_cancel (mo_heap c i) then i # mo_cancelling c else mo_cancelling c)\<rparr>)"
  using assms by (simp add: mobile_stopTunnel_def Let_def)

lemma inv_stop_tunnel:
  assumes "tunnels_inv c"
  shows "tunnels_inv (snd (mobile_stopTunnel env data c))"
proof (cases "asString data ''name'' = [] \<or> mo_tunnels c (asString data ''name'') = None")
  case True
  then have "snd (mobile_stopTunnel env data c) = c" by (auto simp: mobile_stopTunnel_def Let_def)
  then show ?thesis using assms by simp
next
  case False
  then obtain i where some: "mo_tunnels c (asString data ''name'') = Some i" and "asString data ''name'' \<noteq> []" by auto
  note e = stopTunnel_effect [OF this]
  let ?c = "snd (mobile_stopTunnel env data c)"
  have i: "i < mo_next c" using assms table_okD some by (auto simp: tunnels_inv_def)
  have f: "mo_heap ?c i = (mo_heap c i)\<lparr>mu_cancel := False, mu_state := ''stopped''\<rparr>"
    "\<And>j. j \<noteq> i \<Longrightarrow> mo_heap ?c j = mo_heap c j" "mo_runs ?c = mo_runs c" "mo_tunnels ?c = mo_tunnels c"
    "mo_next ?c = mo_next c" "mo_cancelled ?c = mo_cancelled c"
    "mo_cancelling ?c = (if mu_cancel (mo_heap c i) then i # mo_cancelling c else mo_cancelling c)" by (simp_all add: e)
  have "tunnel_life ?c j" if j: "j < mo_next c" for j
  proof -
    have life: "tunnel_life c j" using assms j by (simp add: tunnels_inv_def)
    show ?thesis
    proof (cases "j = i")
      case True
      then show ?thesis using tunnel_lifeD [OF life] by (intro tunnel_lifeI) (auto simp: f)
    next
      case False
      then show ?thesis by (intro tunnel_life_cong [OF life]) (auto simp: f)
    qed
  qed
  moreover have "table_ok ?c"
  proof (rule table_ok_cong [of c])
    show "mu_cfg (mo_heap ?c j) = mu_cfg (mo_heap c j)" for j by (cases "j = i") (simp_all add: f)
  qed (use assms in \<open>simp_all add: f tunnels_inv_def\<close>)
  ultimately show ?thesis using assms i by (auto simp: tunnels_inv_def f)
qed

lemma inv_cancel_called:
  assumes "tunnels_inv c" "i \<in> list.set (mo_cancelling c)"
  shows "tunnels_inv (cancel_called i c)"
proof -
  let ?c = "cancel_called i c"
  have "tunnel_life ?c j" if "tunnel_life c j" for j
    by (rule tunnel_life_cong [OF that]) (auto simp: cancel_called_def)
  moreover have "table_ok ?c"
    by (rule table_ok_cong [of c]) (use assms(1) in \<open>simp_all add: tunnels_inv_def cancel_called_def\<close>)
  moreover have "list.set (mo_cancelling ?c) \<subseteq> list.set (mo_cancelling c)"
    using set_remove1_subset by (simp add: cancel_called_def)
  ultimately show ?thesis using assms(1) by (auto simp: tunnels_inv_def cancel_called_def)
qed

lemma inv_tunnel_ends:
  assumes "tunnels_inv c" "i \<in> list.set (mo_runs c)"
  shows "tunnels_inv (tunnel_ends i c)"
proof -
  let ?c = "tunnel_ends i c"
  have r: "list.set (remove1 i (mo_runs c)) = list.set (mo_runs c) - {i}" using assms(1) by (simp add: tunnels_inv_def)
  have f: "mo_heap ?c i = (mo_heap c i)\<lparr>mu_cancel := False, mu_state := ''stopped''\<rparr>"
    "\<And>j. j \<noteq> i \<Longrightarrow> mo_heap ?c j = mo_heap c j" "mo_runs ?c = remove1 i (mo_runs c)" "mo_tunnels ?c = mo_tunnels c"
    "mo_next ?c = mo_next c" "mo_cancelled ?c = mo_cancelled c" "mo_cancelling ?c = mo_cancelling c" by (simp_all add: tunnel_ends_def)
  have "tunnel_life ?c j" if life: "tunnel_life c j" for j
  proof (cases "j = i")
    case True
    then show ?thesis using tunnel_lifeD [OF life] by (intro tunnel_lifeI) (auto simp: f r)
  next
    case False
    then show ?thesis by (intro tunnel_life_cong [OF life]) (auto simp: f r)
  qed
  moreover have "table_ok ?c"
  proof (rule table_ok_cong [of c])
    show "mu_cfg (mo_heap ?c j) = mu_cfg (mo_heap c j)" for j by (cases "j = i") (simp_all add: f)
  qed (use assms(1) in \<open>simp_all add: f tunnels_inv_def\<close>)
  ultimately show ?thesis using assms(1) by (auto simp: tunnels_inv_def f r)
qed

interpretation mobile_tunnels: machine tunnels_init tunnel_step tunnels_inv
proof
  show "tunnels_inv c" if "tunnels_init c" for c using that by (simp add: tunnels_init_def tunnels_inv_def table_ok_def)
  show "tunnels_inv c'" if "tunnels_inv c" "tunnel_step c e c'" for c c' and e :: "('f, 'w) tunnel_event"
    using that(2)
  proof (cases rule: tunnel_step.cases)
    case (t_report i st e)
    then show ?thesis unfolding tunnel_reports_def using inv_upd_tunnel [OF that(1)] by simp
  qed (use that(1) in \<open>auto intro: inv_start_tunnel inv_stop_tunnel inv_cancel_called inv_tunnel_ends\<close>)
qed

section \<open>Properties\<close>

text \<open>C32: The events of SSH sessions reach the application: whatever was called and in whichever order the
  sessions moved, what was drained of a session, followed by what waits to be drained, is what
  the session's callbacks got, in their order, each event once.\<close>

theorem ssh_events_delivered:
  assumes "reach events_init event_step (c, got)"
  shows "session_events i got @ events_of c i = session_events i (sx_log (mo_ssh c))"
  using waiting_events.reach_inv [OF assms] by (simp add: events_inv_def)

definition sample_core :: Core where
  "sample_core = NewCore ''/data'' sample_vpns (\<lambda>_. None) (\<lambda>_. \<lparr>mu_cfg = empty_tunnel, mu_cancel = False, mu_state = [],
     mu_lastError = [], mu_startedAt = 0, mu_stats = NewStats\<rparr>)"

definition sample_terminal :: Core where
  "sample_terminal = session_moves (snd (session_Create (Inr (7, True)) ''s'' sample_session NewManager)) sample_core"

definition sample_spoken :: Core where
  "sample_spoken = session_moves (output_turn mobile_callbacks ''s'' (''hi'', None) (mo_ssh sample_terminal)) sample_terminal"

theorem ssh_events_delivered_witness:
  "session_events ''s'' (fst (drained [''s''] ''s'' sample_spoken)) = [OnOutput (output_of ''s'' ''hi'')] \<and>
   events_of (snd (drained [''s''] ''s'' sample_spoken)) ''s'' = []"
proof -
  let ?m = "snd (session_Create (Inr (7, True)) ''s'' sample_session NewManager)"
  have m: "sx_log ?m = []" "sx_copying ?m = [''s'']"
    by (simp_all add: session_Create_def check_session_def sample_session_def NewManager_def)
  have t: "mo_ssh sample_terminal = ?m" "mo_sshEvents sample_terminal = Map.empty"
    using events_of_appends [of "[]"] m by (simp_all add: sample_terminal_def session_moves_def sample_core_def NewCore_def NewManager_def)
  have "reach events_init event_step (sample_core, [])"
    by (rule reach_init) (simp add: events_init_def sample_core_def NewCore_def)
  moreover have "session_step mobile_callbacks (mo_ssh sample_core) (Created sample_session (Inr (7, True)) ''s'') ?m"
    using step_create [of "''s''" NewManager mobile_callbacks sample_session "Inr (7, True)"]
    by (simp add: sample_core_def NewCore_def known_ids_def NewManager_def)
  then have "event_step (sample_core, []) (Moves (Created sample_session (Inr (7, True)) ''s'')) (sample_terminal, [])"
    unfolding sample_terminal_def by (rule moves)
  ultimately have "reach events_init event_step (sample_terminal, [])" by (rule reach_step)
  moreover have "event_step (sample_terminal, []) (Moves (OutputTurn ''s'' (''hi'', None))) (sample_spoken, [])"
    unfolding sample_spoken_def by (rule moves, rule step_output) (simp add: t m)
  ultimately have r: "reach events_init event_step (sample_spoken, [])" by (rule reach_step)
  have log: "sx_log (output_turn mobile_callbacks ''s'' (''hi'', None) ?m) = [OnOutput (output_of ''s'' ''hi'')]"
    using m by (simp add: output_turn_def copy_turn_def mobile_callbacks_def output_of_def)
  have sp: "mo_sshEvents sample_spoken = [''s'' \<mapsto> [OnOutput (output_of ''s'' ''hi'')]]"
    "sx_log (mo_ssh sample_spoken) = [OnOutput (output_of ''s'' ''hi'')]"
    using log t m events_of_appends [of "[OnOutput (output_of ''s'' ''hi'')]"]
    by (simp_all add: sample_spoken_def session_moves_def appendSSHEvent_def events_of_def output_of_def)
  obtain es c' where d: "drained [''s''] ''s'' sample_spoken = (es, c')" by fastforce
  then have "events_of c' ''s'' = []" using drain_one_effect [of "''s''" "[]" sample_spoken es c' "''s''"] by (simp add: drained_def)
  moreover have "reach events_init event_step (c', [] @ es)" using r by (rule reach_step) (rule drains [OF _ _ d], simp_all add: sp)
  then have "session_events ''s'' es @ events_of c' ''s'' = session_events ''s'' (sx_log (mo_ssh c'))"
    using ssh_events_delivered [of c' es "''s''"] by simp
  moreover have "mo_ssh c' = mo_ssh sample_spoken"
    using d drain_one_effect [of "''s''" "[]" sample_spoken es c' "''s''"] by (simp add: drained_def)
  ultimately show ?thesis using d sp by (simp add: session_events_def output_of_def)
qed

text \<open>C33: Every tunnel that runs on Android was told to stop, or is the one the table holds
  under its name and \<open>stopTunnel\<close> with that name takes its cancel function; so at most one tunnel of
  a name runs on.  A tunnel that does not run is shown as stopped.\<close>

theorem mobile_tunnels_stoppable:
  assumes "reach tunnels_init tunnel_step c" "i < mo_next c"
  shows "(i \<in> list.set (mo_runs c) \<longrightarrow> \<not> mo_cancelled c i \<longrightarrow> i \<notin> list.set (mo_cancelling c) \<longrightarrow>
      mo_tunnels c (t_Name (mu_cfg (mo_heap c i))) = Some i \<and>
      (asString data ''name'' = t_Name (mu_cfg (mo_heap c i)) \<longrightarrow>
         i \<in> list.set (mo_cancelling (snd (mobile_stopTunnel env data c))))) \<and>
    (i \<notin> list.set (mo_runs c) \<longrightarrow> mu_state (mo_heap c i) = ''stopped'')"
proof -
  have "tunnel_life c i" using mobile_tunnels.reach_inv [OF assms(1)] assms(2) by (simp add: tunnels_inv_def)
  note life = tunnel_lifeD [OF this]
  have "i \<in> list.set (mo_cancelling (snd (mobile_stopTunnel env data c)))"
    if "i \<in> list.set (mo_runs c)" "\<not> mo_cancelled c i" "i \<notin> list.set (mo_cancelling c)"
      "asString data ''name'' = t_Name (mu_cfg (mo_heap c i))"
  proof -
    have "mu_cancel (mo_heap c i)" using life(4) that by blast
    then show ?thesis using stopTunnel_effect [of c data i env] life(1,3) that(4) by simp
  qed
  then show ?thesis using life by blast
qed

definition sample_forward :: TunnelCfg where
  "sample_forward = empty_tunnel\<lparr>t_Name := ''web'', t_Mode := ModeLocal, t_Listen := '':80'', t_Forward := ''h:80'',
     t_SSH := empty_ssh\<lparr>ssh_Addr := ''h:22'', ssh_User := ''u'', ssh_Password := ''p''\<rparr>\<rparr>"

definition sample_call :: "(int, string) call_env" where
  "sample_call = \<lparr>en_br = sample_bridge\<lparr>br_tunnel := (\<lambda>_. Inr sample_forward)\<rparr>, en_now = 0,
     en_codecs = \<lparr>json_marshal = (\<lambda>_. Inr []), json_unmarshal = (\<lambda>_. Inl (External ''json'')),
       yaml_marshal = (\<lambda>_. Inr []), yaml_unmarshal = (\<lambda>_. Inl (External ''yaml''))\<rparr>,
     en_decoders = sample_decoders, en_core = sample_core_env, en_test = be_env sample_batch,
     en_probe = (\<lambda>_. \<lparr>pb_attempt = be_attempts sample_batch 0, pb_decode = be_decode sample_batch, pb_race1 = [],
       pb_ctx = None, pb_race2 = [], pb_inbound = None, pb_http = (\<lambda>_. Inl (External ''http'')),
       pb_download = (\<lambda>_. Inl (External ''http''))\<rparr>),
     en_batch = (\<lambda>_. sample_batch), en_tested = [], en_sched = id, en_arrived = id,
     en_opened = Inr (7, True), en_id = ''s'', en_write = (\<lambda>_ w d. (w @ d, int (length d), None)),
     en_change = (\<lambda>_ _ _. None), en_close = (\<lambda>_. None), en_order = [], en_nonblock = None,
     en_connect = (\<lambda>_ _ _ _. Inr 0)\<rparr>"

definition sample_forwarding :: Core where
  "sample_forwarding = snd (mobile_startTunnel sample_call (Some [(''tunnel'', ANil)]) sample_core)"

theorem mobile_tunnels_stoppable_witness:
  "0 \<in> list.set (mo_cancelling (snd (mobile_stopTunnel sample_call (Some [(''name'', AString ''web'')]) sample_forwarding))) \<and>
   mo_tunnels sample_forwarding ''web'' = Some 0"
proof -
  have v: "ValidateTunnel sample_forward = None" "t_Mode sample_forward = ModeLocal" "t_Name sample_forward = ''web''"
    by (simp_all add: ValidateTunnel_ready tunnel_ready_def sample_forward_def mode_defs empty_tunnel_def empty_ssh_def Let_def)
  then have e: "sample_forwarding = add_tunnel sample_forward 0 sample_core"
    by (simp add: sample_forwarding_def mobile_startTunnel_def decodeField_def data_field_def sample_call_def sample_core_def
        NewCore_def running_tunnel_def Build_def mode_defs)
  have s: "mo_next sample_forwarding = 1" "mo_runs sample_forwarding = [0]" "\<not> mo_cancelled sample_forwarding 0"
    "mo_cancelling sample_forwarding = []" "mu_cfg (mo_heap sample_forwarding 0) = sample_forward"
    by (simp_all add: e add_tunnel_def sample_core_def NewCore_def Let_def)
  let ?step = "tunnel_step :: Core \<Rightarrow> (int, string) tunnel_event \<Rightarrow> Core \<Rightarrow> bool"
  have "reach tunnels_init ?step sample_core" by (rule reach_init) (simp add: tunnels_init_def sample_core_def NewCore_def)
  moreover have "tunnel_step sample_core (TStart sample_call (Some [(''tunnel'', ANil)])) sample_forwarding"
    unfolding sample_forwarding_def by (rule t_start)
  ultimately have "reach tunnels_init ?step sample_forwarding" by (rule reach_step)
  note m = mobile_tunnels_stoppable [OF this, of 0 "Some [(''name'', AString ''web'')]" sample_call]
  have n: "asString (Some [(''name'', AString ''web'')]) ''name'' = ''web''" by (simp add: asString_def data_field_def)
  have "0 \<in> list.set (mo_runs sample_forwarding)" "0 \<notin> list.set (mo_cancelling sample_forwarding)" "0 < mo_next sample_forwarding"
    by (simp_all only: s) simp_all
  with m s(1,3) show ?thesis unfolding s(5) v(3) n by blast
qed

text \<open>The supervisors of Android tunnels get zero defaults: every wait before a reconnection
  is the jitter of zero, however often dialling failed, no keep-alive ever notices a dead
  connection, and the host key of the server is not asked for.\<close>

lemma mobile_tunnels_unguarded:
  "waits (mobile_supervisor jit ts) = replicate (length (waits (mobile_supervisor jit ts))) (jit 0) \<and>
   runKeepAlive (KeepAliveInterval no_defaults) (KeepAliveMaxFails no_defaults) (map Ping rs) = None \<and>
   mobile_dial methods (env\<lparr>de_known_hosts := Inl e\<rparr>) = mobile_dial methods env"
proof -
  have n: "next_delay (ReconnectMax no_defaults) 0 = 0" "ReconnectInitial no_defaults = 0"
    by (simp_all add: next_delay_def no_defaults_def wrap64_def)
  have "waits (sup_loop no_defaults jit 0 ts) = replicate (length (waits (sup_loop no_defaults jit 0 ts))) (jit 0)"
    by (induction ts) (simp_all add: n Let_def split: option.split)
  moreover have "runKeepAlive (KeepAliveInterval no_defaults) (KeepAliveMaxFails no_defaults) (map Ping rs) = None"
    by (simp add: runKeepAlive_def no_defaults_def filter_map comp_def)
  moreover have "mobile_dial methods (env\<lparr>de_known_hosts := Inl e\<rparr>) = mobile_dial methods env"
    by (simp add: mobile_dial_def sup_dial_def split: sum.split option.split)
  ultimately show ?thesis by (simp add: mobile_supervisor_def Supervisor_Run_def n(2))
qed

end
