(* ===== verification/Spec2Isabelle.thy ===== *)
theory Spec2Isabelle
  imports ServerMain AppLeave Instance InstallDialog MobileCore Config Frame Runtime VPNAuth Server Route VPNClient Forwarding
    SSHClient Manager
begin

text \<open>
  SafeLink is a tunnelling tool in Go: a server that carries a layer-3 VPN over QUIC, a desktop
  and an Android client for it, SSH port forwarding with automatic reconnection, and a proxy
  client that imports node lists from subscriptions.  This library models its own logic,
  component by component, as executable definitions over explicit states, and proves what makes
  each component correct.  Paths below are relative to \<open>src/\<close>.

  \<^bold>\<open>Shared base.\<close>  \<open>Prelude\<close>: Go strings as byte lists, errors as the sum \<open>go_error + 'a\<close>,
  trimming and splitting.  \<open>Strconv\<close>: case mapping, decimal numbers, error texts.
  \<open>NetAddr\<close>: \<open>net.SplitHostPort\<close>, \<open>netip\<close>, CIDR.  \<open>Url\<close>: base64 and
  \<open>net/url\<close>.  \<open>Interfaces\<close>: the contracts several components share, as locales
  (\<open>normaliser\<close>, \<open>checked_normaliser\<close>, \<open>framing\<close>, \<open>doubling_backoff\<close>,
  \<open>table\<close>, \<open>machine\<close>, \<open>operations\<close>), each interpreted on the definitions of the
  components that provide it.

  \<^bold>\<open>The VPN.\<close>
  \<^item> \<open>Frame\<close> (\<open>pkg/protocol/frame.go\<close> and the copying loops of
    \<open>server/internal/vpnserver/server.go\<close>, \<open>client/internal/tunnel/vpn.go\<close>,
    \<open>client/mobilecore/vpn_android.go\<close>): a packet is a four-byte length, the payload and, when
    padding is on, bytes up to a multiple of the block.  A device or stream is the list of
    results of its calls.  Round trip through two ends, agreement of the three implementations,
    the bytes each side counts, and the lengths at which padded reads leave the buffer.
  \<^item> \<open>Runtime\<close> (\<open>runtime.go\<close>): the registry of live clients with its counters; 64-bit
    counters are words.  Conservation of traffic, completeness of the snapshot.
  \<^item> \<open>VPNAuth\<close>: the disguised HTTP request, its byte-wise reading, the two answers and how
    the clients judge them.
  \<^item> \<open>Server\<close> (\<open>server.go\<close>): one accepted connection from the first byte to the deferred
    calls, as the list of its outside actions, the registry and whether the process died.  The
    two loops run interleaved under an arbitrary schedule.
  \<^item> \<open>Route\<close> (\<open>client/internal/tunnel/route.go\<close> and helpers of \<open>vpn.go\<close>): gateway
    and route commands for three platforms over a parameter \<open>shell\<close>.
  \<^item> \<open>VPNClient\<close> (\<open>vpn.go\<close>): \<open>Run\<close>, \<open>runOnce\<close>, routes, state and back-off.

  \<^bold>\<open>Forwarding.\<close>
  \<^item> \<open>Forwarding\<close> (\<open>client/internal/tunnel/counting.go\<close>, \<open>tunnel.go\<close>,
    \<open>local.go\<close>, \<open>remote.go\<close>, \<open>dynamic.go\<close>): counted connections and the three modes.
  \<^item> \<open>SSHClient\<close> (\<open>client/internal/sshclient\<close>): authentication methods, dialling,
    keep-alive, the reconnecting supervisor.
  \<^item> \<open>Manager\<close> (\<open>client/internal/manager/manager.go\<close>): the tunnel objects in a heap, the
    runs that were started for them, every operation as a composition of critical sections.
    Which runs \<open>Stop\<close> reaches, exclusive global routes, all-or-nothing \<open>Add\<close>.

  \<^bold>\<open>Configuration and data.\<close>
  \<^item> \<open>Config\<close> (\<open>pkg/config\<close>): records, validation, proxy rules and their
    normalisation, defaults.
  \<^item> \<open>VPNSub\<close> (\<open>pkg/subscription\<close>) and \<open>ProxySub\<close>
    (\<open>pkg/proxysubscription\<close>): the document formats; what parsing keeps, round trips of
    documents and links.
  \<^item> \<open>Store\<close> (\<open>client/internal/store/store.go\<close>): five JSON files under atomic writes
    with the answers of the operating system as a parameter; the single enabled source per kind
    as an invariant over all calls, and as a refinement of a registry.
  \<^item> \<open>Importer\<close> (\<open>client/internal/subscriptionclient/importer.go\<close>): import and refresh over
    manager and store.

  \<^bold>\<open>The proxy.\<close>
  \<^item> \<open>Files\<close>: steps on a file system, the crash points of a write to a temporary file and a
    rename, shared by \<open>Store\<close> and the rule-set files.
  \<^item> \<open>CoreConfig\<close> (\<open>client/internal/proxycore/core.go\<close>, \<open>ruleset.go\<close>): options,
    the sing-box document with its outbounds, DNS, rule sets and routes, the rule-set files and
    their refresh.  Every tag the document uses is defined in it, every parsed node has an outbound.
  \<^item> \<open>CoreRunner\<close> (\<open>core.go\<close>): the runner, the critical sections of start and stop, the
    goroutine that reaps the process, traffic sampling, the log.  At most one process, and it can
    be stopped.
  \<^item> \<open>CoreTest\<close>, \<open>CoreBatch\<close> (\<open>core.go\<close>): latency, delay and speed tests of one node and of
    many; each node gets one verdict.
  \<^item> \<open>SysProxy\<close> (\<open>client/internal/sysproxy/sysproxy_windows.go\<close>): the registry values.
  \<^item> \<open>DesktopApp\<close> (\<open>client/app.go\<close>): the operations of the window on the proxy, on its
    settings and on the system proxy, over runner, store and registry.

  \<^bold>\<open>The server program.\<close>
  \<^item> \<open>Transport\<close> (\<open>pkg/transport/quic.go\<close>): TLS configurations, pins, certificates.
  \<^item> \<open>Web\<close> (\<open>server/internal/web\<close>): sessions, credentials and handlers of the console.
  \<^item> \<open>ServerMain\<close> (\<open>server/cmd/safelink-server/main.go\<close>): flags, defaults, start-up; what
    it publishes is what its VPN accepts.

  \<^bold>\<open>Terminals.\<close>
  \<^item> \<open>SSHSession\<close> (\<open>client/internal/sshsession/manager.go\<close>): opening, input, output and the
    end of interactive SSH sessions, the two goroutines of a session as steps.

  \<^bold>\<open>The Android library.\<close>
  \<^item> \<open>MobileBridge\<close>, \<open>MobileCore\<close> (\<open>client/mobilecore/mobilecore.go\<close>): the fields of a
    request, the answers, all methods of \<open>Call\<close> over the components they reach, the events of SSH
    sessions that wait to be drained, the tunnels.  Events arrive once and in order; every running
    tunnel can be stopped.
  \<^item> \<open>MobileVPN\<close> (\<open>client/mobilecore/vpn_android.go\<close>): the current VPN, its goroutine and the
    file descriptors.  One VPN at a time; stopping it leaves nothing open.

  \<^bold>\<open>The window.\<close>
  \<^item> \<open>AppWindow\<close> (\<open>client/app.go\<close>): start-up, event log and debug log, the calls for
    terminals, tunnels, saved connections and batch tests, helpers.  Input arrives, every
    requested test is answered.

  \<^bold>\<open>The installer.\<close>
  \<^item> \<open>Installer\<close> (\<open>client/cmd/installer/main_windows.go\<close>): arguments, the steps of installing
    and uninstalling over the files and the registry, the PowerShell scripts and their quoting.
    An installation can be undone; a directory without the stamp is never removed.
  \<^item> \<open>InstallDialog\<close> (\<open>client/cmd/installer/ui_windows.go\<close>): the dialog's state, commands and
    message loop.  What is installed is what the dialog showed.  \<open>WinPath\<close> holds paths of Windows.

  \<^bold>\<open>Around the desktop client.\<close>
  \<^item> \<open>Elevation\<close> (\<open>client/internal/tunnel/elevation_windows.go\<close>, \<open>tun_driver.go\<close>,
    \<open>tundev_windows.go\<close>): rights, the program to restart, finding and installing the driver, the
    device.  The search for the program ends, and it is never a development build.
  \<^item> \<open>Instance\<close> (\<open>client/instance_windows.go\<close>): processes and the named mutex.  At most one
    application runs; a process that asks too early never becomes it.
  \<^item> \<open>AppLeave\<close> (\<open>client/app.go\<close>, \<open>client/main.go\<close>): the tray, signals, shutdown and the restart
    over the proxy, the tunnels and the terminals.  However the application ends, nothing is left.

  \<^bold>\<open>Interaction.\<close>  \<open>Server\<close> uses \<open>Frame\<close>, \<open>Runtime\<close> and \<open>VPNAuth\<close>;
  \<open>VPNClient\<close> uses \<open>Frame\<close>, \<open>Route\<close> and the client side of \<open>VPNAuth\<close>;
  \<open>Manager\<close> starts the tunnels of \<open>VPNClient\<close> and \<open>SSHClient\<close>; \<open>Importer\<close>
  feeds \<open>Manager\<close> and \<open>Store\<close> from the parsers \<open>VPNSub\<close> and \<open>ProxySub\<close>;
  \<open>CoreRunner\<close> runs the documents of \<open>CoreConfig\<close> for the nodes of \<open>ProxySub\<close>;
  \<open>DesktopApp\<close> drives \<open>CoreRunner\<close>, \<open>Store\<close> and \<open>SysProxy\<close>; \<open>MobileCore\<close> joins
  \<open>MobileVPN\<close>, \<open>SSHSession\<close>, the parsers and the proxy core; \<open>ServerMain\<close> starts
  \<open>Server\<close> and \<open>Web\<close> and publishes tunnels through \<open>VPNSub\<close>.  The properties at the end
  of each theory span the components it imports.

  \<^bold>\<open>Loops.\<close>  Loops over data are structural recursion or have a measure (the length of the
  stream, of the string); loops that wait for outside events recurse on the list of those
  events, so no fuel is needed.  The search for the program to restart goes up a path as long as
  the system's notion of a parent says so: it is a partial function, and proved to end.

  \<^bold>\<open>Parameters.\<close>  Third-party code (QUIC, x/crypto/ssh, the TUN driver, yaml.v3), JSON text,
  the operating system, clocks and random numbers are arguments of the definitions; hypotheses
  on them state documented behaviour only.  Map iteration order is an argument where it shows.

  \<^bold>\<open>Not modelled.\<close>  Drawing: fonts, colours and placement of the installer's controls, the
  options of the Wails window, the icon of the tray and the hook for its double click
  (\<open>client/tray_windows.go\<close>).  Wrappers of single calls of Windows, constructors that only store
  their arguments, and calls of the application that only pass their arguments on are left out,
  as are random factors on waiting times.
\<close>

end
